(* ===== verification/Prelude.thy ===== *)
theory Prelude
  imports Main "HOL-Library.Word" "HOL-Library.Char_ord" "HOL-Library.List_Lexorder"
begin

text \<open>
  Shared vocabulary of the development: Rust's machine integers and checked arithmetic, results
  with the \<open>?\<close> operator, slices, \<open>BTreeMap\<close> / \<open>BTreeSet\<close> as strictly sorted lists with the
  interface locale \<open>ordered_map\<close>, and decimal rendering.  Every component theory imports this one.

  Conventions.  \<open>usize\<close> is 64 bits wide and is a \<open>nat\<close>; \<open>u64\<close>/\<open>u32\<close>/\<open>u8\<close> values that come from
  bytes are words; \<open>i64\<close> is an \<open>int\<close> with explicit range checks.  Unchecked arithmetic follows the
  release profile the container image is built with, so it wraps.  A Rust \<open>String\<close> is the list of
  its UTF-8 bytes as characters, so that list order is \<open>str\<close>'s byte order.
\<close>

unbundle bit_operations_syntax

named_theorems res_simps \<open>how the question-mark operator evaluates\<close>
named_theorems bt_simps \<open>laws of ordered maps and sets\<close>

type_synonym u8 = "8 word"
type_synonym u32 = "32 word"
type_synonym u64 = "64 word"
type_synonym bytes = "u8 list"

lemma option_None_iff: "m = None \<longleftrightarrow> (\<forall>x. m \<noteq> Some x)"
  by (cases m) auto

section \<open>Results\<close>

text \<open>A fallible Rust function returns \<open>fault + value\<close>: an error value or a panic on the left.\<close>

datatype 'e fault = Err 'e | Panic

definition tryR :: "('e + 'a) \<Rightarrow> ('a \<Rightarrow> 'e + 'b) \<Rightarrow> 'e + 'b" where
  "tryR m f = (case m of Inl e \<Rightarrow> Inl e | Inr x \<Rightarrow> f x)"

definition ok_or :: "'e \<Rightarrow> 'a option \<Rightarrow> 'e fault + 'a" where
  "ok_or e m = (case m of None \<Rightarrow> Inl (Err e) | Some x \<Rightarrow> Inr x)"

definition map_err :: "('e \<Rightarrow> 'f) \<Rightarrow> 'e + 'a \<Rightarrow> 'f + 'a" where
  "map_err g m = (case m of Inl e \<Rightarrow> Inl (g e) | Inr x \<Rightarrow> Inr x)"

fun mapR :: "('a \<Rightarrow> 'e + 'b) \<Rightarrow> 'a list \<Rightarrow> 'e + 'b list" where
  "mapR f [] = Inr []"
| "mapR f (x # xs) = tryR (f x) (\<lambda>y. tryR (mapR f xs) (\<lambda>ys. Inr (y # ys)))"

lemma tryR_Inl [simp, res_simps]: "tryR (Inl e) f = Inl e"
  by (simp add: tryR_def)

lemma tryR_Inr [simp, res_simps]: "tryR (Inr x) f = f x"
  by (simp add: tryR_def)

lemma tryR_eq_Inr [res_simps]: "tryR m f = Inr y \<longleftrightarrow> (\<exists>x. m = Inr x \<and> f x = Inr y)"
  by (cases m) auto

lemma tryR_eq_Inl: "tryR m f = Inl e \<longleftrightarrow> m = Inl e \<or> (\<exists>x. m = Inr x \<and> f x = Inl e)"
  by (cases m) auto

lemma tryR_cong [fundef_cong]:
  "m = m' \<Longrightarrow> (\<And>x. m' = Inr x \<Longrightarrow> f x = g x) \<Longrightarrow> tryR m f = tryR m' g"
  by (cases m') auto

lemma tryR_weak_cong [cong]: "m = m' \<Longrightarrow> tryR m f = tryR m' f"
  by simp

lemma ok_or_simps [simp]: "ok_or e None = Inl (Err e)" "ok_or e (Some x) = Inr x"
  by (simp_all add: ok_or_def)

lemma ok_or_eq [res_simps]:
  "ok_or e m = Inr x \<longleftrightarrow> m = Some x"
  "ok_or e m = Inl (Err e') \<longleftrightarrow> m = None \<and> e' = e"
  "ok_or e m \<noteq> Inl Panic"
  by (auto simp: ok_or_def split: option.splits)

lemma map_err_simps [simp]: "map_err g (Inl e) = Inl (g e)" "map_err g (Inr x) = Inr x"
  by (simp_all add: map_err_def)

lemma map_err_eq_Inr [res_simps]: "map_err g m = Inr x \<longleftrightarrow> m = Inr x"
  by (cases m) auto

lemma mapR_eq_Inr: "mapR f xs = Inr ys \<longleftrightarrow> list_all2 (\<lambda>x y. f x = Inr y) xs ys"
  by (induction xs arbitrary: ys) (auto simp: tryR_eq_Inr list_all2_Cons1)

lemma mapR_all_Inr: "(\<And>x. x \<in> set xs \<Longrightarrow> f x = Inr (g x)) \<Longrightarrow> mapR f xs = Inr (map g xs)"
  by (induction xs) auto

text \<open>A result that is no panic; the rules let a proof follow the control flow of the code.\<close>

definition no_panic :: "'e fault + 'a \<Rightarrow> bool" where
  "no_panic r \<longleftrightarrow> r \<noteq> Inl Panic"

lemma no_panic_simps [simp]:
  "no_panic (Inr x)" "no_panic (Inl (Err e))" "\<not> no_panic (Inl Panic)" "no_panic (ok_or e m)"
  by (auto simp: no_panic_def res_simps)

lemma no_panic_tryR [intro!]:
  "no_panic m \<Longrightarrow> (\<And>x. m = Inr x \<Longrightarrow> no_panic (f x)) \<Longrightarrow> no_panic (tryR m f)"
  by (cases m) (auto simp: no_panic_def)

lemma no_panic_if [intro!]:
  "(b \<Longrightarrow> no_panic x) \<Longrightarrow> (\<not> b \<Longrightarrow> no_panic y) \<Longrightarrow> no_panic (if b then x else y)"
  by simp

lemma no_panic_case_prod [intro!]:
  "(\<And>a b. p = (a, b) \<Longrightarrow> no_panic (f a b)) \<Longrightarrow> no_panic (case p of (a, b) \<Rightarrow> f a b)"
  by (cases p) simp

lemma no_panic_case_option [intro!]:
  "(m = None \<Longrightarrow> no_panic x) \<Longrightarrow> (\<And>a. m = Some a \<Longrightarrow> no_panic (f a))
   \<Longrightarrow> no_panic (case m of None \<Rightarrow> x | Some a \<Rightarrow> f a)"
  by (cases m) simp_all

section \<open>Integers\<close>

definition usize_checked_add :: "nat \<Rightarrow> nat \<Rightarrow> nat option" where
  "usize_checked_add a b = (if a + b < 2 ^ 64 then Some (a + b) else None)"

definition u64_wrap :: "nat \<Rightarrow> nat" where
  "u64_wrap n = n mod 2 ^ 64"

definition i64_checked_add :: "int \<Rightarrow> int \<Rightarrow> int option" where
  "i64_checked_add a b = (if - (2 ^ 63) \<le> a + b \<and> a + b < 2 ^ 63 then Some (a + b) else None)"

definition i64_try_from_u64 :: "u64 \<Rightarrow> int option" where
  "i64_try_from_u64 w = (if unat w < 2 ^ 63 then Some (uint w) else None)"

definition is_i64 :: "int \<Rightarrow> bool" where
  "is_i64 x \<longleftrightarrow> - (2 ^ 63) \<le> x \<and> x < 2 ^ 63"

lemma usize_checked_add_Some [simp]:
  "usize_checked_add a b = Some c \<longleftrightarrow> c = a + b \<and> a + b < 2 ^ 64"
  by (auto simp: usize_checked_add_def)

lemma u64_wrap_id: "n < 2 ^ 64 \<Longrightarrow> u64_wrap n = n"
  by (simp add: u64_wrap_def)

lemma i64_checked_add_Some [simp]:
  "i64_checked_add a b = Some c \<longleftrightarrow> c = a + b \<and> is_i64 (a + b)"
  by (auto simp: i64_checked_add_def is_i64_def)

lemma i64_try_from_u64_Some [simp]:
  "i64_try_from_u64 w = Some c \<longleftrightarrow> c = uint w \<and> unat w < 2 ^ 63"
  by (auto simp: i64_try_from_u64_def)

section \<open>Slices\<close>

text \<open>
  \<open>slice_get\<close> is \<open>slice::get(i..j)\<close>.  An end that wrapped round past the start gives \<open>None\<close> in Rust,
  as an end beyond the length does here, so the model's ends need no wrap-around.
\<close>

definition slice :: "'a list \<Rightarrow> nat \<Rightarrow> nat \<Rightarrow> 'a list" where
  "slice xs i j = take (j - i) (drop i xs)"

definition slice_get :: "'a list \<Rightarrow> nat \<Rightarrow> nat \<Rightarrow> 'a list option" where
  "slice_get xs i j = (if i \<le> j \<and> j \<le> length xs then Some (slice xs i j) else None)"

definition slice_index :: "'a list \<Rightarrow> nat \<Rightarrow> nat \<Rightarrow> 'e fault + 'a list" where
  "slice_index xs i j = (case slice_get xs i j of None \<Rightarrow> Inl Panic | Some ys \<Rightarrow> Inr ys)"

definition elem_get :: "'a list \<Rightarrow> nat \<Rightarrow> 'a option" where
  "elem_get xs i = (if i < length xs then Some (xs ! i) else None)"

definition elem_index :: "'a list \<Rightarrow> nat \<Rightarrow> 'e fault + 'a" where
  "elem_index xs i = (if i < length xs then Inr (xs ! i) else Inl Panic)"

lemma length_slice [simp]: "j \<le> length xs \<Longrightarrow> length (slice xs i j) = j - i"
  by (simp add: slice_def)

lemma slice_get_Some [simp]:
  "slice_get xs i j = Some ys \<longleftrightarrow> i \<le> j \<and> j \<le> length xs \<and> ys = slice xs i j"
  by (auto simp: slice_get_def)

lemma slice_index_ok: "i \<le> j \<Longrightarrow> j \<le> length xs \<Longrightarrow> slice_index xs i j = Inr (slice xs i j)"
  by (simp add: slice_index_def slice_get_def)

lemma slice_index_Inr [res_simps]:
  "slice_index xs i j = Inr ys \<longleftrightarrow> i \<le> j \<and> j \<le> length xs \<and> ys = slice xs i j"
  by (auto simp: slice_index_def slice_get_def)

lemma slice_index_no_panic: "i \<le> j \<Longrightarrow> j \<le> length xs \<Longrightarrow> no_panic (slice_index xs i j)"
  by (simp add: slice_index_ok)

lemma elem_index_Inr [res_simps]: "elem_index xs i = Inr x \<longleftrightarrow> i < length xs \<and> x = xs ! i"
  by (auto simp: elem_index_def)

lemma elem_index_no_panic: "i < length xs \<Longrightarrow> no_panic (elem_index xs i)"
  by (simp add: elem_index_def)

lemma slice_append_mid: "slice (pre @ mid @ post) (length pre) (length pre + length mid) = mid"
  by (simp add: slice_def)

lemma slice_split: "i \<le> j \<Longrightarrow> j \<le> k \<Longrightarrow> slice xs i j @ slice xs j k = slice xs i k"
proof -
  assume "i \<le> j" "j \<le> k"
  have "drop j xs = drop (j - i) (drop i xs)"
    using \<open>i \<le> j\<close> by simp
  then have "slice xs i j @ slice xs j k
    = take (j - i) (drop i xs) @ take (k - j) (drop (j - i) (drop i xs))"
    by (simp add: slice_def)
  also have "\<dots> = take ((j - i) + (k - j)) (drop i xs)"
    by (rule take_add [symmetric])
  finally show ?thesis
    using \<open>i \<le> j\<close> \<open>j \<le> k\<close> by (simp add: slice_def)
qed

lemma slice_slice: "i \<le> j \<Longrightarrow> a + j \<le> b \<Longrightarrow> slice (slice xs a b) i j = slice xs (a + i) (a + j)"
  by (simp add: slice_def drop_take min_def add.commute)

lemma elem_get_Some [simp]: "elem_get xs i = Some x \<longleftrightarrow> i < length xs \<and> x = xs ! i"
  by (auto simp: elem_get_def)

section \<open>Big-endian bytes\<close>

definition be_nat :: "bytes \<Rightarrow> nat" where
  "be_nat bs = foldl (\<lambda>acc b. acc * 256 + unat b) 0 bs"

fun to_be_bytes :: "nat \<Rightarrow> nat \<Rightarrow> bytes" where
  "to_be_bytes 0 n = []"
| "to_be_bytes (Suc k) n = to_be_bytes k (n div 256) @ [word_of_nat (n mod 256)]"

lemma length_to_be_bytes [simp]: "length (to_be_bytes k n) = k"
  by (induction k arbitrary: n) auto

lemma unat_byte [simp]: "unat (word_of_nat (n mod 256) :: u8) = n mod 256"
  by (simp add: unat_of_nat)

lemma be_nat_to_be_bytes: "be_nat (to_be_bytes k n) = n mod 256 ^ k"
proof (induction k arbitrary: n)
  case 0
  then show ?case by (simp add: be_nat_def)
next
  case (Suc k)
  have "be_nat (to_be_bytes (Suc k) n) = be_nat (to_be_bytes k (n div 256)) * 256 + n mod 256"
    by (simp add: be_nat_def)
  also have "\<dots> = (n div 256) mod 256 ^ k * 256 + n mod 256"
    by (simp only: Suc.IH)
  also have "\<dots> = n mod 256 ^ Suc k"
    by (simp add: mod_mult2_eq mult.commute)
  finally show ?case .
qed

section \<open>Ordered maps and sets\<close>

text \<open>
  \<open>BTreeMap<K, V>\<close> is the list of its entries in key order and \<open>BTreeSet<K>\<close> the list of its elements
  in order, which is also the order in which Rust iterates them.
\<close>

fun bt_insert :: "'k::linorder \<Rightarrow> 'v \<Rightarrow> ('k \<times> 'v) list \<Rightarrow> ('k \<times> 'v) list" where
  "bt_insert k v [] = [(k, v)]"
| "bt_insert k v ((k', v') # m) =
     (if k < k' then (k, v) # (k', v') # m
      else if k = k' then (k, v) # m
      else (k', v') # bt_insert k v m)"

definition bt_get :: "('k \<times> 'v) list \<Rightarrow> 'k \<Rightarrow> 'v option" where
  "bt_get m = map_of m"

definition bt_keys :: "('k \<times> 'v) list \<Rightarrow> 'k list" where
  "bt_keys m = map fst m"

definition bt_ok :: "('k::linorder \<times> 'v) list \<Rightarrow> bool" where
  "bt_ok m \<longleftrightarrow> sorted_wrt (<) (map fst m)"

definition bt_or_insert :: "'k::linorder \<Rightarrow> 'v \<Rightarrow> ('k \<times> 'v) list \<Rightarrow> ('k \<times> 'v) list" where
  "bt_or_insert k v m = (case bt_get m k of Some _ \<Rightarrow> m | None \<Rightarrow> bt_insert k v m)"

definition bs_of_list :: "'k::linorder list \<Rightarrow> 'k list" where
  "bs_of_list xs = foldr insort_insert xs []"

text \<open>The interface the clients of an ordered map rely on.\<close>

locale ordered_map =
  fixes insert_op :: "'k::linorder \<Rightarrow> 'v \<Rightarrow> 'm \<Rightarrow> 'm"
    and get_op :: "'m \<Rightarrow> 'k \<Rightarrow> 'v option"
    and keys_op :: "'m \<Rightarrow> 'k list"
    and empty_op :: "'m"
    and inv_op :: "'m \<Rightarrow> bool"
  assumes inv_empty: "inv_op empty_op"
    and get_empty: "get_op empty_op k = None"
    and inv_insert: "inv_op m \<Longrightarrow> inv_op (insert_op k v m)"
    and get_insert: "inv_op m \<Longrightarrow> get_op (insert_op k v m) = (get_op m)(k \<mapsto> v)"
    and keys_sorted: "inv_op m \<Longrightarrow> sorted_wrt (<) (keys_op m)"
    and keys_dom: "inv_op m \<Longrightarrow> set (keys_op m) = dom (get_op m)"
    and ext_eq: "inv_op m \<Longrightarrow> inv_op m' \<Longrightarrow> get_op m = get_op m' \<Longrightarrow> m = m'"
begin

lemma inv_fold: "inv_op m \<Longrightarrow> inv_op (foldr (\<lambda>(k, v). insert_op k v) kvs m)"
  by (induction kvs) (auto intro: inv_insert)

lemma insert_commute:
  assumes "inv_op m" and "k \<noteq> k'"
  shows "insert_op k v (insert_op k' v' m) = insert_op k' v' (insert_op k v m)"
proof (rule ext_eq)
  show "get_op (insert_op k v (insert_op k' v' m)) = get_op (insert_op k' v' (insert_op k v m))"
    using assms by (simp add: get_insert inv_insert fun_upd_twist)
qed (use assms in \<open>auto intro: inv_insert\<close>)

lemma insert_idem: "inv_op m \<Longrightarrow> insert_op k v (insert_op k v' m) = insert_op k v m"
  by (rule ext_eq) (simp_all add: inv_insert get_insert)

lemma keys_eq: "inv_op m \<Longrightarrow> finite (dom (get_op m)) \<and> keys_op m = sorted_list_of_set (dom (get_op m))"
  using keys_sorted keys_dom
  by (metis List.finite_set strict_sorted_iff sorted_list_of_set.idem_if_sorted_distinct)

end

lemma bt_get_insert_aux: "bt_get (bt_insert k v m) = (bt_get m)(k \<mapsto> v)"
  by (induction m) (auto simp: bt_get_def fun_eq_iff)

lemma bt_keys_insert_set: "set (map fst (bt_insert k v m)) = insert k (set (map fst m))"
proof (induction m)
  case (Cons e m)
  then show ?case by (cases e) (simp add: insert_commute)
qed simp

lemma bt_ok_insert_aux: "bt_ok m \<Longrightarrow> bt_ok (bt_insert k v m)"
proof (induction m)
  case Nil
  then show ?case by (simp add: bt_ok_def)
next
  case (Cons e m)
  obtain k' v' where e: "e = (k', v')" by (cases e)
  have "set (map fst (bt_insert k v m)) = insert k (set (map fst m))"
    by (rule bt_keys_insert_set)
  with Cons e show ?case
    by (fastforce simp: bt_ok_def)
qed

lemma bt_ok_distinct: "bt_ok m \<Longrightarrow> distinct (map fst m)"
  by (simp add: bt_ok_def strict_sorted_iff)

lemma bt_ext: "bt_ok m \<Longrightarrow> bt_ok m' \<Longrightarrow> bt_get m = bt_get m' \<Longrightarrow> m = m'"
proof -
  assume ok: "bt_ok m" "bt_ok m'" and eq: "bt_get m = bt_get m'"
  then have m: "map_of m = map_of m'" by (simp add: bt_get_def fun_eq_iff)
  have "set (map fst m) = set (map fst m')"
    using m by (metis dom_map_of_conv_image_fst list.set_map)
  then have keys: "map fst m = map fst m'"
    using ok by (simp add: bt_ok_def strict_sorted_equal)
  have vals: "map_of m k = map_of m' k" for k using m by simp
  have set_eq: "set m = set m'"
    using ok m by (metis bt_ok_distinct map_of_eq_Some_iff subset_antisym subrelI)
  show "m = m'"
  proof (rule nth_equalityI)
    show "length m = length m'" using keys by (metis length_map)
  next
    fix i assume i: "i < length m"
    then have i': "i < length m'" using keys by (metis length_map)
    have f: "fst (m ! i) = fst (m' ! i)" using keys i i' by (metis nth_map)
    have "map_of m (fst (m ! i)) = Some (snd (m ! i))"
      using i ok by (simp add: bt_ok_distinct)
    moreover have "map_of m' (fst (m' ! i)) = Some (snd (m' ! i))"
      using i' ok by (simp add: bt_ok_distinct)
    ultimately show "m ! i = m' ! i" using f vals by (simp add: prod_eq_iff)
  qed
qed

interpretation bt: ordered_map bt_insert bt_get bt_keys "[]" bt_ok
proof unfold_locales
  show "bt_ok m \<Longrightarrow> set (bt_keys m) = dom (bt_get m)" for m :: "('a \<times> 'b) list"
    by (simp add: bt_keys_def bt_get_def dom_map_of_conv_image_fst)
qed (auto simp: bt_ok_def bt_get_def bt_keys_def intro: bt_ok_insert_aux [unfolded bt_ok_def]
       bt_get_insert_aux [unfolded bt_get_def] bt_ext [unfolded bt_ok_def bt_get_def])

end
