(* ===== verification/Varint.thy ===== *)
theory Varint
  imports Prelude
begin

text \<open>
  The unsigned LEB128 format of Go's \<open>encoding/binary\<close>, which both readers of the program decode:
  the reference encoder, and the one-byte step the two decoding loops share.  The readers
  themselves are in \<open>Tsdb_Index\<close> (ten bytes, \<open>u64\<close>) and \<open>Chunk_Reader\<close> (five bytes, \<open>usize\<close>).
\<close>

fun encode_uvarint :: "nat \<Rightarrow> bytes" where
  "encode_uvarint n =
     (if n < 128 then [word_of_nat n] else word_of_nat (n mod 128 + 128) # encode_uvarint (n div 128))"

declare encode_uvarint.simps [simp del]

lemma encode_uvarint_small: "n < 128 \<Longrightarrow> encode_uvarint n = [word_of_nat n]"
  by (subst encode_uvarint.simps) simp

lemma encode_uvarint_large:
  "128 \<le> n \<Longrightarrow> encode_uvarint n = word_of_nat (n mod 128 + 128) # encode_uvarint (n div 128)"
  by (subst encode_uvarint.simps) simp

lemma encode_uvarint_nonempty [simp]: "encode_uvarint n \<noteq> []"
  by (subst encode_uvarint.simps) simp

lemma length_encode_uvarint_pos [simp]: "0 < length (encode_uvarint n)"
  by simp

lemma length_encode_uvarint_le: "n < 2 ^ (7 * k) \<Longrightarrow> 0 < k \<Longrightarrow> length (encode_uvarint n) \<le> k"
proof (induction k arbitrary: n)
  case 0
  then show ?case by simp
next
  case (Suc k)
  show ?case
  proof (cases "n < 128")
    case True
    then show ?thesis by (simp add: encode_uvarint_small)
  next
    case False
    have "(2::nat) ^ (7 * Suc k) = 128 * 2 ^ (7 * k)" by (simp add: power_add)
    with Suc.prems have lt: "n div 128 < 2 ^ (7 * k)" by (simp add: less_mult_imp_div_less mult.commute)
    have "0 < k"
    proof (rule ccontr)
      assume "\<not> 0 < k"
      with lt False show False by simp
    qed
    with Suc.IH [OF lt] False show ?thesis by (simp add: encode_uvarint_large)
  qed
qed

subsection \<open>One byte of a varint\<close>

lemma bit_7_iff: "bit (b :: u8) 7 \<longleftrightarrow> 128 \<le> unat b"
proof -
  have "bit b 7 = bit (unat b) 7" by (simp add: bit_unsigned_iff)
  also have "\<dots> = odd (unat b div 128)" by (simp add: bit_iff_odd)
  also have "\<dots> = (128 \<le> unat b)"
  proof -
    have "unat b < 256" using unsigned_less [of b, where 'a=nat] by simp
    then have "unat b div 128 = (if 128 \<le> unat b then 1 else 0)" by auto
    then show ?thesis by simp
  qed
  finally show ?thesis .
qed

lemma or_push_bit_nat: "v < 2 ^ k \<Longrightarrow> v OR push_bit k y = v + y * 2 ^ k" for v y :: nat
proof -
  assume "v < 2 ^ k"
  then have v: "take_bit k v = v" by (simp add: take_bit_nat_eq_self)
  have "v + push_bit k y = v OR push_bit k y"
    by (rule disjunctive_add) (subst v [symmetric], simp add: bit_simps)
  then show ?thesis by (simp add: push_bit_eq_mult)
qed

lemma unat_ucast_byte: "unat (ucast (b :: u8) :: u64) = unat b"
proof -
  have "unat b < 2 ^ 8" using unsigned_less [of b, where 'a=nat] by simp
  then show ?thesis by (simp add: unsigned_ucast_eq take_bit_nat_eq_self)
qed

definition uvarint_step :: "u64 \<Rightarrow> u8 \<Rightarrow> nat \<Rightarrow> u64" where
  "uvarint_step v b i = v OR push_bit (i * 7) (ucast (b AND 0x7f))"

lemma unat_uvarint_step:
  assumes "unat v < 2 ^ (i * 7)" and "(unat b mod 128) * 2 ^ (i * 7) < 2 ^ 64"
  shows "unat (uvarint_step v b i) = unat v + (unat b mod 128) * 2 ^ (i * 7)"
proof -
  have p: "unat (b AND 0x7f) = unat b mod 128"
  proof -
    have "b AND 0x7f = take_bit 7 b" by (simp add: take_bit_eq_mask mask_eq_exp_minus_1)
    then show ?thesis by (simp add: unsigned_take_bit_eq take_bit_nat_def)
  qed
  have "unat (push_bit (i * 7) (ucast (b AND 0x7f) :: u64))
     = take_bit 64 (push_bit (i * 7) (unat b mod 128))"
    by (simp add: unsigned_push_bit_eq unat_ucast_byte p)
  also have "\<dots> = push_bit (i * 7) (unat b mod 128)"
    using assms(2) by (simp add: take_bit_nat_eq_self push_bit_eq_mult)
  finally show ?thesis
    using or_push_bit_nat [OF assms(1), of "unat b mod 128"]
    by (simp add: uvarint_step_def unsigned_or_eq)
qed

definition last_byte :: "u8 \<Rightarrow> bool" where
  "last_byte b \<longleftrightarrow> b AND 0x80 = 0"

lemma last_byte_iff: "last_byte b \<longleftrightarrow> unat b < 128"
  using and_exp_eq_0_iff_not_bit [of b 7] bit_7_iff [of b] by (simp add: last_byte_def not_le)

lemma last_byte_of_nat [simp]: "n < 128 \<Longrightarrow> last_byte (word_of_nat n)"
  by (simp add: last_byte_iff unat_of_nat)

lemma unat_cont_byte: "unat (word_of_nat (n mod 128 + 128) :: u8) = n mod 128 + 128"
proof -
  have "n mod 128 + 128 < 2 ^ LENGTH(8)" by simp
  then show ?thesis by (simp only: unat_of_nat mod_less)
qed

lemma not_last_byte_of_nat [simp]: "\<not> last_byte (word_of_nat (n mod 128 + 128))"
  by (simp only: last_byte_iff unat_cont_byte)

text \<open>One continuation byte of an encoded number: what the accumulator and the rest of the number keep.\<close>

lemma uvarint_step_continue:
  assumes v: "unat v < 2 ^ (i * 7)" and m: "m * 2 ^ (i * 7) < 2 ^ 64" and ux: "unat x = m mod 128 + 128"
  shows "unat (uvarint_step v x i) < 2 ^ (Suc i * 7)"
    and "m div 128 * 2 ^ (Suc i * 7) < 2 ^ 64"
    and "unat (uvarint_step v x i) + m div 128 * 2 ^ (Suc i * 7) = unat v + m * 2 ^ (i * 7)"
proof -
  have p: "(2::nat) ^ (Suc i * 7) = 128 * 2 ^ (i * 7)" by (simp add: power_add)
  have le: "m mod 128 * 2 ^ (i * 7) \<le> m * 2 ^ (i * 7)" by simp
  have uv: "unat (uvarint_step v x i) = unat v + m mod 128 * 2 ^ (i * 7)"
    using unat_uvarint_step [OF v, of x] le_less_trans [OF le m] by (simp add: ux)
  have "m mod 128 * 2 ^ (i * 7) \<le> 127 * 2 ^ (i * 7)" by (intro mult_le_mono1) (simp flip: less_Suc_eq_le)
  then show "unat (uvarint_step v x i) < 2 ^ (Suc i * 7)" using uv v p by linarith
  have "m * 2 ^ (i * 7) = (m mod 128 + 128 * (m div 128)) * 2 ^ (i * 7)" by simp
  then have spl: "m mod 128 * 2 ^ (i * 7) + m div 128 * 2 ^ (Suc i * 7) = m * 2 ^ (i * 7)"
    unfolding p by (simp only: distrib_right mult.assoc mult.left_commute)
  with m show "m div 128 * 2 ^ (Suc i * 7) < 2 ^ 64" by linarith
  show "unat (uvarint_step v x i) + m div 128 * 2 ^ (Suc i * 7) = unat v + m * 2 ^ (i * 7)"
    using uv spl by linarith
qed

subsection \<open>Zig-zag\<close>

text \<open>Go's \<open>PutVarint\<close> maps a signed number to an unsigned one before encoding it.\<close>

lemma unat_of_nat64: "n < 2 ^ 64 \<Longrightarrow> unat (word_of_nat n :: u64) = n"
  by (simp add: unsigned_of_nat take_bit_nat_eq_self)

lemma sint_of_nat64: "k < 2 ^ 63 \<Longrightarrow> sint (word_of_nat k :: u64) = int k"
  by (simp add: signed_of_nat signed_take_bit_int_eq_self)

lemma word_of_nat_unatI: "unat w = n \<Longrightarrow> w = word_of_nat n" for w :: u64
  by (drule sym) simp

definition zigzag :: "int \<Rightarrow> nat" where
  "zigzag i = (if 0 \<le> i then nat (2 * i) else nat (- 2 * i - 1))"

lemma zigzag_bound: "is_i64 i \<Longrightarrow> zigzag i < 2 ^ 64"
  by (auto simp: zigzag_def is_i64_def)

lemma unzigzag:
  assumes "is_i64 i"
  defines "w \<equiv> word_of_nat (zigzag i) :: u64"
  shows "sint (drop_bit 1 w XOR - (w AND 1)) = i"
proof -
  define k where "k = (if 0 \<le> i then nat i else nat (- i - 1))"
  have k: "k < 2 ^ 63" using assms(1) by (auto simp: k_def is_i64_def)
  have z: "zigzag i = 2 * k + (if 0 \<le> i then 0 else 1)"
    by (auto simp: zigzag_def k_def)
  have "2 * k + (if 0 \<le> i then 0 else 1) < 2 ^ 64" using k by auto
  then have u: "unat w = 2 * k + (if 0 \<le> i then 0 else 1)"
    unfolding w_def z by (rule unat_of_nat64)
  have "unat (drop_bit 1 w) = unat w div 2"
    by (simp add: drop_bit_Suc unat_div)
  with u have "unat (drop_bit 1 w) = unat (word_of_nat k :: u64)"
    using k by (simp add: unat_of_nat64)
  then have d: "drop_bit 1 w = word_of_nat k" by (simp only: word_unat_eq_iff)
  have "w AND 1 = w mod 2" by (simp only: and_one_eq)
  moreover have "unat (w mod 2) = unat w mod 2" by (simp add: unat_mod)
  ultimately have "unat (w AND 1) = (if 0 \<le> i then 0 else 1)" using u by simp
  then have o: "w AND 1 = (if 0 \<le> i then 0 else 1)" by (auto simp: word_unat_eq_iff)
  show ?thesis
  proof (cases "0 \<le> i")
    case True
    then have "sint (drop_bit 1 w XOR - (w AND 1)) = sint (word_of_nat k :: u64)"
      using o d by simp
    then show ?thesis using True k by (simp only: sint_of_nat64) (simp add: k_def)
  next
    case False
    have "sint (drop_bit 1 w XOR - 1) = sint (NOT (word_of_nat k :: u64))" by (simp only: d) simp
    also have "\<dots> = signed_take_bit 64 (- int k - 1)"
      using k by (simp add: signed_not_eq sint_of_nat64 not_int_def)
    also have "\<dots> = - int k - 1" using k by (simp add: signed_take_bit_int_eq_self)
    finally show ?thesis using False o by (simp add: k_def)
  qed
qed

definition encode_varint :: "int \<Rightarrow> bytes" where
  "encode_varint i = encode_uvarint (zigzag i)"

lemma encode_varint_nonempty [simp]: "encode_varint i \<noteq> []"
  by (simp add: encode_varint_def)

lemma drop_Cons_nth: "drop i xs = y # ys \<Longrightarrow> i < length xs \<and> xs ! i = y \<and> drop (Suc i) xs = ys"
  by (metis Cons_nth_drop_Suc drop_all leI list.discI list.inject)

end
