(* ===== verification/Rust_Text.thy ===== *)
theory Rust_Text
  imports Prelude
begin

text \<open>
  The operations of Rust's \<open>str\<close>, \<open>u64::from_str\<close> and the formatter that the program uses, over the
  UTF-8 bytes of the strings.  They belong to the standard library, so they map to no source line.
\<close>

section \<open>Prefixes, suffixes, splitting\<close>

definition strip_prefix :: "'a list \<Rightarrow> 'a list \<Rightarrow> 'a list option" where
  "strip_prefix p s = (if take (length p) s = p then Some (drop (length p) s) else None)"

definition strip_suffix :: "'a list \<Rightarrow> 'a list \<Rightarrow> 'a list option" where
  "strip_suffix p s = map_option rev (strip_prefix (rev p) (rev s))"

definition starts_with :: "'a list \<Rightarrow> 'a list \<Rightarrow> bool" where
  "starts_with p s \<longleftrightarrow> strip_prefix p s \<noteq> None"

definition ends_with :: "'a list \<Rightarrow> 'a list \<Rightarrow> bool" where
  "ends_with p s \<longleftrightarrow> strip_suffix p s \<noteq> None"

fun split_once :: "'a list \<Rightarrow> 'a list \<Rightarrow> ('a list \<times> 'a list) option" where
  "split_once sep s =
     (case strip_prefix sep s of
        Some rest \<Rightarrow> Some ([], rest)
      | None \<Rightarrow> (case s of [] \<Rightarrow> None | c # cs \<Rightarrow> map_option (\<lambda>(a, b). (c # a, b)) (split_once sep cs)))"

declare split_once.simps [simp del]

lemma strip_prefix_append [simp]: "strip_prefix p (p @ s) = Some s"
  by (simp add: strip_prefix_def)

lemma strip_prefix_Some: "strip_prefix p s = Some r \<longleftrightarrow> s = p @ r"
  by (auto simp: strip_prefix_def) (metis append_take_drop_id)

lemma strip_suffix_append [simp]: "strip_suffix p (s @ p) = Some s"
  by (simp add: strip_suffix_def)

lemma strip_suffix_Some: "strip_suffix p s = Some r \<longleftrightarrow> s = r @ p"
proof
  assume "strip_suffix p s = Some r"
  then have "rev s = rev p @ rev r"
    by (auto simp: strip_suffix_def strip_prefix_Some)
  then show "s = r @ p" by (metis rev_append rev_rev_ident)
qed simp

lemma split_once_Some: "split_once sep s = Some (a, b) \<Longrightarrow> s = a @ sep @ b"
proof (induction sep s arbitrary: a rule: split_once.induct)
  case (1 sep s)
  show ?case
  proof (cases "strip_prefix sep s")
    case (Some r)
    with "1.prems" show ?thesis
      by (subst (asm) split_once.simps) (simp add: strip_prefix_Some)
  next
    case None
    with "1.prems" obtain c cs a' where "s = c # cs" "split_once sep cs = Some (a', b)" "a = c # a'"
      by (subst (asm) split_once.simps) (auto split: list.splits)
    with "1.IH" [OF None] show ?thesis by simp
  qed
qed

section \<open>White space\<close>

text \<open>
  \<open>trim\<close> removes the code points with the Unicode property White_Space; each is given by its UTF-8
  encoding.  On valid UTF-8 a suffix of bytes that is such an encoding is that code point.
\<close>

definition bytes_str :: "nat list \<Rightarrow> string" where
  "bytes_str ns = map char_of ns"

definition white_space :: "string list" where
  "white_space = map bytes_str (
     map (\<lambda>b. [b]) ([9..<14] @ [32]) @ [[0xC2, 0x85], [0xC2, 0xA0], [0xE1, 0x9A, 0x80]]
     @ map (\<lambda>b. [0xE2, 0x80, b]) ([0x80..<0x8B] @ [0xA8, 0xA9, 0xAF])
     @ [[0xE2, 0x81, 0x9F], [0xE3, 0x80, 0x80]])"

fun strip_first :: "'a list list \<Rightarrow> 'a list \<Rightarrow> 'a list option" where
  "strip_first [] s = None"
| "strip_first (p # ps) s = (case strip_prefix p s of Some r \<Rightarrow> Some r | None \<Rightarrow> strip_first ps s)"

lemma strip_first_shorter: "strip_first ps s = Some r \<Longrightarrow> [] \<notin> set ps \<Longrightarrow> length r < length s"
  by (induction ps) (auto simp: strip_prefix_Some split: option.splits)

function trim_start_with :: "'a list list \<Rightarrow> 'a list \<Rightarrow> 'a list" where
  "trim_start_with ps s =
     (if [] \<in> set ps then s
      else case strip_first ps s of None \<Rightarrow> s | Some r \<Rightarrow> trim_start_with ps r)"
  by pat_completeness auto
termination
  by (relation "measure (\<lambda>(ps, s). length s)") (auto dest: strip_first_shorter)

declare trim_start_with.simps [simp del]

definition trim :: "string \<Rightarrow> string" where
  "trim s = rev (trim_start_with (map rev white_space) (rev (trim_start_with white_space s)))"

definition trim_slashes :: "string \<Rightarrow> string" where
  "trim_slashes s = rev (dropWhile (\<lambda>c. c = CHR ''/'') (rev (dropWhile (\<lambda>c. c = CHR ''/'') s)))"

section \<open>Decimal numbers\<close>

definition digit_char :: "nat \<Rightarrow> char" where
  "digit_char d = char_of (48 + d)"

fun show_nat :: "nat \<Rightarrow> string" where
  "show_nat n = (if n < 10 then [digit_char n] else show_nat (n div 10) @ [digit_char (n mod 10)])"

declare show_nat.simps [simp del]

definition pad_zeros :: "nat \<Rightarrow> string \<Rightarrow> string" where
  "pad_zeros w s = replicate (w - length s) (CHR ''0'') @ s"

definition to_digit :: "char \<Rightarrow> nat option" where
  "to_digit c = (let n = of_char c in if 48 \<le> n \<and> n < 58 then Some (n - 48) else None)"

datatype int_error = EmptyInt | InvalidDigit | PosOverflow

fun parse_digits :: "nat \<Rightarrow> string \<Rightarrow> int_error + nat" where
  "parse_digits acc [] = Inr acc"
| "parse_digits acc (c # cs) =
     (case to_digit c of
        None \<Rightarrow> Inl InvalidDigit
      | Some d \<Rightarrow>
          if 2 ^ 64 \<le> acc * 10 + d then Inl PosOverflow else parse_digits (acc * 10 + d) cs)"

definition parse_u64 :: "string \<Rightarrow> int_error + nat" where
  "parse_u64 s =
     (if s = '''' then Inl EmptyInt
      else if s = ''+'' \<or> s = ''-'' then Inl InvalidDigit
      else case strip_prefix ''+'' s of Some r \<Rightarrow> parse_digits 0 r | None \<Rightarrow> parse_digits 0 s)"

lemma to_digit_digit_char [simp]: "d < 10 \<Longrightarrow> to_digit (digit_char d) = Some d"
  by (simp add: to_digit_def digit_char_def Let_def)

lemma show_nat_nonempty [simp]: "show_nat n \<noteq> []"
  by (subst show_nat.simps) simp

lemma parse_digits_append:
  "parse_digits acc (xs @ ys) = tryR (parse_digits acc xs) (\<lambda>a. parse_digits a ys)"
  by (induction xs arbitrary: acc) (auto split: option.splits)

lemma parse_digits_show_nat: "n < 2 ^ 64 \<Longrightarrow> parse_digits 0 (show_nat n) = Inr n"
proof (induction n rule: show_nat.induct)
  case (1 n)
  show ?case
  proof (cases "n < 10")
    case True
    then show ?thesis by (subst show_nat.simps) simp
  next
    case False
    have "parse_digits 0 (show_nat (n div 10)) = Inr (n div 10)"
      using False "1.prems" by (intro "1.IH") auto
    moreover have "n div 10 * 10 + n mod 10 = n" by simp
    ultimately show ?thesis
      using False "1.prems" by (subst show_nat.simps) (simp add: parse_digits_append)
  qed
qed

lemma digit_char_not_sign: "d < 10 \<Longrightarrow> digit_char d \<noteq> CHR ''+'' \<and> digit_char d \<noteq> CHR ''-''"
proof -
  assume "d < 10"
  then have "of_char (digit_char d) = 48 + d" by (simp add: digit_char_def)
  then show ?thesis by auto
qed

lemma show_nat_chars: "c \<in> set (show_nat n) \<Longrightarrow> \<exists>d<10. c = digit_char d"
proof (induction n rule: show_nat.induct)
  case (1 n)
  show ?case
  proof (cases "n < 10")
    case True
    with "1.prems" show ?thesis by (subst (asm) show_nat.simps) auto
  next
    case False
    with "1.prems" have "c \<in> set (show_nat (n div 10)) \<or> c = digit_char (n mod 10)"
      by (subst (asm) show_nat.simps) auto
    then show ?thesis using "1.IH" [OF False] by (auto intro: exI [of _ "n mod 10"])
  qed
qed

lemma parse_u64_show_nat: "n < 2 ^ 64 \<Longrightarrow> parse_u64 (show_nat n) = Inr n"
proof -
  assume n: "n < 2 ^ 64"
  obtain c cs where s: "show_nat n = c # cs" by (cases "show_nat n") auto
  have "c \<noteq> CHR ''+''" "c \<noteq> CHR ''-''"
    using show_nat_chars [of c n] digit_char_not_sign s by auto
  then show ?thesis
    using parse_digits_show_nat [OF n] s by (simp add: parse_u64_def strip_prefix_def)
qed

section \<open>UTF-8\<close>

text \<open>\<open>str::from_utf8\<close> accepts exactly the well-formed byte sequences of the Unicode standard.\<close>

definition in_range :: "nat \<Rightarrow> nat \<Rightarrow> u8 \<Rightarrow> bool" where
  "in_range lo hi b \<longleftrightarrow> lo \<le> unat b \<and> unat b \<le> hi"

fun utf8_valid :: "bytes \<Rightarrow> bool" where
  "utf8_valid [] = True"
| "utf8_valid (b0 # bs) =
     (if unat b0 < 0x80 then utf8_valid bs
      else if in_range 0xC2 0xDF b0 then
        (case bs of b1 # r \<Rightarrow> in_range 0x80 0xBF b1 \<and> utf8_valid r | _ \<Rightarrow> False)
      else if in_range 0xE0 0xEF b0 then
        (case bs of b1 # b2 # r \<Rightarrow>
           in_range (if unat b0 = 0xE0 then 0xA0 else 0x80) (if unat b0 = 0xED then 0x9F else 0xBF) b1
           \<and> in_range 0x80 0xBF b2 \<and> utf8_valid r
         | _ \<Rightarrow> False)
      else if in_range 0xF0 0xF4 b0 then
        (case bs of b1 # b2 # b3 # r \<Rightarrow>
           in_range (if unat b0 = 0xF0 then 0x90 else 0x80) (if unat b0 = 0xF4 then 0x8F else 0xBF) b1
           \<and> in_range 0x80 0xBF b2 \<and> in_range 0x80 0xBF b3 \<and> utf8_valid r
         | _ \<Rightarrow> False)
      else False)"

definition str_of_bytes :: "bytes \<Rightarrow> string" where
  "str_of_bytes bs = map (\<lambda>b. char_of (unat b)) bs"

definition bytes_of_str :: "string \<Rightarrow> bytes" where
  "bytes_of_str s = map (\<lambda>c. word_of_nat (of_char c)) s"

definition from_utf8 :: "bytes \<Rightarrow> string option" where
  "from_utf8 bs = (if utf8_valid bs then Some (str_of_bytes bs) else None)"

lemma length_bytes_of_str [simp]: "length (bytes_of_str s) = length s"
  by (simp add: bytes_of_str_def)

lemma str_of_bytes_of_str [simp]: "str_of_bytes (bytes_of_str s) = s"
proof -
  have "char_of (unat (word_of_nat (of_char c) :: u8)) = c" for c :: char
  proof -
    have "(of_char c :: nat) < 2 ^ LENGTH(8)" by simp
    then have "unat (word_of_nat (of_char c) :: u8) = of_char c"
      by (simp only: unat_of_nat mod_less)
    then show ?thesis by simp
  qed
  then show ?thesis by (simp add: str_of_bytes_def bytes_of_str_def map_idI)
qed

end
