(* ===== verification/Tsdb_Index.thy ===== *)
theory Tsdb_Index
  imports Varint Rust_Text
begin

text \<open>
  The Prometheus TSDB index parser, \<open>src/tsdb_index.rs\<close>: the file header, the table of contents,
  the symbol table, and the series section read one entry at a time.

  \<open>crc\<close> stands for \<open>CRC32C.checksum\<close> of the \<open>crc\<close> crate.  Offsets of the parser are bounded by the
  length of a slice, at most \<open>2^63 - 1\<close>, plus ten; only the additions the source checks can leave
  \<open>usize\<close>, and those are checked here too.  The loop over the series section need not end, so it is
  a \<^theory_text>\<open>partial_function (option)\<close>: \<open>None\<close> means that \<open>parse_each\<close> never returns.
\<close>

section \<open>Data\<close>

record index_chunk =
  ic_mint :: int
  ic_maxt :: int
  ic_reference :: u64

record index_series =
  is_reference :: nat
  is_labels :: "(string \<times> string) list"
  is_chunks :: "index_chunk list"

record toc =
  toc_symbols :: u64
  toc_series :: u64
  toc_label_indices_start :: u64

type_synonym index_fault = "string fault"

definition INDEX_MAGIC :: nat where "INDEX_MAGIC = 0xBAAAD700"
definition MIN_SUPPORTED_INDEX_VERSION :: nat where "MIN_SUPPORTED_INDEX_VERSION = 1"
definition MAX_SUPPORTED_INDEX_VERSION :: nat where "MAX_SUPPORTED_INDEX_VERSION = 2"
definition TOC_SIZE :: nat where "TOC_SIZE = 48"
definition CHECKSUM_SIZE :: nat where "CHECKSUM_SIZE = 4"
definition SERIES_ALIGNMENT :: nat where "SERIES_ALIGNMENT = 16"

lemmas index_consts = INDEX_MAGIC_def MIN_SUPPORTED_INDEX_VERSION_def
  MAX_SUPPORTED_INDEX_VERSION_def TOC_SIZE_def CHECKSUM_SIZE_def SERIES_ALIGNMENT_def

section \<open>Primitive readers\<close>

definition read_u32 :: "bytes \<Rightarrow> nat \<Rightarrow> index_fault + u32" where
  "read_u32 bs offset =
     tryR (ok_or ''truncated u32'' (slice_get bs offset (offset + 4))) (\<lambda>value.
       Inr (word_of_nat (be_nat value)))"

definition read_u64 :: "bytes \<Rightarrow> nat \<Rightarrow> index_fault + u64" where
  "read_u64 bs offset =
     tryR (ok_or ''truncated u64'' (slice_get bs offset (offset + 8))) (\<lambda>value.
       Inr (word_of_nat (be_nat value)))"

function read_uvarint_loop :: "bytes \<Rightarrow> nat \<Rightarrow> nat \<Rightarrow> u64 \<Rightarrow> index_fault + (u64 \<times> nat)" where
  "read_uvarint_loop bs offset index value =
     (if index < 10 then
        tryR (ok_or ''truncated uvarint'' (elem_get bs (offset + index))) (\<lambda>byte.
          if index = 9 \<and> 1 < unat byte then Inl (Err ''uvarint overflows u64'')
          else if last_byte byte then Inr (uvarint_step value byte index, index + 1)
          else read_uvarint_loop bs offset (index + 1) (uvarint_step value byte index))
      else Inl (Err ''uvarint is too long''))"
  by pat_completeness auto
termination
  by (relation "measure (\<lambda>(bs, offset, index, value). 10 - index)") auto

declare read_uvarint_loop.simps [simp del]

definition read_uvarint :: "bytes \<Rightarrow> nat \<Rightarrow> index_fault + (u64 \<times> nat)" where
  "read_uvarint bs offset = read_uvarint_loop bs offset 0 0"

definition read_varint :: "bytes \<Rightarrow> nat \<Rightarrow> index_fault + (int \<times> nat)" where
  "read_varint bs offset =
     tryR (read_uvarint bs offset) (\<lambda>(value, size).
       Inr (sint (drop_bit 1 value XOR - (value AND 1)), size))"

definition align_series :: "nat \<Rightarrow> index_fault + nat" where
  "align_series offset =
     tryR (ok_or ''series alignment overflow'' (usize_checked_add offset (SERIES_ALIGNMENT - 1)))
       (\<lambda>value. Inr (value div SERIES_ALIGNMENT * SERIES_ALIGNMENT))"

definition verify_crc ::
  "(bytes \<Rightarrow> u32) \<Rightarrow> bytes \<Rightarrow> nat \<Rightarrow> nat \<Rightarrow> string \<Rightarrow> index_fault + unit" where
  "verify_crc crc bs content_start content_length section_name =
     tryR (ok_or (section_name @ '' CRC offset overflow'') (usize_checked_add content_start content_length))
       (\<lambda>content_end. tryR (read_u32 bs content_end) (\<lambda>checksum.
        tryR (slice_index bs content_start content_end) (\<lambda>content.
          if crc content \<noteq> checksum then Inl (Err (section_name @ '' CRC mismatch'')) else Inr ())))"

section \<open>Table of contents and symbols\<close>

definition Toc_parse :: "bytes \<Rightarrow> index_fault + toc" where
  "Toc_parse bs =
     tryR (read_u64 bs 0) (\<lambda>symbols. tryR (read_u64 bs 8) (\<lambda>series. tryR (read_u64 bs 16) (\<lambda>label_indices.
       Inr \<lparr>toc_symbols = symbols, toc_series = series, toc_label_indices_start = label_indices\<rparr>)))"

fun symbols_loop :: "bytes \<Rightarrow> nat \<Rightarrow> nat \<Rightarrow> nat \<Rightarrow> index_fault + (nat \<times> string list)" where
  "symbols_loop bs content_end 0 position = Inr (position, [])"
| "symbols_loop bs content_end (Suc n) position =
     tryR (read_uvarint bs position) (\<lambda>(len, length_size).
     tryR (ok_or ''symbol length offset overflow'' (usize_checked_add position length_size)) (\<lambda>position.
     tryR (ok_or ''symbol length overflow'' (usize_checked_add position (unat len))) (\<lambda>end_pos.
       if content_end < end_pos then Inl (Err ''truncated symbol'')
       else tryR (slice_index bs position end_pos) (\<lambda>raw.
            tryR (ok_or ''symbol is not valid UTF-8'' (from_utf8 raw)) (\<lambda>symbol.
            tryR (symbols_loop bs content_end n end_pos) (\<lambda>(p, symbols).
              Inr (p, symbol # symbols)))))))"

definition parse_symbols :: "(bytes \<Rightarrow> u32) \<Rightarrow> bytes \<Rightarrow> nat \<Rightarrow> index_fault + string list" where
  "parse_symbols crc bs offset =
     tryR (read_u32 bs offset) (\<lambda>content_length.
     tryR (ok_or ''symbol table offset overflow'' (usize_checked_add offset 4)) (\<lambda>content_start.
     tryR (ok_or ''symbol table length overflow''
             (usize_checked_add content_start (unat content_length))) (\<lambda>content_end.
       if length bs < content_end + CHECKSUM_SIZE then Inl (Err ''truncated symbol table'')
       else tryR (verify_crc crc bs content_start (unat content_length) ''symbol table'') (\<lambda>_.
            tryR (read_u32 bs content_start) (\<lambda>symbol_count.
            tryR (symbols_loop bs content_end (unat symbol_count) (content_start + 4))
              (\<lambda>(position, symbols).
               if position \<noteq> content_end then Inl (Err ''unexpected bytes in symbol table'')
               else Inr symbols))))))"

definition symbol :: "string list \<Rightarrow> u64 \<Rightarrow> index_fault + string" where
  "symbol symbols reference =
     ok_or ''symbol reference is out of bounds'' (elem_get symbols (unat reference))"

section \<open>One series entry\<close>

fun label_loop ::
  "bytes \<Rightarrow> string list \<Rightarrow> nat \<Rightarrow> nat \<Rightarrow> (string \<times> string) list
   \<Rightarrow> index_fault + (nat \<times> (string \<times> string) list)" where
  "label_loop bs symbols 0 position labels = Inr (position, labels)"
| "label_loop bs symbols (Suc n) position labels =
     tryR (read_uvarint bs position) (\<lambda>(name_ref, size).
     tryR (read_uvarint bs (position + size)) (\<lambda>(value_ref, size').
     tryR (symbol symbols name_ref) (\<lambda>name.
     tryR (symbol symbols value_ref) (\<lambda>value.
       case bt_get labels name of
         Some _ \<Rightarrow> Inl (Err ''series contains a duplicate label name'')
       | None \<Rightarrow> label_loop bs symbols n (position + size + size') (bt_insert name value labels)))))"

definition read_mint :: "bytes \<Rightarrow> nat \<Rightarrow> int option \<Rightarrow> index_fault + (int \<times> nat)" where
  "read_mint bs position previous_maxt =
     (case previous_maxt of
        Some maxt \<Rightarrow>
          tryR (read_uvarint bs position) (\<lambda>(delta, size).
          tryR (ok_or ''chunk mint delta overflows i64'' (i64_try_from_u64 delta)) (\<lambda>d.
          tryR (ok_or ''chunk mint overflows i64'' (i64_checked_add maxt d)) (\<lambda>mint.
            Inr (mint, position + size))))
      | None \<Rightarrow>
          tryR (read_varint bs position) (\<lambda>(value, size). Inr (value, position + size)))"

definition read_maxt :: "bytes \<Rightarrow> nat \<Rightarrow> int \<Rightarrow> index_fault + (int \<times> nat)" where
  "read_maxt bs position mint =
     tryR (read_uvarint bs position) (\<lambda>(duration, size).
     tryR (ok_or ''chunk duration overflows i64'' (i64_try_from_u64 duration)) (\<lambda>d.
     tryR (ok_or ''chunk maxt overflows i64'' (i64_checked_add mint d)) (\<lambda>maxt.
       Inr (maxt, position + size))))"

definition read_reference :: "bytes \<Rightarrow> nat \<Rightarrow> u64 option \<Rightarrow> index_fault + (u64 \<times> nat)" where
  "read_reference bs position previous_reference =
     (case previous_reference of
        Some previous \<Rightarrow>
          tryR (read_varint bs position) (\<lambda>(delta, size).
            let value = uint previous + delta in
            if 0 \<le> value \<and> value < 2 ^ 64 then Inr (word_of_int value, position + size)
            else Inl (Err ''chunk reference underflows or overflows''))
      | None \<Rightarrow>
          tryR (read_uvarint bs position) (\<lambda>(value, size). Inr (value, position + size)))"

fun chunk_loop ::
  "bytes \<Rightarrow> nat \<Rightarrow> nat \<Rightarrow> int option \<Rightarrow> u64 option \<Rightarrow> index_fault + (nat \<times> index_chunk list)" where
  "chunk_loop bs 0 position previous_maxt previous_reference = Inr (position, [])"
| "chunk_loop bs (Suc n) position previous_maxt previous_reference =
     tryR (read_mint bs position previous_maxt) (\<lambda>(mint, p1).
     tryR (read_maxt bs p1 mint) (\<lambda>(maxt, p2).
     tryR (read_reference bs p2 previous_reference) (\<lambda>(reference, p3).
       if (case previous_maxt of Some previous \<Rightarrow> mint < previous | None \<Rightarrow> False)
         then Inl (Err ''chunk time ranges overlap or are out of order'')
       else if (case previous_reference of Some previous \<Rightarrow> reference \<le> previous | None \<Rightarrow> False)
         then Inl (Err ''chunk references are not increasing'')
       else tryR (chunk_loop bs n p3 (Some maxt) (Some reference)) (\<lambda>(p, chunks).
              Inr (p, \<lparr>ic_mint = mint, ic_maxt = maxt, ic_reference = reference\<rparr> # chunks)))))"

text \<open>
  \<open>Vec::with_capacity\<close> panics when the capacity in bytes exceeds \<open>isize::MAX\<close>; a \<open>Chunk\<close> takes 24.
  The capacity of the symbol vector comes from a \<open>u32\<close> and cannot.
\<close>

definition chunk_vec_capacity_ok :: "u64 \<Rightarrow> bool" where
  "chunk_vec_capacity_ok count \<longleftrightarrow> unat count * 24 < 2 ^ 63"

definition parse_series :: "bytes \<Rightarrow> nat \<Rightarrow> string list \<Rightarrow> index_fault + index_series" where
  "parse_series bs reference symbols =
     tryR (read_uvarint bs 0) (\<lambda>(label_count, size).
     tryR (label_loop bs symbols (unat label_count) size []) (\<lambda>(p1, labels).
     tryR (read_uvarint bs p1) (\<lambda>(chunk_count, size).
       if \<not> chunk_vec_capacity_ok chunk_count then Inl Panic
       else tryR (chunk_loop bs (unat chunk_count) (p1 + size) None None) (\<lambda>(p2, chunks).
         if p2 \<noteq> length bs then Inl (Err ''unexpected bytes in series entry'')
         else Inr \<lparr>is_reference = reference, is_labels = labels, is_chunks = chunks\<rparr>))))"

section \<open>The series section\<close>

text \<open>
  One turn of the loop: the entry read, if the byte at the offset starts one, and the next offset.
\<close>

definition series_step ::
  "(bytes \<Rightarrow> u32) \<Rightarrow> bytes \<Rightarrow> string list \<Rightarrow> nat \<Rightarrow> nat \<Rightarrow> index_fault + (index_series option \<times> nat)" where
  "series_step crc bs symbols series_end offset =
     tryR (elem_index bs offset) (\<lambda>byte.
       if byte = 0 then tryR (align_series offset) (\<lambda>offset'. Inr (None, offset'))
       else
         tryR (read_uvarint bs offset) (\<lambda>(len, length_size).
         tryR (ok_or ''series length offset overflow'' (usize_checked_add offset length_size)) (\<lambda>body_start.
         tryR (ok_or ''series entry length overflow'' (usize_checked_add body_start (unat len))) (\<lambda>body_end.
         tryR (ok_or ''series checksum offset overflow'' (usize_checked_add body_end CHECKSUM_SIZE))
           (\<lambda>checksum_end.
            if series_end < checksum_end then Inl (Err ''truncated series entry'')
            else tryR (verify_crc crc bs body_start (unat len) ''series entry'') (\<lambda>_.
                 tryR (slice_index bs body_start body_end) (\<lambda>body.
                 tryR (parse_series body (offset div SERIES_ALIGNMENT) symbols) (\<lambda>series.
                 tryR (align_series checksum_end) (\<lambda>offset'.
                   Inr (Some series, offset'))))))))))"

partial_function (option) series_loop ::
  "(bytes \<Rightarrow> u32) \<Rightarrow> bytes \<Rightarrow> string list \<Rightarrow> nat \<Rightarrow> (index_series \<Rightarrow> 's \<Rightarrow> 's) \<Rightarrow> nat \<Rightarrow> 's
   \<Rightarrow> ((index_fault + unit) \<times> 's) option" where
  "series_loop crc bs symbols series_end visit offset s =
     (if offset < series_end then
        (case series_step crc bs symbols series_end offset of
           Inl e \<Rightarrow> Some (Inl e, s)
         | Inr r \<Rightarrow>
             series_loop crc bs symbols series_end visit (snd r)
               (case fst r of None \<Rightarrow> s | Some series \<Rightarrow> visit series s))
      else Some (Inr (), s))"

text \<open>The part of \<open>parse_each\<close> before the loop: the symbols and the bounds of the series section.\<close>

definition parse_prologue :: "(bytes \<Rightarrow> u32) \<Rightarrow> bytes \<Rightarrow> index_fault + (string list \<times> nat \<times> nat)" where
  "parse_prologue crc bs =
     (if length bs < 5 + TOC_SIZE + CHECKSUM_SIZE then Inl (Err ''index is too short'')
      else tryR (read_u32 bs 0) (\<lambda>magic.
        if unat magic \<noteq> INDEX_MAGIC then Inl (Err ''invalid index magic'')
        else tryR (elem_index bs 4) (\<lambda>version.
          if \<not> (MIN_SUPPORTED_INDEX_VERSION \<le> unat version \<and> unat version \<le> MAX_SUPPORTED_INDEX_VERSION)
          then Inl (Err (''unsupported index version '' @ show_nat (unat version)))
          else
            let toc_start = length bs - (TOC_SIZE + CHECKSUM_SIZE) in
            tryR (verify_crc crc bs toc_start TOC_SIZE ''TOC'') (\<lambda>_.
            tryR (slice_index bs toc_start (toc_start + TOC_SIZE)) (\<lambda>toc_bytes.
            tryR (Toc_parse toc_bytes) (\<lambda>toc.
            tryR (parse_symbols crc bs (unat (toc_symbols toc))) (\<lambda>symbols.
              let series_start = unat (toc_series toc);
                  series_end = unat (toc_label_indices_start toc) in
              if series_end < series_start \<or> toc_start < series_end
              then Inl (Err ''invalid series section bounds'')
              else Inr (symbols, series_start, series_end))))))))"

definition parse_each ::
  "(bytes \<Rightarrow> u32) \<Rightarrow> bytes \<Rightarrow> (index_series \<Rightarrow> 's \<Rightarrow> 's) \<Rightarrow> 's \<Rightarrow> ((index_fault + unit) \<times> 's) option" where
  "parse_each crc bs visit s =
     (case parse_prologue crc bs of
        Inl e \<Rightarrow> Some (Inl e, s)
      | Inr (symbols, series_start, series_end) \<Rightarrow>
          series_loop crc bs symbols series_end visit series_start s)"

definition parse :: "(bytes \<Rightarrow> u32) \<Rightarrow> bytes \<Rightarrow> (index_fault + index_series list) option" where
  "parse crc bs =
     map_option (\<lambda>(r, series). tryR r (\<lambda>_. Inr series))
       (parse_each crc bs (\<lambda>entry series. series @ [entry]) [])"

end
