(* ===== verification/Tsdb_Index_Facts.thy ===== *)
theory Tsdb_Index_Facts
  imports Tsdb_Index
begin

text \<open>
  What the TSDB index parser guarantees: the varint readers invert the reference encoder, a parsed
  series is well formed, the parser only panics when it reserves space for the chunks, when the
  loop over the series section ends and when it does not, what the visitor sees, and the round trip
  of a whole series entry.
\<close>

section \<open>The varint readers\<close>

lemma read_uvarint_loop_encode:
  assumes "drop (off + i) bs = encode_uvarint m @ rest"
    and "unat v < 2 ^ (i * 7)" and "m * 2 ^ (i * 7) < 2 ^ 64" and "i \<le> 9"
  shows "read_uvarint_loop bs off i v
    = Inr (word_of_nat (unat v + m * 2 ^ (i * 7)), i + length (encode_uvarint m))"
  using assms
proof (induction m arbitrary: i v rule: encode_uvarint.induct)
  case (1 m)
  note prems = "1.prems"
  have nine: "m \<le> 1" if "i = 9"
    using prems(3) that by simp
  show ?case
  proof (cases "m < 128")
    case True
    from prems(1) True have "drop (off + i) bs = word_of_nat m # rest"
      by (simp add: encode_uvarint_small)
    note b = drop_Cons_nth [OF this]
    have m8: "unat (word_of_nat m :: u8) = m" using True by (simp add: unsigned_of_nat take_bit_nat_eq_self)
    have "unat (uvarint_step v (word_of_nat m) i) = unat v + m * 2 ^ (i * 7)"
      using unat_uvarint_step [OF prems(2), of "word_of_nat m"] prems(3) True m8 by simp
    then have "uvarint_step v (word_of_nat m) i = word_of_nat (unat v + m * 2 ^ (i * 7))"
      by (rule word_of_nat_unatI)
    then show ?thesis
      using b True prems(4) nine m8
      by (subst read_uvarint_loop.simps) (auto simp: elem_get_def encode_uvarint_small)
  next
    case False
    with nine prems(4) have i: "i < 9" by (cases "i = 9") auto
    define x :: u8 where "x = word_of_nat (m mod 128 + 128)"
    have ux: "unat x = m mod 128 + 128" unfolding x_def by (rule unat_cont_byte)
    from prems(1) False have "drop (off + i) bs = x # encode_uvarint (m div 128) @ rest"
      by (simp add: encode_uvarint_large x_def)
    note b = drop_Cons_nth [OF this]
    define v' where "v' = uvarint_step v x i"
    note lt = uvarint_step_continue(1) [OF prems(2,3) ux, folded v'_def]
    note bound = uvarint_step_continue(2) [OF prems(2,3) ux]
    note sum = uvarint_step_continue(3) [OF prems(2,3) ux, folded v'_def]
    have rec: "read_uvarint_loop bs off (Suc i) v'
      = Inr (word_of_nat (unat v + m * 2 ^ (i * 7)), Suc i + length (encode_uvarint (m div 128)))"
      unfolding sum [symmetric] using b lt bound i False by (intro "1.IH") auto
    have nl: "\<not> last_byte x" unfolding x_def by (rule not_last_byte_of_nat)
    have "read_uvarint_loop bs off i v = read_uvarint_loop bs off (Suc i) v'"
      using b i nl by (subst read_uvarint_loop.simps) (simp add: elem_get_def v'_def)
    then show ?thesis
      using False by (simp only: rec encode_uvarint_large not_less) (simp add: encode_uvarint_large)
  qed
qed

lemma read_uvarint_encode:
  assumes "drop off bs = encode_uvarint n @ rest" and "n < 2 ^ 64"
  shows "read_uvarint bs off = Inr (word_of_nat n, length (encode_uvarint n))"
  using read_uvarint_loop_encode [of off 0 bs n rest 0] assms by (simp add: read_uvarint_def)

lemma read_varint_encode:
  assumes "drop off bs = encode_varint i @ rest" and "is_i64 i"
  shows "read_varint bs off = Inr (i, length (encode_varint i))"
  using read_uvarint_encode [OF assms(1) [unfolded encode_varint_def] zigzag_bound] assms(2)
    unzigzag [OF assms(2)]
  by (simp add: read_varint_def encode_varint_def)


lemma read_uvarint_loop_size:
  "read_uvarint_loop bs off i v = Inr (w, sz) \<Longrightarrow> i < sz \<and> sz \<le> 10 \<and> off + sz \<le> length bs"
proof (induction bs off i v rule: read_uvarint_loop.induct)
  case (1 bs off i v)
  show ?case
  proof (cases "i < 10 \<and> off + i < length bs")
    case True
    then show ?thesis
      using "1.prems" "1.IH" [of "bs ! (off + i)"]
      by (subst (asm) read_uvarint_loop.simps) (auto simp: elem_get_def split: if_splits)
  next
    case False
    then show ?thesis
      using "1.prems" by (subst (asm) read_uvarint_loop.simps) (auto simp: elem_get_def split: if_splits)
  qed
qed

lemma read_uvarint_size:
  "read_uvarint bs off = Inr (w, sz) \<Longrightarrow> 0 < sz \<and> sz \<le> 10 \<and> off + sz \<le> length bs"
  using read_uvarint_loop_size [of bs off 0 0 w sz] by (simp add: read_uvarint_def)

section \<open>Where the parser can panic\<close>

lemma read_uvarint_loop_no_panic: "no_panic (read_uvarint_loop bs off i v)"
proof (induction bs off i v rule: read_uvarint_loop.induct)
  case (1 bs off i v)
  then show ?case
    by (subst read_uvarint_loop.simps) (intro no_panic_if no_panic_tryR; simp)
qed

lemma readers_no_panic [simp]:
  "no_panic (read_uvarint bs off)" "no_panic (read_varint bs off)"
  "no_panic (read_u32 bs off)" "no_panic (read_u64 bs off)" "no_panic (align_series off)"
  "no_panic (symbol symbols reference)"
  by (auto simp: read_uvarint_def read_varint_def read_u32_def read_u64_def align_series_def
        symbol_def read_uvarint_loop_no_panic)

lemma read_u32_bound: "read_u32 bs off = Inr w \<Longrightarrow> off + 4 \<le> length bs"
  by (auto simp: read_u32_def res_simps)

lemma verify_crc_no_panic [simp]: "no_panic (verify_crc crc bs start len name)"
  by (auto simp: verify_crc_def res_simps intro!: slice_index_no_panic dest!: read_u32_bound)

lemma label_loop_no_panic [simp]: "no_panic (label_loop bs symbols n p labels)"
  by (induction bs symbols n p labels rule: label_loop.induct) auto

lemma chunk_readers_no_panic [simp]:
  "no_panic (read_mint bs p pm)" "no_panic (read_maxt bs p mint)" "no_panic (read_reference bs p pr)"
  by (auto simp: read_mint_def read_maxt_def read_reference_def Let_def split: option.split)

lemma chunk_loop_no_panic [simp]: "no_panic (chunk_loop bs n p pm pr)"
  by (induction bs n p pm pr rule: chunk_loop.induct) (auto intro!: no_panic_tryR no_panic_if no_panic_case_prod)

lemma symbols_loop_no_panic: "e \<le> length bs \<Longrightarrow> no_panic (symbols_loop bs e n p)"
  by (induction bs e n p rule: symbols_loop.induct)
    (auto simp: res_simps not_less intro!: slice_index_no_panic)

lemma parse_symbols_no_panic [simp]: "no_panic (parse_symbols crc bs off)"
  by (auto simp: parse_symbols_def CHECKSUM_SIZE_def intro!: symbols_loop_no_panic no_panic_tryR no_panic_if no_panic_case_prod)

lemma Toc_parse_no_panic [simp]: "no_panic (Toc_parse bs)"
  by (auto simp: Toc_parse_def)

lemma parse_prologue_no_panic [simp]: "no_panic (parse_prologue crc bs)"
  by (auto simp: parse_prologue_def Let_def index_consts intro!: slice_index_no_panic elem_index_no_panic)

lemma parse_series_panic:
  "parse_series bs ref symbols = Inl Panic \<Longrightarrow>
     \<exists>p count sz. read_uvarint bs p = Inr (count, sz) \<and> 2 ^ 63 \<le> unat count * 24"
  using label_loop_no_panic chunk_loop_no_panic readers_no_panic(1)
  by (auto simp: parse_series_def tryR_eq_Inl no_panic_def chunk_vec_capacity_ok_def not_less
      split: prod.splits if_splits)

section \<open>The loop over the series section\<close>

text \<open>
  The runs of the loop as a relation, independent of the visitor: from an offset it delivers the
  listed series and stops with the given result.
\<close>

inductive loop_run ::
  "(bytes \<Rightarrow> u32) \<Rightarrow> bytes \<Rightarrow> string list \<Rightarrow> nat \<Rightarrow> nat \<Rightarrow> index_fault + unit \<Rightarrow> index_series list \<Rightarrow> bool"
  for crc :: "bytes \<Rightarrow> u32" and bs :: bytes and symbols :: "string list" and series_end :: nat where
  at_end: "series_end \<le> offset \<Longrightarrow> loop_run crc bs symbols series_end offset (Inr ()) []"
| failed: "offset < series_end \<Longrightarrow> series_step crc bs symbols series_end offset = Inl e
    \<Longrightarrow> loop_run crc bs symbols series_end offset (Inl e) []"
| padding: "offset < series_end \<Longrightarrow> series_step crc bs symbols series_end offset = Inr (None, offset')
    \<Longrightarrow> loop_run crc bs symbols series_end offset' r es
    \<Longrightarrow> loop_run crc bs symbols series_end offset r es"
| entry: "offset < series_end
    \<Longrightarrow> series_step crc bs symbols series_end offset = Inr (Some series, offset')
    \<Longrightarrow> loop_run crc bs symbols series_end offset' r es
    \<Longrightarrow> loop_run crc bs symbols series_end offset r (series # es)"

lemma series_loop_run:
  assumes "series_loop crc bs symbols e visit offset s = Some (r, s')"
  shows "\<exists>es. loop_run crc bs symbols e offset r es \<and> s' = fold visit es s"
proof -
  define P where "P offset s x \<longleftrightarrow> (\<exists>es. loop_run crc bs symbols e offset (fst x) es \<and> snd x = fold visit es s)"
    for offset s and x :: "(index_fault + unit) \<times> 'a"
  have "(crc' = crc \<and> bs' = bs \<and> symbols' = symbols \<and> e' = e \<and> visit' = visit) \<longrightarrow> P offset s x"
    if "series_loop crc' bs' symbols' e' visit' offset s = Some x" for crc' bs' symbols' e' visit' offset s x
    using that
  proof (rule series_loop.raw_induct [rotated])
    fix f crc' bs' symbols' e' visit' offset s x
    assume IH: "\<And>crc' bs' symbols' e' visit' offset s x. f crc' bs' symbols' e' visit' offset s = Some x \<Longrightarrow>
        (crc' = crc \<and> bs' = bs \<and> symbols' = symbols \<and> e' = e \<and> visit' = visit) \<longrightarrow> P offset s x"
      and eq: "(if offset < e'
        then case series_step crc' bs' symbols' e' offset of Inl e \<Rightarrow> Some (Inl e, s)
             | Inr r \<Rightarrow> f crc' bs' symbols' e' visit' (snd r)
                 (case fst r of None \<Rightarrow> s | Some series \<Rightarrow> visit' series s)
        else Some (Inr (), s)) = Some x"
    show "(crc' = crc \<and> bs' = bs \<and> symbols' = symbols \<and> e' = e \<and> visit' = visit) \<longrightarrow> P offset s x"
    proof
      assume h: "crc' = crc \<and> bs' = bs \<and> symbols' = symbols \<and> e' = e \<and> visit' = visit"
      show "P offset s x"
      proof (cases "offset < e")
        case False
        with eq h show ?thesis by (auto simp: P_def intro!: exI [of _ "[]"] at_end)
      next
        case lt: True
        show ?thesis
        proof (cases "series_step crc bs symbols e offset")
          case (Inl err)
          with eq h lt show ?thesis by (auto simp: P_def intro!: exI [of _ "[]"] failed)
        next
          case (Inr so)
          then obtain o' off' where st: "series_step crc bs symbols e offset = Inr (o', off')"
            by (cases so) auto
          with eq h lt have "f crc bs symbols e visit off'
              (case o' of None \<Rightarrow> s | Some series \<Rightarrow> visit series s) = Some x"
            by (simp cong: option.case_cong)
          from IH [OF this] obtain es where "loop_run crc bs symbols e off' (fst x) es"
            "snd x = fold visit es (case o' of None \<Rightarrow> s | Some series \<Rightarrow> visit series s)"
            by (auto simp: P_def)
          with st lt padding [OF lt, of crc bs symbols off' "fst x" es]
            entry [OF lt, of crc bs symbols _ off' "fst x" es]
          show ?thesis
            by (cases o') (auto simp: P_def intro: exI [of _ "the o' # es"])
        qed
      qed
    qed
  qed
  with assms show ?thesis by (auto simp: P_def)
qed

lemma loop_run_series_loop:
  "loop_run crc bs symbols e offset r es
   \<Longrightarrow> series_loop crc bs symbols e visit offset s = Some (r, fold visit es s)"
proof (induction arbitrary: s rule: loop_run.induct)
  case (at_end offset)
  then show ?case by (subst series_loop.simps) simp
next
  case (failed offset err)
  then show ?case by (subst series_loop.simps) simp
next
  case (padding offset offset' r es)
  then show ?case by (subst series_loop.simps) simp
next
  case (entry offset series offset' r es)
  then show ?case by (subst series_loop.simps) simp
qed

text \<open>Whatever the visitor, the loop returns exactly on the runs, folding the visitor over the series.\<close>

lemma series_loop_iff:
  "series_loop crc bs symbols e visit offset s = Some (r, s')
   \<longleftrightarrow> (\<exists>es. loop_run crc bs symbols e offset r es \<and> s' = fold visit es s)"
  using series_loop_run loop_run_series_loop by metis

lemma fold_snoc [simp]: "fold (\<lambda>x xs. xs @ [x]) es acc = acc @ es"
  by (induction es arbitrary: acc) auto

lemma loop_run_det:
  assumes "loop_run crc bs symbols e offset r es" and "loop_run crc bs symbols e offset r' es'"
  shows "r' = r \<and> es' = es"
  using assms [THEN loop_run_series_loop [where visit = "\<lambda>x xs. xs @ [x]" and s = "[]"]] by simp


section \<open>When the loop ends\<close>

text \<open>
  At a zero byte the loop moves to the next multiple of 16, which is the same offset when it is
  one already: the loop then repeats for ever.
\<close>

definition stuck :: "bytes \<Rightarrow> nat \<Rightarrow> nat \<Rightarrow> bool" where
  "stuck bs e offset \<longleftrightarrow> offset < e \<and> offset < length bs \<and> bs ! offset = 0 \<and> 16 dvd offset"

definition align16 :: "nat \<Rightarrow> nat" where
  "align16 n = (n + 15) div 16 * 16"

lemma align16_props: "n \<le> align16 n" "16 dvd align16 n" "align16 n = n \<longleftrightarrow> 16 dvd n"
  by (auto simp: align16_def) presburger+

lemma align_series_Inr [res_simps]: "align_series n = Inr m \<longleftrightarrow> n + 15 < 2 ^ 64 \<and> m = align16 n"
  by (auto simp: align_series_def align16_def SERIES_ALIGNMENT_def res_simps)

lemma series_step_padding:
  "series_step crc bs symbols e offset = Inr (None, offset') \<Longrightarrow>
     offset < length bs \<and> bs ! offset = 0 \<and> offset' = align16 offset"
  by (auto simp: series_step_def res_simps split: if_splits prod.splits)

lemma series_step_entry:
  assumes "series_step crc bs symbols e offset = Inr (Some series, offset')"
  shows "\<exists>start len. offset < start \<and> start + len + 4 \<le> e \<and> offset' = align16 (start + len + 4)
    \<and> start + len + 4 \<le> length bs
    \<and> read_u32 bs (start + len) = Inr (crc (slice bs start (start + len)))
    \<and> parse_series (slice bs start (start + len)) (offset div 16) symbols = Inr series"
proof -
  from assms obtain len sz where
    "read_uvarint bs offset = Inr (len, sz)" and rest: "offset + sz + unat len + CHECKSUM_SIZE \<le> e"
    "verify_crc crc bs (offset + sz) (unat len) ''series entry'' = Inr ()"
    "parse_series (slice bs (offset + sz) (offset + sz + unat len)) (offset div 16) symbols = Inr series"
    "offset' = align16 (offset + sz + unat len + CHECKSUM_SIZE)"
    by (auto simp: series_step_def SERIES_ALIGNMENT_def res_simps split: if_splits prod.splits)
  moreover from this(1) have "0 < sz" by (auto dest: read_uvarint_size)
  ultimately show ?thesis
    by (intro exI [of _ "offset + sz"] exI [of _ "unat len"])
      (auto simp: verify_crc_def CHECKSUM_SIZE_def res_simps dest: read_u32_bound split: if_splits)
qed

lemma series_step_progress:
  "series_step crc bs symbols e offset = Inr (o', offset') \<Longrightarrow> offset < e \<Longrightarrow>
     offset < offset' \<or> (stuck bs e offset \<and> o' = None \<and> offset' = offset)"
  using align16_props(1) [of offset] align16_props(3) [of offset]
  by (cases o') (force simp: stuck_def dest!: series_step_padding,
      force dest!: series_step_entry intro: less_le_trans [OF _ align16_props(1)])

lemma stuck_step: "stuck bs e offset \<Longrightarrow> offset + 15 < 2 ^ 64
    \<Longrightarrow> series_step crc bs symbols e offset = Inr (None, offset)"
  using align16_props(3) [of offset] by (simp add: series_step_def stuck_def res_simps elem_index_def)

lemma stuck_no_run:
  "loop_run crc bs symbols e offset r es \<Longrightarrow> stuck bs e offset \<Longrightarrow> offset + 15 < 2 ^ 64 \<Longrightarrow> False"
  by (induction rule: loop_run.induct) (auto simp: stuck_step stuck_def)

lemma loop_run_exists:
  "(\<And>k. offset \<le> k \<Longrightarrow> \<not> stuck bs e k) \<Longrightarrow> \<exists>r es. loop_run crc bs symbols e offset r es"
proof (induction "e - offset" arbitrary: offset rule: less_induct)
  case less
  show ?case
  proof (cases "offset < e")
    case False
    then have "loop_run crc bs symbols e offset (Inr ()) []" by (intro at_end) simp
    then show ?thesis by blast
  next
    case lt: True
    show ?thesis
    proof (cases "series_step crc bs symbols e offset")
      case (Inl err)
      with lt show ?thesis by (blast intro: failed)
    next
      case (Inr so)
      then obtain o' off' where st: "series_step crc bs symbols e offset = Inr (o', off')"
        by (cases so) auto
      with lt less.prems [of offset] have "offset < off'" by (auto dest: series_step_progress)
      with lt have "\<exists>r es. loop_run crc bs symbols e off' r es"
        by (intro less.hyps less.prems) auto
      with st lt show ?thesis
        by (cases o') (blast intro: padding entry)+
    qed
  qed
qed

text \<open>The offsets the loop arrives at; it fails to return exactly when one of them is stuck.\<close>

inductive loop_reaches ::
  "(bytes \<Rightarrow> u32) \<Rightarrow> bytes \<Rightarrow> string list \<Rightarrow> nat \<Rightarrow> nat \<Rightarrow> nat \<Rightarrow> bool"
  for crc :: "bytes \<Rightarrow> u32" and bs :: bytes and symbols :: "string list" and series_end :: nat where
  here: "loop_reaches crc bs symbols series_end offset offset"
| onward: "offset < series_end \<Longrightarrow> series_step crc bs symbols series_end offset = Inr (o', offset')
    \<Longrightarrow> loop_reaches crc bs symbols series_end offset' k
    \<Longrightarrow> loop_reaches crc bs symbols series_end offset k"

inductive_cases loop_run_cases: "loop_run crc bs symbols e offset r es"

lemma loop_run_onward:
  "loop_reaches crc bs symbols e offset k \<Longrightarrow> loop_run crc bs symbols e offset r es \<Longrightarrow>
     \<exists>es'. loop_run crc bs symbols e k r es'"
  by (induction arbitrary: es rule: loop_reaches.induct) (auto elim: loop_run_cases)

lemma no_run_reaches_stuck:
  "(\<nexists>r es. loop_run crc bs symbols e offset r es) \<Longrightarrow>
     \<exists>k. loop_reaches crc bs symbols e offset k \<and> stuck bs e k"
proof (induction "e - offset" arbitrary: offset rule: less_induct)
  case less
  have lt: "offset < e" using less.prems at_end [of e offset] by (meson not_le)
  then obtain so where "series_step crc bs symbols e offset = Inr so"
    using less.prems failed by (metis sumE)
  then obtain o' off' where st: "series_step crc bs symbols e offset = Inr (o', off')" by (cases so) auto
  show ?case
  proof (cases "stuck bs e offset")
    case True
    then show ?thesis by (blast intro: here)
  next
    case False
    with series_step_progress [OF st lt] have "e - off' < e - offset" using lt by auto
    moreover have "\<nexists>r es. loop_run crc bs symbols e off' r es"
      using less.prems padding [OF lt] entry [OF lt] st by (cases o') blast+
    ultimately show ?thesis using less.hyps onward [OF lt st] by blast
  qed
qed

lemma no_run_iff_stuck:
  assumes "length bs < 2 ^ 63"
  shows "(\<nexists>r es. loop_run crc bs symbols e offset r es) \<longleftrightarrow>
    (\<exists>k. loop_reaches crc bs symbols e offset k \<and> stuck bs e k)"
proof
  assume "\<exists>k. loop_reaches crc bs symbols e offset k \<and> stuck bs e k"
  then obtain k where k: "loop_reaches crc bs symbols e offset k" "stuck bs e k" by blast
  moreover from this have "k + 15 < 2 ^ 64" using assms by (auto simp: stuck_def)
  ultimately show "\<nexists>r es. loop_run crc bs symbols e offset r es"
    using loop_run_onward stuck_no_run by metis
qed (rule no_run_reaches_stuck)

section \<open>Well-formed series\<close>

definition chunk_before :: "index_chunk \<Rightarrow> index_chunk \<Rightarrow> bool" where
  "chunk_before c d \<longleftrightarrow> ic_maxt c \<le> ic_mint d \<and> ic_reference c < ic_reference d"

definition chunk_ok :: "index_chunk \<Rightarrow> bool" where
  "chunk_ok c \<longleftrightarrow> ic_mint c \<le> ic_maxt c \<and> is_i64 (ic_mint c) \<and> is_i64 (ic_maxt c)"

definition chunks_ok :: "index_chunk list \<Rightarrow> bool" where
  "chunks_ok cs \<longleftrightarrow> list_all chunk_ok cs \<and> sorted_wrt chunk_before cs"

lemma sint_is_i64: "is_i64 (sint (w :: u64))"
  using sint_greater_eq [of w] sint_less [of w] by (simp add: is_i64_def)

lemma read_mint_ok:
  "read_mint bs p pm = Inr (mint, p') \<Longrightarrow> is_i64 mint \<and> (\<forall>m. pm = Some m \<longrightarrow> m \<le> mint)"
  by (auto simp: read_mint_def read_varint_def res_simps sint_is_i64 split: option.splits prod.splits)

lemma read_maxt_ok: "read_maxt bs p mint = Inr (maxt, p') \<Longrightarrow> is_i64 maxt \<and> mint \<le> maxt"
  by (auto simp: read_maxt_def res_simps split: prod.splits)

lemma chunk_loop_ok:
  assumes "chunk_loop bs n p pm pr = Inr (p', cs)"
  shows "length cs = n \<and> chunks_ok cs \<and>
    (\<forall>c\<in>set cs. (\<forall>m. pm = Some m \<longrightarrow> m \<le> ic_mint c) \<and> (\<forall>r. pr = Some r \<longrightarrow> r < ic_reference c))"
  using assms
proof (induction bs n p pm pr arbitrary: p' cs rule: chunk_loop.induct)
  case (1 bs p pm pr)
  then show ?case by (simp add: chunks_ok_def)
next
  case (2 bs n p pm pr)
  from "2.prems" obtain mint p1 maxt p2 ref p3 cs' where
    r: "read_mint bs p pm = Inr (mint, p1)" "read_maxt bs p1 mint = Inr (maxt, p2)"
       "read_reference bs p2 pr = Inr (ref, p3)"
    and g: "\<not> (case pm of Some m \<Rightarrow> mint < m | None \<Rightarrow> False)" "\<not> (case pr of Some r \<Rightarrow> ref \<le> r | None \<Rightarrow> False)"
    and rec: "chunk_loop bs n p3 (Some maxt) (Some ref) = Inr (p', cs')"
    and cs: "cs = \<lparr>ic_mint = mint, ic_maxt = maxt, ic_reference = ref\<rparr> # cs'"
    by (auto simp: res_simps split: if_splits)
  note IH = "2.IH" [OF r(1) refl r(2) refl r(3) refl g rec]
  note m = read_mint_ok [OF r(1)] read_maxt_ok [OF r(2)]
  from g(2) have "\<forall>r. pr = Some r \<longrightarrow> r < ref" by (auto split: option.splits)
  with IH m show ?case
    unfolding cs by (auto simp: chunks_ok_def chunk_ok_def chunk_before_def intro: order_trans less_trans)
qed

lemma label_loop_ok: "label_loop bs symbols n p labels = Inr (p', labels') \<Longrightarrow> bt_ok labels \<Longrightarrow> bt_ok labels'"
  by (induction bs symbols n p labels arbitrary: p' labels' rule: label_loop.induct)
    (auto simp: res_simps bt.inv_insert split: option.splits)

section \<open>The round trip of a series entry\<close>

text \<open>The reference encoder of a series entry, as Prometheus' index writer lays it out.\<close>

fun index_of :: "'a \<Rightarrow> 'a list \<Rightarrow> nat" where
  "index_of x [] = 0"
| "index_of x (y # ys) = (if x = y then 0 else Suc (index_of x ys))"

definition encode_labels :: "string list \<Rightarrow> (string \<times> string) list \<Rightarrow> bytes" where
  "encode_labels symbols labels = concat (map (\<lambda>(name, value).
     encode_uvarint (index_of name symbols) @ encode_uvarint (index_of value symbols)) labels)"

fun encode_chunks :: "(int \<times> u64) option \<Rightarrow> index_chunk list \<Rightarrow> bytes" where
  "encode_chunks prev [] = []"
| "encode_chunks prev (c # cs) =
     (case prev of None \<Rightarrow> encode_varint (ic_mint c) | Some (m, r) \<Rightarrow> encode_uvarint (nat (ic_mint c - m)))
     @ encode_uvarint (nat (ic_maxt c - ic_mint c))
     @ (case prev of None \<Rightarrow> encode_uvarint (unat (ic_reference c))
        | Some (m, r) \<Rightarrow> encode_varint (uint (ic_reference c) - uint r))
     @ encode_chunks (Some (ic_maxt c, ic_reference c)) cs"

definition encode_series :: "string list \<Rightarrow> index_series \<Rightarrow> bytes" where
  "encode_series symbols s =
     encode_uvarint (length (is_labels s)) @ encode_labels symbols (is_labels s)
     @ encode_uvarint (length (is_chunks s)) @ encode_chunks None (is_chunks s)"

text \<open>The series the format can carry: each of its differences fits the integer that holds it.\<close>

fun chunks_encodable :: "(int \<times> u64) option \<Rightarrow> index_chunk list \<Rightarrow> bool" where
  "chunks_encodable prev [] = True"
| "chunks_encodable prev (c # cs) =
     (chunk_ok c \<and> ic_maxt c - ic_mint c < 2 ^ 63
      \<and> (case prev of None \<Rightarrow> True | Some (m, r) \<Rightarrow>
           m \<le> ic_mint c \<and> ic_mint c - m < 2 ^ 63
           \<and> r < ic_reference c \<and> uint (ic_reference c) - uint r < 2 ^ 63)
      \<and> chunks_encodable (Some (ic_maxt c, ic_reference c)) cs)"

definition series_encodable :: "string list \<Rightarrow> index_series \<Rightarrow> bool" where
  "series_encodable symbols s \<longleftrightarrow>
     bt_ok (is_labels s) \<and> (\<forall>(n, v) \<in> set (is_labels s). n \<in> set symbols \<and> v \<in> set symbols)
     \<and> chunks_encodable None (is_chunks s)
     \<and> length symbols < 2 ^ 64 \<and> length (is_labels s) < 2 ^ 64 \<and> length (is_chunks s) * 24 < 2 ^ 63"

lemma index_of_nth: "x \<in> set xs \<Longrightarrow> index_of x xs < length xs \<and> xs ! index_of x xs = x"
  by (induction xs) auto

lemma drop_app: "drop p bs = xs @ ys \<Longrightarrow> drop (p + length xs) bs = ys"
  by (metis add.commute append_eq_conv_conj drop_drop)

lemma symbol_index_of:
  "x \<in> set symbols \<Longrightarrow> length symbols < 2 ^ 64 \<Longrightarrow> symbol symbols (word_of_nat (index_of x symbols)) = Inr x"
  using index_of_nth [of x symbols] by (auto simp: symbol_def unat_of_nat64 elem_get_def)

lemma bt_insert_last: "(\<And>k'. k' \<in> set (map fst m) \<Longrightarrow> k' < k) \<Longrightarrow> bt_insert k v m = m @ [(k, v)]"
proof (induction m)
  case (Cons e m)
  obtain a b where e: "e = (a, b)" by (cases e)
  have "a < k" using Cons.prems [of a] by (simp add: e)
  moreover have "bt_insert k v m = m @ [(k, v)]" using Cons.prems by (intro Cons.IH) simp
  ultimately show ?case by (auto simp: e)
qed simp

lemma label_loop_encode:
  assumes "drop p bs = encode_labels symbols labels @ rest"
    and "bt_ok (acc @ labels)"
    and "\<forall>(n, v) \<in> set labels. n \<in> set symbols \<and> v \<in> set symbols" and "length symbols < 2 ^ 64"
  shows "label_loop bs symbols (length labels) p acc
    = Inr (p + length (encode_labels symbols labels), acc @ labels)"
  using assms
proof (induction labels arbitrary: p acc)
  case Nil
  then show ?case by (simp add: encode_labels_def)
next
  case (Cons l labels)
  obtain n v where l: "l = (n, v)" by (cases l)
  let ?en = "encode_uvarint (index_of n symbols)" and ?ev = "encode_uvarint (index_of v symbols)"
  have e: "encode_labels symbols (l # labels) = ?en @ ?ev @ encode_labels symbols labels"
    by (simp add: encode_labels_def l)
  from Cons.prems(3) have nv: "n \<in> set symbols" "v \<in> set symbols" by (auto simp: l)
  note b = index_of_nth [OF nv(1)] index_of_nth [OF nv(2)]
  have d1: "drop p bs = ?en @ (?ev @ encode_labels symbols labels @ rest)"
    using Cons.prems(1) by (simp add: e)
  note d2 = drop_app [OF d1]
  note d3 = drop_app [OF d2]
  have r1: "read_uvarint bs p = Inr (word_of_nat (index_of n symbols), length ?en)"
    using b Cons.prems(4) by (intro read_uvarint_encode [OF d1]) simp
  have r2: "read_uvarint bs (p + length ?en) = Inr (word_of_nat (index_of v symbols), length ?ev)"
    using b Cons.prems(4) by (intro read_uvarint_encode [OF d2]) simp
  have lt: "\<And>k. k \<in> set (map fst acc) \<Longrightarrow> k < n"
    using Cons.prems(2) by (auto simp: bt_ok_def sorted_wrt_append l)
  then have ins: "bt_insert n v acc = acc @ [(n, v)]" by (rule bt_insert_last)
  have "bt_get acc n = None"
    using lt by (force simp: bt_get_def map_of_eq_None_iff)
  moreover have "label_loop bs symbols (length labels) (p + length ?en + length ?ev) (acc @ [(n, v)])
    = Inr (p + length ?en + length ?ev + length (encode_labels symbols labels), (acc @ [(n, v)]) @ labels)"
    using Cons.prems d3 by (intro Cons.IH) (auto simp: l)
  ultimately show ?case
    using nv Cons.prems(4) by (simp add: r1 r2 symbol_index_of ins e [unfolded l] l add.assoc)
qed

lemma uint_of_nat_nat: "0 \<le> i \<Longrightarrow> i < 2 ^ 63 \<Longrightarrow> i64_try_from_u64 (word_of_nat (nat i)) = Some i"
proof -
  assume i: "0 \<le> i" "i < 2 ^ 63"
  then have "unat (word_of_nat (nat i) :: u64) = nat i" by (intro unat_of_nat64) simp
  moreover from this have "uint (word_of_nat (nat i) :: u64) = i"
    using i by (simp only: uint_nat int_nat_eq if_True)
  ultimately show ?thesis using i by (simp add: i64_try_from_u64_def)
qed

lemma read_delta:
  assumes "drop p bs = encode_uvarint (nat i) @ rest" and "0 \<le> i" and "i < 2 ^ 63"
  shows "tryR (read_uvarint bs p) (\<lambda>(delta, sz). tryR (ok_or e (i64_try_from_u64 delta)) (f sz))
    = f (length (encode_uvarint (nat i))) i"
proof -
  have "read_uvarint bs p = Inr (word_of_nat (nat i), length (encode_uvarint (nat i)))"
    using assms by (intro read_uvarint_encode [OF assms(1)]) simp
  with uint_of_nat_nat [OF assms(2,3)] show ?thesis
    by (simp only: tryR_Inr prod.case ok_or_simps)
qed

lemma chunk_loop_encode:
  assumes "drop p bs = encode_chunks prev cs @ rest" and "chunks_encodable prev cs"
    and "\<forall>m r. prev = Some (m, r) \<longrightarrow> is_i64 m"
  shows "chunk_loop bs (length cs) p (map_option fst prev) (map_option snd prev)
    = Inr (p + length (encode_chunks prev cs), cs)"
  using assms
proof (induction cs arbitrary: p prev)
  case Nil
  then show ?case by simp
next
  case (Cons c cs)
  define em where "em = (case prev of None \<Rightarrow> encode_varint (ic_mint c)
    | Some (m, r) \<Rightarrow> encode_uvarint (nat (ic_mint c - m)))"
  define ed where "ed = encode_uvarint (nat (ic_maxt c - ic_mint c))"
  define er where "er = (case prev of None \<Rightarrow> encode_uvarint (unat (ic_reference c))
    | Some (m, r) \<Rightarrow> encode_varint (uint (ic_reference c) - uint r))"
  let ?next = "Some (ic_maxt c, ic_reference c)"
  have e: "encode_chunks prev (c # cs) = em @ ed @ er @ encode_chunks ?next cs"
    by (simp add: em_def ed_def er_def)
  from Cons.prems(2) have ok: "chunk_ok c" "ic_maxt c - ic_mint c < 2 ^ 63" "chunks_encodable ?next cs"
    and pv: "\<And>m r. prev = Some (m, r) \<Longrightarrow> m \<le> ic_mint c \<and> ic_mint c - m < 2 ^ 63
           \<and> r < ic_reference c \<and> uint (ic_reference c) - uint r < 2 ^ 63"
    by auto
  have d1: "drop p bs = em @ (ed @ er @ encode_chunks ?next cs @ rest)"
    using Cons.prems(1) unfolding e by simp
  note d2 = drop_app [OF d1]
  note d3 = drop_app [OF d2]
  note d4 = drop_app [OF d3]
  have r1: "read_mint bs p (map_option fst prev) = Inr (ic_mint c, p + length em)"
  proof (cases prev)
    case None
    then show ?thesis
      using d1 ok(1) by (simp add: read_mint_def em_def chunk_ok_def read_varint_encode)
  next
    case (Some mr)
    then obtain m r where mr: "prev = Some (m, r)" by (cases mr) auto
    then show ?thesis
      using d1 pv [OF mr] ok(1) Cons.prems(3)
      by (simp add: read_mint_def em_def read_delta chunk_ok_def i64_checked_add_def is_i64_def)
  qed
  have r2: "read_maxt bs (p + length em) (ic_mint c) = Inr (ic_maxt c, p + length em + length ed)"
    using d2 ok by (simp add: read_maxt_def ed_def read_delta chunk_ok_def i64_checked_add_def is_i64_def)
  have r3: "read_reference bs (p + length em + length ed) (map_option snd prev)
      = Inr (ic_reference c, p + length em + length ed + length er)"
  proof (cases prev)
    case None
    then show ?thesis
      using d3 unsigned_less [of "ic_reference c", where 'a=nat]
      by (simp add: read_reference_def er_def read_uvarint_encode)
  next
    case (Some mr)
    then obtain m r where mr: "prev = Some (m, r)" by (cases mr) auto
    have "is_i64 (uint (ic_reference c) - uint r)"
      using pv [OF mr] by (auto simp: is_i64_def word_less_def)
    moreover have "uint (ic_reference c) < 2 ^ 64"
      using unsigned_less [of "ic_reference c", where 'a=int] by simp
    ultimately show ?thesis
      using d3 mr by (simp add: read_reference_def er_def read_varint_encode Let_def)
  qed
  have rec: "chunk_loop bs (length cs) (p + length em + length ed + length er)
      (map_option fst ?next) (map_option snd ?next)
    = Inr (p + length em + length ed + length er + length (encode_chunks ?next cs), cs)"
    using d4 ok by (intro Cons.IH) (auto simp: chunk_ok_def)
  have g: "\<not> (case map_option fst prev of Some m \<Rightarrow> ic_mint c < m | None \<Rightarrow> False)"
     "\<not> (case map_option snd prev of Some r \<Rightarrow> ic_reference c \<le> r | None \<Rightarrow> False)"
    using pv by (auto split: option.splits)
  have "chunk_loop bs (length (c # cs)) p (map_option fst prev) (map_option snd prev)
    = Inr (p + length em + length ed + length er + length (encode_chunks ?next cs),
        \<lparr>ic_mint = ic_mint c, ic_maxt = ic_maxt c, ic_reference = ic_reference c\<rparr> # cs)"
    using g by (simp only: length_Cons chunk_loop.simps r1 r2 r3 tryR_Inr prod.case if_False
        rec [unfolded option.map fst_conv snd_conv])
  then show ?case
    unfolding e by (simp add: add.assoc)
qed

lemma parse_series_encode:
  assumes "series_encodable symbols s"
  shows "parse_series (encode_series symbols s) (is_reference s) symbols = Inr s"
proof -
  let ?bs = "encode_series symbols s"
  let ?nl = "encode_uvarint (length (is_labels s))" and ?l = "encode_labels symbols (is_labels s)"
    and ?nc = "encode_uvarint (length (is_chunks s))" and ?c = "encode_chunks None (is_chunks s)"
  note ok = assms [unfolded series_encodable_def]
  have d0: "drop 0 ?bs = ?nl @ (?l @ ?nc @ ?c @ [])" by (simp add: encode_series_def)
  note d1 = drop_app [OF d0, unfolded add_0]
  note d2 = drop_app [OF d1]
  note d3 = drop_app [OF d2]
  have "read_uvarint ?bs 0 = Inr (word_of_nat (length (is_labels s)), length ?nl)"
    using ok by (intro read_uvarint_encode [OF d0]) simp
  moreover have "label_loop ?bs symbols (length (is_labels s)) (length ?nl) []
      = Inr (length ?nl + length ?l, [] @ is_labels s)"
    using ok by (intro label_loop_encode [OF d1]) auto
  moreover have "read_uvarint ?bs (length ?nl + length ?l) = Inr (word_of_nat (length (is_chunks s)), length ?nc)"
    using ok by (intro read_uvarint_encode [OF d2]) simp
  moreover have "chunk_loop ?bs (length (is_chunks s)) (length ?nl + length ?l + length ?nc)
      (map_option fst (None :: (int \<times> u64) option)) (map_option snd (None :: (int \<times> u64) option))
    = Inr (length ?nl + length ?l + length ?nc + length ?c, is_chunks s)"
    using ok by (intro chunk_loop_encode [OF d3]) auto
  moreover have "length ?bs = length ?nl + length ?l + length ?nc + length ?c"
    by (simp add: encode_series_def)
  ultimately show ?thesis
    using ok by (simp add: parse_series_def unat_of_nat64 chunk_vec_capacity_ok_def)
qed

section \<open>What a run of the loop delivers\<close>

lemma parse_series_reference: "parse_series bs ref symbols = Inr s \<Longrightarrow> is_reference s = ref"
  by (auto simp: parse_series_def res_simps split: prod.splits if_splits)

lemma parse_series_ok: "parse_series bs ref symbols = Inr s \<Longrightarrow> bt_ok (is_labels s) \<and> chunks_ok (is_chunks s)"
  by (auto simp: parse_series_def res_simps split: prod.splits if_splits
      dest!: label_loop_ok chunk_loop_ok intro: bt.inv_empty)

lemma loop_run_entries:
  "loop_run crc bs symbols e offset r es \<Longrightarrow> s \<in> set es \<Longrightarrow>
     \<exists>start len. start + len + 4 \<le> length bs
       \<and> read_u32 bs (start + len) = Inr (crc (slice bs start (start + len)))
       \<and> parse_series (slice bs start (start + len)) (is_reference s) symbols = Inr s"
proof (induction rule: loop_run.induct)
  case (entry offset series offset' r es)
  from series_step_entry [OF entry.hyps(2)] obtain start len where
    st: "start + len + 4 \<le> length bs" "read_u32 bs (start + len) = Inr (crc (slice bs start (start + len)))"
    "parse_series (slice bs start (start + len)) (offset div 16) symbols = Inr series" by blast
  show ?case
  proof (cases "s = series")
    case True
    then show ?thesis
      using st parse_series_reference [OF st(3)]
      by (intro exI [of _ start] exI [of _ len]) simp
  next
    case False
    with entry show ?thesis by auto
  qed
qed auto

lemma series_step_panic:
  assumes "series_step crc bs symbols e offset = Inl Panic" and "offset < length bs"
  shows "\<exists>start len. start + len \<le> length bs
    \<and> parse_series (slice bs start (start + len)) (offset div 16) symbols = Inl Panic"
proof (rule ccontr)
  assume "\<not> ?thesis"
  then have "no_panic (parse_series (slice bs start (start + len)) (offset div 16) symbols)"
    if "start + len \<le> length bs" for start len
    using that by (auto simp: no_panic_def)
  then have "no_panic (series_step crc bs symbols e offset)"
    using assms(2) by (auto simp: series_step_def res_simps verify_crc_def SERIES_ALIGNMENT_def
        intro!: elem_index_no_panic slice_index_no_panic dest!: read_u32_bound)
  with assms(1) show False by simp
qed

lemma loop_run_panic:
  "loop_run crc bs symbols e offset r es \<Longrightarrow> r = Inl Panic \<Longrightarrow> e \<le> length bs \<Longrightarrow>
     \<exists>start len ref. start + len \<le> length bs \<and> parse_series (slice bs start (start + len)) ref symbols = Inl Panic"
  by (induction rule: loop_run.induct) (auto dest!: series_step_panic)

lemma parse_prologue_bounds:
  "parse_prologue crc bs = Inr (symbols, start, e) \<Longrightarrow> start \<le> e \<and> e + 52 \<le> length bs"
  by (auto simp: parse_prologue_def Let_def index_consts res_simps split: if_splits)

lemma parse_each_run:
  "parse_each crc bs visit s = Some (r, s') \<longleftrightarrow>
     (case parse_prologue crc bs of
        Inl err \<Rightarrow> r = Inl err \<and> s' = s
      | Inr (symbols, start, e) \<Rightarrow> \<exists>es. loop_run crc bs symbols e start r es \<and> s' = fold visit es s)"
  by (auto simp: parse_each_def series_loop_iff split: sum.split)

lemma parse_run:
  "parse crc bs = Some r \<longleftrightarrow>
     (case parse_prologue crc bs of
        Inl err \<Rightarrow> r = Inl err
      | Inr (symbols, start, e) \<Rightarrow>
          \<exists>r' es. loop_run crc bs symbols e start r' es \<and> tryR r' (\<lambda>_. Inr es) = r)"
  by (auto simp: parse_def parse_each_run split: sum.split)

lemma parse_Inr_run:
  "parse crc bs = Some (Inr es) \<Longrightarrow>
     \<exists>symbols start e. parse_prologue crc bs = Inr (symbols, start, e) \<and> loop_run crc bs symbols e start (Inr ()) es"
  by (auto simp: parse_run res_simps split: sum.splits prod.splits)

lemma parse_each_fold:
  "parse_each crc bs visit s
   = map_option (\<lambda>(r, es). (r, fold visit es s)) (parse_each crc bs (\<lambda>e es. es @ [e]) [])"
proof -
  have "parse_each crc bs visit s = Some x
    \<longleftrightarrow> map_option (\<lambda>(r, es). (r, fold visit es s)) (parse_each crc bs (\<lambda>e es. es @ [e]) []) = Some x" for x
    by (cases x) (auto simp: parse_each_run split: sum.splits)
  then show ?thesis by (metis not_Some_eq)
qed

lemma parse_each_visited:
  "parse_each crc bs visit s = Some (r, s') \<Longrightarrow>
    \<exists>es. s' = fold visit es s \<and> parse crc bs = Some (tryR r (\<lambda>_. Inr es))"
  by (subst (asm) parse_each_fold) (auto simp: parse_def)

lemma parse_each_parsed:
  "parse crc bs = Some (Inr es) \<Longrightarrow> parse_each crc bs visit s = Some (Inr (), fold visit es s)"
  by (subst parse_each_fold) (auto simp: parse_def tryR_eq_Inr)

end
