(* ===== verification/Tsdb_Index_File.thy ===== *)
theory Tsdb_Index_File
  imports Tsdb_Index_Facts
begin

text \<open>
  The round trip of a whole index file: a reference encoder that lays out the magic number, the symbol
  table, the padded series entries, whatever lies between them and the table of contents, and the table of
  contents, all with their checksums, and the lemmas that the parser reads each part back.
\<close>

section \<open>The reference encoder\<close>

definition encode_strings :: "string list \<Rightarrow> bytes" where
  "encode_strings ss = concat (map (\<lambda>s. encode_uvarint (length s) @ bytes_of_str s) ss)"

text \<open>A section with its checksum.\<close>

definition checksummed :: "(bytes \<Rightarrow> u32) \<Rightarrow> bytes \<Rightarrow> bytes" where
  "checksummed crc content = content @ to_be_bytes 4 (unat (crc content))"

definition symbol_content :: "string list \<Rightarrow> bytes" where
  "symbol_content ss = to_be_bytes 4 (length ss) @ encode_strings ss"

definition encode_symbols :: "(bytes \<Rightarrow> u32) \<Rightarrow> string list \<Rightarrow> bytes" where
  "encode_symbols crc ss = to_be_bytes 4 (length (symbol_content ss)) @ checksummed crc (symbol_content ss)"

definition encode_entry :: "(bytes \<Rightarrow> u32) \<Rightarrow> string list \<Rightarrow> index_series \<Rightarrow> bytes" where
  "encode_entry crc symbols s = encode_uvarint (length (encode_series symbols s)) @ checksummed crc (encode_series symbols s)"

text \<open>Each entry starts at a multiple of 16, and that multiple is the reference of its series.\<close>

fun encode_entries :: "(bytes \<Rightarrow> u32) \<Rightarrow> string list \<Rightarrow> nat \<Rightarrow> index_series list \<Rightarrow> bytes" where
  "encode_entries crc symbols pos [] = []"
| "encode_entries crc symbols pos (s # ss) =
     replicate (align16 pos - pos) 0 @ encode_entry crc symbols s
     @ encode_entries crc symbols (align16 pos + length (encode_entry crc symbols s)) ss"

fun placed :: "(bytes \<Rightarrow> u32) \<Rightarrow> string list \<Rightarrow> nat \<Rightarrow> index_series list \<Rightarrow> index_series list" where
  "placed crc symbols pos [] = []"
| "placed crc symbols pos (s # ss) =
     s\<lparr>is_reference := align16 pos div 16\<rparr>
     # placed crc symbols (align16 pos + length (encode_entry crc symbols s)) ss"

text \<open>\<open>middle\<close> is what lies between the series and the table of contents, \<open>others\<close> the rest of the latter.\<close>

definition series_start_of :: "(bytes \<Rightarrow> u32) \<Rightarrow> string list \<Rightarrow> nat" where
  "series_start_of crc symbols = 5 + length (encode_symbols crc symbols)"

definition encode_toc :: "(bytes \<Rightarrow> u32) \<Rightarrow> string list \<Rightarrow> index_series list \<Rightarrow> bytes \<Rightarrow> bytes" where
  "encode_toc crc symbols ss others =
     (let start = series_start_of crc symbols in
      to_be_bytes 8 5 @ to_be_bytes 8 start
      @ to_be_bytes 8 (start + length (encode_entries crc symbols start ss)) @ others)"

definition encode_index ::
  "(bytes \<Rightarrow> u32) \<Rightarrow> nat \<Rightarrow> string list \<Rightarrow> index_series list \<Rightarrow> bytes \<Rightarrow> bytes \<Rightarrow> bytes" where
  "encode_index crc version symbols ss middle others =
     to_be_bytes 4 INDEX_MAGIC @ [word_of_nat version] @ encode_symbols crc symbols
     @ encode_entries crc symbols (series_start_of crc symbols) ss @ middle
     @ checksummed crc (encode_toc crc symbols ss others)"

section \<open>Reading at a place\<close>

lemma at_slice: "drop p bs = xs @ rest \<Longrightarrow> slice bs p (p + length xs) = xs"
  by (simp add: slice_def)

lemma at_bound: "drop p bs = xs @ rest \<Longrightarrow> xs \<noteq> [] \<Longrightarrow> p + length xs + length rest = length bs"
proof -
  assume "drop p bs = xs @ rest" "xs \<noteq> []"
  then have "length bs - p = length xs + length rest" "0 < length xs"
    by (metis length_append length_drop, simp)
  then show ?thesis by linarith
qed

lemma at_slice_get: "drop p bs = xs @ rest \<Longrightarrow> xs \<noteq> [] \<Longrightarrow> slice_get bs p (p + length xs) = Some xs"
  using at_slice [of p bs xs rest] at_bound [of p bs xs rest] by simp

lemma at_slice_index:
  "drop p bs = xs @ rest \<Longrightarrow> p + length xs \<le> length bs \<Longrightarrow> slice_index bs p (p + length xs) = Inr xs"
  using at_slice [of p bs xs rest] by (simp add: slice_index_ok)

lemma to_be_bytes_Nil [simp]: "to_be_bytes k n = [] \<longleftrightarrow> k = 0"
  by (cases k) simp_all

lemma checksummed_simps [simp]: "checksummed crc xs \<noteq> []" "length (checksummed crc xs) = length xs + 4"
  by (simp_all add: checksummed_def)

lemma read_u32_at:
  assumes "drop p bs = to_be_bytes 4 n @ rest" and "n < 2 ^ 32"
  shows "read_u32 bs p = Inr (word_of_nat n)"
proof -
  from at_slice_get [OF assms(1)] assms(2) show ?thesis
    by (simp del: slice_get_Some add: read_u32_def be_nat_to_be_bytes)
qed

lemma read_u64_at:
  assumes "drop p bs = to_be_bytes 8 n @ rest" and "n < 2 ^ 64"
  shows "read_u64 bs p = Inr (word_of_nat n)"
proof -
  from at_slice_get [OF assms(1)] assms(2) show ?thesis
    by (simp del: slice_get_Some add: read_u64_def be_nat_to_be_bytes)
qed

lemma verify_crc_at:
  assumes "drop p bs = checksummed crc xs @ rest" and "p + length xs < 2 ^ 64" and "p + length xs \<le> length bs"
  shows "verify_crc crc bs p (length xs) name = Inr ()"
proof -
  have at: "drop p bs = xs @ to_be_bytes 4 (unat (crc xs)) @ rest" using assms(1) by (simp add: checksummed_def)
  have "read_u32 bs (p + length xs) = Inr (word_of_nat (unat (crc xs)))"
    by (rule read_u32_at [OF drop_app [OF at]]) (use unsigned_less [of "crc xs", where 'a=nat] in simp)
  then show ?thesis using assms(2) by (simp add: verify_crc_def usize_checked_add_def at_slice_index [OF at assms(3)])
qed

section \<open>Symbols\<close>

lemma symbols_loop_at:
  assumes "drop p bs = encode_strings ss @ rest" and "\<forall>s \<in> set ss. utf8_valid (bytes_of_str s)"
    and "p + length (encode_strings ss) \<le> e" and "e \<le> length bs" and "length bs < 2 ^ 63"
  shows "symbols_loop bs e (length ss) p = Inr (p + length (encode_strings ss), ss)"
  using assms
proof (induction ss arbitrary: p)
  case Nil
  then show ?case by (simp add: encode_strings_def)
next
  case (Cons s ss)
  let ?n = "encode_uvarint (length s)"
  have e: "encode_strings (s # ss) = ?n @ bytes_of_str s @ encode_strings ss" by (simp add: encode_strings_def)
  have at: "drop p bs = ?n @ bytes_of_str s @ encode_strings ss @ rest" using Cons.prems(1) by (simp add: e)
  note at1 = drop_app [OF at]
  note at2 = drop_app [OF at1]
  have fit: "p + length ?n + length s \<le> e" using Cons.prems(3) by (simp add: e)
  have "read_uvarint bs p = Inr (word_of_nat (length s), length ?n)"
    by (rule read_uvarint_encode [OF at]) (use fit Cons.prems in simp)
  moreover have "unat (word_of_nat (length s) :: u64) = length s" by (rule unat_of_nat64) (use fit Cons.prems in simp)
  moreover have "symbols_loop bs e (length ss) (p + length ?n + length s) = Inr (p + length ?n + length s + length (encode_strings ss), ss)"
    by (rule Cons.IH) (use at2 Cons.prems in \<open>simp_all add: e\<close>)
  ultimately show ?case
    using fit Cons.prems at_slice_index [OF at1, where 'b = string] by (simp add: usize_checked_add_def from_utf8_def e)
qed

lemma parse_symbols_at:
  assumes at: "drop p bs = encode_symbols crc ss @ rest" and "\<forall>s \<in> set ss. utf8_valid (bytes_of_str s)"
    and small: "length (symbol_content ss) < 2 ^ 32" and "length bs < 2 ^ 63"
  shows "parse_symbols crc bs p = Inr ss"
proof -
  let ?content = "symbol_content ss" and ?at = "p + 4"
  have all: "drop p bs = to_be_bytes 4 (length ?content) @ checksummed crc ?content @ rest"
    using at by (simp add: encode_symbols_def)
  have body: "drop ?at bs = checksummed crc ?content @ rest" using drop_app [OF all] by simp
  have bound: "?at + length ?content + 4 \<le> length bs"
    using at_bound [OF body] by simp
  have count: "drop ?at bs = to_be_bytes 4 (length ss) @ encode_strings ss @ to_be_bytes 4 (unat (crc ?content)) @ rest"
    using body by (simp add: checksummed_def symbol_content_def)
  have strings: "drop (?at + 4) bs = encode_strings ss @ to_be_bytes 4 (unat (crc ?content)) @ rest"
    using drop_app [OF count] by simp
  have len: "length ?content = 4 + length (encode_strings ss)" by (simp add: symbol_content_def)
  have few: "length ss \<le> length (encode_strings ss)"
    by (induction ss) (simp_all add: encode_strings_def Suc_le_eq add_strict_increasing)
  have u32: "unat (word_of_nat n :: u32) = n" if "n < 2 ^ 32" for n
    using that by (simp add: unat_of_nat)
  have "symbols_loop bs (?at + length ?content) (length ss) (?at + 4) = Inr (?at + length ?content, ss)"
    using symbols_loop_at [OF strings assms(2), of "?at + length ?content"] bound assms(4) by (simp add: len)
  moreover have "read_u32 bs p = Inr (word_of_nat (length ?content))" by (rule read_u32_at [OF all small])
  moreover have "read_u32 bs ?at = Inr (word_of_nat (length ss))"
    by (rule read_u32_at [OF count]) (use small few len in simp)
  moreover have "verify_crc crc bs ?at (length ?content) name = Inr ()" for name
    by (rule verify_crc_at [OF body]) (use bound assms(4) in simp_all)
  moreover have "unat (word_of_nat (length ?content) :: u32) = length ?content" by (rule u32 [OF small])
  moreover have "unat (word_of_nat (length ss) :: u32) = length ss" by (rule u32) (use small few len in simp)
  ultimately show ?thesis using bound assms(4)
    by (simp add: parse_symbols_def usize_checked_add_def CHECKSUM_SIZE_def add.assoc)
qed

section \<open>Series entries\<close>

lemma encode_uvarint_first: "0 < n \<Longrightarrow> hd (encode_uvarint n) \<noteq> 0"
proof (cases "n < 128")
  case True
  assume "0 < n"
  moreover have "unat (word_of_nat n :: u8) = n" using True by (simp add: unat_of_nat)
  ultimately show ?thesis using True by (auto simp: encode_uvarint_small)
next
  case False
  have "unat (word_of_nat (n mod 128 + 128) :: u8) \<noteq> 0" by (simp only: unat_cont_byte)
  then show ?thesis using False by (auto simp: encode_uvarint_large)
qed

lemma encode_series_placed [simp]: "encode_series symbols (s\<lparr>is_reference := n\<rparr>) = encode_series symbols s"
  by (simp add: encode_series_def)

lemma encode_series_pos: "0 < length (encode_series symbols s)"
  by (simp add: encode_series_def)

lemma align_series_ok: "n + 15 < 2 ^ 64 \<Longrightarrow> align_series n = Inr (align16 n)"
  by (simp add: align_series_Inr)

lemma encode_entry_Nil [simp]: "encode_entry crc symbols s \<noteq> []"
  by (simp add: encode_entry_def)

lemma series_step_at:
  assumes entry: "drop off bs = encode_entry crc symbols s @ rest" and ok: "series_encodable symbols s"
    and e: "off + length (encode_entry crc symbols s) \<le> e" "e \<le> length bs" and small: "length bs < 2 ^ 63"
  shows "series_step crc bs symbols e off =
    Inr (Some (s\<lparr>is_reference := off div 16\<rparr>), align16 (off + length (encode_entry crc symbols s)))"
proof -
  let ?body = "encode_series symbols s"
  let ?len = "encode_uvarint (length ?body)"
  have at: "drop off bs = ?len @ checksummed crc ?body @ rest" using entry by (simp add: encode_entry_def)
  note at1 = drop_app [OF at]
  have body: "drop (off + length ?len) bs = ?body @ to_be_bytes 4 (unat (crc ?body)) @ rest"
    using at1 by (simp add: checksummed_def)
  have total: "length (encode_entry crc symbols s) = length ?len + length ?body + 4" by (simp add: encode_entry_def)
  have "off < length bs" using at_bound [OF entry] encode_series_pos [of symbols s] total by simp
  moreover have "bs ! off \<noteq> 0"
    using encode_uvarint_first [OF encode_series_pos, of symbols s] at calculation
    by (metis hd_append2 hd_drop_conv_nth encode_uvarint_nonempty)
  ultimately have first: "elem_index bs off = (Inr (bs ! off) :: index_fault + u8)" "bs ! off \<noteq> 0" by (simp_all add: elem_index_def)
  have fits: "off + length ?len + length ?body + 4 < 2 ^ 63" using e small total by simp
  have "read_uvarint bs off = Inr (word_of_nat (length ?body), length ?len)"
    by (rule read_uvarint_encode [OF at]) (use fits in simp)
  moreover have "unat (word_of_nat (length ?body) :: u64) = length ?body" by (rule unat_of_nat64) (use fits in simp)
  moreover have "verify_crc crc bs (off + length ?len) (length ?body) name = Inr ()" for name
    by (rule verify_crc_at [OF at1]) (use fits e total in simp_all)
  moreover have "slice_index bs (off + length ?len) (off + length ?len + length ?body) = (Inr ?body :: index_fault + bytes)"
    by (rule at_slice_index [OF body]) (use e total in simp)
  moreover have "parse_series ?body (off div 16) symbols = Inr (s\<lparr>is_reference := off div 16\<rparr>)"
    using parse_series_encode [of symbols "s\<lparr>is_reference := off div 16\<rparr>"] ok by (simp add: series_encodable_def)
  moreover have "align_series (off + length ?len + length ?body + 4) = Inr (align16 (off + length ?len + length ?body + 4))"
    using fits by (simp add: align_series_Inr)
  ultimately show ?thesis using first fits e total
    by (simp add: series_step_def usize_checked_add_def CHECKSUM_SIZE_def SERIES_ALIGNMENT_def add.assoc)
qed

lemma entries_run:
  assumes "drop pos bs = encode_entries crc symbols pos ss @ rest" and "list_all (series_encodable symbols) ss"
    and "e = pos + length (encode_entries crc symbols pos ss)" and "e \<le> length bs" and "length bs < 2 ^ 63"
  shows "loop_run crc bs symbols e (align16 pos) (Inr ()) (placed crc symbols pos ss)"
  using assms
proof (induction ss arbitrary: pos)
  case Nil
  then show ?case using align16_props(1) [of pos] by (auto intro: at_end)
next
  case (Cons s ss)
  let ?entry = "encode_entry crc symbols s"
  let ?pad = "replicate (align16 pos - pos) (0 :: u8)"
  let ?next = "align16 pos + length ?entry"
  have at: "drop pos bs = ?pad @ ?entry @ encode_entries crc symbols ?next ss @ rest" using Cons.prems(1) by simp
  have "pos + length ?pad = align16 pos" using align16_props(1) [of pos] by simp
  then have at1: "drop (align16 pos) bs = ?entry @ encode_entries crc symbols ?next ss @ rest"
    using drop_app [OF at] by simp
  have e: "e = ?next + length (encode_entries crc symbols ?next ss)"
    using Cons.prems(3) align16_props(1) [of pos] by simp
  have step: "series_step crc bs symbols e (align16 pos) = Inr (Some (s\<lparr>is_reference := align16 pos div 16\<rparr>), align16 ?next)"
    by (rule series_step_at [OF at1]) (use Cons.prems e in simp_all)
  have "loop_run crc bs symbols e (align16 ?next) (Inr ()) (placed crc symbols ?next ss)"
    by (rule Cons.IH) (use drop_app [OF at1] Cons.prems e in simp_all)
  moreover have "align16 pos < e" using e by (simp add: trans_less_add1)
  ultimately show ?case using entry [OF _ step] by simp
qed

lemma section_run:
  assumes at: "drop pos bs = encode_entries crc symbols pos ss @ rest" and "list_all (series_encodable symbols) ss"
    and e: "e = pos + length (encode_entries crc symbols pos ss)" "e \<le> length bs" and small: "length bs < 2 ^ 63"
  shows "loop_run crc bs symbols e pos (Inr ()) (placed crc symbols pos ss)"
proof -
  note run = entries_run [OF assms]
  consider "align16 pos = pos" | "ss = []" | s ss' where "ss = s # ss'" "pos < align16 pos"
    by (metis align16_props(1) le_neq_implies_less list.exhaust)
  then show ?thesis
  proof cases
    case 1
    with run show ?thesis by simp
  next
    case 2
    then show ?thesis using e by (auto intro: at_end)
  next
    case 3
    then have "\<exists>zs. drop pos bs = 0 # zs" using at by (cases "align16 pos - pos") auto
    then have zero: "pos < length bs" "bs ! pos = 0" using drop_Cons_nth [of pos bs 0] by auto
    have "pos < e" using e 3 by (auto intro: trans_less_add1)
    moreover have "series_step crc bs symbols e pos = Inr (None, align16 pos)"
      using zero small by (simp add: series_step_def elem_index_def align_series_ok)
    ultimately show ?thesis using run by (rule padding)
  qed
qed

section \<open>The whole file\<close>

definition index_encodable :: "nat \<Rightarrow> string list \<Rightarrow> index_series list \<Rightarrow> bytes \<Rightarrow> bool" where
  "index_encodable version symbols ss others \<longleftrightarrow>
     version \<in> {1, 2} \<and> (\<forall>s \<in> set symbols. utf8_valid (bytes_of_str s)) \<and> length (symbol_content symbols) < 2 ^ 32
     \<and> list_all (series_encodable symbols) ss \<and> length others = 24"

lemma length_encode_toc: "length (encode_toc crc symbols ss others) = 24 + length others"
  by (simp add: encode_toc_def Let_def)

lemma Toc_parse_encode:
  assumes "series_start_of crc symbols + length (encode_entries crc symbols (series_start_of crc symbols) ss) < 2 ^ 64"
  shows "Toc_parse (encode_toc crc symbols ss others) = Inr \<lparr>toc_symbols = 5, toc_series = word_of_nat (series_start_of crc symbols),
    toc_label_indices_start = word_of_nat (series_start_of crc symbols + length (encode_entries crc symbols (series_start_of crc symbols) ss))\<rparr>"
proof -
  let ?toc = "encode_toc crc symbols ss others" and ?start = "series_start_of crc symbols"
  let ?stop = "?start + length (encode_entries crc symbols ?start ss)"
  have at: "drop 0 ?toc = to_be_bytes 8 5 @ to_be_bytes 8 ?start @ to_be_bytes 8 ?stop @ others"
    by (simp add: encode_toc_def Let_def)
  have at8: "drop 8 ?toc = to_be_bytes 8 ?start @ to_be_bytes 8 ?stop @ others" using drop_app [OF at] by simp
  have at16: "drop 16 ?toc = to_be_bytes 8 ?stop @ others" using drop_app [OF at8] by simp
  have "read_u64 ?toc 0 = Inr (word_of_nat 5)" by (rule read_u64_at [OF at]) simp
  moreover have "read_u64 ?toc 8 = Inr (word_of_nat ?start)" by (rule read_u64_at [OF at8]) (use assms in simp)
  moreover have "read_u64 ?toc 16 = Inr (word_of_nat ?stop)" by (rule read_u64_at [OF at16 assms])
  ultimately show ?thesis by (simp add: Toc_parse_def)
qed

lemma prologue_encode:
  assumes ok: "index_encodable version symbols ss others" and small: "length (encode_index crc version symbols ss middle others) < 2 ^ 63"
  defines "start \<equiv> series_start_of crc symbols"
  shows "parse_prologue crc (encode_index crc version symbols ss middle others)
    = Inr (symbols, start, start + length (encode_entries crc symbols start ss))"
proof -
  let ?bs = "encode_index crc version symbols ss middle others" and ?entries = "encode_entries crc symbols start ss"
  let ?toc = "encode_toc crc symbols ss others" and ?at = "start + length (encode_entries crc symbols start ss) + length middle"
  have at: "drop 0 ?bs = to_be_bytes 4 INDEX_MAGIC @ [word_of_nat version] @ encode_symbols crc symbols @ ?entries @ middle @ checksummed crc ?toc"
    by (simp add: encode_index_def start_def)
  have at4: "drop 4 ?bs = word_of_nat version # encode_symbols crc symbols @ ?entries @ middle @ checksummed crc ?toc"
    using drop_app [OF at] by simp
  have at5: "drop 5 ?bs = encode_symbols crc symbols @ ?entries @ middle @ checksummed crc ?toc"
    using drop_Cons_nth [OF at4] by simp
  have start: "drop start ?bs = ?entries @ middle @ checksummed crc ?toc"
    using drop_app [OF at5] by (simp add: start_def series_start_of_def)
  have toc: "drop ?at ?bs = checksummed crc ?toc @ []" using drop_app [OF drop_app [OF start]] by simp
  have toc48: "length ?toc = 48" using ok by (simp add: length_encode_toc index_encodable_def)
  have len: "length ?bs = ?at + 52" using at_bound [OF toc] toc48 by simp
  have bounds: "?at < 2 ^ 63" "start + length ?entries < 2 ^ 64" "5 \<le> start" using small len by (simp_all add: start_def series_start_of_def)
  have words: "unat (word_of_nat start :: u64) = start" "unat (word_of_nat (start + length ?entries) :: u64) = start + length ?entries"
    by (rule unat_of_nat64, use bounds in simp)+
  have version: "unat (word_of_nat version :: u8) = version" "1 \<le> version" "version \<le> 2"
    using ok by (auto simp: index_encodable_def)
  have magic: "read_u32 ?bs 0 = Inr (word_of_nat INDEX_MAGIC)" "unat (word_of_nat INDEX_MAGIC :: u32) = INDEX_MAGIC"
    by (rule read_u32_at [OF at]) (simp_all add: INDEX_MAGIC_def)
  have "elem_index ?bs 4 = (Inr (word_of_nat version) :: index_fault + u8)" using drop_Cons_nth [OF at4] by (simp add: elem_index_def)
  moreover have "verify_crc crc ?bs ?at TOC_SIZE name = Inr ()" for name
    unfolding TOC_SIZE_def toc48 [symmetric] by (rule verify_crc_at [OF toc]) (use bounds len toc48 in simp_all)
  moreover have "slice_index ?bs ?at (?at + TOC_SIZE) = (Inr ?toc :: index_fault + bytes)"
    unfolding TOC_SIZE_def toc48 [symmetric]
    by (rule at_slice_index [where rest = "to_be_bytes 4 (unat (crc ?toc))"]) (use toc len toc48 in \<open>simp_all add: checksummed_def\<close>)
  moreover have "parse_symbols crc ?bs 5 = Inr symbols"
    by (rule parse_symbols_at [OF at5]) (use ok small in \<open>simp_all add: index_encodable_def\<close>)
  moreover note Toc_parse_encode [of crc symbols ss others, folded start_def, OF bounds(2)]
  moreover have "length ?bs - (TOC_SIZE + CHECKSUM_SIZE) = ?at" by (simp add: len TOC_SIZE_def CHECKSUM_SIZE_def)
  ultimately show ?thesis using magic version words bounds len
    by (simp add: parse_prologue_def Let_def TOC_SIZE_def CHECKSUM_SIZE_def MIN_SUPPORTED_INDEX_VERSION_def MAX_SUPPORTED_INDEX_VERSION_def)
qed

lemma encode_index_entries:
  "drop (series_start_of crc symbols) (encode_index crc version symbols ss middle others)
    = encode_entries crc symbols (series_start_of crc symbols) ss @ middle @ checksummed crc (encode_toc crc symbols ss others)"
  by (simp add: encode_index_def series_start_of_def)

lemma parse_encode_index:
  assumes "index_encodable version symbols ss others" and "length (encode_index crc version symbols ss middle others) < 2 ^ 63"
  shows "parse crc (encode_index crc version symbols ss middle others) = Some (Inr (placed crc symbols (series_start_of crc symbols) ss))"
proof -
  let ?bs = "encode_index crc version symbols ss middle others" and ?start = "series_start_of crc symbols"
  let ?entries = "encode_entries crc symbols ?start ss"
  have "list_all (series_encodable symbols) ss" using assms(1) by (simp add: index_encodable_def)
  moreover have "?start + length ?entries \<le> length ?bs" by (simp add: encode_index_def series_start_of_def)
  ultimately have "loop_run crc ?bs symbols (?start + length ?entries) ?start (Inr ()) (placed crc symbols ?start ss)"
    by (intro section_run [OF encode_index_entries _ refl _ assms(2)])
  then show ?thesis using prologue_encode [OF assms] by (auto simp: parse_run intro!: exI [of _ "Inr ()"])
qed

text \<open>What the parser returns for such a file: the series, each with the place of its entry.\<close>

lemma placed_same:
  "map is_labels (placed crc symbols pos ss) = map is_labels ss"
  "map is_chunks (placed crc symbols pos ss) = map is_chunks ss"
  by (induction crc symbols pos ss rule: placed.induct) simp_all

lemma length_placed [simp]: "length (placed crc symbols pos ss) = length ss"
  by (induction crc symbols pos ss rule: placed.induct) simp_all

lemma placed_place:
  assumes "drop pos bs = encode_entries crc symbols pos ss @ rest" and "i < length ss"
  shows "\<exists>rest. drop (16 * is_reference (placed crc symbols pos ss ! i)) bs = encode_entry crc symbols (ss ! i) @ rest"
  using assms
proof (induction ss arbitrary: pos i)
  case (Cons s ss)
  let ?next = "align16 pos + length (encode_entry crc symbols s)"
  have at: "drop pos bs = replicate (align16 pos - pos) 0 @ encode_entry crc symbols s @ encode_entries crc symbols ?next ss @ rest"
    using Cons.prems(1) by simp
  have at1: "drop (align16 pos) bs = encode_entry crc symbols s @ encode_entries crc symbols ?next ss @ rest"
    using drop_app [OF at] align16_props(1) [of pos] by simp
  show ?case
  proof (cases i)
    case 0
    with at1 align16_props(2) [of pos] show ?thesis by auto
  next
    case (Suc j)
    with Cons.IH [OF drop_app [OF at1], of j] Cons.prems(2) show ?thesis by simp
  qed
qed simp

end
