(* ===== verification/Tsdb_Index_Props.thy ===== *)
theory Tsdb_Index_Props
  imports Tsdb_Index_File
begin

text \<open>
  The properties of the TSDB index parser and the concrete index files their witnesses parse.  The
  files are checksummed with the constant function 0.
\<close>

section \<open>Concrete files\<close>

definition zero_crc :: "bytes \<Rightarrow> u32" where
  "zero_crc bs = 0"

text \<open>No symbols; the series section is the 16 zero bytes from offset 32 to 48.\<close>

definition index_head :: "nat \<Rightarrow> bytes" where
  "index_head section_end =
     [0,0,0,0,0,0,0,5, 0,0,0,0,0,0,0,32, 0,0,0,0,0,0,0,word_of_nat section_end,
      0,0,0,0,0,0,0,0, 0,0,0,0,0,0,0,0, 0,0,0,0,0,0,0,0, 0,0,0,0]"

definition zero_section_index :: bytes where
  "zero_section_index =
     [0xBA, 0xAA, 0xD7, 0x00, 1, 0,0,0,4, 0,0,0,0, 0,0,0,0, 0,0,0,0,0,0,0, 0,0,0,0,0,0,0,0,
      0,0,0,0,0,0,0,0, 0,0,0,0,0,0,0,0] @ index_head 48"

text \<open>Two symbols, one series of the metric \<open>m\<close> with the chunk of times 1 to 4 and reference 8.\<close>

definition one_symbols :: "string list" where
  "one_symbols = [''__name__'', ''m'']"

definition one_series_index :: bytes where
  "one_series_index =
     [0xBA, 0xAA, 0xD7, 0x00, 2, 0,0,0,15, 0,0,0,2, 8,95,95,110,97,109,101,95,95, 1,109, 0,0,0,0, 0,0,0,0,
      7, 1, 0, 1, 1, 2, 3, 8, 0,0,0,0, 0,0,0,0] @ index_head 48"

definition one_series :: index_series where
  "one_series = \<lparr>is_reference = 2, is_labels = [(''__name__'', ''m'')],
     is_chunks = [\<lparr>ic_mint = 1, ic_maxt = 4, ic_reference = 8\<rparr>]\<rparr>"


lemma symbols_loop_numeral:
  "symbols_loop bs e (numeral n) p = symbols_loop bs e (Suc (pred_numeral n)) p"
  by (simp add: numeral_eq_Suc)

lemmas index_eval = symbols_loop_numeral char_of_def bit_0 from_utf8_def str_of_bytes_def symbol_def bt_get_def
  read_mint_def read_maxt_def read_reference_def read_varint_def i64_try_from_u64_def
  i64_checked_add_def chunk_vec_capacity_ok_def align_series_def index_consts read_u32_def read_u64_def slice_get_def slice_def be_nat_def
  elem_index_def elem_get_def verify_crc_def usize_checked_add_def slice_index_def Toc_parse_def
  parse_symbols_def read_uvarint_def read_uvarint_loop.simps uvarint_step_def last_byte_def
  Let_def zero_crc_def index_head_def

lemma zero_section_prologue: "parse_prologue zero_crc zero_section_index = Inr ([], 32, 48)"
  by (simp add: zero_section_index_def parse_prologue_def index_eval)

lemma one_series_prologue: "parse_prologue zero_crc one_series_index = Inr (one_symbols, 32, 48)"
  by (simp add: one_series_index_def one_symbols_def parse_prologue_def index_eval)

lemma one_series_step:
  "series_step zero_crc one_series_index one_symbols 48 32 = Inr (Some one_series, 48)"
  by (simp add: one_series_index_def one_series_def one_symbols_def series_step_def parse_series_def index_eval)




section \<open>Properties\<close>

text \<open>
  Every visitor sees exactly the series that collecting them would return, in file order, also
  when the parse fails later; and it changes nothing about whether and how \<open>parse_each\<close> returns.
\<close>

theorem parse_each_visitor:
  "parse_each crc bs visit s
   = map_option (\<lambda>(r, es). (r, fold visit es s)) (parse_each crc bs (\<lambda>e es. es @ [e]) [])"
  by (rule parse_each_fold)

text \<open>
  C11: \<open>parse\<close> fails to return exactly when the loop over the series section arrives at a zero byte at
  a multiple of 16, where aligning the offset leaves it unchanged.
\<close>

theorem parse_diverges_iff_stuck:
  assumes "length bs < 2 ^ 63"
  shows "parse crc bs = None \<longleftrightarrow>
    (\<exists>symbols start e k. parse_prologue crc bs = Inr (symbols, start, e)
       \<and> loop_reaches crc bs symbols e start k \<and> stuck bs e k)"
proof (cases "parse_prologue crc bs")
  case (Inl err)
  then have "parse crc bs = Some (Inl err)" by (simp add: parse_run)
  with Inl show ?thesis by simp
next
  case (Inr p)
  then obtain symbols start e where p: "parse_prologue crc bs = Inr (symbols, start, e)"
    by (cases p) auto
  have "parse crc bs = None \<longleftrightarrow> (\<nexists>r es. loop_run crc bs symbols e start r es)"
    by (subst option_None_iff) (auto simp: parse_run p)
  also have "\<dots> \<longleftrightarrow> (\<exists>k. loop_reaches crc bs symbols e start k \<and> stuck bs e k)"
    using assms by (rule no_run_iff_stuck)
  finally show ?thesis by (simp add: p)
qed

theorem parse_diverges_iff_stuck_witness: "parse zero_crc zero_section_index = None"
proof -
  have "loop_reaches zero_crc zero_section_index [] 48 32 32" by (rule here)
  moreover have "stuck zero_section_index 48 32"
    by (simp add: stuck_def zero_section_index_def index_head_def)
  ultimately show ?thesis
    using parse_diverges_iff_stuck [of zero_section_index zero_crc] zero_section_prologue
    by (auto simp: zero_section_index_def index_head_def)
qed

text \<open>
  \<open>parse\<close> returns, with a value or an error, for every file whose series section has no zero byte
  at a multiple of 16.
\<close>

theorem parse_returns:
  assumes "\<And>symbols start e k. parse_prologue crc bs = Inr (symbols, start, e) \<Longrightarrow>
      start \<le> k \<Longrightarrow> k < e \<Longrightarrow> 16 dvd k \<Longrightarrow> bs ! k \<noteq> 0"
  shows "\<exists>r. parse crc bs = Some r"
proof (cases "parse_prologue crc bs")
  case (Inl err)
  then show ?thesis by (simp add: parse_run)
next
  case (Inr p)
  then obtain symbols start e where p: "parse_prologue crc bs = Inr (symbols, start, e)"
    by (cases p) auto
  have "\<exists>r es. loop_run crc bs symbols e start r es"
    by (rule loop_run_exists) (use assms [OF p] in \<open>auto simp: stuck_def\<close>)
  with p show ?thesis by (auto simp: parse_run)
qed

theorem parse_returns_witness: "\<exists>r. parse zero_crc one_series_index = Some r"
proof (rule parse_returns)
  fix symbols start e k
  assume "parse_prologue zero_crc one_series_index = Inr (symbols, start, e)"
    and k: "start \<le> k" "k < e" "16 dvd k"
  then have "start = 32" "e = 48" by (simp_all add: one_series_prologue)
  with k have "k = 32" by presburger
  then show "one_series_index ! k \<noteq> 0" by (simp add: one_series_index_def)
qed

lemma one_series_run: "loop_run zero_crc one_series_index one_symbols 48 32 (Inr ()) [one_series]"
  by (rule entry [OF _ one_series_step at_end]) simp_all

lemma one_series_parse: "parse zero_crc one_series_index = Some (Inr [one_series])"
  using one_series_run by (simp add: parse_run one_series_prologue) (metis tryR_Inr)

text \<open>
  C12: in every series \<open>parse\<close> returns, the label names are strictly increasing, every chunk has
  \<open>mint \<le> maxt\<close>, and a chunk ends no later than the next one starts and has a smaller reference.
\<close>

theorem parse_well_formed:
  assumes "parse crc bs = Some (Inr es)" and "s \<in> set es"
  shows "bt_ok (is_labels s) \<and> chunks_ok (is_chunks s)"
  using assms by (blast dest!: parse_Inr_run loop_run_entries parse_series_ok)

theorem parse_well_formed_witness: "bt_ok (is_labels one_series) \<and> chunks_ok (is_chunks one_series)"
  by (rule parse_well_formed [OF one_series_parse]) simp

text \<open>
  C13: every series returned was decoded from bytes of the file whose CRC-32C is the big-endian word
  stored right after them.
\<close>

theorem parse_checksummed:
  assumes "parse crc bs = Some (Inr es)" and "s \<in> set es"
  shows "\<exists>symbols start len. start + len + 4 \<le> length bs
    \<and> read_u32 bs (start + len) = Inr (crc (slice bs start (start + len)))
    \<and> parse_series (slice bs start (start + len)) (is_reference s) symbols = Inr s"
  using assms by (blast dest!: parse_Inr_run loop_run_entries)

theorem parse_checksummed_witness:
  "\<exists>symbols start len. start + len + 4 \<le> length one_series_index
    \<and> read_u32 one_series_index (start + len) = Inr (zero_crc (slice one_series_index start (start + len)))
    \<and> parse_series (slice one_series_index start (start + len)) (is_reference one_series) symbols = Inr one_series"
  by (rule parse_checksummed [OF one_series_parse]) simp



text \<open>
  C15: a whole index file in the layout of Prometheus' writer, of version 1 or 2 and with any CRC function,
  parses to the series written into it, in order, with their labels and chunks, whatever follows the
  series; sixteen times the reference of a series is the offset of its entry in the file.
\<close>

theorem index_file_round_trip:
  assumes "index_encodable version symbols ss others"
    and "length (encode_index crc version symbols ss middle others) < 2 ^ 63"
  shows "\<exists>es. parse crc (encode_index crc version symbols ss middle others) = Some (Inr es)
    \<and> map is_labels es = map is_labels ss \<and> map is_chunks es = map is_chunks ss
    \<and> (\<forall>i < length ss. \<exists>rest. drop (16 * is_reference (es ! i)) (encode_index crc version symbols ss middle others)
        = encode_entry crc symbols (ss ! i) @ rest)"
  using parse_encode_index [OF assms] placed_same placed_place [OF encode_index_entries] by blast

text \<open>Two series of the metric \<open>m\<close> in an index file of version 2.\<close>

definition two_series :: "index_series list" where
  "two_series = [one_series, \<lparr>is_reference = 0, is_labels = [(''__name__'', ''m''), (''m'', ''__name__'')],
     is_chunks = [\<lparr>ic_mint = -5, ic_maxt = 4, ic_reference = 8\<rparr>, \<lparr>ic_mint = 4, ic_maxt = 9, ic_reference = 70\<rparr>]\<rparr>]"

lemma two_series_encodable: "index_encodable 2 one_symbols two_series (replicate 24 0)"
  by (simp add: index_encodable_def two_series_def one_series_def one_symbols_def series_encodable_def symbol_content_def
      encode_strings_def encode_uvarint_small bytes_of_str_def bt_ok_def chunk_ok_def is_i64_def)

lemma two_series_small: "length (encode_index zero_crc 2 one_symbols two_series [1, 2, 3] (replicate 24 0)) < 2 ^ 63"
  by (simp add: encode_index_def encode_symbols_def checksummed_def symbol_content_def encode_strings_def series_start_of_def
      encode_toc_def encode_entry_def encode_series_def encode_labels_def encode_varint_def zigzag_def encode_uvarint_small
      align16_def two_series_def one_series_def one_symbols_def Let_def)

theorem index_file_round_trip_witness:
  "\<exists>es. parse zero_crc (encode_index zero_crc 2 one_symbols two_series [1, 2, 3] (replicate 24 0)) = Some (Inr es)
    \<and> map is_labels es = [[(''__name__'', ''m'')], [(''__name__'', ''m''), (''m'', ''__name__'')]]"
  using index_file_round_trip [OF two_series_encodable two_series_small] by (auto simp: two_series_def one_series_def)

end
