(* ===== verification/Range_Reader.thy ===== *)
theory Range_Reader
  imports Prelude
begin

text \<open>
  The trait \<open>RangeReader\<close> of \<open>src/storage/mod.rs\<close>, through which the chunk reader sees object storage,
  as a contract.  \<open>rr path a b\<close> reads the bytes \<open>a..b\<close> of an object and may change the reader's state
  (a cache does).  \<open>obj\<close> is the content of object storage, which does not change: Thanos writes a
  block's objects once.  \<open>ok\<close> is the invariant of the reader's state.
\<close>

type_synonym 'st range_read = "string \<Rightarrow> nat \<Rightarrow> nat \<Rightarrow> 'st \<Rightarrow> (string fault + bytes) \<times> 'st"

locale range_reader =
  fixes rr :: "'st range_read"
    and obj :: "string \<Rightarrow> bytes option"
    and ok :: "'st \<Rightarrow> bool"
  assumes read_keeps: "ok st \<Longrightarrow> rr path a b st = (r, st') \<Longrightarrow> ok st'"
    and read_sound: "ok st \<Longrightarrow> obj path = Some content \<Longrightarrow> a < b \<Longrightarrow> b \<le> length content
      \<Longrightarrow> rr path a b st = (Inr d, st') \<Longrightarrow> d = slice content a b"

text \<open>A reader that never fails inside an object.\<close>

locale reliable_reader = range_reader +
  assumes read_answers: "ok st \<Longrightarrow> obj path = Some content \<Longrightarrow> a < b \<Longrightarrow> b \<le> length content
      \<Longrightarrow> \<exists>d st'. rr path a b st = (Inr d, st')"
begin

lemma read_exact:
  assumes "ok st" and "obj path = Some content" and "a < b" and "b \<le> length content"
  shows "\<exists>st'. rr path a b st = (Inr (slice content a b), st') \<and> ok st'"
  using read_answers [OF assms] read_sound [OF assms] read_keeps [OF assms(1)] by blast

end

end
