(* ===== verification/Chunk_Reader.thy ===== *)
theory Chunk_Reader
  imports Varint Rust_Text Range_Reader
begin

text \<open>
  The chunk segment reader, \<open>src/chunk_reader.rs\<close>: the record frame (length, encoding byte, payload,
  CRC-32C), the aggregate chunk of a downsampled block, and the two reads that fetch one record
  through a \<open>RangeReader\<close>.

  Parameters: \<open>crc\<close> is \<open>CRC32C.checksum\<close> of the \<open>crc\<close> crate; \<open>read_xor\<close> is \<open>read_xor_chunk_data\<close> of
  \<open>rusty_chunkenc\<close> with the samples of the chunk it decodes (\<open>None\<close> for its error); \<open>read_range\<close> is the
  reader's method, a state transformer because the reader may be a cache.  A sample's \<open>f64\<close> is its
  64-bit pattern.
\<close>

section \<open>Data\<close>

record sample =
  sm_timestamp :: int
  sm_value :: u64

datatype encoded_chunk =
    Xor bytes
  | Histogram bytes
  | FloatHistogram bytes
  | Aggregate (agg_count: "bytes option") (agg_sum: "bytes option") (agg_min: "bytes option")
      (agg_max: "bytes option") (agg_counter: "bytes option")

text \<open>The errors: \<open>invalid_data\<close> with the message's kind, and the error of the range reader.\<close>

datatype chunk_error =
    InvalidUvarint
  | RecordLengthOverflow
  | TruncatedRecord
  | TruncatedChecksum
  | LengthMismatch
  | CrcMismatch
  | UnsupportedEncoding nat
  | AggregateForNonCounter
  | TruncatedSlot
  | SlotLengthOverflow
  | TruncatedSlotPayload
  | UnsupportedAggregateEncoding nat
  | UnsupportedCounterEncoding nat
  | TrailingAggregateBytes
  | InvalidXor
  | RangeError string

type_synonym chunk_fault = "chunk_error fault"

definition ENCODING_XOR :: nat where "ENCODING_XOR = 1"
definition ENCODING_HISTOGRAM :: nat where "ENCODING_HISTOGRAM = 2"
definition ENCODING_FLOAT_HISTOGRAM :: nat where "ENCODING_FLOAT_HISTOGRAM = 3"
definition ENCODING_AGGR :: nat where "ENCODING_AGGR = 255"
definition CRC_SIZE :: nat where "CRC_SIZE = 4"
definition MAX_UVARINT_SIZE :: nat where "MAX_UVARINT_SIZE = 5"
definition AGGR_COUNTER_SLOT :: nat where "AGGR_COUNTER_SLOT = 4"

lemmas chunk_consts = ENCODING_XOR_def ENCODING_HISTOGRAM_def ENCODING_FLOAT_HISTOGRAM_def
  ENCODING_AGGR_def CRC_SIZE_def MAX_UVARINT_SIZE_def AGGR_COUNTER_SLOT_def

section \<open>Decoding\<close>

fun chunk_uvarint_loop :: "bytes \<Rightarrow> nat \<Rightarrow> u64 \<Rightarrow> chunk_fault + (nat \<times> nat)" where
  "chunk_uvarint_loop [] index value = Inl (Err InvalidUvarint)"
| "chunk_uvarint_loop (byte # bs) index value =
     (if last_byte byte then Inr (unat (uvarint_step value byte index), index + 1)
      else chunk_uvarint_loop bs (index + 1) (uvarint_step value byte index))"

definition chunk_uvarint :: "bytes \<Rightarrow> chunk_fault + (nat \<times> nat)" where
  "chunk_uvarint bs = chunk_uvarint_loop (take MAX_UVARINT_SIZE bs) 0 0"

definition validated_payload :: "(bytes \<Rightarrow> u32) \<Rightarrow> bytes \<Rightarrow> chunk_fault + (u8 \<times> bytes)" where
  "validated_payload crc record =
     tryR (chunk_uvarint record) (\<lambda>(payload_len, length_size).
     tryR (ok_or TruncatedRecord
             (Option.bind (usize_checked_add length_size 1) (\<lambda>n. usize_checked_add n payload_len)))
       (\<lambda>content_end.
     tryR (ok_or TruncatedChecksum (usize_checked_add content_end CRC_SIZE)) (\<lambda>checksum_end.
       if checksum_end \<noteq> length record then Inl (Err LengthMismatch)
       else
         tryR (slice_index record content_end checksum_end) (\<lambda>expected.
         tryR (slice_index record length_size content_end) (\<lambda>content.
           if crc content \<noteq> word_of_nat (be_nat expected) then Inl (Err CrcMismatch)
           else
             tryR (elem_index record length_size) (\<lambda>encoding.
             tryR (slice_index record (length_size + 1) content_end) (\<lambda>payload.
               Inr (encoding, payload))))))))"

text \<open>One slot of an aggregate chunk: its data with the encoding byte, or none, and the rest.\<close>

definition read_slot :: "bytes \<Rightarrow> chunk_fault + (bytes option \<times> bytes)" where
  "read_slot remaining =
     tryR (chunk_uvarint remaining) (\<lambda>(slot_len, length_size).
     tryR (ok_or TruncatedSlot (slice_get remaining length_size (length remaining))) (\<lambda>remaining.
       if slot_len = 0 then Inr (None, remaining)
       else
         tryR (ok_or SlotLengthOverflow (usize_checked_add slot_len 1)) (\<lambda>slot_size.
         tryR (ok_or TruncatedSlotPayload (slice_get remaining 0 slot_size)) (\<lambda>slot_data.
         tryR (slice_index remaining slot_size (length remaining)) (\<lambda>remaining.
           Inr (Some slot_data, remaining))))))"

fun aggregate_loop :: "nat \<Rightarrow> bytes \<Rightarrow> chunk_fault + (bytes option list \<times> bytes)" where
  "aggregate_loop 0 remaining = Inr ([], remaining)"
| "aggregate_loop (Suc n) remaining =
     tryR (read_slot remaining) (\<lambda>(slot, remaining).
       case slot of
         None \<Rightarrow> tryR (aggregate_loop n remaining) (\<lambda>(slots, r). Inr (None # slots, r))
       | Some slot_data \<Rightarrow>
           tryR (elem_index slot_data 0) (\<lambda>encoding.
             if unat encoding \<noteq> ENCODING_XOR
             then Inl (Err (UnsupportedAggregateEncoding (unat encoding)))
             else tryR (slice_index slot_data 1 (length slot_data)) (\<lambda>data.
                  tryR (aggregate_loop n remaining) (\<lambda>(slots, r). Inr (Some data # slots, r)))))"

definition decode_aggregate :: "bytes \<Rightarrow> chunk_fault + encoded_chunk" where
  "decode_aggregate payload =
     tryR (aggregate_loop (AGGR_COUNTER_SLOT + 1) payload) (\<lambda>(slots, remaining).
       if remaining \<noteq> [] then Inl (Err TrailingAggregateBytes)
       else case slots of
         [count0, sum0, min0, max0, counter0] \<Rightarrow> Inr (Aggregate count0 sum0 min0 max0 counter0)
       | _ \<Rightarrow> Inl Panic)"

definition decode_xor :: "(bytes \<Rightarrow> sample list option) \<Rightarrow> bytes \<Rightarrow> chunk_fault + sample list" where
  "decode_xor read_xor payload = ok_or InvalidXor (read_xor payload)"

text \<open>The loop over the slots, with the number of slots still to come before the counter's.\<close>

fun counter_loop ::
  "(bytes \<Rightarrow> sample list option) \<Rightarrow> nat \<Rightarrow> bytes \<Rightarrow> chunk_fault + sample list" where
  "counter_loop read_xor n remaining =
     tryR (read_slot remaining) (\<lambda>(slot, remaining).
       case slot of
         None \<Rightarrow> (case n of 0 \<Rightarrow> Inr [] | Suc m \<Rightarrow> counter_loop read_xor m remaining)
       | Some slot_data \<Rightarrow>
           (case n of
              Suc m \<Rightarrow> counter_loop read_xor m remaining
            | 0 \<Rightarrow>
                tryR (elem_index slot_data 0) (\<lambda>encoding.
                  if unat encoding \<noteq> ENCODING_XOR
                  then Inl (Err (UnsupportedCounterEncoding (unat encoding)))
                  else tryR (slice_index slot_data 1 (length slot_data)) (decode_xor read_xor))))"

declare counter_loop.simps [simp del]

definition decode_aggregate_counter ::
  "(bytes \<Rightarrow> sample list option) \<Rightarrow> bytes \<Rightarrow> chunk_fault + sample list" where
  "decode_aggregate_counter read_xor payload = counter_loop read_xor AGGR_COUNTER_SLOT payload"

definition decode_record ::
  "(bytes \<Rightarrow> u32) \<Rightarrow> (bytes \<Rightarrow> sample list option) \<Rightarrow> bytes \<Rightarrow> bool \<Rightarrow> chunk_fault + sample list" where
  "decode_record crc read_xor record counter_metric =
     tryR (validated_payload crc record) (\<lambda>(encoding, payload).
       if unat encoding = ENCODING_XOR then decode_xor read_xor payload
       else if unat encoding = ENCODING_AGGR \<and> counter_metric then decode_aggregate_counter read_xor payload
       else if unat encoding = ENCODING_AGGR then Inl (Err AggregateForNonCounter)
       else Inl (Err (UnsupportedEncoding (unat encoding))))"

definition decode_encoded_record :: "(bytes \<Rightarrow> u32) \<Rightarrow> bytes \<Rightarrow> chunk_fault + encoded_chunk" where
  "decode_encoded_record crc record =
     tryR (validated_payload crc record) (\<lambda>(encoding, payload).
       if unat encoding = ENCODING_XOR then Inr (Xor payload)
       else if unat encoding = ENCODING_HISTOGRAM then Inr (Histogram payload)
       else if unat encoding = ENCODING_FLOAT_HISTOGRAM then Inr (FloatHistogram payload)
       else if unat encoding = ENCODING_AGGR then decode_aggregate payload
       else Inl (Err (UnsupportedEncoding (unat encoding))))"

section \<open>Reading a record through a range reader\<close>

text \<open>The length of the whole record, from its first bytes.\<close>

definition record_length :: "bytes \<Rightarrow> chunk_fault + nat" where
  "record_length prefix =
     tryR (chunk_uvarint prefix) (\<lambda>(payload_len, length_size).
       ok_or RecordLengthOverflow
         (Option.bind (usize_checked_add length_size 1) (\<lambda>size.
          Option.bind (usize_checked_add size payload_len) (\<lambda>size. usize_checked_add size CRC_SIZE))))"

text \<open>The ends of the two ranges are unchecked \<open>u64\<close> sums.\<close>

definition read_record :: "'st range_read \<Rightarrow> string \<Rightarrow> nat \<Rightarrow> 'st \<Rightarrow> (chunk_fault + bytes) \<times> 'st" where
  "read_record read_range path offset st =
     (case read_range path offset (u64_wrap (offset + MAX_UVARINT_SIZE + 1)) st of
        (Inl e, st1) \<Rightarrow> (Inl (map_fault RangeError e), st1)
      | (Inr prefix, st1) \<Rightarrow>
          (case record_length prefix of
             Inl e \<Rightarrow> (Inl e, st1)
           | Inr record_len \<Rightarrow>
               (case read_range path offset (u64_wrap (offset + record_len)) st1 of
                  (Inl e, st2) \<Rightarrow> (Inl (map_fault RangeError e), st2)
                | (Inr record, st2) \<Rightarrow> (Inr record, st2))))"

definition read_encoded_chunk ::
  "(bytes \<Rightarrow> u32) \<Rightarrow> 'st range_read \<Rightarrow> string \<Rightarrow> nat \<Rightarrow> 'st \<Rightarrow> (chunk_fault + encoded_chunk) \<times> 'st" where
  "read_encoded_chunk crc read_range path offset st =
     (case read_record read_range path offset st of
        (r, st') \<Rightarrow> (tryR r (decode_encoded_record crc), st'))"

definition read_samples ::
  "(bytes \<Rightarrow> u32) \<Rightarrow> (bytes \<Rightarrow> sample list option) \<Rightarrow> 'st range_read \<Rightarrow> string \<Rightarrow> nat \<Rightarrow> bool \<Rightarrow> 'st
   \<Rightarrow> (chunk_fault + sample list) \<times> 'st" where
  "read_samples crc read_xor read_range path offset counter_metric st =
     (case read_record read_range path offset st of
        (r, st') \<Rightarrow> (tryR r (\<lambda>record. decode_record crc read_xor record counter_metric), st'))"

end
