(* ===== verification/Chunk_Reader_Facts.thy ===== *)
theory Chunk_Reader_Facts
  imports Chunk_Reader
begin

text \<open>
  What the chunk reader guarantees: the frame and aggregate formats round trip, an accepted record
  has the frame's shape, decoding never panics, both aggregate decoders agree, and, through any
  reader that meets the \<open>range_reader\<close> contract, the record stored at an offset is the one read.
\<close>

section \<open>The varint reader\<close>

lemma chunk_uvarint_loop_encode:
  "unat v < 2 ^ (i * 7) \<Longrightarrow> m * 2 ^ (i * 7) < 2 ^ 64 \<Longrightarrow>
    chunk_uvarint_loop (encode_uvarint m @ rest) i v
    = Inr (unat v + m * 2 ^ (i * 7), i + length (encode_uvarint m))"
proof (induction m arbitrary: i v rule: encode_uvarint.induct)
  case (1 m)
  show ?case
  proof (cases "m < 128")
    case True
    then have m8: "unat (word_of_nat m :: u8) = m" by (simp add: unsigned_of_nat take_bit_nat_eq_self)
    then have "unat (uvarint_step v (word_of_nat m) i) = unat v + m * 2 ^ (i * 7)"
      using unat_uvarint_step [OF "1.prems"(1), of "word_of_nat m"] "1.prems"(2) True by simp
    with True show ?thesis by (simp add: encode_uvarint_small)
  next
    case False
    define x :: u8 where "x = word_of_nat (m mod 128 + 128)"
    have ux: "unat x = m mod 128 + 128" and nl: "\<not> last_byte x"
      unfolding x_def by (rule unat_cont_byte, rule not_last_byte_of_nat)
    define v' where "v' = uvarint_step v x i"
    note step = uvarint_step_continue [OF "1.prems" ux]
    have "chunk_uvarint_loop (encode_uvarint (m div 128) @ rest) (Suc i) v'
      = Inr (unat v' + m div 128 * 2 ^ (Suc i * 7), Suc i + length (encode_uvarint (m div 128)))"
      using step by (intro "1.IH" [OF False]) (auto simp: v'_def)
    then show ?thesis
      using step(3) nl False unfolding v'_def
      by (simp only: encode_uvarint_large not_less append_Cons chunk_uvarint_loop.simps flip: x_def) simp
  qed
qed


lemma length_encode_uvarint_35: "n < 2 ^ 35 \<Longrightarrow> length (encode_uvarint n) \<le> 5"
  using length_encode_uvarint_le [of n 5] by simp

lemma chunk_uvarint_encode:
  assumes "n < 2 ^ 35"
  shows "chunk_uvarint (encode_uvarint n @ rest) = Inr (n, length (encode_uvarint n))"
proof -
  have "take MAX_UVARINT_SIZE (encode_uvarint n @ rest)
    = encode_uvarint n @ take (MAX_UVARINT_SIZE - length (encode_uvarint n)) rest"
    using length_encode_uvarint_35 [OF assms] by (simp add: MAX_UVARINT_SIZE_def)
  then show ?thesis
    using assms chunk_uvarint_loop_encode [of 0 0 n] by (simp add: chunk_uvarint_def)
qed

lemma chunk_uvarint_take:
  "MAX_UVARINT_SIZE \<le> k \<Longrightarrow> chunk_uvarint (take k bs) = chunk_uvarint bs"
  by (simp add: chunk_uvarint_def min_def)

lemma chunk_uvarint_loop_bounds:
  "chunk_uvarint_loop bs i v = Inr (w, sz) \<Longrightarrow> unat v < 2 ^ (i * 7) \<Longrightarrow> i + length bs \<le> 5
   \<Longrightarrow> i < sz \<and> sz \<le> i + length bs \<and> w < 2 ^ 35"
proof (induction bs arbitrary: i v)
  case Nil
  then show ?case by simp
next
  case (Cons b bs)
  have i: "i < 5" using Cons.prems(3) by simp
  have b: "unat b mod 128 \<le> 127" by (simp flip: less_Suc_eq_le)
  have le: "(2::nat) ^ (Suc i * 7) \<le> 2 ^ 35" using i by (intro power_increasing) auto
  have p: "(2::nat) ^ (Suc i * 7) = 128 * 2 ^ (i * 7)" by (simp add: power_add)
  have m: "unat b mod 128 * 2 ^ (i * 7) \<le> 127 * 2 ^ (i * 7)" using b by (rule mult_le_mono1)
  have "127 * 2 ^ (i * 7) < (2::nat) ^ 64" using le p by simp
  with m have "unat b mod 128 * 2 ^ (i * 7) < 2 ^ 64" by (rule le_less_trans)
  then have "unat (uvarint_step v b i) = unat v + unat b mod 128 * 2 ^ (i * 7)"
    by (rule unat_uvarint_step [OF Cons.prems(2)])
  then have lt: "unat (uvarint_step v b i) < 2 ^ (Suc i * 7)"
    using m p Cons.prems(2) by linarith
  with Cons.IH [of "Suc i" "uvarint_step v b i"] Cons.prems le show ?case
    by (auto split: if_splits)
qed

lemma chunk_uvarint_bounds:
  "chunk_uvarint bs = Inr (n, sz) \<Longrightarrow> 0 < sz \<and> sz \<le> 5 \<and> sz \<le> length bs \<and> n < 2 ^ 35"
  using chunk_uvarint_loop_bounds [of "take MAX_UVARINT_SIZE bs" 0 0 n sz]
  by (auto simp: chunk_uvarint_def MAX_UVARINT_SIZE_def)

lemma chunk_uvarint_loop_size: "chunk_uvarint_loop bs i v = Inr (w, sz) \<Longrightarrow> i < sz"
  by (induction bs arbitrary: i v) (fastforce split: if_splits)+

lemma chunk_uvarint_loop_no_panic: "no_panic (chunk_uvarint_loop bs i v)"
  by (induction bs arbitrary: i v) auto

lemma chunk_uvarint_no_panic [simp]: "no_panic (chunk_uvarint bs)"
  by (simp add: chunk_uvarint_def chunk_uvarint_loop_no_panic)

lemma chunk_uvarint_loop_append:
  "chunk_uvarint_loop bs i v = Inr (w, sz) \<Longrightarrow> chunk_uvarint_loop (take (sz - i) bs @ rest) i v = Inr (w, sz)"
proof (induction bs arbitrary: i v)
  case (Cons b bs)
  show ?case
  proof (cases "last_byte b")
    case False
    then have r: "chunk_uvarint_loop bs (Suc i) (uvarint_step v b i) = Inr (w, sz)"
      using Cons.prems by simp
    have "Suc i < sz" using chunk_uvarint_loop_size [OF r] by simp
    with Cons.IH [OF r] False show ?thesis by (cases sz) (auto simp: Suc_diff_le)
  qed (use Cons.prems in auto)
qed simp

section \<open>The record frame\<close>

text \<open>A record as Prometheus writes it, and any record with these fields, whatever its length bytes.\<close>

definition frame :: "(bytes \<Rightarrow> u32) \<Rightarrow> u8 \<Rightarrow> bytes \<Rightarrow> bytes" where
  "frame crc enc payload =
     encode_uvarint (length payload) @ (enc # payload) @ to_be_bytes 4 (unat (crc (enc # payload)))"

lemma to_be_bytes_be_nat: "to_be_bytes (length bs) (be_nat bs) = bs"
proof (induction bs rule: rev_induct)
  case Nil
  then show ?case by simp
next
  case (snoc b bs)
  have b: "unat b < 256" using unsigned_less [of b, where 'a=nat] by simp
  have "be_nat (bs @ [b]) = be_nat bs * 256 + unat b" by (simp add: be_nat_def)
  then have "be_nat (bs @ [b]) div 256 = be_nat bs" and "be_nat (bs @ [b]) mod 256 = unat b"
    using b by simp_all
  then show ?case using snoc by simp
qed

lemma crc_word_bytes:
  "length bs = 4 \<Longrightarrow> w = word_of_nat (be_nat bs) \<longleftrightarrow> bs = to_be_bytes 4 (unat w)" for w :: u32
proof -
  assume l: "length bs = 4"
  have b: "be_nat bs < 2 ^ 32"
    using be_nat_to_be_bytes [of 4 "be_nat bs"] to_be_bytes_be_nat [of bs] l by simp
  show ?thesis
  proof
    assume "w = word_of_nat (be_nat bs)"
    then have "unat w = be_nat bs" using b by (simp add: unsigned_of_nat take_bit_nat_eq_self)
    then show "bs = to_be_bytes 4 (unat w)" using to_be_bytes_be_nat [of bs] l by simp
  next
    assume bs: "bs = to_be_bytes 4 (unat w)"
    have w: "unat w < 2 ^ 32" using unsigned_less [of w, where 'a=nat] by simp
    have "be_nat bs = unat w" unfolding bs using w by (simp add: be_nat_to_be_bytes)
    then show "w = word_of_nat (be_nat bs)" by simp
  qed
qed

lemma validated_payload_frame:
  assumes n: "chunk_uvarint pre = Inr (length payload, length pre)"
  shows "validated_payload crc (pre @ (enc # payload) @ to_be_bytes 4 (unat (crc (enc # payload))))
    = Inr (enc, payload)"
proof -
  define post where "post = to_be_bytes 4 (unat (crc (enc # payload)))"
  have lp: "length post = 4" by (simp add: post_def)
  have crc: "crc (enc # payload) = word_of_nat (be_nat post)"
    using crc_word_bytes [OF lp] by (simp add: post_def)
  note bnd = chunk_uvarint_bounds [OF n]
  define rec where "rec = pre @ (enc # payload) @ post"
  have "chunk_uvarint_loop (take (length pre) (take 5 pre) @ take (5 - length pre) ((enc # payload) @ post)) 0 0
    = Inr (length payload, length pre)"
    using chunk_uvarint_loop_append [of "take 5 pre" 0 0 "length payload" "length pre"] n
    by (simp add: chunk_uvarint_def MAX_UVARINT_SIZE_def)
  then have u: "chunk_uvarint rec = Inr (length payload, length pre)"
    using bnd by (simp add: chunk_uvarint_def MAX_UVARINT_SIZE_def rec_def)
  have len: "length rec = length pre + 1 + length payload + 4" by (simp add: rec_def lp)
  have s1: "slice rec (length pre + 1 + length payload) (length pre + 1 + length payload + 4) = post"
    using slice_append_mid [of "pre @ enc # payload" post "[]"] by (simp add: rec_def lp)
  have s2: "slice rec (length pre) (length pre + 1 + length payload) = enc # payload"
    using slice_append_mid [of pre "enc # payload" post] by (simp add: rec_def)
  have s3: "slice rec (length pre + 1) (length pre + 1 + length payload) = payload"
    using slice_append_mid [of "pre @ [enc]" payload post] by (simp add: rec_def)
  have e: "rec ! length pre = enc" by (simp add: rec_def)
  have "validated_payload crc rec = Inr (enc, payload)"
    using bnd s1 s2 s3 e
    by (simp add: validated_payload_def u usize_checked_add_def CRC_SIZE_def len slice_index_ok elem_index_def
        add.assoc flip: crc)
  then show ?thesis by (simp only: rec_def post_def)
qed

lemma validated_payload_Inr:
  assumes "validated_payload crc rec = Inr (enc, payload)"
  shows "\<exists>pre. chunk_uvarint pre = Inr (length payload, length pre)
    \<and> rec = pre @ (enc # payload) @ to_be_bytes 4 (unat (crc (enc # payload)))"
proof -
  obtain n sz where u: "chunk_uvarint rec = Inr (n, sz)" and len: "length rec = sz + 1 + n + 4"
    and crc: "crc (slice rec sz (sz + 1 + n)) = word_of_nat (be_nat (slice rec (sz + 1 + n) (length rec)))"
    and enc: "enc = rec ! sz" and payload: "payload = slice rec (sz + 1) (sz + 1 + n)"
    using assms
    by (auto simp: validated_payload_def res_simps CRC_SIZE_def add.assoc bind_eq_Some_conv
        split: if_splits prod.splits)
  note bnd = chunk_uvarint_bounds [OF u]
  define pre where "pre = take sz rec"
  have pl: "length payload = n" "length pre = sz"
    using len by (simp_all add: payload pre_def)
  have "slice rec sz (sz + 1) = [enc]"
    using len by (simp add: slice_def enc take_Suc hd_drop_conv_nth)
  then have content: "slice rec sz (sz + 1 + n) = enc # payload"
    using slice_split [of sz "sz + 1" "sz + 1 + n" rec] by (simp add: payload)
  have post: "slice rec (sz + 1 + n) (length rec) = to_be_bytes 4 (unat (crc (enc # payload)))"
    using crc_word_bytes [of "slice rec (sz + 1 + n) (length rec)"] crc content len by simp
  have "rec = pre @ slice rec sz (sz + 1 + n) @ slice rec (sz + 1 + n) (length rec)"
    using len slice_split [of sz "sz + 1 + n" "length rec" rec] by (simp add: pre_def slice_def)
  moreover have "chunk_uvarint pre = Inr (n, sz)"
    using chunk_uvarint_loop_append [of "take 5 rec" 0 0 n sz "[]"] u bnd
    by (simp add: chunk_uvarint_def MAX_UVARINT_SIZE_def pre_def min_def)
  ultimately have "rec = pre @ (enc # payload) @ to_be_bytes 4 (unat (crc (enc # payload)))"
    and "chunk_uvarint pre = Inr (length payload, length pre)"
    using pl by (simp_all only: content post)
  then show ?thesis by blast
qed

lemma frame_prefix:
  "length payload < 2 ^ 35
   \<Longrightarrow> chunk_uvarint (encode_uvarint (length payload))
       = Inr (length payload, length (encode_uvarint (length payload)))"
  using chunk_uvarint_encode [of "length payload" "[]"] by simp

lemma validated_payload_encode:
  "length payload < 2 ^ 35 \<Longrightarrow> validated_payload crc (frame crc enc payload) = Inr (enc, payload)"
  unfolding frame_def by (intro validated_payload_frame frame_prefix)

lemma validated_payload_no_panic [simp]: "no_panic (validated_payload crc rec)"
proof -
  have "sz < length rec" if "chunk_uvarint rec = Inr (n, sz)" and "sz + 1 + n + 4 = length rec" for n sz
    using that by simp
  then show ?thesis
    unfolding validated_payload_def
    by (auto intro!: slice_index_no_panic elem_index_no_panic simp: CRC_SIZE_def res_simps bind_eq_Some_conv)
qed

section \<open>Aggregate chunks\<close>

definition encode_slot :: "bytes option \<Rightarrow> bytes" where
  "encode_slot slot =
     (case slot of None \<Rightarrow> encode_uvarint 0 | Some d \<Rightarrow> encode_uvarint (length d) @ word_of_nat ENCODING_XOR # d)"

definition slot_ok :: "bytes option \<Rightarrow> bool" where
  "slot_ok slot \<longleftrightarrow> (case slot of None \<Rightarrow> True | Some d \<Rightarrow> d \<noteq> [] \<and> length d < 2 ^ 35)"

lemma read_slot_encode:
  assumes "slot_ok slot"
  shows "read_slot (encode_slot slot @ rest)
    = Inr (map_option (\<lambda>d. word_of_nat ENCODING_XOR # d) slot, rest)"
proof (cases slot)
  case None
  then show ?thesis
    using chunk_uvarint_encode [of 0 rest] by (simp add: read_slot_def encode_slot_def slice_get_def slice_def)
next
  case (Some d)
  with assms have d: "d \<noteq> []" "length d < 2 ^ 35" by (simp_all add: slot_ok_def)
  then show ?thesis
    using Some chunk_uvarint_encode [OF d(2), of "word_of_nat ENCODING_XOR # d @ rest"]
    by (simp add: read_slot_def encode_slot_def slice_get_def slice_def slice_index_def usize_checked_add_def)
qed

lemma aggregate_loop_encode:
  "\<forall>slot \<in> set slots. slot_ok slot \<Longrightarrow>
    aggregate_loop (length slots) (concat (map encode_slot slots) @ rest) = Inr (slots, rest)"
proof (induction slots)
  case (Cons slot slots)
  then have "slot_ok slot" by simp
  from read_slot_encode [OF this, of "concat (map encode_slot slots) @ rest"] Cons show ?case
    by (cases slot) (simp_all add: elem_index_def slice_index_def slice_get_def slice_def ENCODING_XOR_def)
qed simp

definition encode_aggregate ::
  "bytes option \<Rightarrow> bytes option \<Rightarrow> bytes option \<Rightarrow> bytes option \<Rightarrow> bytes option \<Rightarrow> bytes" where
  "encode_aggregate c s mn mx ctr = concat (map encode_slot [c, s, mn, mx, ctr])"

lemma decode_aggregate_encode:
  assumes "\<forall>slot \<in> {c, s, mn, mx, ctr}. slot_ok slot"
  shows "decode_aggregate (encode_aggregate c s mn mx ctr) = Inr (Aggregate c s mn mx ctr)"
  using aggregate_loop_encode [of "[c, s, mn, mx, ctr]" "[]"] assms
  by (simp add: decode_aggregate_def encode_aggregate_def AGGR_COUNTER_SLOT_def numeral_eq_Suc
      del: aggregate_loop.simps)

lemma read_slot_nonempty: "read_slot bs = Inr (Some d, rest) \<Longrightarrow> d \<noteq> []"
  by (auto simp: read_slot_def res_simps slice_def split: if_splits)

lemma read_slot_no_panic [simp]: "no_panic (read_slot bs)"
  unfolding read_slot_def by (auto intro!: slice_index_no_panic simp: res_simps)

lemma slot_encoding_no_panic:
  assumes "read_slot bs = Inr (Some d, rest)"
  shows "no_panic (elem_index d 0)" and "no_panic (slice_index d (Suc 0) (length d))"
  using read_slot_nonempty [OF assms] by (cases d; simp add: elem_index_def slice_index_ok)+

lemma aggregate_loop_no_panic [simp]: "no_panic (aggregate_loop n bs)"
  by (induction n arbitrary: bs) (auto simp: slot_encoding_no_panic)

lemma aggregate_loop_Suc:
  assumes "aggregate_loop (Suc n) bs = Inr (slots, rest)"
  obtains slot r slots' where "read_slot bs = Inr (slot, r)" and "aggregate_loop n r = Inr (slots', rest)"
    and "slots = (case slot of None \<Rightarrow> None | Some d \<Rightarrow> Some (slice d 1 (length d))) # slots'"
    and "\<And>d. slot = Some d \<Longrightarrow> d \<noteq> [] \<and> unat (d ! 0) = ENCODING_XOR"
proof -
  obtain slot r where slot: "read_slot bs = Inr (slot, r)" using assms by (auto simp: tryR_eq_Inr)
  show thesis
  proof (cases slot)
    case None
    with assms slot that show thesis by (auto simp: tryR_eq_Inr)
  next
    case (Some d)
    with assms slot that [OF slot] read_slot_nonempty [of bs d r] show thesis
      by (auto simp: tryR_eq_Inr elem_index_Inr slice_index_Inr split: if_splits)
  qed
qed

lemma length_aggregate_loop: "aggregate_loop n bs = Inr (slots, rest) \<Longrightarrow> length slots = n"
proof (induction n arbitrary: bs slots)
  case (Suc n)
  from Suc.prems show ?case by (rule aggregate_loop_Suc) (simp add: Suc.IH)
qed simp

lemma decode_aggregate_no_panic [simp]: "no_panic (decode_aggregate bs)"
  unfolding decode_aggregate_def
  by (auto simp: AGGR_COUNTER_SLOT_def dest!: length_aggregate_loop split: list.splits)

lemma decode_xor_no_panic [simp]: "no_panic (decode_xor read_xor d)"
  by (simp add: decode_xor_def)

lemma counter_loop_no_panic: "no_panic (counter_loop read_xor n bs)"
  by (induction n arbitrary: bs; subst counter_loop.simps) (auto simp: slot_encoding_no_panic)

lemma counter_loop_aggregate:
  "aggregate_loop (Suc n) bs = Inr (slots, rest) \<Longrightarrow>
    counter_loop read_xor n bs
    = (case last slots of None \<Rightarrow> Inr [] | Some d \<Rightarrow> decode_xor read_xor d)"
proof (induction n arbitrary: bs slots)
  case 0
  from 0 show ?case
    by (rule aggregate_loop_Suc) (subst counter_loop.simps, auto simp: elem_index_def slice_index_ok Suc_le_eq split: option.split)
next
  case (Suc n)
  from Suc.prems show ?case
  proof (rule aggregate_loop_Suc)
    fix slot r slots'
    assume slot: "read_slot bs = Inr (slot, r)" and agg: "aggregate_loop (Suc n) r = Inr (slots', rest)"
      and slots: "slots = (case slot of None \<Rightarrow> None | Some d \<Rightarrow> Some (slice d 1 (length d))) # slots'"
    have "slots' \<noteq> []" using length_aggregate_loop [OF agg] by auto
    then show ?thesis
      using Suc.IH [OF agg] slot slots by (subst counter_loop.simps) (auto split: option.splits)
  qed
qed

lemma decode_aggregate_counter_eq:
  assumes "decode_aggregate bs = Inr chunk"
  shows "decode_aggregate_counter read_xor bs
    = (case agg_counter chunk of None \<Rightarrow> Inr [] | Some d \<Rightarrow> decode_xor read_xor d)"
proof -
  obtain slots r where agg: "aggregate_loop (Suc AGGR_COUNTER_SLOT) bs = Inr (slots, r)"
    using assms by (auto simp: decode_aggregate_def tryR_eq_Inr simp del: aggregate_loop.simps)
  with assms have "agg_counter chunk = last slots"
    by (auto simp: decode_aggregate_def simp del: aggregate_loop.simps split: if_splits list.splits)
  then show ?thesis
    by (simp add: decode_aggregate_counter_def counter_loop_aggregate [OF agg])
qed

lemma decode_record_no_panic: "no_panic (decode_record crc read_xor rec counter_metric)"
  unfolding decode_record_def decode_aggregate_counter_def by (auto simp: counter_loop_no_panic)

lemma decode_encoded_record_no_panic: "no_panic (decode_encoded_record crc rec)"
  unfolding decode_encoded_record_def by auto

section \<open>Reading a record through a range reader\<close>

lemma length_frame: "length (frame crc enc payload) = length (encode_uvarint (length payload)) + 1 + length payload + 4"
  by (simp add: frame_def)

lemma frame_nonempty [simp]: "frame crc enc payload \<noteq> []"
  by (simp add: frame_def)

lemma chunk_uvarint_frame_prefix:
  assumes "length payload < 2 ^ 35" and "6 \<le> k"
  shows "chunk_uvarint (take k (frame crc enc payload)) = Inr (length payload, length (encode_uvarint (length payload)))"
  using chunk_uvarint_take [of k "frame crc enc payload"] chunk_uvarint_encode [OF assms(1)] assms(2)
  by (simp add: frame_def MAX_UVARINT_SIZE_def)

text \<open>An object that stores a record at an offset.\<close>

definition stores :: "bytes \<Rightarrow> nat \<Rightarrow> bytes \<Rightarrow> bool" where
  "stores content offset rec \<longleftrightarrow> offset + length rec \<le> length content
     \<and> slice content offset (offset + length rec) = rec \<and> length content < 2 ^ 64"

lemma stores_prefix:
  assumes "stores content offset rec" and "k \<le> length rec"
  shows "slice content offset (offset + k) = take k rec"
proof -
  have "take k rec = take k (take (length rec) (drop offset content))"
    using assms(1) by (simp add: stores_def slice_def)
  then show ?thesis using assms(2) by (simp add: slice_def min_def)
qed

text \<open>The two ranges \<open>read_record\<close> asks for, when a record is stored at the offset.\<close>

lemma stored_record_ranges:
  assumes stored: "stores content offset (frame crc enc payload)" and len: "length payload < 2 ^ 35"
  shows "6 \<le> length (frame crc enc payload)"
    and "u64_wrap (Suc (offset + MAX_UVARINT_SIZE)) = offset + 6"
    and "u64_wrap (offset + length (frame crc enc payload)) = offset + length (frame crc enc payload)"
    and "record_length (slice content offset (offset + 6)) = Inr (length (frame crc enc payload))"
    and "slice content offset (offset + length (frame crc enc payload)) = frame crc enc payload"
    and "offset + length (frame crc enc payload) \<le> length content"
proof -
  let ?rec = "frame crc enc payload"
  have rl: "length ?rec = length (encode_uvarint (length payload)) + 1 + length payload + 4"
    by (rule length_frame)
  have fit: "offset + length ?rec \<le> length content" "length content < 2 ^ 64"
    using stored by (simp_all add: stores_def)
  show six: "6 \<le> length ?rec" using rl length_encode_uvarint_pos [of "length payload"] by linarith
  show "u64_wrap (Suc (offset + MAX_UVARINT_SIZE)) = offset + 6"
    "u64_wrap (offset + length ?rec) = offset + length ?rec"
    using fit six by (simp_all add: u64_wrap_def MAX_UVARINT_SIZE_def)
  show "record_length (slice content offset (offset + 6)) = Inr (length ?rec)"
    using stores_prefix [OF stored, of 6] six len rl fit
    by (simp add: record_length_def chunk_uvarint_frame_prefix usize_checked_add_def CRC_SIZE_def)
  show "slice content offset (offset + length ?rec) = ?rec" "offset + length ?rec \<le> length content"
    using stored by (simp_all add: stores_def)
qed

context range_reader
begin

text \<open>Whatever the reader's state, what is read is the stored record or the reader's own error.\<close>

lemma read_record_sound:
  assumes ok: "ok st" and obj: "obj path = Some content"
    and stored: "stores content offset (frame crc enc payload)" and len: "length payload < 2 ^ 35"
    and run: "read_record rr path offset st = (r, st')"
  shows "ok st' \<and> (r = Inr (frame crc enc payload) \<or> (\<exists>e. r = Inl (map_fault RangeError e)))"
proof -
  note rngs = stored_record_ranges [OF stored len]
  let ?n = "length (frame crc enc payload)"
  obtain r1 st1 where r1: "rr path offset (offset + 6) st = (r1, st1)" by fastforce
  note ok1 = read_keeps [OF ok r1]
  obtain r2 st2 where r2: "rr path offset (offset + ?n) st1 = (r2, st2)" by fastforce
  note ok2 = read_keeps [OF ok1 r2]
  have d1: "d = slice content offset (offset + 6)" if "r1 = Inr d" for d
    using read_sound [OF ok obj _ _ r1 [unfolded that]] rngs by simp
  have d2: "d = frame crc enc payload" if "r2 = Inr d" for d
    using read_sound [OF ok1 obj _ _ r2 [unfolded that]] rngs frame_nonempty by simp
  show ?thesis
    using run r1 r2 ok1 ok2 d1 d2 rngs(2-4)
    by (cases r1; cases r2) (auto simp: read_record_def)
qed

end

context reliable_reader
begin

lemma read_record_exact:
  assumes ok: "ok st" and obj: "obj path = Some content"
    and stored: "stores content offset (frame crc enc payload)" and len: "length payload < 2 ^ 35"
  shows "\<exists>st'. read_record rr path offset st = (Inr (frame crc enc payload), st') \<and> ok st'"
proof -
  note rngs = stored_record_ranges [OF stored len]
  let ?n = "length (frame crc enc payload)"
  have "offset < offset + 6" "offset + 6 \<le> length content" using rngs(1,6) by simp_all
  from read_exact [OF ok obj this] obtain st1
    where r1: "rr path offset (offset + 6) st = (Inr (slice content offset (offset + 6)), st1)" "ok st1"
    by blast
  have "offset < offset + ?n" "offset + ?n \<le> length content" using rngs(1,6) by linarith+
  from read_exact [OF r1(2) obj this] obtain st2
    where "rr path offset (offset + ?n) st1 = (Inr (frame crc enc payload), st2)" "ok st2"
    unfolding rngs(5) by blast
  with r1 rngs(2-4) show ?thesis by (simp add: read_record_def)
qed

end

end
