(* ===== verification/Chunk_Reader_Props.thy ===== *)
theory Chunk_Reader_Props
  imports Chunk_Reader_Facts
begin

text \<open>
  The properties of the chunk record format.  What \<open>read_encoded_chunk\<close> returns through a reader is
  with the providers of the reader, in \<open>Range_Cache_Props\<close>.
\<close>

text \<open>
  C16: a record is accepted, with an encoding and a payload, exactly when it is a varint of the
  payload's length, the encoding byte, the payload and their CRC-32C in big-endian order, with
  nothing left over.
\<close>

theorem record_accepted_iff_frame:
  "validated_payload crc rec = Inr (enc, payload) \<longleftrightarrow>
    (\<exists>pre. chunk_uvarint pre = Inr (length payload, length pre)
      \<and> rec = pre @ (enc # payload) @ to_be_bytes 4 (unat (crc (enc # payload))))"
  using validated_payload_Inr validated_payload_frame by metis

text \<open>No bytes make either decoder of records panic.\<close>

theorem decoders_never_panic:
  "decode_encoded_record crc rec \<noteq> Inl Panic \<and> decode_record crc read_xor rec counter_metric \<noteq> Inl Panic"
  using decode_record_no_panic [of crc read_xor rec counter_metric] decode_encoded_record_no_panic [of crc rec]
  by (simp add: no_panic_def)

text \<open>
  A record framed with encoding byte 255 around five slots decodes to these slots, present or
  absent, for every content a slot can have; the other encodings decode to their payload.
\<close>

theorem aggregate_record_round_trip:
  assumes "\<forall>slot \<in> {c, s, mn, mx, ctr}. slot_ok slot"
    and "length (encode_aggregate c s mn mx ctr) < 2 ^ 35"
  shows "decode_encoded_record crc (frame crc 255 (encode_aggregate c s mn mx ctr))
    = Inr (Aggregate c s mn mx ctr)"
  using decode_aggregate_encode [OF assms(1)] validated_payload_encode [OF assms(2)]
  by (simp add: decode_encoded_record_def chunk_consts)

theorem aggregate_record_round_trip_witness:
  "decode_encoded_record (\<lambda>_. 7) (frame (\<lambda>_. 7) 255 (encode_aggregate None (Some [1, 2]) None None (Some [9])))
    = Inr (Aggregate None (Some [1, 2]) None None (Some [9]))"
  by (rule aggregate_record_round_trip)
     (simp_all add: slot_ok_def encode_aggregate_def encode_slot_def encode_uvarint_small)

text \<open>
  Where a record decodes as an aggregate for the Store API, the sample reader of a counter
  metric decodes its counter slot, and gives no samples when the slot is absent.
\<close>

theorem counter_samples_agree:
  assumes "decode_encoded_record crc rec = Inr (Aggregate c s mn mx ctr)"
  shows "decode_record crc read_xor rec True
    = (case ctr of None \<Rightarrow> Inr [] | Some d \<Rightarrow> decode_xor read_xor d)"
proof -
  obtain enc payload where v: "validated_payload crc rec = Inr (enc, payload)"
    and enc: "unat enc = ENCODING_AGGR" and agg: "decode_aggregate payload = Inr (Aggregate c s mn mx ctr)"
    using assms by (auto simp: decode_encoded_record_def tryR_eq_Inr split: if_splits)
  then show ?thesis
    using decode_aggregate_counter_eq [OF agg, of read_xor] by (simp add: decode_record_def chunk_consts)
qed

theorem counter_samples_agree_witness:
  "decode_record (\<lambda>_. 7) (\<lambda>d. Some [\<lparr>sm_timestamp = int (length d), sm_value = 5\<rparr>])
      (frame (\<lambda>_. 7) 255 (encode_aggregate None None None None (Some [9]))) True
    = Inr [\<lparr>sm_timestamp = 1, sm_value = 5\<rparr>]"
proof -
  have "decode_encoded_record (\<lambda>_. 7) (frame (\<lambda>_. 7) 255 (encode_aggregate None None None None (Some [9])))
    = Inr (Aggregate None None None None (Some [9]))"
  proof -
    have "length (encode_aggregate None None None None (Some [9])) < 2 ^ 35"
      by (simp add: encode_aggregate_def encode_slot_def encode_uvarint_small)
    moreover have "decode_aggregate (encode_aggregate None None None None (Some [9]))
      = Inr (Aggregate None None None None (Some [9]))"
      by (rule decode_aggregate_encode) (simp add: slot_ok_def)
    ultimately show ?thesis
      by (simp add: decode_encoded_record_def chunk_consts validated_payload_encode)
  qed
  from counter_samples_agree [OF this, of "\<lambda>d. Some [\<lparr>sm_timestamp = int (length d), sm_value = 5\<rparr>]"]
  show ?thesis by (simp add: decode_xor_def)
qed

end
