(* ===== verification/Float64.thy ===== *)
theory Float64
  imports Prelude
begin

text \<open>
  The two things the program does with an \<open>f64\<close> it computes with, the protected fraction of the page
  cache: the range test \<open>(0.0..=1.0).contains(&x)\<close> and \<open>(n as f64 * x) as u64\<close>, on the 64-bit pattern
  of \<open>x\<close>.  Both conversions and the product round to 53 bits, ties to even; the cast truncates and
  saturates, and takes NaN to 0.  A product below the normal range truncates to 0 with either
  rounding, so the subnormal rounding of products needs no case.
\<close>

definition f64_negative :: "u64 \<Rightarrow> bool" where
  "f64_negative x \<longleftrightarrow> bit x 63"

definition f64_exponent :: "u64 \<Rightarrow> nat" where
  "f64_exponent x = unat x div 2 ^ 52 mod 2 ^ 11"

definition f64_fraction :: "u64 \<Rightarrow> nat" where
  "f64_fraction x = unat x mod 2 ^ 52"

definition f64_is_nan :: "u64 \<Rightarrow> bool" where
  "f64_is_nan x \<longleftrightarrow> f64_exponent x = 2047 \<and> f64_fraction x \<noteq> 0"

definition f64_is_infinite :: "u64 \<Rightarrow> bool" where
  "f64_is_infinite x \<longleftrightarrow> f64_exponent x = 2047 \<and> f64_fraction x = 0"

text \<open>A finite number is plus or minus its significand times \<open>2 ^ (max 1 exponent - 1075)\<close>.\<close>

definition f64_significand :: "u64 \<Rightarrow> nat" where
  "f64_significand x = (if f64_exponent x = 0 then f64_fraction x else f64_fraction x + 2 ^ 52)"

definition f64_in_unit :: "u64 \<Rightarrow> bool" where
  "f64_in_unit x \<longleftrightarrow>
     \<not> f64_is_nan x \<and> \<not> f64_is_infinite x \<and>
     (f64_significand x = 0 \<or>
      \<not> f64_negative x \<and> (f64_exponent x < 1023 \<or> f64_exponent x = 1023 \<and> f64_fraction x = 0))"

fun bit_length :: "nat \<Rightarrow> nat" where
  "bit_length n = (if n = 0 then 0 else Suc (bit_length (n div 2)))"

declare bit_length.simps [simp del]

definition round53 :: "nat \<Rightarrow> nat" where
  "round53 n =
     (let s = bit_length n - 53; q = n div 2 ^ s; r = n mod 2 ^ s in
      if s = 0 then n
      else if 2 ^ (s - 1) < r \<or> r = 2 ^ (s - 1) \<and> odd q then (q + 1) * 2 ^ s
      else q * 2 ^ s)"

definition mul_f64_as_u64 :: "nat \<Rightarrow> u64 \<Rightarrow> nat" where
  "mul_f64_as_u64 n x =
     (if f64_is_nan x \<or> n = 0 \<or> f64_significand x = 0 \<or> f64_negative x then 0
      else if f64_is_infinite x then 2 ^ 64 - 1
      else
        let product = round53 (round53 n * f64_significand x); e = max 1 (f64_exponent x) in
        min (2 ^ 64 - 1)
          (if e \<le> 1075 then product div 2 ^ (1075 - e) else product * 2 ^ (e - 1075)))"

lemma bit_length_le: "n < 2 ^ k \<Longrightarrow> bit_length n \<le> k"
proof (induction k arbitrary: n)
  case 0
  then show ?case by (simp add: bit_length.simps)
next
  case (Suc k)
  then show ?case by (subst bit_length.simps) auto
qed

lemma round53_exact: "n < 2 ^ 53 \<Longrightarrow> round53 n = n"
  using bit_length_le [of n 53] by (simp add: round53_def)

end
