(* ===== verification/Config.thy ===== *)
theory Config
  imports Float64 Rust_Text
begin

text \<open>
  The reader's configuration, \<open>src/config.rs\<close>: its structures with their defaults, the byte sizes and
  \<open>validate\<close>.

  Parameters: \<open>parse_duration\<close> is \<open>humantime::parse_duration\<close>, in nanoseconds; \<open>addr_ok\<close> tells whether
  \<open>str::parse::<SocketAddr>\<close> succeeds; \<open>from_toml\<close> is \<open>toml::from_str\<close> into the structures, with the
  defaults below for absent fields.
\<close>

section \<open>Structures and defaults\<close>

record s3_config =
  s3_region :: "string option"
  s3_endpoint :: "string option"
  s3_virtual_host_style :: bool

record gcs_config =
  gcs_endpoint :: "string option"

record repository_config =
  rc_name :: string
  rc_uri :: string
  rc_s3 :: "s3_config option"
  rc_gcs :: "gcs_config option"

datatype cache_policy = Lru | Slru

record chunk_cache_config =
  cc_directory :: string
  cc_max_size :: string
  cc_page_size :: string
  cc_policy :: cache_policy
  cc_protected_fraction :: u64

record storage_config =
  st_request_timeout :: string
  st_max_retries :: nat
  st_max_concurrent_requests :: nat
  st_bulk_read_chunk_size :: string
  st_bulk_read_concurrency :: nat
  st_max_concurrent_chunk_reads :: nat
  st_index_build_concurrency :: nat
  st_materialize_chunk_index :: bool
  st_metadata_read_concurrency :: nat
  st_block_max_age :: "string option"
  st_chunk_cache :: "chunk_cache_config option"

record reader_config =
  cf_listen_addr :: string
  cf_metrics_listen_addr :: string
  cf_index_cache_location :: string
  cf_repositories :: "repository_config list"
  cf_storage :: storage_config

definition DEFAULT_CONFIG_PATH :: string where "DEFAULT_CONFIG_PATH = ''dev.toml''"
definition DEFAULT_METRICS_LISTEN_ADDR :: string where "DEFAULT_METRICS_LISTEN_ADDR = ''127.0.0.1:9090''"

definition default_metrics_listen_addr :: string where
  "default_metrics_listen_addr = DEFAULT_METRICS_LISTEN_ADDR"
definition default_request_timeout :: string where "default_request_timeout = ''30s''"
definition default_max_retries :: nat where "default_max_retries = 3"
definition default_max_concurrent_requests :: nat where "default_max_concurrent_requests = 64"
definition default_bulk_read_chunk_size :: string where "default_bulk_read_chunk_size = ''8MiB''"
definition default_bulk_read_concurrency :: nat where "default_bulk_read_concurrency = 4"
definition default_max_concurrent_chunk_reads :: nat where "default_max_concurrent_chunk_reads = 16"
definition default_index_build_concurrency :: nat where "default_index_build_concurrency = 12"
definition default_materialize_chunk_index :: bool where "default_materialize_chunk_index = True"
definition default_metadata_read_concurrency :: nat where "default_metadata_read_concurrency = 64"
definition default_chunk_cache_max_size :: string where "default_chunk_cache_max_size = ''10GiB''"
definition default_chunk_cache_page_size :: string where "default_chunk_cache_page_size = ''512KiB''"
definition default_chunk_cache_policy :: cache_policy where "default_chunk_cache_policy = Slru"
definition default_protected_fraction :: u64 where "default_protected_fraction = 0x3FE999999999999A"

definition default_storage :: storage_config where
  "default_storage = \<lparr>
     st_request_timeout = default_request_timeout,
     st_max_retries = default_max_retries,
     st_max_concurrent_requests = default_max_concurrent_requests,
     st_bulk_read_chunk_size = default_bulk_read_chunk_size,
     st_bulk_read_concurrency = default_bulk_read_concurrency,
     st_max_concurrent_chunk_reads = default_max_concurrent_chunk_reads,
     st_index_build_concurrency = default_index_build_concurrency,
     st_materialize_chunk_index = default_materialize_chunk_index,
     st_metadata_read_concurrency = default_metadata_read_concurrency,
     st_block_max_age = None,
     st_chunk_cache = None\<rparr>"

lemmas config_defaults = default_storage_def default_request_timeout_def default_max_retries_def
  default_max_concurrent_requests_def default_bulk_read_chunk_size_def
  default_bulk_read_concurrency_def default_max_concurrent_chunk_reads_def
  default_index_build_concurrency_def default_materialize_chunk_index_def
  default_metadata_read_concurrency_def

definition config_path :: "string option \<Rightarrow> string" where
  "config_path var = (case var of Some path \<Rightarrow> path | None \<Rightarrow> DEFAULT_CONFIG_PATH)"

section \<open>Errors\<close>

text \<open>One constructor per error, with the values its message shows.\<close>

datatype config_error =
    UnreadableConfig
  | InvalidToml string
  | InvalidAddress string
  | InvalidDuration string
  | InvalidSizeNumber int_error
  | SizeOverflow string
  | SizeSuffix string
  | EmptyIndexCacheLocation
  | NoRepositories
  | EmptyRepositoryName
  | EmptyRepositoryUri string
  | DuplicateRepositoryName string
  | UriWithoutScheme string
  | OptionsForOtherBackend string
  | UnsupportedScheme string
  | ZeroRequestTimeout
  | ZeroConcurrency
  | ZeroBulkReadChunkSize
  | InvalidPageSize
  | PageSizeNotPowerOfTwo
  | InvalidProtectedFraction

section \<open>Sizes and durations\<close>

definition size_suffixes :: "(string \<times> nat) list" where
  "size_suffixes =
     [(''KiB'', 1024), (''MiB'', 1024 ^ 2), (''GiB'', 1024 ^ 3), (''TiB'', 1024 ^ 4), (''B'', 1)]"

fun parse_size_loop :: "(string \<times> nat) list \<Rightarrow> string \<Rightarrow> string \<Rightarrow> config_error + nat" where
  "parse_size_loop [] value name = Inl (SizeSuffix name)"
| "parse_size_loop ((suffix, multiplier) # suffixes) value name =
     (case strip_suffix suffix value of
        Some number \<Rightarrow>
          tryR (map_err InvalidSizeNumber (parse_u64 (trim number))) (\<lambda>n.
            if n * multiplier < 2 ^ 64 then Inr (n * multiplier) else Inl (SizeOverflow name))
      | None \<Rightarrow> parse_size_loop suffixes value name)"

definition parse_size :: "string \<Rightarrow> string \<Rightarrow> config_error + nat" where
  "parse_size value name = parse_size_loop size_suffixes (trim value) name"

definition max_size_bytes :: "chunk_cache_config \<Rightarrow> config_error + nat" where
  "max_size_bytes cache = parse_size (cc_max_size cache) ''chunk cache max_size''"

definition page_size_bytes :: "chunk_cache_config \<Rightarrow> config_error + nat" where
  "page_size_bytes cache = parse_size (cc_page_size cache) ''chunk cache page_size''"

definition bulk_read_chunk_size_bytes :: "storage_config \<Rightarrow> config_error + nat" where
  "bulk_read_chunk_size_bytes storage =
     parse_size (st_bulk_read_chunk_size storage) ''storage bulk_read_chunk_size''"

type_synonym duration_parser = "string \<Rightarrow> string + nat"

definition request_timeout_duration :: "duration_parser \<Rightarrow> storage_config \<Rightarrow> config_error + nat" where
  "request_timeout_duration parse_duration storage =
     map_err InvalidDuration (parse_duration (st_request_timeout storage))"

definition block_max_age_duration ::
  "duration_parser \<Rightarrow> storage_config \<Rightarrow> config_error + nat option" where
  "block_max_age_duration parse_duration storage =
     (case st_block_max_age storage of
        None \<Rightarrow> Inr None
      | Some age \<Rightarrow> map_err InvalidDuration (tryR (parse_duration age) (\<lambda>d. Inr (Some d))))"

section \<open>Validation\<close>

fun is_power_of_two :: "nat \<Rightarrow> bool" where
  "is_power_of_two n = (if n = 0 then False else n = 1 \<or> even n \<and> is_power_of_two (n div 2))"

declare is_power_of_two.simps [simp del]

definition validate_cache :: "chunk_cache_config \<Rightarrow> config_error + unit" where
  "validate_cache cache =
     tryR (max_size_bytes cache) (\<lambda>max_size.
     tryR (page_size_bytes cache) (\<lambda>page_size.
       if max_size = 0 \<or> page_size = 0 \<or> max_size < page_size then Inl InvalidPageSize
       else if \<not> is_power_of_two page_size then Inl PageSizeNotPowerOfTwo
       else if \<not> f64_in_unit (cc_protected_fraction cache) then Inl InvalidProtectedFraction
       else Inr ()))"

definition validate_storage :: "duration_parser \<Rightarrow> storage_config \<Rightarrow> config_error + unit" where
  "validate_storage parse_duration storage =
     tryR (request_timeout_duration parse_duration storage) (\<lambda>timeout.
       if timeout = 0 then Inl ZeroRequestTimeout
       else if st_max_concurrent_requests storage = 0 \<or> st_bulk_read_concurrency storage = 0
         \<or> st_max_concurrent_chunk_reads storage = 0 \<or> st_index_build_concurrency storage = 0
         \<or> st_metadata_read_concurrency storage = 0 then Inl ZeroConcurrency
       else
         tryR (bulk_read_chunk_size_bytes storage) (\<lambda>size.
           if size = 0 then Inl ZeroBulkReadChunkSize
           else case st_chunk_cache storage of None \<Rightarrow> Inr () | Some cache \<Rightarrow> validate_cache cache))"

definition uri_scheme :: "string \<Rightarrow> string option" where
  "uri_scheme uri = map_option fst (split_once ''://'' uri)"

definition validate_scheme :: "repository_config \<Rightarrow> string \<Rightarrow> config_error + unit" where
  "validate_scheme repository scheme =
     (if scheme = ''file'' \<and> rc_s3 repository = None \<and> rc_gcs repository = None then Inr ()
      else if scheme = ''s3'' \<and> rc_gcs repository = None then Inr ()
      else if (scheme = ''gs'' \<or> scheme = ''gcs'') \<and> rc_s3 repository = None then Inr ()
      else if scheme \<in> {''file'', ''s3'', ''gs'', ''gcs''}
        then Inl (OptionsForOtherBackend (rc_name repository))
      else Inl (UnsupportedScheme scheme))"

fun validate_repositories :: "string set \<Rightarrow> repository_config list \<Rightarrow> config_error + unit" where
  "validate_repositories names [] = Inr ()"
| "validate_repositories names (repository # repositories) =
     (if trim (rc_name repository) = '''' then Inl EmptyRepositoryName
      else if trim (rc_uri repository) = '''' then Inl (EmptyRepositoryUri (rc_name repository))
      else if rc_name repository \<in> names then Inl (DuplicateRepositoryName (rc_name repository))
      else
        case uri_scheme (rc_uri repository) of
          None \<Rightarrow> Inl (UriWithoutScheme (rc_uri repository))
        | Some scheme \<Rightarrow>
            tryR (validate_scheme repository scheme) (\<lambda>_.
              validate_repositories (insert (rc_name repository) names) repositories))"

definition validate :: "(string \<Rightarrow> bool) \<Rightarrow> duration_parser \<Rightarrow> reader_config \<Rightarrow> config_error + unit" where
  "validate addr_ok parse_duration config =
     (if \<not> addr_ok (cf_listen_addr config) then Inl (InvalidAddress (cf_listen_addr config))
      else if \<not> addr_ok (cf_metrics_listen_addr config)
        then Inl (InvalidAddress (cf_metrics_listen_addr config))
      else if trim (cf_index_cache_location config) = '''' then Inl EmptyIndexCacheLocation
      else if cf_repositories config = [] then Inl NoRepositories
      else
        tryR (validate_storage parse_duration (cf_storage config)) (\<lambda>_.
          validate_repositories {} (cf_repositories config)))"

definition load ::
  "(string \<Rightarrow> bool) \<Rightarrow> duration_parser \<Rightarrow> (string \<Rightarrow> string + reader_config) \<Rightarrow> string option
   \<Rightarrow> config_error + reader_config" where
  "load addr_ok parse_duration from_toml contents =
     tryR (case contents of None \<Rightarrow> Inl UnreadableConfig | Some text \<Rightarrow> Inr text) (\<lambda>text.
     tryR (map_err InvalidToml (from_toml text)) (\<lambda>config.
     tryR (validate addr_ok parse_duration config) (\<lambda>_. Inr config)))"

end
