(* ===== verification/Config_Facts.thy ===== *)
theory Config_Facts
  imports Config
begin

text \<open>
  What the configuration guarantees: sizes written with a suffix parse to the number of bytes they
  name, and \<open>validate\<close> accepts exactly the configurations that meet a declarative specification.
\<close>

section \<open>Trimming\<close>

definition plain_ends :: "string \<Rightarrow> bool" where
  "plain_ends s \<longleftrightarrow> s \<noteq> [] \<and> hd s \<notin> hd ` set white_space \<and> last s \<notin> last ` set white_space"

lemma strip_first_None: "(\<And>p. p \<in> set ps \<Longrightarrow> take (length p) s \<noteq> p) \<Longrightarrow> strip_first ps s = None"
  by (induction ps) (auto simp: strip_prefix_def)

lemma white_space_nonempty: "[] \<notin> set white_space"
  by (auto simp: white_space_def bytes_str_def)

lemma trim_start_with_plain:
  assumes "s \<noteq> []" and "hd s \<notin> hd ` set ps"
  shows "trim_start_with ps s = s"
proof (cases "[] \<in> set ps")
  case True
  then show ?thesis by (subst trim_start_with.simps) simp
next
  case False
  have "take (length p) s \<noteq> p" if p: "p \<in> set ps" for p
  proof
    assume "take (length p) s = p"
    moreover have "p \<noteq> []" using p False by auto
    ultimately have "hd p = hd s" by (metis hd_take length_greater_0_conv)
    with assms(2) p show False by (metis imageI)
  qed
  then have "strip_first ps s = None" by (rule strip_first_None)
  then show ?thesis by (subst trim_start_with.simps) simp
qed

lemma trim_plain:
  assumes "plain_ends s"
  shows "trim s = s"
proof -
  have "hd (rev s) \<notin> hd ` set (map rev white_space)"
    using assms white_space_nonempty
    by (auto simp: plain_ends_def hd_rev image_iff)
  then show ?thesis
    using assms by (simp add: trim_def trim_start_with_plain plain_ends_def)
qed

lemma white_space_ends:
  "hd ` set white_space \<union> last ` set white_space
   \<subseteq> char_of ` {9, 10, 11, 12, 13, 32, 0x80, 0x81, 0x82, 0x83, 0x84, 0x85, 0x86, 0x87, 0x88, 0x89, 0x8A,
       0x9F, 0xA0, 0xA8, 0xA9, 0xAF, 0xC2, 0xE1, 0xE2, 0xE3 :: nat}"
  by (auto simp: white_space_def bytes_str_def upt_rec)

lemma plain_endsI:
  assumes "s \<noteq> []" and "\<And>c. c \<in> {hd s, last s} \<Longrightarrow> c \<notin> char_of ` {9, 10, 11, 12, 13, 32, 0x80, 0x81, 0x82, 0x83, 0x84, 0x85,
       0x86, 0x87, 0x88, 0x89, 0x8A, 0x9F, 0xA0, 0xA8, 0xA9, 0xAF, 0xC2, 0xE1, 0xE2, 0xE3 :: nat}"
  shows "plain_ends s"
  using assms white_space_ends unfolding plain_ends_def by blast

lemma hd_show_nat: "\<exists>d<10. hd (show_nat n) = digit_char d"
  using show_nat_chars [of "hd (show_nat n)" n] by simp

lemma last_show_nat: "\<exists>d<10. last (show_nat n) = digit_char d"
  using show_nat_chars [of "last (show_nat n)" n] by simp

lemma digit_char_plain:
  "d < 10 \<Longrightarrow> digit_char d \<notin> hd ` set white_space \<and> digit_char d \<notin> last ` set white_space"
proof -
  assume d: "d < 10"
  then have "digit_char d \<notin> char_of ` {9, 10, 11, 12, 13, 32, 0x80, 0x81, 0x82, 0x83, 0x84, 0x85, 0x86,
      0x87, 0x88, 0x89, 0x8A, 0x9F, 0xA0, 0xA8, 0xA9, 0xAF, 0xC2, 0xE1, 0xE2, 0xE3 :: nat}"
    by (auto simp: digit_char_def char_of_eq_iff take_bit_nat_eq_self)
  with white_space_ends show ?thesis by blast
qed

lemma plain_show_nat: "plain_ends (show_nat n)"
  using hd_show_nat [of n] last_show_nat [of n] digit_char_plain
  unfolding plain_ends_def by (metis show_nat_nonempty)

section \<open>Sizes\<close>

lemma suffix_cases:
  "(suffix, m) \<in> set size_suffixes \<Longrightarrow>
    (suffix, m) \<in> {(''KiB'', 1024), (''MiB'', 1024 ^ 2), (''GiB'', 1024 ^ 3), (''TiB'', 1024 ^ 4), (''B'', 1)}"
  by (simp add: size_suffixes_def)

lemma last_B_plain: "CHR ''B'' \<notin> last ` set white_space"
proof -
  have "CHR ''B'' \<notin> char_of ` {9, 10, 11, 12, 13, 32, 0x80, 0x81, 0x82, 0x83, 0x84, 0x85, 0x86,
      0x87, 0x88, 0x89, 0x8A, 0x9F, 0xA0, 0xA8, 0xA9, 0xAF, 0xC2, 0xE1, 0xE2, 0xE3 :: nat}"
    by (simp add: char_of_def bit_0)
  with white_space_ends show ?thesis by blast
qed

lemma trim_sized:
  assumes "(suffix, m) \<in> set size_suffixes"
  shows "trim (show_nat n @ suffix) = show_nat n @ suffix"
proof (rule trim_plain)
  have "suffix \<noteq> []" "last suffix = CHR ''B''" using suffix_cases [OF assms] by auto
  then show "plain_ends (show_nat n @ suffix)"
    using plain_show_nat [of n] last_B_plain by (simp add: plain_ends_def)
qed

lemma strip_suffix_snoc:
  "strip_suffix (p @ [c]) (s @ [d]) = (if c = d then strip_suffix p s else None)"
  by (simp add: strip_suffix_def strip_prefix_def)

lemma strip_suffix_show_nat:
  "c \<notin> digit_char ` {..<10} \<Longrightarrow> strip_suffix (p @ [c]) (show_nat n) = None"
proof -
  assume c: "c \<notin> digit_char ` {..<10}"
  have "show_nat n = butlast (show_nat n) @ [last (show_nat n)]" by simp
  moreover have "last (show_nat n) \<noteq> c" using last_show_nat [of n] c by auto
  ultimately show ?thesis by (metis strip_suffix_snoc)
qed

lemma parse_size_suffixed:
  assumes suffix: "(suffix, m) \<in> set size_suffixes" and n: "n < 2 ^ 64"
  shows "parse_size (show_nat n @ suffix) name
    = (if n * m < 2 ^ 64 then Inr (n * m) else Inl (SizeOverflow name))"
proof -
  have num: "parse_u64 (trim (show_nat n)) = Inr n"
    by (simp only: trim_plain [OF plain_show_nat] parse_u64_show_nat [OF n])
  have nd: "CHR ''i'' \<notin> digit_char ` {..<10}"
  proof
    assume "CHR ''i'' \<in> digit_char ` {..<10}"
    then obtain d where d: "d < 10" "CHR ''i'' = digit_char d" by auto
    then have "of_char CHR ''i'' = 48 + d" by (simp add: digit_char_def)
    with d(1) show False by simp
  qed
  have none: "strip_suffix [a, CHR ''i'', CHR ''B''] (show_nat n @ [CHR ''B'']) = None" for a
    using strip_suffix_snoc [of "[a, CHR ''i'']" "CHR ''B''" "show_nat n" "CHR ''B''"]
      strip_suffix_show_nat [OF nd, of "[a]" n] by simp
  have same: "strip_suffix [a, CHR ''i'', CHR ''B''] (show_nat n @ [b, CHR ''i'', CHR ''B''])
    = (if a = b then Some (show_nat n) else None)" for a b
    by (simp add: strip_suffix_def strip_prefix_def)
  have last: "strip_suffix ''B'' (show_nat n @ ''B'') = Some (show_nat n)" by simp
  show ?thesis
    unfolding parse_size_def trim_sized [OF suffix]
    using suffix_cases [OF suffix]
    by (auto simp: size_suffixes_def none same last num)
qed

section \<open>The protected fraction\<close>

text \<open>The value of a finite \<open>f64\<close> in units of \<open>2 ^ -1075\<close>; 1 is \<open>2 ^ 1075\<close> of them.\<close>

definition f64_scaled :: "u64 \<Rightarrow> int" where
  "f64_scaled x =
     (if f64_negative x then -1 else 1) * int (f64_significand x * 2 ^ max 1 (f64_exponent x))"

lemma f64_significand_less: "f64_significand x < 2 ^ 53"
proof -
  have "f64_fraction x < 2 ^ 52" by (simp add: f64_fraction_def)
  then show ?thesis by (simp add: f64_significand_def)
qed

lemma f64_unit_scaled:
  "f64_significand x * 2 ^ max 1 (f64_exponent x) \<le> 2 ^ 1075
   \<longleftrightarrow> f64_exponent x < 1023 \<or> f64_exponent x = 1023 \<and> f64_fraction x = 0"
proof -
  let ?e = "f64_exponent x"
  consider "?e < 1023" | "?e = 1023" | "1023 < ?e" by linarith
  then show ?thesis
  proof cases
    case 1
    have "f64_significand x * 2 ^ max 1 ?e \<le> 2 ^ 53 * 2 ^ 1022"
      using f64_significand_less [of x] 1 by (intro mult_le_mono power_increasing) auto
    also have "\<dots> = 2 ^ 1075" by (simp only: power_add [symmetric]) simp
    finally show ?thesis using 1 by simp
  next
    case 2
    have "(2::nat) ^ 1075 = 2 ^ 52 * 2 ^ 1023" by (simp only: power_add [symmetric]) simp
    moreover have "f64_significand x = f64_fraction x + 2 ^ 52" using 2 by (simp add: f64_significand_def)
    ultimately show ?thesis using 2 by (simp only: max_def) simp
  next
    case 3
    have "(2::nat) ^ 1075 < 2 ^ 52 * 2 ^ 1024" by (simp only: power_add [symmetric]) simp
    also have "\<dots> \<le> f64_significand x * 2 ^ max 1 ?e"
      using 3 by (intro mult_le_mono power_increasing) (auto simp: f64_significand_def)
    finally show ?thesis using 3 by simp
  qed
qed

lemma f64_in_unit_iff:
  "f64_in_unit x \<longleftrightarrow> f64_exponent x \<noteq> 2047 \<and> 0 \<le> f64_scaled x \<and> f64_scaled x \<le> 2 ^ 1075"
proof -
  have le: "int (f64_significand x * 2 ^ max 1 (f64_exponent x)) \<le> 2 ^ 1075
    \<longleftrightarrow> f64_exponent x < 1023 \<or> f64_exponent x = 1023 \<and> f64_fraction x = 0"
    unfolding f64_unit_scaled [symmetric] by (metis of_nat_le_iff of_nat_numeral of_nat_power)
  have zero: "f64_significand x = 0 \<Longrightarrow> f64_exponent x < 1023"
    by (simp add: f64_significand_def split: if_splits)
  show ?thesis
    using le zero
    by (auto simp: f64_in_unit_def f64_is_nan_def f64_is_infinite_def f64_scaled_def mult_le_0_iff)
qed

section \<open>The specification of a valid configuration\<close>

definition cache_config_ok :: "chunk_cache_config \<Rightarrow> bool" where
  "cache_config_ok cache \<longleftrightarrow>
     (\<exists>max_size k. max_size_bytes cache = Inr max_size \<and> page_size_bytes cache = Inr (2 ^ k)
        \<and> 2 ^ k \<le> max_size \<and> f64_in_unit (cc_protected_fraction cache))"

definition storage_ok :: "duration_parser \<Rightarrow> storage_config \<Rightarrow> bool" where
  "storage_ok parse_duration storage \<longleftrightarrow>
     (\<exists>t>0. parse_duration (st_request_timeout storage) = Inr t)
     \<and> 0 < st_max_concurrent_requests storage \<and> 0 < st_bulk_read_concurrency storage
     \<and> 0 < st_max_concurrent_chunk_reads storage \<and> 0 < st_index_build_concurrency storage
     \<and> 0 < st_metadata_read_concurrency storage
     \<and> (\<exists>size>0. bulk_read_chunk_size_bytes storage = Inr size)
     \<and> pred_option cache_config_ok (st_chunk_cache storage)"

definition repository_ok :: "repository_config \<Rightarrow> bool" where
  "repository_ok repository \<longleftrightarrow>
     trim (rc_name repository) \<noteq> '''' \<and> trim (rc_uri repository) \<noteq> '''' \<and>
     (uri_scheme (rc_uri repository) = Some ''file'' \<and> rc_s3 repository = None \<and> rc_gcs repository = None
      \<or> uri_scheme (rc_uri repository) = Some ''s3'' \<and> rc_gcs repository = None
      \<or> uri_scheme (rc_uri repository) \<in> {Some ''gs'', Some ''gcs''} \<and> rc_s3 repository = None)"

definition config_ok :: "(string \<Rightarrow> bool) \<Rightarrow> duration_parser \<Rightarrow> reader_config \<Rightarrow> bool" where
  "config_ok addr_ok parse_duration config \<longleftrightarrow>
     addr_ok (cf_listen_addr config) \<and> addr_ok (cf_metrics_listen_addr config)
     \<and> trim (cf_index_cache_location config) \<noteq> '''' \<and> cf_repositories config \<noteq> []
     \<and> storage_ok parse_duration (cf_storage config)
     \<and> distinct (map rc_name (cf_repositories config))
     \<and> list_all repository_ok (cf_repositories config)"

lemma is_power_of_two_iff: "is_power_of_two n \<longleftrightarrow> (\<exists>k. n = 2 ^ k)"
proof (induction n rule: is_power_of_two.induct)
  case (1 n)
  show ?case
  proof (cases "n = 0 \<or> n = 1 \<or> odd n")
    case True
    then show ?thesis
      by (subst is_power_of_two.simps) (auto intro: exI [of _ 0] simp: odd_pos)
  next
    case False
    then have "is_power_of_two n \<longleftrightarrow> (\<exists>k. n div 2 = 2 ^ k)"
      by (subst is_power_of_two.simps) (use 1 False in auto)
    also have "\<dots> \<longleftrightarrow> (\<exists>k. n = 2 ^ k)"
    proof
      assume "\<exists>k. n div 2 = 2 ^ k"
      then obtain k where "n div 2 = 2 ^ k" by blast
      then have "n = 2 ^ Suc k" using False by auto
      then show "\<exists>k. n = 2 ^ k" by blast
    next
      assume "\<exists>k. n = 2 ^ k"
      then obtain k where k: "n = 2 ^ k" by blast
      with False obtain j where "k = Suc j" by (cases k) auto
      with k show "\<exists>k. n div 2 = 2 ^ k" by auto
    qed
    finally show ?thesis .
  qed
qed

lemma validate_cache_iff: "validate_cache cache = Inr () \<longleftrightarrow> cache_config_ok cache"
proof -
  have pos: "0 < m" if "2 ^ k \<le> m" for k m :: nat
    using that by (rule less_le_trans [rotated]) simp
  have "validate_cache cache = Inr () \<longleftrightarrow>
    (\<exists>m k. max_size_bytes cache = Inr m \<and> page_size_bytes cache = Inr (2 ^ k)
       \<and> m \<noteq> 0 \<and> 2 ^ k \<le> m \<and> f64_in_unit (cc_protected_fraction cache))"
  proof (cases "max_size_bytes cache"; cases "page_size_bytes cache")
    fix m p
    assume m: "max_size_bytes cache = Inr m" and p: "page_size_bytes cache = Inr p"
    show ?thesis
      by (simp add: validate_cache_def m p is_power_of_two_iff) (auto simp: not_less)
  qed (simp_all add: validate_cache_def)
  also have "\<dots> \<longleftrightarrow> cache_config_ok cache"
    unfolding cache_config_ok_def using pos by (metis less_numeral_extra(3))
  finally show ?thesis .
qed

lemma validate_storage_iff:
  "validate_storage parse_duration storage = Inr () \<longleftrightarrow> storage_ok parse_duration storage"
  by (auto simp: validate_storage_def storage_ok_def request_timeout_duration_def tryR_eq_Inr
      map_err_eq_Inr validate_cache_iff split: option.splits)

lemma validate_scheme_iff:
  "validate_scheme repository scheme = Inr () \<longleftrightarrow>
    scheme = ''file'' \<and> rc_s3 repository = None \<and> rc_gcs repository = None
    \<or> scheme = ''s3'' \<and> rc_gcs repository = None
    \<or> scheme \<in> {''gs'', ''gcs''} \<and> rc_s3 repository = None"
  by (auto simp: validate_scheme_def)

lemma validate_repositories_iff:
  "validate_repositories names rs = Inr () \<longleftrightarrow>
    distinct (map rc_name rs) \<and> list_all repository_ok rs \<and> rc_name ` set rs \<inter> names = {}"
proof (induction rs arbitrary: names)
  case (Cons r rs)
  show ?case
    by (cases "uri_scheme (rc_uri r)")
       (auto simp: Cons tryR_eq_Inr validate_scheme_iff repository_ok_def)
qed simp

lemma validate_iff_ok:
  "validate addr_ok parse_duration config = Inr () \<longleftrightarrow> config_ok addr_ok parse_duration config"
  by (auto simp: validate_def config_ok_def tryR_eq_Inr validate_storage_iff validate_repositories_iff)

end
