(* ===== verification/Config_Props.thy ===== *)
theory Config_Props
  imports Config_Facts
begin

text \<open>The properties of the configuration.\<close>

definition sample_config :: reader_config where
  "sample_config = \<lparr>
     cf_listen_addr = ''127.0.0.1:4100'', cf_metrics_listen_addr = default_metrics_listen_addr,
     cf_index_cache_location = ''target'',
     cf_repositories = [\<lparr>rc_name = ''local'', rc_uri = ''file://blocks'', rc_s3 = None, rc_gcs = None\<rparr>],
     cf_storage = default_storage\<lparr>st_chunk_cache := Some \<lparr>
       cc_directory = ''chunks'', cc_max_size = default_chunk_cache_max_size,
       cc_page_size = default_chunk_cache_page_size, cc_policy = default_chunk_cache_policy,
       cc_protected_fraction = default_protected_fraction\<rparr>\<rparr>\<rparr>"

text \<open>
  A decimal number that fits an unsigned 64-bit integer, followed by one of the five suffixes,
  parses to that many units, or fails as an overflow when the product does not fit.
\<close>

theorem parse_size_number_suffix:
  assumes "(suffix, multiplier) \<in> set size_suffixes" and "n < 2 ^ 64"
  shows "parse_size (show_nat n @ suffix) name
    = (if n * multiplier < 2 ^ 64 then Inr (n * multiplier) else Inl (SizeOverflow name))"
  by (rule parse_size_suffixed [OF assms])

theorem parse_size_number_suffix_witness:
  "parse_size (show_nat 16 @ ''KiB'') ''x'' = Inr 16384 \<and> parse_size (show_nat 16777216 @ ''TiB'') ''x'' = Inl (SizeOverflow ''x'')"
  using parse_size_number_suffix [of "''KiB''" 1024 16 "''x''"]
    parse_size_number_suffix [of "''TiB''" "1024 ^ 4" 16777216 "''x''"]
  by (simp add: size_suffixes_def)

text \<open>
  C17: \<open>validate\<close> accepts exactly the configurations with two socket addresses, an index cache location,
  a valid storage section (positive timeout, concurrencies and sizes; a page size that is a power of
  two no larger than the cache) and at least one repository, all with distinct names, supported
  schemes and no options of another backend.
\<close>

theorem validate_accepts_iff:
  "validate addr_ok parse_duration config = Inr () \<longleftrightarrow> config_ok addr_ok parse_duration config"
  by (rule validate_iff_ok)

text \<open>
  The test of the protected fraction holds for exactly the finite numbers whose value lies
  between 0 and 1.
\<close>

theorem protected_fraction_test:
  "f64_in_unit x \<longleftrightarrow> f64_exponent x \<noteq> 2047 \<and> 0 \<le> f64_scaled x \<and> f64_scaled x \<le> 2 ^ 1075"
  by (rule f64_in_unit_iff)

end
