(* ===== verification/Range_Cache.thy ===== *)
theory Range_Cache
  imports Config Range_Reader
begin

text \<open>
  The page cache of object storage, \<open>RangeCache\<close> of \<open>src/storage/mod.rs\<close>, with the calls it makes
  outside: OpenDAL's \<open>stat\<close> and \<open>read\<close>, and \<open>std::fs\<close>.  Each operation runs to its end here, as it
  does when no other task uses the cache.

  The outside is a record of parameters.  \<open>ev_objects\<close> is what the buckets hold (blocks are written
  once, so it does not change), \<open>ev_fault n\<close> is the error of the n-th outside call if that call fails
  (a failed call changes nothing), \<open>ev_beyond\<close> is what a backend answers to a range that ends past the
  object, \<open>ev_sha256\<close> is the digest and \<open>ev_pid\<close> the process id.
\<close>

section \<open>Outside calls\<close>

record env =
  ev_objects :: "string \<Rightarrow> string \<Rightarrow> bytes option"
  ev_fault :: "nat \<Rightarrow> string option"
  ev_beyond :: "bytes \<Rightarrow> nat \<Rightarrow> nat \<Rightarrow> string + bytes"
  ev_sha256 :: "bytes \<Rightarrow> bytes"
  ev_pid :: nat

record page_key =
  pk_repository :: string
  pk_path :: string
  pk_offset :: nat

record page_entry =
  pe_size :: nat
  pe_protected :: bool

record cache_state =
  cs_entries :: "page_key \<Rightarrow> page_entry option"
  cs_probationary :: "page_key list"
  cs_protected :: "page_key list"
  cs_bytes :: nat

record range_cache =
  rg_directory :: string
  rg_page_size :: nat
  rg_max_size :: nat
  rg_policy :: cache_policy
  rg_protected_fraction :: u64

text \<open>The files of the cache directory, the shared state of the cache, and the outside calls so far.\<close>

record world =
  wd_state :: cache_state
  wd_files :: "string \<Rightarrow> bytes option"
  wd_clock :: nat

type_synonym 'a action = "world \<Rightarrow> (string fault + 'a) \<times> world"

definition doW ::
  "('w \<Rightarrow> ('e + 'a) \<times> 'w) \<Rightarrow> ('a \<Rightarrow> 'w \<Rightarrow> ('e + 'b) \<times> 'w) \<Rightarrow> 'w \<Rightarrow> ('e + 'b) \<times> 'w" where
  "doW m f w = (case m w of (Inl e, w') \<Rightarrow> (Inl e, w') | (Inr x, w') \<Rightarrow> f x w')"

definition retW :: "'a \<Rightarrow> 'w \<Rightarrow> ('e + 'a) \<times> 'w" where
  "retW x w = (Inr x, w)"

definition failW :: "string \<Rightarrow> 'a action" where
  "failW e w = (Inl (Err e), w)"

definition outside :: "env \<Rightarrow> (world \<Rightarrow> (string fault + 'a) \<times> world) \<Rightarrow> 'a action" where
  "outside env call w =
     (let w' = w\<lparr>wd_clock := wd_clock w + 1\<rparr> in
      case ev_fault env (wd_clock w) of Some e \<Rightarrow> (Inl (Err e), w') | None \<Rightarrow> call w')"

definition operator_stat :: "env \<Rightarrow> string \<Rightarrow> string \<Rightarrow> nat action" where
  "operator_stat env repository path = outside env (\<lambda>w.
     case ev_objects env repository path of
       None \<Rightarrow> failW ''not found'' w
     | Some content \<Rightarrow> retW (length content) w)"

definition operator_read :: "env \<Rightarrow> string \<Rightarrow> string \<Rightarrow> nat \<Rightarrow> nat \<Rightarrow> bytes action" where
  "operator_read env repository path a b = outside env (\<lambda>w.
     case ev_objects env repository path of
       None \<Rightarrow> failW ''not found'' w
     | Some content \<Rightarrow>
         if b \<le> length content then retW (slice content a b) w
         else (map_err Err (ev_beyond env content a b), w))"

definition operator_read_all :: "env \<Rightarrow> string \<Rightarrow> string \<Rightarrow> bytes action" where
  "operator_read_all env repository path = outside env (\<lambda>w.
     case ev_objects env repository path of
       None \<Rightarrow> failW ''not found'' w
     | Some content \<Rightarrow> retW content w)"

text \<open>\<open>fs::read\<close>, with none for an error of kind \<open>NotFound\<close>; the other calls of \<open>std::fs\<close>.\<close>

definition fs_read :: "env \<Rightarrow> string \<Rightarrow> bytes option action" where
  "fs_read env path = outside env (\<lambda>w. retW (wd_files w path) w)"

definition fs_create_dir_all :: "env \<Rightarrow> string \<Rightarrow> unit action" where
  "fs_create_dir_all env path = outside env (retW ())"

definition fs_write :: "env \<Rightarrow> string \<Rightarrow> bytes \<Rightarrow> unit action" where
  "fs_write env path bs = outside env (\<lambda>w. (Inr (), w\<lparr>wd_files := (wd_files w)(path := Some bs)\<rparr>))"

definition fs_rename :: "env \<Rightarrow> string \<Rightarrow> string \<Rightarrow> unit action" where
  "fs_rename env from_path to_path = outside env (\<lambda>w.
     case wd_files w from_path of
       None \<Rightarrow> failW ''not found'' w
     | Some bs \<Rightarrow> (Inr (), w\<lparr>wd_files := (wd_files w)(from_path := None, to_path := Some bs)\<rparr>))"

definition fs_remove_file :: "env \<Rightarrow> string \<Rightarrow> unit action" where
  "fs_remove_file env path = outside env (\<lambda>w.
     case wd_files w path of
       None \<Rightarrow> failW ''not found'' w
     | Some _ \<Rightarrow> (Inr (), w\<lparr>wd_files := (wd_files w)(path := None)\<rparr>))"

section \<open>Where a page is stored\<close>

definition path_join :: "string \<Rightarrow> string \<Rightarrow> string" where
  "path_join directory name =
     (if directory = '''' \<or> last directory = CHR ''/'' then directory @ name
      else directory @ ''/'' @ name)"

definition hex_digit :: "nat \<Rightarrow> char" where
  "hex_digit d = char_of (if d < 10 then 48 + d else 87 + d)"

definition hex_byte :: "u8 \<Rightarrow> string" where
  "hex_byte b = [hex_digit (unat b div 16), hex_digit (unat b mod 16)]"

definition page_preimage :: "page_key \<Rightarrow> bytes" where
  "page_preimage key =
     bytes_of_str (pk_repository key) @ [0] @ bytes_of_str (pk_path key)
     @ to_be_bytes 8 (pk_offset key)"

definition page_digest :: "env \<Rightarrow> page_key \<Rightarrow> string" where
  "page_digest env key = concat (map hex_byte (ev_sha256 env (page_preimage key)))"

definition page_path :: "env \<Rightarrow> range_cache \<Rightarrow> page_key \<Rightarrow> string" where
  "page_path env cache key =
     (let digest = page_digest env key in
      path_join (path_join (rg_directory cache) (take 2 digest)) digest)"

text \<open>The parent of a page path, and the page path with the extension \<open>tmp-<pid>\<close>: a digest has none.\<close>

definition page_parent :: "env \<Rightarrow> range_cache \<Rightarrow> page_key \<Rightarrow> string" where
  "page_parent env cache key = path_join (rg_directory cache) (take 2 (page_digest env key))"

definition temporary_path :: "env \<Rightarrow> range_cache \<Rightarrow> page_key \<Rightarrow> string" where
  "temporary_path env cache key = page_path env cache key @ ''.tmp-'' @ show_nat (ev_pid env)"

section \<open>Replacement\<close>

definition empty_cache_state :: cache_state where
  "empty_cache_state = \<lparr>cs_entries = (\<lambda>_. None), cs_probationary = [], cs_protected = [], cs_bytes = 0\<rparr>"

definition remove_key :: "page_key list \<Rightarrow> page_key \<Rightarrow> page_key list" where
  "remove_key queue key = remove1 key queue"

definition entry_size :: "cache_state \<Rightarrow> page_key \<Rightarrow> nat" where
  "entry_size st key = (case cs_entries st key of None \<Rightarrow> 0 | Some entry \<Rightarrow> pe_size entry)"

definition protected_bytes :: "cache_state \<Rightarrow> nat" where
  "protected_bytes st = u64_wrap (sum_list (map (entry_size st) (cs_protected st)))"

definition set_protected :: "bool \<Rightarrow> page_key \<Rightarrow> cache_state \<Rightarrow> cache_state" where
  "set_protected p key st =
     (case cs_entries st key of
        None \<Rightarrow> st
      | Some entry \<Rightarrow> st\<lparr>cs_entries := (cs_entries st)(key := Some (entry\<lparr>pe_protected := p\<rparr>))\<rparr>)"

lemma set_protected_simps [simp]:
  "cs_probationary (set_protected p key st) = cs_probationary st"
  "cs_protected (set_protected p key st) = cs_protected st"
  "cs_bytes (set_protected p key st) = cs_bytes st"
  by (simp_all add: set_protected_def split: option.splits)

function demote :: "nat \<Rightarrow> cache_state \<Rightarrow> cache_state" where
  "demote limit st =
     (if limit < protected_bytes st then
        (case cs_protected st of
           [] \<Rightarrow> st
         | demoted # rest \<Rightarrow>
             demote limit ((set_protected False demoted st)\<lparr>
               cs_protected := rest, cs_probationary := cs_probationary st @ [demoted]\<rparr>))
      else st)"
  by pat_completeness auto
termination
  by (relation "measure (\<lambda>(limit, st). length (cs_protected st))") auto

declare demote.simps [simp del]

definition touch :: "page_key \<Rightarrow> cache_policy \<Rightarrow> u64 \<Rightarrow> nat \<Rightarrow> cache_state \<Rightarrow> cache_state" where
  "touch key policy protected_fraction max_size st =
     (case cs_entries st key of
        None \<Rightarrow> st
      | Some entry \<Rightarrow>
          let st1 = st\<lparr>cs_probationary := remove_key (cs_probationary st) key,
                       cs_protected := remove_key (cs_protected st) key\<rparr>;
              is_protected = pe_protected entry \<or> policy = Slru;
              st2 = set_protected is_protected key st1 in
          if is_protected then
            demote (mul_f64_as_u64 max_size protected_fraction)
              (st2\<lparr>cs_protected := cs_protected st2 @ [key]\<rparr>)
          else st2\<lparr>cs_probationary := cs_probationary st2 @ [key]\<rparr>)"

definition pop_candidate :: "cache_state \<Rightarrow> (page_key \<times> cache_state) option" where
  "pop_candidate st =
     (case cs_probationary st of
        key # rest \<Rightarrow> Some (key, st\<lparr>cs_probationary := rest\<rparr>)
      | [] \<Rightarrow>
          (case cs_protected st of
             key # rest \<Rightarrow> Some (key, st\<lparr>cs_protected := rest\<rparr>)
           | [] \<Rightarrow> None))"

lemma pop_candidate_shorter:
  "pop_candidate st = Some (key, st') \<Longrightarrow>
    length (cs_probationary st') + length (cs_protected st')
    < length (cs_probationary st) + length (cs_protected st)"
  by (auto simp: pop_candidate_def split: list.splits)

function evict :: "nat \<Rightarrow> cache_state \<Rightarrow> cache_state \<times> page_key list" where
  "evict max_size st =
     (if max_size < cs_bytes st then
        (case pop_candidate st of
           None \<Rightarrow> (st, [])
         | Some (candidate, st1) \<Rightarrow>
             (case cs_entries st1 candidate of
                None \<Rightarrow> evict max_size st1
              | Some entry \<Rightarrow>
                  let (st2, evicted) =
                    evict max_size (st1\<lparr>cs_entries := (cs_entries st1)(candidate := None),
                                        cs_bytes := cs_bytes st1 - pe_size entry\<rparr>) in
                  (st2, candidate # evicted)))
      else (st, []))"
  by pat_completeness auto
termination
  by (relation "measure (\<lambda>(max_size, st). length (cs_probationary st) + length (cs_protected st))")
     (auto dest: pop_candidate_shorter)

declare evict.simps [simp del]

text \<open>The part of \<open>store_cached\<close> before the eviction.\<close>

definition insert_page :: "page_key \<Rightarrow> nat \<Rightarrow> cache_state \<Rightarrow> cache_state" where
  "insert_page key len st =
     st\<lparr>cs_entries := (cs_entries st)(key := Some \<lparr>pe_size = len, pe_protected = False\<rparr>),
        cs_bytes := u64_wrap (cs_bytes st - entry_size st key + len),
        cs_probationary := cs_probationary st @ [key]\<rparr>"

section \<open>Reading through the cache\<close>

definition load_cached :: "env \<Rightarrow> range_cache \<Rightarrow> page_key \<Rightarrow> bytes option action" where
  "load_cached env cache key w =
     (if cs_entries (wd_state w) key = None then (Inr None, w)
      else
        let w1 = w\<lparr>wd_state :=
              touch key (rg_policy cache) (rg_protected_fraction cache) (rg_max_size cache) (wd_state w)\<rparr> in
        case fs_read env (page_path env cache key) w1 of
          (Inr None, w2) \<Rightarrow>
            (Inr None,
             w2\<lparr>wd_state := (wd_state w2)\<lparr>cs_entries := (cs_entries (wd_state w2))(key := None)\<rparr>\<rparr>)
        | r \<Rightarrow> r)"

fun remove_files :: "env \<Rightarrow> range_cache \<Rightarrow> page_key list \<Rightarrow> world \<Rightarrow> world" where
  "remove_files env cache [] w = w"
| "remove_files env cache (key # keys) w =
     remove_files env cache keys (snd (fs_remove_file env (page_path env cache key) w))"

definition store_cached :: "env \<Rightarrow> range_cache \<Rightarrow> page_key \<Rightarrow> bytes \<Rightarrow> unit action" where
  "store_cached env cache key bs =
     (if rg_max_size cache < length bs then retW ()
      else
        doW (fs_create_dir_all env (page_parent env cache key)) (\<lambda>_.
        doW (fs_write env (temporary_path env cache key) bs) (\<lambda>_.
        doW (fs_rename env (temporary_path env cache key) (page_path env cache key)) (\<lambda>_ w.
          let (st, evicted) = evict (rg_max_size cache) (insert_page key (length bs) (wd_state w)) in
          (Inr (), remove_files env cache evicted (w\<lparr>wd_state := st\<rparr>))))))"

text \<open>The shared future of a miss.\<close>

definition fetch_page :: "env \<Rightarrow> range_cache \<Rightarrow> page_key \<Rightarrow> bytes action" where
  "fetch_page env cache key =
     doW (operator_stat env (pk_repository key) (pk_path key)) (\<lambda>content_length.
       let end_pos = min (u64_wrap (pk_offset key + rg_page_size cache)) content_length in
       if end_pos \<le> pk_offset key then failW ''requested cache page starts after object end''
       else
         doW (operator_read env (pk_repository key) (pk_path key) (pk_offset key) end_pos) (\<lambda>bs.
         doW (store_cached env cache key bs) (\<lambda>_. retW bs)))"

definition get_page :: "env \<Rightarrow> range_cache \<Rightarrow> string \<Rightarrow> string \<Rightarrow> nat \<Rightarrow> bytes action" where
  "get_page env cache repository path offset =
     (let key = \<lparr>pk_repository = repository, pk_path = path, pk_offset = offset\<rparr> in
      doW (load_cached env cache key) (\<lambda>page.
        case page of Some bs \<Rightarrow> retW bs | None \<Rightarrow> fetch_page env cache key))"

text \<open>The offsets of \<open>(first_page..=last_page).step_by(page_size)\<close>, and what each page contributes.\<close>

definition page_offsets :: "nat \<Rightarrow> nat \<Rightarrow> nat \<Rightarrow> nat list" where
  "page_offsets first_page last_page page_size =
     map (\<lambda>i. first_page + i * page_size) [0..<(last_page - first_page) div page_size + 1]"

definition page_part :: "range_cache \<Rightarrow> nat \<Rightarrow> nat \<Rightarrow> nat \<Rightarrow> bytes \<Rightarrow> bytes option" where
  "page_part cache range_start range_end offset page =
     (let start = range_start - offset;
          end_pos = min range_end (u64_wrap (offset + rg_page_size cache)) - offset in
      slice_get page start end_pos)"

fun read_pages ::
  "env \<Rightarrow> range_cache \<Rightarrow> string \<Rightarrow> string \<Rightarrow> nat \<Rightarrow> nat \<Rightarrow> nat list \<Rightarrow> bytes action" where
  "read_pages env cache repository path a b [] = retW []"
| "read_pages env cache repository path a b (offset # offsets) =
     doW (get_page env cache repository path offset) (\<lambda>page.
       case page_part cache a b offset page of
         None \<Rightarrow> failW ''object range ends before requested chunk record''
       | Some part \<Rightarrow>
           doW (read_pages env cache repository path a b offsets) (\<lambda>output. retW (part @ output)))"

text \<open>
  \<open>RangeCache::read_range\<close>: dividing by a page size of 0 panics, and so does reserving an output of
  more than \<open>isize::MAX\<close> bytes.
\<close>

definition cache_read_range ::
  "env \<Rightarrow> range_cache \<Rightarrow> string \<Rightarrow> string \<Rightarrow> nat \<Rightarrow> nat \<Rightarrow> bytes action" where
  "cache_read_range env cache repository path a b w =
     (if rg_page_size cache = 0 \<or> 2 ^ 63 \<le> b - a then (Inl Panic, w)
      else
        let page_size = rg_page_size cache;
            first_page = a div page_size * page_size;
            last_page = (b - 1) div page_size * page_size in
        read_pages env cache repository path a b (page_offsets first_page last_page page_size) w)"

end
