(* ===== verification/Repository.thy ===== *)
theory Repository
  imports Range_Cache
begin

text \<open>
  Repositories and their registry, the rest of \<open>src/storage/mod.rs\<close>: how a URI becomes an OpenDAL
  operator, the registry from URI to repository, opening the page cache, and the two reads.

  OpenDAL's builders are the data type of what they are told; \<open>build\<close> is \<open>Operator::new\<close>, which gives
  an error for services it refuses.  \<open>tree\<close> is what the operating system has under the cache directory.
\<close>

section \<open>Operators\<close>

datatype service =
    FsService (fs_root: string)
  | S3Service (sv_bucket: string) (sv_root: string) (s3_region_option: "string option")
      (sv_endpoint: "string option") (s3_virtual_hosts: bool)
  | GcsService (sv_bucket: string) (sv_root: string) (sv_endpoint: "string option")

record operator =
  op_service :: service
  op_max_times :: nat
  op_timeout :: nat
  op_concurrent :: nat

datatype registry_error =
    UriNeedsScheme string
  | EmptyBucket
  | UnsupportedUriScheme string
  | OperatorError string
  | ConfigFailed config_error
  | CacheFailed "string fault"
  | NoRepository string

definition bucket_and_root :: "string \<Rightarrow> registry_error + (string \<times> string)" where
  "bucket_and_root location =
     (let location = trim_slashes location;
          (bucket, root) =
            (case split_once ''/'' location of None \<Rightarrow> (location, ''/'') | Some parts \<Rightarrow> parts) in
      if bucket = '''' then Inl EmptyBucket else Inr (bucket, root))"

definition uri_service :: "repository_config \<Rightarrow> registry_error + service" where
  "uri_service repository =
     (case split_once ''://'' (rc_uri repository) of
        None \<Rightarrow> Inl (UriNeedsScheme (rc_uri repository))
      | Some (scheme, location) \<Rightarrow>
          if scheme = ''file'' then Inr (FsService location)
          else if scheme = ''s3'' then
            tryR (bucket_and_root location) (\<lambda>(bucket, root).
              Inr (case rc_s3 repository of
                     None \<Rightarrow> S3Service bucket root None None False
                   | Some options \<Rightarrow>
                       S3Service bucket root (s3_region options) (s3_endpoint options)
                         (s3_virtual_host_style options)))
          else if scheme = ''gs'' \<or> scheme = ''gcs'' then
            tryR (bucket_and_root location) (\<lambda>(bucket, root).
              Inr (GcsService bucket root (Option.bind (rc_gcs repository) gcs_endpoint)))
          else Inl (UnsupportedUriScheme scheme))"

definition repository_operator ::
  "(service \<Rightarrow> string + unit) \<Rightarrow> duration_parser \<Rightarrow> repository_config \<Rightarrow> storage_config
   \<Rightarrow> registry_error + operator" where
  "repository_operator build parse_duration repository storage =
     tryR (uri_service repository) (\<lambda>service.
     tryR (map_err OperatorError (build service)) (\<lambda>_.
     tryR (map_err ConfigFailed (request_timeout_duration parse_duration storage)) (\<lambda>timeout.
       Inr \<lparr>op_service = service, op_max_times = st_max_retries storage, op_timeout = timeout,
            op_concurrent = st_max_concurrent_requests storage\<rparr>)))"

section \<open>Opening the cache\<close>

definition file_name :: "string \<Rightarrow> string" where
  "file_name path = rev (takeWhile (\<lambda>c. c \<noteq> CHR ''/'') (rev path))"

definition path_extension :: "string \<Rightarrow> string option" where
  "path_extension path =
     (let name = file_name path; ext = rev (takeWhile (\<lambda>c. c \<noteq> CHR ''.'') (rev name)) in
      if length ext + 1 < length name then Some ext else None)"

text \<open>
  What a directory holds when it is read.  Reading it and taking its next entry may fail, which ends the walk;
  a directory that cannot be asked whether it is one counts as a file.
\<close>

datatype dir_entry =
    PlainEntry (de_path: string)
  | DirectoryEntry (de_path: string) (de_entries: "dir_entry list")

definition is_dir :: "env \<Rightarrow> dir_entry \<Rightarrow> bool action" where
  "is_dir env entry w =
     (case outside env (retW ()) w of
        (Inl _, w') \<Rightarrow> (Inr False, w')
      | (Inr _, w') \<Rightarrow> (Inr (case entry of DirectoryEntry _ _ \<Rightarrow> True | PlainEntry _ \<Rightarrow> False), w'))"

fun walk_entries :: "env \<Rightarrow> dir_entry list \<Rightarrow> string list action" where
  "walk_entries env [] = retW []"
| "walk_entries env (entry # entries) =
     doW (outside env (retW ())) (\<lambda>_.
     doW (is_dir env entry) (\<lambda>directory.
     doW (case (directory, entry) of
            (True, DirectoryEntry _ inner) \<Rightarrow> doW (outside env (retW ())) (\<lambda>_. walk_entries env inner)
          | _ \<Rightarrow> retW [de_path entry]) (\<lambda>paths.
     doW (walk_entries env entries) (\<lambda>rest.
       retW (paths @ rest)))))"

definition walk_files :: "env \<Rightarrow> dir_entry list \<Rightarrow> string list action" where
  "walk_files env entries = doW (outside env (retW ())) (\<lambda>_. walk_entries env entries)"

definition is_temporary :: "string \<Rightarrow> bool" where
  "is_temporary path = (case path_extension path of None \<Rightarrow> False | Some ext \<Rightarrow> starts_with ''tmp-'' ext)"

fun remove_temporary :: "env \<Rightarrow> string list \<Rightarrow> world \<Rightarrow> world" where
  "remove_temporary env [] w = w"
| "remove_temporary env (entry # entries) w =
     remove_temporary env entries (if is_temporary entry then snd (fs_remove_file env entry w) else w)"

definition remove_temporary_files :: "env \<Rightarrow> dir_entry list \<Rightarrow> unit action" where
  "remove_temporary_files env tree = doW (walk_files env tree) (\<lambda>paths w. (Inr (), remove_temporary env paths w))"

text \<open>
  \<open>RangeCache::open\<close>: the directory, the lock file, the lock, the sizes, an empty state, the clean-up.
\<close>

definition open_cache ::
  "env \<Rightarrow> (world \<Rightarrow> dir_entry list) \<Rightarrow> chunk_cache_config \<Rightarrow> world
   \<Rightarrow> (registry_error + range_cache) \<times> world" where
  "open_cache env tree config w =
     (case doW (fs_create_dir_all env (cc_directory config)) (\<lambda>_.
           doW (outside env (retW ())) (\<lambda>_. outside env (retW ()))) w of
        (Inl e, w1) \<Rightarrow> (Inl (CacheFailed e), w1)
      | (Inr _, w1) \<Rightarrow>
          (case tryR (page_size_bytes config) (\<lambda>page_bytes. tryR (max_size_bytes config) (\<lambda>max_bytes. Inr (page_bytes, max_bytes))) of
             Inl e \<Rightarrow> (Inl (ConfigFailed e), w1)
           | Inr (page_bytes, max_bytes) \<Rightarrow>
               (case remove_temporary_files env (tree w1) (w1\<lparr>wd_state := empty_cache_state\<rparr>) of
                  (Inl e, w2) \<Rightarrow> (Inl (CacheFailed e), w2)
                | (Inr _, w2) \<Rightarrow>
                    (Inr \<lparr>rg_directory = cc_directory config, rg_page_size = page_bytes, rg_max_size = max_bytes,
                          rg_policy = cc_policy config,
                          rg_protected_fraction = cc_protected_fraction config\<rparr>,
                     w2))))"

section \<open>Repositories and the registry\<close>

record repository =
  rp_name :: string
  rp_operator :: operator
  rp_cache :: "range_cache option"
  rp_bulk_chunk_size :: nat
  rp_bulk_concurrency :: nat

record registry =
  rr_by_uri :: "(string \<times> repository) list"
  rr_max_concurrent_chunk_reads :: nat

definition registry_empty :: registry where
  "registry_empty = \<lparr>rr_by_uri = [], rr_max_concurrent_chunk_reads = 1\<rparr>"

definition new_repository ::
  "(service \<Rightarrow> string + unit) \<Rightarrow> duration_parser \<Rightarrow> storage_config \<Rightarrow> range_cache option
   \<Rightarrow> repository_config \<Rightarrow> registry_error + repository" where
  "new_repository build parse_duration storage cache config =
     tryR (repository_operator build parse_duration config storage) (\<lambda>operator.
     tryR (map_err ConfigFailed (bulk_read_chunk_size_bytes storage)) (\<lambda>chunk.
       Inr \<lparr>rp_name = rc_name config, rp_operator = operator, rp_cache = cache,
            rp_bulk_chunk_size = chunk, rp_bulk_concurrency = st_bulk_read_concurrency storage\<rparr>))"

fun insert_repositories ::
  "(service \<Rightarrow> string + unit) \<Rightarrow> duration_parser \<Rightarrow> storage_config \<Rightarrow> range_cache option
   \<Rightarrow> repository_config list \<Rightarrow> (string \<times> repository) list
   \<Rightarrow> registry_error + (string \<times> repository) list" where
  "insert_repositories build parse_duration storage cache [] by_uri = Inr by_uri"
| "insert_repositories build parse_duration storage cache (config # configs) by_uri =
     tryR (new_repository build parse_duration storage cache config) (\<lambda>repository.
       insert_repositories build parse_duration storage cache configs
         (bt_insert (rc_uri config) repository by_uri))"

definition registry_new ::
  "(service \<Rightarrow> string + unit) \<Rightarrow> duration_parser \<Rightarrow> env \<Rightarrow> (world \<Rightarrow> dir_entry list) \<Rightarrow> reader_config \<Rightarrow> world
   \<Rightarrow> (registry_error + registry) \<times> world" where
  "registry_new build parse_duration env tree config w =
     (let storage = cf_storage config;
          (opened, w') =
            (case st_chunk_cache storage of
               None \<Rightarrow> (Inr None, w)
             | Some cache \<Rightarrow>
                 (case open_cache env tree cache w of
                    (Inl e, w') \<Rightarrow> (Inl e, w')
                  | (Inr c, w') \<Rightarrow> (Inr (Some c), w'))) in
      (tryR opened (\<lambda>cache.
       tryR (insert_repositories build parse_duration storage cache (cf_repositories config) []) (\<lambda>by_uri.
         Inr \<lparr>rr_by_uri = by_uri,
              rr_max_concurrent_chunk_reads = st_max_concurrent_chunk_reads storage\<rparr>)), w'))"

definition registry_get :: "registry \<Rightarrow> string \<Rightarrow> repository option" where
  "registry_get registry uri = bt_get (rr_by_uri registry) uri"

definition registry_require :: "registry \<Rightarrow> string \<Rightarrow> registry_error + repository" where
  "registry_require registry uri =
     (case registry_get registry uri of None \<Rightarrow> Inl (NoRepository uri) | Some r \<Rightarrow> Inr r)"

section \<open>Reading\<close>

definition repository_read :: "env \<Rightarrow> repository \<Rightarrow> string \<Rightarrow> bytes action" where
  "repository_read env repository path = operator_read_all env (rp_name repository) path"

definition repository_read_range :: "env \<Rightarrow> repository \<Rightarrow> string \<Rightarrow> nat \<Rightarrow> nat \<Rightarrow> bytes action" where
  "repository_read_range env repository path a b =
     (if b \<le> a then retW []
      else
        case rp_cache repository of
          Some cache \<Rightarrow> cache_read_range env cache (rp_name repository) path a b
        | None \<Rightarrow> operator_read env (rp_name repository) path a b)"

end
