(* ===== verification/Cache_State_Facts.thy ===== *)
theory Cache_State_Facts
  imports Range_Cache
begin

text \<open>
  The replacement state of the page cache on its own: the invariant that ties the queues to the
  entries and the byte count, what \<open>touch\<close> and the eviction do to it, and what the eviction picks.
\<close>

section \<open>The invariant\<close>

definition cs_keys :: "cache_state \<Rightarrow> page_key list" where
  "cs_keys st = cs_probationary st @ cs_protected st"

definition has_flag :: "cache_state \<Rightarrow> bool \<Rightarrow> page_key \<Rightarrow> bool" where
  "has_flag st p key \<longleftrightarrow> (\<exists>n. cs_entries st key = Some \<lparr>pe_size = n, pe_protected = p\<rparr>)"

definition total_bytes :: "cache_state \<Rightarrow> nat" where
  "total_bytes st = sum_list (map (entry_size st) (cs_keys st))"

definition cache_inv :: "cache_state \<Rightarrow> bool" where
  "cache_inv st \<longleftrightarrow>
     distinct (cs_keys st) \<and> dom (cs_entries st) = set (cs_keys st)
     \<and> cs_bytes st = total_bytes st
     \<and> (\<forall>key \<in> set (cs_probationary st). has_flag st False key)
     \<and> (\<forall>key \<in> set (cs_protected st). has_flag st True key)"

lemma cache_inv_empty: "cache_inv empty_cache_state"
  by (simp add: cache_inv_def empty_cache_state_def cs_keys_def total_bytes_def)

lemma has_flag_iff: "has_flag st p key \<longleftrightarrow> (\<exists>e. cs_entries st key = Some e \<and> pe_protected e = p)"
proof
  assume "\<exists>e. cs_entries st key = Some e \<and> pe_protected e = p"
  then obtain e where "cs_entries st key = Some e" "pe_protected e = p" by blast
  then have "cs_entries st key = Some \<lparr>pe_size = pe_size e, pe_protected = p\<rparr>" by simp
  then show "has_flag st p key" by (auto simp: has_flag_def)
qed (auto simp: has_flag_def)

lemma entry_size_set_protected [simp]: "entry_size (set_protected p key st) = entry_size st"
  by (rule ext) (simp add: entry_size_def set_protected_def split: option.split)

lemma dom_set_protected [simp]: "dom (cs_entries (set_protected p key st)) = dom (cs_entries st)"
  by (auto simp: set_protected_def split: option.split)

lemma has_flag_set_protected:
  "has_flag (set_protected p key st) q k
   \<longleftrightarrow> (if k = key then cs_entries st key \<noteq> None \<and> q = p else has_flag st q k)"
  by (auto simp: has_flag_iff set_protected_def split: option.split)

lemma entry_size_queues [simp]:
  "entry_size (st\<lparr>cs_probationary := a\<rparr>) = entry_size st"
  "entry_size (st\<lparr>cs_protected := b\<rparr>) = entry_size st"
  "entry_size (st\<lparr>cs_bytes := n\<rparr>) = entry_size st"
  by (auto simp: entry_size_def fun_eq_iff)

lemma has_flag_queues [simp]:
  "has_flag (st\<lparr>cs_probationary := a\<rparr>) = has_flag st"
  "has_flag (st\<lparr>cs_protected := b\<rparr>) = has_flag st"
  "has_flag (st\<lparr>cs_bytes := n\<rparr>) = has_flag st"
  by (auto simp: has_flag_def fun_eq_iff)

section \<open>Touching a page\<close>

text \<open>What demotion keeps: the resident pages with their sizes, and the byte count.\<close>

definition same_pages :: "cache_state \<Rightarrow> cache_state \<Rightarrow> bool" where
  "same_pages st st' \<longleftrightarrow>
     dom (cs_entries st') = dom (cs_entries st) \<and> entry_size st' = entry_size st
     \<and> cs_bytes st' = cs_bytes st \<and> set (cs_keys st') = set (cs_keys st)"

lemma total_bytes_perm:
  assumes "distinct (cs_keys st)" and "distinct (cs_keys st')" and "same_pages st st'"
  shows "total_bytes st' = total_bytes st"
proof -
  have "total_bytes s = (\<Sum>k \<in> set (cs_keys s). entry_size s k)" if "distinct (cs_keys s)" for s
    using that by (simp add: total_bytes_def sum_list_distinct_conv_sum_set)
  with assms show ?thesis by (simp add: same_pages_def)
qed

lemma demote_step_inv:
  assumes inv: "cache_inv st" and q: "cs_protected st = key # rest"
  defines "st' \<equiv> (set_protected False key st)\<lparr>cs_protected := rest,
    cs_probationary := cs_probationary st @ [key]\<rparr>"
  shows "cache_inv st' \<and> same_pages st st'"
proof -
  have same: "same_pages st st'"
    unfolding st'_def same_pages_def cs_keys_def using q by (auto simp: fun_eq_iff)
  have dist: "distinct (cs_keys st')"
    using inv q by (auto simp: cache_inv_def cs_keys_def st'_def)
  have "key \<notin> set (cs_probationary st)" "key \<notin> set rest" "key \<in> dom (cs_entries st)"
    using inv q by (auto simp: cache_inv_def cs_keys_def)
  with inv q same dist total_bytes_perm [of st st'] show ?thesis
    unfolding cache_inv_def same_pages_def
    by (auto simp: st'_def has_flag_set_protected)
qed

lemma demote_inv: "cache_inv st \<Longrightarrow> cache_inv (demote limit st) \<and> same_pages st (demote limit st)"
proof (induction limit st rule: demote.induct)
  case (1 limit st)
  show ?case
  proof (cases "limit < protected_bytes st \<and> cs_protected st \<noteq> []")
    case True
    then obtain key rest where q: "cs_protected st = key # rest" by (cases "cs_protected st") auto
    note step = demote_step_inv [OF "1.prems" q]
    show ?thesis
      using True q "1.IH" [OF _ q] step
      by (subst (1 2) demote.simps) (auto simp: same_pages_def)
  next
    case False
    then have "demote limit st = st" by (subst demote.simps) (auto split: list.split)
    with "1.prems" show ?thesis by (simp add: same_pages_def)
  qed
qed

lemma demote_bounded: "protected_bytes (demote limit st) \<le> limit"
proof (induction limit st rule: demote.induct)
  case (1 limit st)
  show ?case
  proof (cases "limit < protected_bytes st")
    case True
    then have "cs_protected st \<noteq> []" by (auto simp: protected_bytes_def u64_wrap_def)
    then obtain key rest where q: "cs_protected st = key # rest" by (cases "cs_protected st") auto
    show ?thesis using True q "1.IH" [OF True q] by (subst demote.simps) simp
  qed (subst demote.simps, simp)
qed

lemma touch_inv:
  assumes inv: "cache_inv st"
  shows "cache_inv (touch key policy fraction max_size st)
    \<and> same_pages st (touch key policy fraction max_size st)"
proof (cases "cs_entries st key")
  case None
  with inv show ?thesis by (simp add: touch_def same_pages_def)
next
  case (Some entry)
  have d: "distinct (cs_probationary st)" "distinct (cs_protected st)"
    "set (cs_probationary st) \<inter> set (cs_protected st) = {}" "dom (cs_entries st) = set (cs_keys st)"
    using inv by (auto simp: cache_inv_def cs_keys_def)
  define p where "p \<longleftrightarrow> pe_protected entry \<or> policy = Slru"
  define st1 where "st1 = st\<lparr>cs_probationary := remove_key (cs_probationary st) key,
      cs_protected := remove_key (cs_protected st) key\<rparr>"
  define st2 where "st2 = set_protected p key st1"
  define st3 where "st3 = (if p then st2\<lparr>cs_protected := cs_protected st2 @ [key]\<rparr>
    else st2\<lparr>cs_probationary := cs_probationary st2 @ [key]\<rparr>)"
  have key: "key \<in> set (cs_keys st)" using Some d(4) by blast
  have same: "same_pages st st3"
    using key d Some
    by (auto simp: same_pages_def st3_def st2_def st1_def cs_keys_def remove_key_def fun_eq_iff)
  have dist: "distinct (cs_keys st3)"
    using d by (auto simp: st3_def st2_def st1_def cs_keys_def remove_key_def)
  have "cache_inv st3"
    using inv same dist total_bytes_perm [OF _ dist same] Some d
    unfolding cache_inv_def same_pages_def
    by (auto simp: st3_def st2_def st1_def has_flag_set_protected remove_key_def)
  then have "cache_inv (if p then demote (mul_f64_as_u64 max_size fraction) st3 else st3)
    \<and> same_pages st (if p then demote (mul_f64_as_u64 max_size fraction) st3 else st3)"
    using demote_inv [of st3] same by (auto simp: same_pages_def)
  moreover have "touch key policy fraction max_size st
    = (if p then demote (mul_f64_as_u64 max_size fraction) st3 else st3)"
    using Some by (simp add: touch_def Let_def p_def st3_def st2_def st1_def)
  ultimately show ?thesis by simp
qed

lemma touch_protected_bound:
  assumes "policy = Slru" and "cs_entries st key \<noteq> None"
  shows "protected_bytes (touch key policy fraction max_size st) \<le> mul_f64_as_u64 max_size fraction"
  using assms by (auto simp: touch_def Let_def demote_bounded split: option.split)

text \<open>Under \<open>Lru\<close> nothing is ever protected, and touching a page moves it behind the others.\<close>

lemma touch_lru:
  assumes inv: "cache_inv st" and lru: "cs_protected st = []" and key: "cs_entries st key \<noteq> None"
  shows "cs_protected (touch key Lru fraction max_size st) = []
    \<and> cs_probationary (touch key Lru fraction max_size st) = remove1 key (cs_probationary st) @ [key]"
proof -
  have "key \<in> set (cs_probationary st)" using inv key lru by (auto simp: cache_inv_def cs_keys_def)
  then have "has_flag st False key" using inv by (auto simp: cache_inv_def)
  then show ?thesis using lru by (auto simp: touch_def Let_def has_flag_iff remove_key_def)
qed

section \<open>Inserting and evicting\<close>

lemma insert_page_inv:
  assumes inv: "cache_inv st" and new: "cs_entries st key = None" and fit: "cs_bytes st + len < 2 ^ 64"
  shows "cache_inv (insert_page key len st) \<and> cs_bytes (insert_page key len st) = cs_bytes st + len"
proof -
  have nk: "key \<notin> set (cs_keys st)" using inv new by (auto simp: cache_inv_def)
  have e: "entry_size (insert_page key len st) k = (if k = key then len else entry_size st k)" for k
    by (simp add: insert_page_def entry_size_def)
  have z: "entry_size st key = 0" using new by (simp add: entry_size_def)
  have m: "map (entry_size (insert_page key len st)) ks = map (entry_size st) ks" if "key \<notin> set ks" for ks
    using that by (auto simp: e)
  have keys: "cs_keys (insert_page key len st) = cs_probationary st @ [key] @ cs_protected st"
    by (simp add: cs_keys_def insert_page_def)
  have "total_bytes (insert_page key len st) = total_bytes st + len"
    using nk unfolding total_bytes_def keys map_append by (subst (1 2) m) (auto simp: cs_keys_def e)
  with inv nk fit z show ?thesis
    by (auto simp: cache_inv_def insert_page_def cs_keys_def u64_wrap_id has_flag_def)
qed

lemma pop_candidate_Some:
  "pop_candidate st = Some (key, st') \<Longrightarrow>
    cs_keys st = key # cs_keys st' \<and> cs_entries st' = cs_entries st \<and> cs_bytes st' = cs_bytes st
    \<and> set (cs_probationary st') \<subseteq> set (cs_probationary st) \<and> set (cs_protected st') \<subseteq> set (cs_protected st)"
  by (auto simp: pop_candidate_def cs_keys_def split: list.splits)

lemma pop_candidate_None: "pop_candidate st = None \<longleftrightarrow> cs_keys st = []"
  by (auto simp: pop_candidate_def cs_keys_def split: list.splits)

lemma evict_step_inv:
  assumes inv: "cache_inv st" and pop: "pop_candidate st = Some (key, st1)"
    and entry: "cs_entries st1 key = Some entry"
  defines "st2 \<equiv> st1\<lparr>cs_entries := (cs_entries st1)(key := None), cs_bytes := cs_bytes st1 - pe_size entry\<rparr>"
  shows "cache_inv st2 \<and> cs_keys st = key # cs_keys st2 \<and> cs_bytes st = entry_size st key + cs_bytes st2
    \<and> (\<forall>k. k \<noteq> key \<longrightarrow> cs_entries st2 k = cs_entries st k) \<and> cs_entries st2 key = None"
proof -
  note p = pop_candidate_Some [OF pop]
  have keys: "cs_keys st2 = cs_keys st1" by (simp add: st2_def cs_keys_def)
  have d: "key \<notin> set (cs_keys st1)" "distinct (cs_keys st1)" using inv p by (auto simp: cache_inv_def)
  have es: "entry_size st2 k = entry_size st k" if "k \<noteq> key" for k
    using that p by (simp add: entry_size_def st2_def)
  have "entry_size st2 k = entry_size st k" if "k \<in> set (cs_keys st1)" for k
    using that d(1) es [of k] by (cases "k = key") auto
  then have "map (entry_size st2) (cs_keys st2) = map (entry_size st) (cs_keys st1)"
    by (simp add: keys)
  then have total: "total_bytes st = entry_size st key + total_bytes st2"
    using p by (simp add: total_bytes_def)
  have ek: "entry_size st key = pe_size entry" using entry p by (simp add: entry_size_def)
  have flags: "has_flag st2 b k = has_flag st b k" if "k \<noteq> key" for b k
    using that p by (simp add: has_flag_def st2_def)
  have sub: "set (cs_probationary st2) \<subseteq> set (cs_keys st1)" "set (cs_protected st2) \<subseteq> set (cs_keys st1)"
    by (auto simp: st2_def cs_keys_def)
  have "dom (cs_entries st2) = set (cs_keys st2)"
    using inv p d keys by (auto simp: cache_inv_def st2_def)
  moreover have "\<forall>k \<in> set (cs_probationary st2). has_flag st2 False k"
    using inv p d sub flags by (auto simp: cache_inv_def st2_def) (metis UnCI cs_keys_def set_append subsetD)+
  moreover have "\<forall>k \<in> set (cs_protected st2). has_flag st2 True k"
    using inv p d sub flags by (auto simp: cache_inv_def st2_def) (metis UnCI cs_keys_def set_append subsetD)+
  moreover have "cs_bytes st2 = total_bytes st2"
  proof -
    have "cs_bytes st2 = cs_bytes st - pe_size entry" using p by (simp add: st2_def)
    moreover have "cs_bytes st = total_bytes st" using inv by (simp add: cache_inv_def)
    ultimately show ?thesis using total ek by linarith
  qed
  ultimately have "cache_inv st2" using d keys by (simp add: cache_inv_def)
  then show ?thesis
    using inv total p keys by (auto simp: cache_inv_def st2_def)
qed

text \<open>
  The eviction takes pages from the front, probationary ones first, until the rest fits, and no more
  than needed.
\<close>

lemma evict_spec:
  "cache_inv st \<Longrightarrow> evict max_size st = (st', evicted) \<Longrightarrow>
    cache_inv st' \<and> cs_bytes st' \<le> max_size \<and> cs_keys st = evicted @ cs_keys st'
    \<and> (\<forall>k. cs_entries st' k = (if k \<in> set evicted then None else cs_entries st k))
    \<and> (evicted = [] \<or> max_size < entry_size st (last evicted) + cs_bytes st')"
proof (induction max_size st arbitrary: st' evicted rule: evict.induct)
  case (1 max_size st)
  show ?case
  proof (cases "max_size < cs_bytes st")
    case False
    with "1.prems" show ?thesis by (subst (asm) evict.simps) auto
  next
    case True
    have "cs_keys st \<noteq> []" using True "1.prems"(1) by (auto simp: cache_inv_def total_bytes_def)
    then obtain key st1 where pop: "pop_candidate st = Some (key, st1)"
      using pop_candidate_None [of st] by (cases "pop_candidate st") auto
    have "key \<in> dom (cs_entries st1)"
      using "1.prems"(1) pop_candidate_Some [OF pop] by (auto simp: cache_inv_def)
    then obtain entry where entry: "cs_entries st1 key = Some entry" by blast
    define st2 where "st2 = st1\<lparr>cs_entries := (cs_entries st1)(key := None),
      cs_bytes := cs_bytes st1 - pe_size entry\<rparr>"
    obtain st3 ev where rest: "evict max_size st2 = (st3, ev)" by fastforce
    have res: "st' = st3" "evicted = key # ev"
      using "1.prems"(2) True pop entry rest by (auto simp: evict.simps [of max_size st] st2_def)
    note step = evict_step_inv [OF "1.prems"(1) pop entry, folded st2_def]
    note ih = "1.IH"(2) [OF True pop refl entry, folded st2_def, OF conjunct1 [OF step] rest]
    have last: "entry_size st2 (last ev) = entry_size st (last ev)" if "ev \<noteq> []"
    proof -
      have "last ev \<in> set (cs_keys st2)" using ih that by auto
      moreover have "key \<notin> set (cs_keys st2)" using "1.prems"(1) step by (auto simp: cache_inv_def)
      ultimately show ?thesis using step by (auto simp: entry_size_def)
    qed
    show ?thesis
    proof (intro conjI)
      show "evicted = [] \<or> max_size < entry_size st (last evicted) + cs_bytes st'"
      proof (cases "ev = []")
        case True
        then have "cs_keys st3 = cs_keys st2" "entry_size st3 = entry_size st2"
          using ih by (auto simp: entry_size_def fun_eq_iff)
        then have "cs_bytes st3 = cs_bytes st2"
          using ih step by (simp add: cache_inv_def total_bytes_def)
        with True step \<open>max_size < cs_bytes st\<close> show ?thesis by (simp add: res)
      qed (use ih last in \<open>simp add: res\<close>)
    qed (use ih step in \<open>auto simp: res\<close>)
  qed
qed

end
