(* ===== verification/Range_Cache_Facts.thy ===== *)
theory Range_Cache_Facts
  imports Cache_State_Facts Chunk_Reader_Facts
begin

text \<open>
  The page cache over its files and object storage: page paths do not collide, every operation keeps
  the files of the resident pages equal to the pages of the objects, and reading a range gives the
  bytes of the object or an error.  With that the cache, and a repository without one, meet the
  \<open>range_reader\<close> contract.
\<close>

section \<open>Page paths\<close>

lemma unat_byte_bound: "unat (b :: u8) < 256"
  using unsigned_less [of b, where 'a=nat] by simp

lemma hex_digit_inj: "d < 16 \<Longrightarrow> e < 16 \<Longrightarrow> hex_digit d = hex_digit e \<Longrightarrow> d = e"
  by (auto simp: hex_digit_def char_of_eq_iff take_bit_nat_eq_self split: if_splits)

lemma hex_byte_inj: "hex_byte a = hex_byte b \<Longrightarrow> a = b"
proof -
  assume eq: "hex_byte a = hex_byte b"
  have "unat a div 16 = unat b div 16" "unat a mod 16 = unat b mod 16"
    using eq unat_byte_bound [of a] unat_byte_bound [of b]
    by (auto simp: hex_byte_def intro!: hex_digit_inj)
  then have "unat a = unat b" by (metis div_mult_mod_eq)
  then show "a = b" by (simp add: word_unat_eq_iff)
qed

lemma length_hex [simp]: "length (concat (map hex_byte bs)) = 2 * length bs"
  by (induction bs) (auto simp: hex_byte_def)

lemma hex_inj: "concat (map hex_byte xs) = concat (map hex_byte ys) \<Longrightarrow> xs = ys"
proof (induction xs arbitrary: ys)
  case Nil
  then show ?case by (cases ys) (auto simp: hex_byte_def)
next
  case (Cons x xs)
  then obtain y ys' where ys: "ys = y # ys'" by (cases ys) (auto simp: hex_byte_def)
  have "length (hex_byte x) = length (hex_byte y)" by (simp add: hex_byte_def)
  with Cons.prems have "hex_byte x = hex_byte y" "concat (map hex_byte xs) = concat (map hex_byte ys')"
    by (simp_all add: ys)
  with Cons.IH show ?case by (auto simp: ys dest: hex_byte_inj)
qed

lemma to_be_bytes_inj: "to_be_bytes k m = to_be_bytes k n \<Longrightarrow> m < 256 ^ k \<Longrightarrow> n < 256 ^ k \<Longrightarrow> m = n"
  using be_nat_to_be_bytes by (metis mod_less)

lemma bytes_of_str_inj: "bytes_of_str a = bytes_of_str b \<Longrightarrow> a = b"
  by (metis str_of_bytes_of_str)

definition no_nul :: "string \<Rightarrow> bool" where
  "no_nul s \<longleftrightarrow> CHR 0x00 \<notin> set s"

lemma zero_notin_bytes: "no_nul s \<Longrightarrow> 0 \<notin> set (bytes_of_str s)"
proof
  assume n: "no_nul s" and "0 \<in> set (bytes_of_str s)"
  then obtain c where c: "c \<in> set s" "(word_of_nat (of_char c) :: u8) = 0"
    by (auto simp: bytes_of_str_def)
  have "str_of_bytes (bytes_of_str [c]) = [c]" by simp
  with c have "c = char_of (0::nat)" by (simp add: str_of_bytes_def bytes_of_str_def)
  with n c show False by (simp add: no_nul_def char_of_def)
qed

lemma append_zero_inj: "0 \<notin> set a \<Longrightarrow> 0 \<notin> set b \<Longrightarrow> a @ 0 # x = b @ 0 # y \<Longrightarrow> a = b \<and> x = y"
  for a b :: bytes
proof (induction a arbitrary: b)
  case Nil
  then show ?case by (cases b) auto
next
  case (Cons c a)
  then show ?case by (cases b) auto
qed

lemma page_preimage_inj:
  assumes "no_nul (pk_repository k)" "no_nul (pk_repository k')"
    and "pk_offset k < 2 ^ 64" "pk_offset k' < 2 ^ 64" and "page_preimage k = page_preimage k'"
  shows "k = k'"
proof -
  have "pk_repository k = pk_repository k'"
    and eq: "bytes_of_str (pk_path k) @ to_be_bytes 8 (pk_offset k)
       = bytes_of_str (pk_path k') @ to_be_bytes 8 (pk_offset k')"
    using append_zero_inj [of "bytes_of_str (pk_repository k)" "bytes_of_str (pk_repository k')"] assms zero_notin_bytes
    by (auto simp: page_preimage_def dest: bytes_of_str_inj)
  moreover have "pk_path k = pk_path k'" "to_be_bytes 8 (pk_offset k) = to_be_bytes 8 (pk_offset k')"
    using eq by (auto dest: bytes_of_str_inj)
  moreover from this(2) have "pk_offset k = pk_offset k'"
    by (rule to_be_bytes_inj) (use assms in simp_all)
  ultimately show ?thesis by simp
qed

section \<open>Pages\<close>

definition page_end :: "nat \<Rightarrow> bytes \<Rightarrow> nat \<Rightarrow> nat" where
  "page_end page_size content offset = min (offset + page_size) (length content)"

text \<open>The pages of the stored objects.\<close>

definition page_of :: "env \<Rightarrow> range_cache \<Rightarrow> page_key \<Rightarrow> bytes option" where
  "page_of env cache key =
     (case ev_objects env (pk_repository key) (pk_path key) of
        None \<Rightarrow> None
      | Some content \<Rightarrow>
          if pk_offset key < length content
          then Some (slice content (pk_offset key) (page_end (rg_page_size cache) content (pk_offset key)))
          else None)"

text \<open>
  What the cache relies on: a positive page size and sizes far from \<open>u64::MAX\<close>, repository names
  without NUL, and a digest of 32 bytes that does not collide on the pages of the stored objects.
\<close>

definition env_ok :: "env \<Rightarrow> range_cache \<Rightarrow> bool" where
  "env_ok env cache \<longleftrightarrow>
     0 < rg_page_size cache \<and> rg_max_size cache < 2 ^ 63
     \<and> (\<forall>key page. page_of env cache key = Some page \<longrightarrow> no_nul (pk_repository key))
     \<and> (\<forall>repository path content. ev_objects env repository path = Some content
          \<longrightarrow> length content + rg_page_size cache < 2 ^ 63)
     \<and> (\<forall>bs. length (ev_sha256 env bs) = 32)
     \<and> inj_on (ev_sha256 env) (page_preimage ` dom (page_of env cache))"

lemma page_of_bound:
  "env_ok env cache \<Longrightarrow> page_of env cache key = Some page \<Longrightarrow> pk_offset key < 2 ^ 64 \<and> no_nul (pk_repository key)"
  by (fastforce simp: env_ok_def page_of_def split: option.splits if_splits)

lemma page_path_suffix: "\<exists>pre. page_path env cache key = pre @ page_digest env key"
proof -
  have "\<exists>pre. path_join a d = pre @ d" for a d by (simp add: path_join_def)
  then show ?thesis by (simp add: page_path_def Let_def)
qed

lemma length_page_digest: "env_ok env cache \<Longrightarrow> length (page_digest env key) = 64"
  by (simp add: env_ok_def page_digest_def)

lemma page_digest_inj:
  assumes "env_ok env cache" and "page_of env cache k \<noteq> None" and "page_of env cache k' \<noteq> None"
    and "page_digest env k = page_digest env k'"
  shows "k = k'"
proof -
  have "ev_sha256 env (page_preimage k) = ev_sha256 env (page_preimage k')"
    using assms(4) hex_inj by (simp add: page_digest_def)
  moreover have "k \<in> dom (page_of env cache)" "k' \<in> dom (page_of env cache)"
    using assms by auto
  ultimately have "page_preimage k = page_preimage k'"
    using assms(1) unfolding env_ok_def by (meson image_eqI inj_onD)
  then show ?thesis
    using assms page_of_bound by (auto intro: page_preimage_inj)
qed

lemma page_path_inj:
  assumes "env_ok env cache" and "page_of env cache k \<noteq> None" and "page_of env cache k' \<noteq> None"
    and "page_path env cache k = page_path env cache k'"
  shows "k = k'"
proof -
  obtain p p' where "page_path env cache k = p @ page_digest env k"
    "page_path env cache k' = p' @ page_digest env k'"
    using page_path_suffix by metis
  with assms length_page_digest have "page_digest env k = page_digest env k'"
    by (metis append_eq_append_conv)
  then show ?thesis by (rule page_digest_inj [OF assms(1-3)])
qed

lemma hex_digit_not_slash: "d < 16 \<Longrightarrow> hex_digit d \<noteq> CHR ''/''"
proof
  assume d: "d < 16" "hex_digit d = CHR ''/''"
  then have "of_char (hex_digit d) = (47 :: nat)" by simp
  with d(1) show False by (simp add: hex_digit_def split: if_splits)
qed

lemma page_digest_not_slash: "c \<in> set (page_digest env key) \<Longrightarrow> c \<noteq> CHR ''/''"
proof -
  assume "c \<in> set (page_digest env key)"
  then obtain b :: u8 where "c = hex_digit (unat b div 16) \<or> c = hex_digit (unat b mod 16)"
    by (auto simp: page_digest_def hex_byte_def)
  moreover have "unat b div 16 < 16" "unat b mod 16 < 16" using unat_byte_bound [of b] by simp_all
  ultimately show "c \<noteq> CHR ''/''" using hex_digit_not_slash by metis
qed

lemma length_page_path:
  assumes "env_ok env cache"
  shows "length (page_path env cache k) = length (page_path env cache k')"
proof -
  have "last (take 2 (page_digest env key)) \<noteq> CHR ''/'' \<and> length (page_digest env key) = 64" for key
  proof -
    have l: "length (page_digest env key) = 64" by (rule length_page_digest [OF assms])
    then have "take 2 (page_digest env key) \<noteq> []" by auto
    then have "last (take 2 (page_digest env key)) \<in> set (page_digest env key)"
      by (meson in_set_takeD last_in_set)
    with l show ?thesis by (simp add: page_digest_not_slash)
  qed
  from this [of k] this [of k'] show ?thesis
    by (simp add: page_path_def path_join_def Let_def min_def) (auto simp: last_append)
qed

lemma temporary_path_fresh: "env_ok env cache \<Longrightarrow> temporary_path env cache k \<noteq> page_path env cache k'"
  using length_page_path [of env cache k k'] by (auto simp: temporary_path_def dest: arg_cong [of _ _ length])

section \<open>Triples over actions\<close>

text \<open>
  From a world with \<open>P\<close> the action does not panic, fails only if \<open>F\<close> and then in a world with \<open>I\<close>,
  and otherwise returns with \<open>Q\<close>.
\<close>

definition triple ::
  "bool \<Rightarrow> (world \<Rightarrow> bool) \<Rightarrow> (world \<Rightarrow> bool) \<Rightarrow> 'a action \<Rightarrow> ('a \<Rightarrow> world \<Rightarrow> bool) \<Rightarrow> bool" where
  "triple F I P m Q \<longleftrightarrow>
     (\<forall>w. P w \<longrightarrow>
       (case m w of
          (Inr x, w') \<Rightarrow> Q x w'
        | (Inl (Err e), w') \<Rightarrow> F \<and> I w'
        | (Inl Panic, w') \<Rightarrow> False))"

lemma triple_doW:
  assumes "triple F I P m Q" and "\<And>x. triple F I (Q x) (f x) R"
  shows "triple F I P (doW m f) R"
  unfolding triple_def
proof (intro allI impI)
  fix w assume "P w"
  obtain r w1 where m: "m w = (r, w1)" by fastforce
  show "case doW m f w of (Inr x, w') \<Rightarrow> R x w' | (Inl (Err e), w') \<Rightarrow> F \<and> I w' | (Inl Panic, w') \<Rightarrow> False"
  proof (cases r)
    case (Inl e)
    with assms(1) \<open>P w\<close> m show ?thesis by (cases e) (auto simp: triple_def doW_def)
  next
    case (Inr x)
    with assms(1) \<open>P w\<close> m have "Q x w1" by (auto simp: triple_def)
    with assms(2) [of x] m Inr show ?thesis by (simp add: triple_def doW_def)
  qed
qed

lemma triple_weaken:
  "triple F I P' m Q' \<Longrightarrow> (\<And>w. P w \<Longrightarrow> P' w) \<Longrightarrow> (\<And>x w. Q' x w \<Longrightarrow> Q x w) \<Longrightarrow> triple F I P m Q"
  unfolding triple_def by (fastforce split: prod.splits sum.splits fault.splits)

lemma triple_retW: "(\<And>w. P w \<Longrightarrow> Q x w) \<Longrightarrow> triple F I P (retW x) Q"
  by (simp add: triple_def retW_def)

lemma triple_failW: "(\<And>w. P w \<Longrightarrow> F \<and> I w) \<Longrightarrow> triple F I P (failW e) Q"
  by (simp add: triple_def failW_def)

lemma triple_pre: "(\<And>w. P w \<Longrightarrow> c) \<Longrightarrow> (c \<Longrightarrow> triple F I P m Q) \<Longrightarrow> triple F I P m Q"
  by (auto simp: triple_def)

lemma triple_Inr: "triple F I P m Q \<Longrightarrow> P w \<Longrightarrow> m w = (Inr x, w') \<Longrightarrow> Q x w'"
  by (auto simp: triple_def)

text \<open>Outside calls may fail when the environment has a fault at all.\<close>

definition may_fail :: "env \<Rightarrow> bool" where
  "may_fail env \<longleftrightarrow> (\<exists>n. ev_fault env n \<noteq> None)"

lemma outside_healthy: "\<not> may_fail env \<Longrightarrow> outside env call w = call (w\<lparr>wd_clock := wd_clock w + 1\<rparr>)"
  by (simp add: outside_def may_fail_def Let_def)

lemma triple_outside:
  assumes "may_fail env \<Longrightarrow> F" and "\<And>w n. P w \<Longrightarrow> P (w\<lparr>wd_clock := n\<rparr>)" and "\<And>w. P w \<Longrightarrow> I w"
    and "triple F I P call Q"
  shows "triple F I P (outside env call) Q"
  unfolding triple_def
proof (intro allI impI)
  fix w assume P: "P w"
  define w' where "w' = w\<lparr>wd_clock := wd_clock w + 1\<rparr>"
  have P': "P w'" "I w'" using assms(2,3) P by (auto simp: w'_def)
  show "case outside env call w of (Inr x, w') \<Rightarrow> Q x w' | (Inl (Err e), w') \<Rightarrow> F \<and> I w' | (Inl Panic, w') \<Rightarrow> False"
  proof (cases "ev_fault env (wd_clock w)")
    case None
    then have "outside env call w = call w'" by (simp add: outside_def w'_def)
    with assms(4) P' show ?thesis by (simp add: triple_def)
  next
    case (Some e)
    then have "outside env call w = (Inl (Err e), w')" by (simp add: outside_def w'_def)
    with assms(1) P' Some show ?thesis by (auto simp: may_fail_def)
  qed
qed

section \<open>The invariant of the cache\<close>

definition page_stored :: "env \<Rightarrow> range_cache \<Rightarrow> (string \<Rightarrow> bytes option) \<Rightarrow> page_key \<Rightarrow> nat \<Rightarrow> bool" where
  "page_stored env cache files key n \<longleftrightarrow>
     (\<exists>page. page_of env cache key = Some page \<and> n = length page
        \<and> files (page_path env cache key) = Some page)"

definition world_ok :: "env \<Rightarrow> range_cache \<Rightarrow> world \<Rightarrow> bool" where
  "world_ok env cache w \<longleftrightarrow>
     env_ok env cache \<and> cache_inv (wd_state w) \<and> cs_bytes (wd_state w) \<le> rg_max_size cache
     \<and> (\<forall>key \<in> dom (cs_entries (wd_state w)).
           page_stored env cache (wd_files w) key (entry_size (wd_state w) key))"

lemma world_ok_clock [simp]: "world_ok env cache (w\<lparr>wd_clock := n\<rparr>) = world_ok env cache w"
  by (simp add: world_ok_def)

lemma world_ok_touch:
  assumes "world_ok env cache w"
  shows "world_ok env cache (w\<lparr>wd_state := touch key policy fraction max_size (wd_state w)\<rparr>)"
  using assms touch_inv [of "wd_state w" key policy fraction max_size]
  by (simp add: world_ok_def same_pages_def)

lemma triple_load_cached:
  assumes F: "may_fail env \<Longrightarrow> F"
  shows "triple F (world_ok env cache) (world_ok env cache) (load_cached env cache key)
    (\<lambda>r w. world_ok env cache w \<and>
       (case r of Some page \<Rightarrow> page_of env cache key = Some page
        | None \<Rightarrow> cs_entries (wd_state w) key = None))"
  unfolding triple_def
proof (intro allI impI)
  fix w assume ok: "world_ok env cache w"
  define w1 where "w1 = w\<lparr>wd_state :=
    touch key (rg_policy cache) (rg_protected_fraction cache) (rg_max_size cache) (wd_state w)\<rparr>"
  have ok1: "world_ok env cache w1" unfolding w1_def by (rule world_ok_touch [OF ok])
  show "case load_cached env cache key w of (Inr r, w') \<Rightarrow> world_ok env cache w' \<and>
       (case r of Some page \<Rightarrow> page_of env cache key = Some page | None \<Rightarrow> cs_entries (wd_state w') key = None)
     | (Inl (Err e), w') \<Rightarrow> F \<and> world_ok env cache w' | (Inl Panic, w') \<Rightarrow> False"
  proof (cases "cs_entries (wd_state w) key")
    case None
    with ok show ?thesis by (simp add: load_cached_def)
  next
    case (Some entry)
    then have "key \<in> dom (cs_entries (wd_state w))" by blast
    then obtain page where page: "page_of env cache key = Some page"
      "wd_files w1 (page_path env cache key) = Some page"
      using ok by (auto simp: world_ok_def page_stored_def w1_def)
    show ?thesis
      using Some page ok1 F
      by (auto simp: load_cached_def fs_read_def outside_def retW_def Let_def may_fail_def simp flip: w1_def
          split: option.split)
  qed
qed

end
