(* ===== verification/Range_Cache_Reads.thy ===== *)
theory Range_Cache_Reads
  imports Range_Cache_Facts
begin

text \<open>
  Storing, fetching and reading pages: every operation keeps the invariant of the cache, and a range
  is read exactly or not at all.
\<close>

section \<open>Storing a page\<close>

lemma remove_files_frame:
  assumes "\<And>key. key \<in> set keys \<Longrightarrow> page_path env cache key \<noteq> path"
  shows "wd_files (remove_files env cache keys w) path = wd_files w path"
  using assms
proof (induction keys arbitrary: w)
  case (Cons key keys)
  have "wd_files (snd (fs_remove_file env (page_path env cache key) w)) path = wd_files w path"
    using Cons.prems [of key]
    by (auto simp: fs_remove_file_def outside_def failW_def Let_def split: option.split)
  with Cons show ?case by simp
qed simp

lemma remove_files_state [simp]: "wd_state (remove_files env cache keys w) = wd_state w"
proof (induction keys arbitrary: w)
  case (Cons key keys)
  have "wd_state (snd (fs_remove_file env (page_path env cache key) w)) = wd_state w"
    by (auto simp: fs_remove_file_def outside_def failW_def Let_def split: option.split)
  with Cons show ?case by simp
qed simp

lemma world_ok_page:
  "world_ok env cache w \<Longrightarrow> k \<in> dom (cs_entries (wd_state w))
   \<Longrightarrow> page_stored env cache (wd_files w) k (entry_size (wd_state w) k)"
  unfolding world_ok_def by blast

text \<open>The world while a page is stored: the page's file may be there before its entry is.\<close>

lemma world_ok_write:
  assumes "world_ok env cache w"
  shows "world_ok env cache (w\<lparr>wd_files := (wd_files w)(temporary_path env cache key := v)\<rparr>)"
proof -
  have "env_ok env cache" using assms by (simp add: world_ok_def)
  then have "page_path env cache k \<noteq> temporary_path env cache key" for k
    using temporary_path_fresh by metis
  with assms show ?thesis by (simp add: world_ok_def page_stored_def)
qed

lemma world_ok_store_file:
  assumes ok: "world_ok env cache w" and page: "page_of env cache key = Some bs"
  shows "world_ok env cache (w\<lparr>wd_files := (wd_files w)(page_path env cache key := Some bs)\<rparr>)"
proof -
  have "page_stored env cache ((wd_files w)(page_path env cache key := Some bs)) k (entry_size (wd_state w) k)"
    if "k \<in> dom (cs_entries (wd_state w))" for k
  proof (cases "page_path env cache k = page_path env cache key")
    case True
    moreover from world_ok_page [OF ok that]
    obtain p where "page_of env cache k = Some p" "entry_size (wd_state w) k = length p"
      by (auto simp: page_stored_def)
    moreover have "env_ok env cache" using ok by (simp add: world_ok_def)
    ultimately show ?thesis using page page_path_inj [of env cache k key] by (auto simp: page_stored_def)
  next
    case False
    with ok that show ?thesis by (auto simp: world_ok_def page_stored_def)
  qed
  with ok show ?thesis by (simp add: world_ok_def)
qed

lemma world_ok_insert_evict:
  assumes ok: "world_ok env cache w" and page: "page_of env cache key = Some bs"
    and there: "wd_files w (page_path env cache key) = Some bs"
    and new: "cs_entries (wd_state w) key = None" and fit: "length bs \<le> rg_max_size cache"
    and ev: "evict (rg_max_size cache) (insert_page key (length bs) (wd_state w)) = (st, evicted)"
  shows "world_ok env cache (remove_files env cache evicted (w\<lparr>wd_state := st\<rparr>))"
proof -
  let ?st = "insert_page key (length bs) (wd_state w)"
  have env: "env_ok env cache" using ok by (simp add: world_ok_def)
  have "cs_bytes (wd_state w) + length bs < 2 ^ 64"
    using ok fit by (auto simp: world_ok_def env_ok_def)
  from insert_page_inv [OF _ new this] ok have inv: "cache_inv ?st" by (simp add: world_ok_def)
  note spec = evict_spec [OF inv ev]
  have size: "entry_size ?st k = (if k = key then length bs else entry_size (wd_state w) k)" for k
    by (simp add: insert_page_def entry_size_def)
  have stored: "page_stored env cache (wd_files w) k (entry_size ?st k)" if "k \<in> dom (cs_entries ?st)" for k
  proof (cases "k = key")
    case True
    with page there show ?thesis by (simp add: page_stored_def size)
  next
    case False
    with that have "k \<in> dom (cs_entries (wd_state w))" by (auto simp: insert_page_def)
    with ok False show ?thesis by (simp add: world_ok_def size)
  qed
  have "page_stored env cache (wd_files (remove_files env cache evicted (w\<lparr>wd_state := st\<rparr>))) k (entry_size st k)"
    if k: "k \<in> dom (cs_entries st)" for k
  proof -
    have "cs_entries st k = (if k \<in> set evicted then None else cs_entries ?st k)" using spec by blast
    with k have k': "k \<notin> set evicted" "k \<in> dom (cs_entries ?st)" "cs_entries st k = cs_entries ?st k"
      by (auto simp: dom_def split: if_splits)
    then have s: "page_stored env cache (wd_files w) k (entry_size st k)"
      using stored [of k] by (simp add: entry_size_def)
    have "page_path env cache k2 \<noteq> page_path env cache k" if "k2 \<in> set evicted" for k2
    proof
      assume eq: "page_path env cache k2 = page_path env cache k"
      have "k2 \<in> set (cs_keys ?st)" using spec that by auto
      then have "k2 \<in> dom (cs_entries ?st)" using inv by (simp add: cache_inv_def)
      with stored [of k2] s page_path_inj [OF env _ _ eq] k'(1) that show False
        by (auto simp: page_stored_def)
    qed
    with s show ?thesis by (simp add: page_stored_def remove_files_frame)
  qed
  with env spec show ?thesis by (simp add: world_ok_def)
qed

lemma triple_store_cached:
  assumes F: "may_fail env \<Longrightarrow> F" and page: "page_of env cache key = Some bs"
  shows "triple F (world_ok env cache)
    (\<lambda>w. world_ok env cache w \<and> cs_entries (wd_state w) key = None)
    (store_cached env cache key bs) (\<lambda>_. world_ok env cache)"
proof (cases "rg_max_size cache < length bs")
  case True
  then show ?thesis by (auto simp: store_cached_def intro: triple_retW)
next
  case False
  let ?W = "world_ok env cache"
  let ?P = "\<lambda>w. ?W w \<and> cs_entries (wd_state w) key = None"
  let ?tmp = "temporary_path env cache key" and ?path = "page_path env cache key"
  have t_create: "triple F ?W ?P (fs_create_dir_all env (page_parent env cache key)) (\<lambda>_. ?P)"
    unfolding fs_create_dir_all_def by (rule triple_outside) (auto simp: F intro: triple_retW)
  have t_write: "triple F ?W ?P (fs_write env ?tmp bs) (\<lambda>_ w. ?P w \<and> wd_files w ?tmp = Some bs)"
    unfolding fs_write_def by (rule triple_outside) (auto simp: F triple_def world_ok_write)
  have t_rename: "triple F ?W (\<lambda>w. ?P w \<and> wd_files w ?tmp = Some bs) (fs_rename env ?tmp ?path)
      (\<lambda>_ w. ?P w \<and> wd_files w ?path = Some bs)"
  proof -
    have "?W (w\<lparr>wd_files := (wd_files w)(?tmp := None, ?path := Some bs)\<rparr>)" if "?W w" for w
      using world_ok_store_file [OF world_ok_write [OF that, of key None] page] by simp
    then show ?thesis
      unfolding fs_rename_def by (intro triple_outside) (auto simp: F triple_def)
  qed
  have t_update: "triple F ?W (\<lambda>w. ?P w \<and> wd_files w ?path = Some bs)
      (\<lambda>w. let (st, evicted) = evict (rg_max_size cache) (insert_page key (length bs) (wd_state w)) in
          (Inr (), remove_files env cache evicted (w\<lparr>wd_state := st\<rparr>))) (\<lambda>_. ?W)"
    using False page
    by (auto simp: triple_def split: prod.split intro: world_ok_insert_evict)
  show ?thesis
    unfolding store_cached_def if_not_P [OF False]
    by (intro triple_doW [OF t_create] triple_doW [OF t_write] triple_doW [OF t_rename] t_update)
qed

section \<open>Fetching and getting pages\<close>

lemma triple_stat:
  assumes "may_fail env \<Longrightarrow> F" and "ev_objects env repository path = None \<Longrightarrow> F"
    and "\<And>w n. P w \<Longrightarrow> P (w\<lparr>wd_clock := n\<rparr>)" and "\<And>w. P w \<Longrightarrow> I w"
  shows "triple F I P (operator_stat env repository path)
    (\<lambda>n w. P w \<and> (\<exists>content. ev_objects env repository path = Some content \<and> n = length content))"
  unfolding operator_stat_def using assms
  by (intro triple_outside) (auto simp: triple_def retW_def failW_def split: option.split)

lemma triple_operator_read:
  assumes "may_fail env \<Longrightarrow> F" and "ev_objects env repository path = Some content" and "b \<le> length content"
    and "\<And>w n. P w \<Longrightarrow> P (w\<lparr>wd_clock := n\<rparr>)" and "\<And>w. P w \<Longrightarrow> I w"
  shows "triple F I P (operator_read env repository path a b) (\<lambda>bs w. P w \<and> bs = slice content a b)"
  unfolding operator_read_def using assms
  by (intro triple_outside) (auto simp: triple_def retW_def)

lemma triple_fetch_page:
  assumes F: "may_fail env \<Longrightarrow> F" and none: "page_of env cache key = None \<Longrightarrow> F"
  shows "triple F (world_ok env cache)
    (\<lambda>w. world_ok env cache w \<and> cs_entries (wd_state w) key = None)
    (fetch_page env cache key)
    (\<lambda>bs w. world_ok env cache w \<and> page_of env cache key = Some bs)"
    (is "triple F ?W ?P _ _")
proof (rule triple_pre [where c = "env_ok env cache"])
  assume env: "env_ok env cache"
  let ?o = "ev_objects env (pk_repository key) (pk_path key)"
  show "triple F ?W ?P (fetch_page env cache key) (\<lambda>bs w. ?W w \<and> page_of env cache key = Some bs)"
    unfolding fetch_page_def
  proof (rule triple_doW)
    show "triple F ?W ?P (operator_stat env (pk_repository key) (pk_path key))
        (\<lambda>n w. ?P w \<and> (\<exists>content. ?o = Some content \<and> n = length content))"
      by (rule triple_stat) (auto simp: F none page_of_def)
  next
    fix n
    show "triple F ?W (\<lambda>w. ?P w \<and> (\<exists>content. ?o = Some content \<and> n = length content))
       (let end_pos = min (u64_wrap (pk_offset key + rg_page_size cache)) n in
        if end_pos \<le> pk_offset key then failW ''requested cache page starts after object end''
        else doW (operator_read env (pk_repository key) (pk_path key) (pk_offset key) end_pos) (\<lambda>bs.
             doW (store_cached env cache key bs) (\<lambda>_. retW bs)))
       (\<lambda>bs w. ?W w \<and> page_of env cache key = Some bs)"
    proof (rule triple_pre [where c = "\<exists>content. ?o = Some content \<and> n = length content"])
      assume "\<exists>content. ?o = Some content \<and> n = length content"
      then obtain content where o: "?o = Some content" and n: "n = length content" by blast
      have ps: "0 < rg_page_size cache" "length content + rg_page_size cache < 2 ^ 63"
        using env o by (auto simp: env_ok_def)
      show ?thesis
      proof (cases "pk_offset key < length content")
        case False
        then have "min (u64_wrap (pk_offset key + rg_page_size cache)) n \<le> pk_offset key"
          by (simp add: n)
        then show ?thesis using False by (auto simp: Let_def page_of_def o intro!: triple_failW none)
      next
        case True
        define e where "e = page_end (rg_page_size cache) content (pk_offset key)"
        have e: "min (u64_wrap (pk_offset key + rg_page_size cache)) n = e" "pk_offset key < e" "e \<le> length content"
          using True ps by (auto simp: e_def page_end_def n u64_wrap_def)
        have page: "page_of env cache key = Some (slice content (pk_offset key) e)"
          using True by (simp add: page_of_def o e_def)
        have "triple F ?W ?P
          (doW (operator_read env (pk_repository key) (pk_path key) (pk_offset key) e) (\<lambda>bs.
             doW (store_cached env cache key bs) (\<lambda>_. retW bs)))
          (\<lambda>bs w. ?W w \<and> page_of env cache key = Some bs)"
        proof (rule triple_doW [OF triple_operator_read [OF F o e(3)]])
          show "triple F ?W (\<lambda>w. ?P w \<and> bs = slice content (pk_offset key) e)
            (doW (store_cached env cache key bs) (\<lambda>_. retW bs)) (\<lambda>bs w. ?W w \<and> page_of env cache key = Some bs)" for bs
          proof (rule triple_pre [where c = "bs = slice content (pk_offset key) e"])
            assume bs: "bs = slice content (pk_offset key) e"
            have "triple F ?W ?P (doW (store_cached env cache key bs) (\<lambda>_. retW bs))
              (\<lambda>bs w. ?W w \<and> page_of env cache key = Some bs)"
              by (rule triple_doW [OF triple_store_cached [OF F]])
                 (auto simp: page bs intro: triple_retW)
            then show "triple F ?W (\<lambda>w. ?P w \<and> bs = slice content (pk_offset key) e)
              (doW (store_cached env cache key bs) (\<lambda>_. retW bs)) (\<lambda>bs w. ?W w \<and> page_of env cache key = Some bs)"
              by (rule triple_weaken) auto
          qed simp
        qed auto
        then have "triple F ?W (\<lambda>w. ?P w \<and> (\<exists>content. ?o = Some content \<and> n = length content))
          (doW (operator_read env (pk_repository key) (pk_path key) (pk_offset key) e) (\<lambda>bs.
             doW (store_cached env cache key bs) (\<lambda>_. retW bs)))
          (\<lambda>bs w. ?W w \<and> page_of env cache key = Some bs)"
          by (rule triple_weaken) auto
        moreover have "\<not> e \<le> pk_offset key" using e(2) by simp
        ultimately show ?thesis by (simp only: Let_def e(1) if_False)
      qed
    qed auto
  qed
qed (simp add: world_ok_def)

lemma triple_get_page:
  assumes F: "may_fail env \<Longrightarrow> F"
    and none: "page_of env cache \<lparr>pk_repository = repository, pk_path = path, pk_offset = offset\<rparr> = None \<Longrightarrow> F"
  shows "triple F (world_ok env cache) (world_ok env cache) (get_page env cache repository path offset)
    (\<lambda>bs w. world_ok env cache w
       \<and> page_of env cache \<lparr>pk_repository = repository, pk_path = path, pk_offset = offset\<rparr> = Some bs)"
  unfolding get_page_def Let_def
proof (rule triple_doW [OF triple_load_cached [OF F]])
  let ?key = "\<lparr>pk_repository = repository, pk_path = path, pk_offset = offset\<rparr>"
  fix r
  show "triple F (world_ok env cache)
     (\<lambda>w. world_ok env cache w \<and> (case r of None \<Rightarrow> cs_entries (wd_state w) ?key = None
        | Some page \<Rightarrow> page_of env cache ?key = Some page))
     (case r of None \<Rightarrow> fetch_page env cache ?key | Some bs \<Rightarrow> retW bs)
     (\<lambda>bs w. world_ok env cache w \<and> page_of env cache ?key = Some bs)"
    by (cases r) (auto intro: triple_retW triple_fetch_page [OF F none])
qed

section \<open>Reading a range\<close>

lemma page_part_slice:
  assumes "page_end ps content offset = e" and "ps = rg_page_size cache" and "offset < length content"
    and "length content + ps < 2 ^ 63" and "0 < ps" and "a < offset + ps" and "offset < b" and "a < b"
  shows "page_part cache a b offset (slice content offset e)
    = (if min b (offset + ps) \<le> length content
       then Some (slice content (max a offset) (min b (offset + ps))) else None)"
proof -
  have w: "u64_wrap (offset + ps) = offset + ps" using assms by (simp add: u64_wrap_def)
  have e: "offset < e" "e \<le> length content" "e = min (offset + ps) (length content)"
    using assms by (auto simp: page_end_def)
  have part: "slice (slice content offset e) (a - offset) (min b (offset + ps) - offset)
    = slice content (max a offset) (min b (offset + ps))" if "min b (offset + ps) \<le> e"
  proof -
    have "offset + (a - offset) = max a offset" "offset + (min b (offset + ps) - offset) = min b (offset + ps)"
      using assms by (auto simp: max_def min_def)
    with slice_slice [of "a - offset" "min b (offset + ps) - offset" offset e content] that assms
    show ?thesis by (auto simp: min_def split: if_splits)
  qed
  have "a - offset \<le> min b (offset + ps) - offset" using assms by auto
  moreover have "min b (offset + ps) - offset \<le> e - offset \<longleftrightarrow> min b (offset + ps) \<le> length content"
    using e by auto
  moreover have "min b (offset + ps) \<le> length content \<Longrightarrow> min b (offset + ps) \<le> e"
    using e by auto
  ultimately show ?thesis
    using e part by (auto simp: page_part_def slice_get_def w assms(2) [symmetric])
qed

text \<open>The invariant holds after reading any pages, whatever the result.\<close>

lemma triple_read_pages_keeps:
  "triple True (world_ok env cache) (world_ok env cache)
     (read_pages env cache repository path a b offsets) (\<lambda>_. world_ok env cache)"
proof (induction offsets)
  case Nil
  then show ?case by (auto intro: triple_retW)
next
  case (Cons offset offsets)
  have "triple True (world_ok env cache) (world_ok env cache)
     (case page_part cache a b offset page of
        None \<Rightarrow> failW ''object range ends before requested chunk record''
      | Some part \<Rightarrow> doW (read_pages env cache repository path a b offsets) (\<lambda>output. retW (part @ output)))
     (\<lambda>_. world_ok env cache)" for page
    by (auto intro: triple_failW triple_retW triple_doW [OF Cons] split: option.split)
  note rest = this
  show ?case
    unfolding read_pages.simps by (rule triple_doW [OF triple_weaken [OF triple_get_page] rest]) auto
qed

lemma page_offsets_Cons:
  "map (\<lambda>i. o1 + i * ps) [0..<Suc n] = o1 # map (\<lambda>i. o1 + ps + i * ps) [0..<n]"
  by (simp add: upt_conv_Cons comp_def algebra_simps del: upt_Suc flip: map_Suc_upt)

lemma triple_read_pages:
  assumes F: "may_fail env \<Longrightarrow> F" and short: "length content < b \<Longrightarrow> F"
    and obj: "ev_objects env repository path = Some content"
    and env: "env_ok env cache" and ps: "ps = rg_page_size cache"
  shows "a < o1 + ps \<Longrightarrow> a < b \<Longrightarrow> o1 + n * ps < b \<Longrightarrow> b \<le> o1 + ps + n * ps \<Longrightarrow>
    triple F (world_ok env cache) (world_ok env cache)
     (read_pages env cache repository path a b (map (\<lambda>i. o1 + i * ps) [0..<Suc n]))
     (\<lambda>bs w. world_ok env cache w \<and> b \<le> length content \<and> bs = slice content (max a o1) b)"
proof (induction n arbitrary: o1)
  let ?W = "world_ok env cache"
  have len: "length content + ps < 2 ^ 63" "0 < ps" using env obj by (auto simp: env_ok_def ps)
  have get: "triple F ?W ?W (get_page env cache repository path off)
     (\<lambda>bs w. ?W w \<and> off < length content \<and> bs = slice content off (page_end ps content off))"
    if "off < b" for off
  proof (rule triple_weaken [OF triple_get_page [OF F]])
    show F if "page_of env cache \<lparr>pk_repository = repository, pk_path = path, pk_offset = off\<rparr> = None"
      using that \<open>off < b\<close> short by (auto simp: page_of_def obj split: if_splits)
  qed (auto simp: page_of_def obj ps split: if_splits)
  have turn: "triple F ?W ?W (read_pages env cache repository path a b (off # offs))
     (\<lambda>bs w. ?W w \<and> b \<le> length content \<and> bs = slice content (max a off) b)"
    if off: "off < b" "a < off + ps" "a < b"
      and rest: "\<And>part. min b (off + ps) \<le> length content \<Longrightarrow> part = slice content (max a off) (min b (off + ps))
        \<Longrightarrow> triple F ?W ?W (doW (read_pages env cache repository path a b offs) (\<lambda>output. retW (part @ output)))
           (\<lambda>bs w. ?W w \<and> b \<le> length content \<and> bs = slice content (max a off) b)" for off offs
    unfolding read_pages.simps
  proof (rule triple_doW [OF get [OF off(1)]])
    fix page
    show "triple F ?W (\<lambda>w. ?W w \<and> off < length content \<and> page = slice content off (page_end ps content off))
      (case page_part cache a b off page of
         None \<Rightarrow> failW ''object range ends before requested chunk record''
       | Some part \<Rightarrow> doW (read_pages env cache repository path a b offs) (\<lambda>output. retW (part @ output)))
      (\<lambda>bs w. ?W w \<and> b \<le> length content \<and> bs = slice content (max a off) b)"
    proof (rule triple_pre [where c = "off < length content \<and> page = slice content off (page_end ps content off)"])
      assume "off < length content \<and> page = slice content off (page_end ps content off)"
      then have pg: "off < length content" "page = slice content off (page_end ps content off)" by auto
      note part = page_part_slice [OF refl ps pg(1) len off(2,1,3)]
      show ?thesis
      proof (cases "min b (off + ps) \<le> length content")
        case True
        show ?thesis
          unfolding pg(2) part if_P [OF True] option.case by (rule triple_weaken [OF rest [OF True refl]]) auto
      next
        case False
        then have F using short by auto
        then show ?thesis
          unfolding pg(2) part if_not_P [OF False] option.case by (auto intro: triple_failW)
      qed
    qed auto
  qed
  {
    case 0
    have b: "min b (o1 + ps) = b" using 0 by simp
    show ?case
      unfolding page_offsets_Cons [of o1 ps 0]
    proof (rule turn)
      fix part assume "min b (o1 + ps) \<le> length content" "part = slice content (max a o1) (min b (o1 + ps))"
      moreover have "doW (read_pages env cache repository path a b (map (\<lambda>i. o1 + ps + i * ps) [0..<0]))
        (\<lambda>output. retW (part @ output)) = retW part"
        by (simp add: doW_def retW_def fun_eq_iff)
      ultimately show "triple F ?W ?W
        (doW (read_pages env cache repository path a b (map (\<lambda>i. o1 + ps + i * ps) [0..<0])) (\<lambda>output. retW (part @ output)))
        (\<lambda>bs w. ?W w \<and> b \<le> length content \<and> bs = slice content (max a o1) b)"
        by (auto simp only: b intro: triple_retW)
    qed (use 0 in auto)
  next
    case (Suc n)
    have b: "min b (o1 + ps) = o1 + ps" "o1 < b" using Suc.prems by auto
    have ih: "triple F ?W ?W
      (read_pages env cache repository path a b (map (\<lambda>i. o1 + ps + i * ps) [0..<Suc n]))
      (\<lambda>bs w. ?W w \<and> b \<le> length content \<and> bs = slice content (max a (o1 + ps)) b)"
      by (rule Suc.IH) (use Suc.prems in auto)
    have glue: "slice content (max a o1) (o1 + ps) @ slice content (max a (o1 + ps)) b = slice content (max a o1) b"
      using slice_split [of "max a o1" "o1 + ps" b content] Suc.prems b by (simp add: max_def)
    show ?case
      unfolding page_offsets_Cons [of o1 ps "Suc n"]
    proof (rule turn)
      fix part
      assume "part = slice content (max a o1) (min b (o1 + ps))"
      then have part: "part = slice content (max a o1) (o1 + ps)" by (simp add: b)
      show "triple F ?W ?W
        (doW (read_pages env cache repository path a b (map (\<lambda>i. o1 + ps + i * ps) [0..<Suc n])) (\<lambda>output. retW (part @ output)))
        (\<lambda>bs w. ?W w \<and> b \<le> length content \<and> bs = slice content (max a o1) b)"
        by (rule triple_doW [OF ih]) (auto simp: part glue intro: triple_retW)
    qed (use Suc.prems b in auto)
  }
qed

lemma triple_cache_read_range:
  assumes F: "may_fail env \<Longrightarrow> F" and short: "length content < b \<Longrightarrow> F"
    and obj: "ev_objects env repository path = Some content" and ab: "a < b" "b - a < 2 ^ 63"
  shows "triple F (world_ok env cache) (world_ok env cache)
     (cache_read_range env cache repository path a b)
     (\<lambda>bs w. world_ok env cache w \<and> b \<le> length content \<and> bs = slice content a b)"
proof (rule triple_pre [where c = "env_ok env cache"])
  assume env: "env_ok env cache"
  define ps where "ps = rg_page_size cache"
  have pos: "0 < ps" using env by (simp add: env_ok_def ps_def)
  define o1 where "o1 = a div ps * ps"
  define n where "n = ((b - 1) div ps * ps - o1) div ps"
  have le: "a div ps \<le> (b - 1) div ps" using ab by (intro div_le_mono) simp
  have n: "n = (b - 1) div ps - a div ps"
    using pos by (simp add: n_def o1_def flip: diff_mult_distrib)
  have last: "o1 + n * ps = (b - 1) div ps * ps"
    using le by (simp add: n o1_def flip: add_mult_distrib)
  have "(b - 1) div ps * ps \<le> b - 1" "b - 1 < ps + (b - 1) div ps * ps"
    by simp (rule dividend_less_div_times [OF pos])
  with last ab have bounds: "o1 + n * ps < b" "b \<le> o1 + ps + n * ps"
    by linarith+
  have "a < o1 + ps" "o1 \<le> a" using dividend_less_div_times [OF pos, of a] by (simp_all add: o1_def add.commute)
  then have m: "max a o1 = a" and a1: "a < o1 + ps" by auto
  have "cache_read_range env cache repository path a b
    = read_pages env cache repository path a b (map (\<lambda>i. o1 + i * ps) [0..<Suc n])"
    using pos ab by (auto simp: cache_read_range_def page_offsets_def Let_def fun_eq_iff n_def o1_def ps_def)
  with triple_read_pages [OF F short obj env ps_def a1 ab(1) bounds] show ?thesis by (simp add: m)
qed (simp add: world_ok_def)

lemma triple_keeps:
  assumes "triple True I I m (\<lambda>_. I)" and "I w" and "m w = (r, w')"
  shows "I w'"
proof (cases r)
  case (Inl e)
  with assms show ?thesis by (cases e) (auto simp: triple_def)
next
  case (Inr x)
  with assms show ?thesis by (auto simp: triple_def)
qed

lemma cache_read_range_keeps:
  assumes "world_ok env cache w" and "cache_read_range env cache repository path a b w = (r, w')"
  shows "world_ok env cache w'"
  using assms triple_keeps [OF triple_read_pages_keeps assms(1)]
  by (auto simp: cache_read_range_def Let_def split: if_splits)

end
