(* ===== verification/Repository_Facts.thy ===== *)
theory Repository_Facts
  imports Repository Range_Cache_Reads Config_Facts
begin

text \<open>
  Repositories meet the \<open>range_reader\<close> contract with or without a cache; what the registry holds; and
  the page cache of a validated configuration meets its size conditions.
\<close>

section \<open>Repositories as range readers\<close>

lemma triple_total:
  assumes "triple False I P m Q" and "P w" and "m w = (r, w')"
  shows "\<exists>x. r = Inr x \<and> Q x w'"
proof (cases r)
  case (Inl e)
  with assms show ?thesis by (cases e) (auto simp: triple_def)
next
  case (Inr x)
  with assms show ?thesis by (auto simp: triple_def)
qed

definition reader_ok :: "env \<Rightarrow> repository \<Rightarrow> world \<Rightarrow> bool" where
  "reader_ok env repository w \<longleftrightarrow>
     (case rp_cache repository of None \<Rightarrow> True | Some cache \<Rightarrow> world_ok env cache w)"

lemma repository_read_range_keeps:
  assumes "reader_ok env repository w" and "repository_read_range env repository path a b w = (r, w')"
  shows "reader_ok env repository w'"
proof (cases "rp_cache repository")
  case None
  then show ?thesis by (simp add: reader_ok_def)
next
  case (Some cache)
  with assms show ?thesis
    by (auto simp: reader_ok_def repository_read_range_def retW_def cache_read_range_keeps split: if_splits)
qed

lemma triple_repository_read_range:
  assumes F: "may_fail env \<Longrightarrow> F"
    and obj: "ev_objects env (rp_name repository) path = Some content" and ab: "a < b" "b \<le> length content"
  shows "triple F (reader_ok env repository) (reader_ok env repository)
     (repository_read_range env repository path a b)
     (\<lambda>bs w. reader_ok env repository w \<and> bs = slice content a b)"
proof (cases "rp_cache repository")
  case None
  with ab show ?thesis
    unfolding repository_read_range_def
    by (auto simp: reader_ok_def intro!: triple_weaken [OF triple_operator_read [OF F obj ab(2)]])
next
  case (Some cache)
  have ok: "reader_ok env repository = world_ok env cache" using Some by (simp add: reader_ok_def fun_eq_iff)
  show ?thesis
  proof (rule triple_pre [where c = "env_ok env cache"])
    assume "env_ok env cache"
    with obj have "length content < 2 ^ 63" by (fastforce simp: env_ok_def)
    with ab have "b - a < 2 ^ 63" "length content < b \<Longrightarrow> F" by auto
    from triple_cache_read_range [OF F this(2) obj ab(1) this(1)]
    show ?thesis
      using Some ab unfolding repository_read_range_def ok by (auto intro: triple_weaken)
  qed (simp add: ok world_ok_def)
qed

interpretation repository_reader: range_reader "repository_read_range env repository"
    "ev_objects env (rp_name repository)" "reader_ok env repository"
  for env repository
proof unfold_locales
  fix st path a b r st'
  assume "reader_ok env repository st" "repository_read_range env repository path a b st = (r, st')"
  then show "reader_ok env repository st'" by (rule repository_read_range_keeps)
next
  fix st path content a b d st'
  assume "reader_ok env repository st" "ev_objects env (rp_name repository) path = Some content"
    "a < b" "b \<le> length content" "repository_read_range env repository path a b st = (Inr d, st')"
  with triple_repository_read_range [of env True repository path content a b] show "d = slice content a b"
    by (auto simp: triple_def)
qed

interpretation healthy_reader: reliable_reader "repository_read_range env repository"
    "ev_objects env (rp_name repository)" "\<lambda>w. reader_ok env repository w \<and> \<not> may_fail env"
  for env repository
proof unfold_locales
  fix st path a b r st'
  assume "reader_ok env repository st \<and> \<not> may_fail env"
    "repository_read_range env repository path a b st = (r, st')"
  then show "reader_ok env repository st' \<and> \<not> may_fail env" using repository_read_range_keeps by blast
next
  fix st path content a b d st'
  assume "reader_ok env repository st \<and> \<not> may_fail env" "ev_objects env (rp_name repository) path = Some content"
    "a < b" "b \<le> length content" "repository_read_range env repository path a b st = (Inr d, st')"
  then show "d = slice content a b" using repository_reader.read_sound by blast
next
  fix st path content a b
  assume a: "reader_ok env repository st \<and> \<not> may_fail env" "ev_objects env (rp_name repository) path = Some content"
    "a < b" "b \<le> length content"
  obtain r st' where run: "repository_read_range env repository path a b st = (r, st')" by fastforce
  have "triple False (reader_ok env repository) (reader_ok env repository)
     (repository_read_range env repository path a b) (\<lambda>bs w. reader_ok env repository w \<and> bs = slice content a b)"
    by (rule triple_repository_read_range) (use a in auto)
  from triple_total [OF this _ run] a(1) have "\<exists>d. r = Inr d" by blast
  with run show "\<exists>d st'. repository_read_range env repository path a b st = (Inr d, st')" by blast
qed

section \<open>The registry\<close>

lemma find_rev_Cons:
  "find P (rev (x # xs)) = (case find P (rev xs) of Some y \<Rightarrow> Some y | None \<Rightarrow> if P x then Some x else None)"
proof -
  have "find P (ys @ [x]) = (case find P ys of Some y \<Rightarrow> Some y | None \<Rightarrow> if P x then Some x else None)" for ys
    by (induction ys) auto
  then show ?thesis by simp
qed

lemma insert_repositories_get:
  "insert_repositories build parse_duration storage cache configs by_uri = Inr by_uri' \<Longrightarrow> bt_ok by_uri \<Longrightarrow>
    bt_ok by_uri' \<and>
    bt_get by_uri' uri =
      (case find (\<lambda>config. rc_uri config = uri) (rev configs) of
         None \<Rightarrow> bt_get by_uri uri
       | Some config \<Rightarrow>
           (case new_repository build parse_duration storage cache config of
              Inl _ \<Rightarrow> None | Inr repository \<Rightarrow> Some repository))"
proof (induction configs arbitrary: by_uri)
  case (Cons config configs)
  from Cons.prems(1) obtain repository
    where new: "new_repository build parse_duration storage cache config = Inr repository"
      and rest: "insert_repositories build parse_duration storage cache configs
        (bt_insert (rc_uri config) repository by_uri) = Inr by_uri'"
    by (auto simp: tryR_eq_Inr)
  have "bt_ok (bt_insert (rc_uri config) repository by_uri)"
    using Cons.prems(2) by (rule bt.inv_insert)
  from Cons.IH [OF rest this] new show ?case
    using bt.get_insert [OF Cons.prems(2), of "rc_uri config" repository]
    by (auto simp: find_rev_Cons simp del: rev.simps split: option.split)
qed simp

lemma bucket_and_root_nonempty: "bucket_and_root location = Inr (bucket, root) \<Longrightarrow> bucket \<noteq> ''''"
  by (auto simp: bucket_and_root_def Let_def split: if_splits prod.splits)

section \<open>The cache of a validated configuration\<close>

lemma open_cache_sizes:
  assumes "cache_config_ok config" and "open_cache env listing config w = (Inr cache, w')"
  shows "\<exists>k. rg_page_size cache = 2 ^ k \<and> rg_page_size cache \<le> rg_max_size cache"
  using assms
  by (auto simp: open_cache_def cache_config_ok_def split: prod.splits sum.splits)

lemma remove_temporary_state [simp]: "wd_state (remove_temporary env entries w) = wd_state w"
proof (induction entries arbitrary: w)
  case (Cons entry entries)
  have "wd_state (snd (fs_remove_file env entry w)) = wd_state w"
    by (auto simp: fs_remove_file_def outside_def failW_def Let_def split: option.split)
  with Cons show ?case by simp
qed simp

text \<open>A walk only lets the clock go on.\<close>

definition clock_only :: "'a action \<Rightarrow> bool" where
  "clock_only m \<longleftrightarrow> (\<forall>w. \<exists>n. snd (m w) = w\<lparr>wd_clock := n\<rparr>)"

lemma clock_ret: "clock_only (retW x)"
  unfolding clock_only_def retW_def by (metis snd_conv world.surjective world.update_convs(3))

lemma clock_ask: "clock_only (outside env (retW x))"
  by (auto simp: clock_only_def outside_def retW_def Let_def split: option.split)

lemma clock_do:
  assumes "clock_only m" and "\<And>x. clock_only (f x)"
  shows "clock_only (doW m f)"
proof -
  have "\<exists>n. snd (doW m f w) = w\<lparr>wd_clock := n\<rparr>" for w
  proof -
    obtain r n where m: "m w = (r, w\<lparr>wd_clock := n\<rparr>)" using assms(1) by (metis clock_only_def prod.collapse)
    show ?thesis
    proof (cases r)
      case (Inr x)
      have "\<exists>k. snd (f x (w\<lparr>wd_clock := n\<rparr>)) = w\<lparr>wd_clock := n, wd_clock := k\<rparr>"
        using assms(2) [of x] unfolding clock_only_def by blast
      then show ?thesis using m Inr by (simp add: doW_def)
    qed (use m in \<open>auto simp: doW_def\<close>)
  qed
  then show ?thesis by (simp add: clock_only_def)
qed

lemma clock_is_dir: "clock_only (is_dir env entry)"
  by (auto simp: clock_only_def is_dir_def outside_def retW_def Let_def split: option.split)

lemma clock_walk_entries: "clock_only (walk_entries env entries)"
proof (induction env entries rule: walk_entries.induct)
  case (2 env entry entries)
  show ?case
    unfolding walk_entries.simps
  proof (intro clock_do clock_ask clock_is_dir clock_ret 2(2))
    fix u directory
    show "clock_only (case (directory, entry) of
        (True, DirectoryEntry _ inner) \<Rightarrow> doW (outside env (retW ())) (\<lambda>_. walk_entries env inner)
      | _ \<Rightarrow> retW [de_path entry])"
      using 2(1) by (auto intro!: clock_do clock_ask clock_ret split: bool.split dir_entry.split)
  qed
qed (simp add: clock_ret)

lemma clock_walk_files: "clock_only (walk_files env entries)"
  unfolding walk_files_def by (intro clock_do clock_ask clock_walk_entries)

lemma remove_temporary_files_cases:
  obtains (failed) e n where "remove_temporary_files env tree w = (Inl e, w\<lparr>wd_clock := n\<rparr>)"
  | (walked) paths n where "remove_temporary_files env tree w = (Inr (), remove_temporary env paths (w\<lparr>wd_clock := n\<rparr>))"
proof -
  obtain r n where walk: "walk_files env tree w = (r, w\<lparr>wd_clock := n\<rparr>)"
    using clock_walk_files [of env tree] by (metis clock_only_def prod.collapse)
  show thesis
  proof (cases r)
    case (Inl e)
    then show thesis using walk failed by (simp add: remove_temporary_files_def doW_def)
  next
    case (Inr paths)
    then show thesis using walk walked by (simp add: remove_temporary_files_def doW_def)
  qed
qed

lemma open_cache_state:
  assumes "open_cache env tree config w = (Inr cache, w')"
  shows "wd_state w' = empty_cache_state"
proof -
  obtain v where "remove_temporary_files env (tree v) (v\<lparr>wd_state := empty_cache_state\<rparr>) = (Inr (), w')"
    using assms by (auto simp: open_cache_def split: prod.splits sum.splits)
  then show ?thesis by (cases rule: remove_temporary_files_cases [of env "tree v" "v\<lparr>wd_state := empty_cache_state\<rparr>"]) auto
qed

section \<open>What the walk finds, and what it leaves\<close>

text \<open>The paths of a tree, against which the walk of a healthy file system is exact.\<close>

fun entry_paths :: "dir_entry \<Rightarrow> string list" where
  "entry_paths (PlainEntry path) = [path]"
| "entry_paths (DirectoryEntry _ inner) = concat (map entry_paths inner)"

lemma walk_entries_complete:
  assumes "\<not> may_fail env"
  shows "fst (walk_entries env entries w) = Inr (concat (map entry_paths entries))"
  using assms
proof (induction env entries arbitrary: w rule: walk_entries.induct)
  case (2 env entry entries)
  note healthy = outside_healthy [OF 2(3)]
  note step = doW_def retW_def is_dir_def healthy
  have rest: "\<exists>v. walk_entries env entries u = (Inr (concat (map entry_paths entries)), v)" for u
    using 2(2) [OF 2(3)] by (metis prod.collapse)
  show ?case
  proof (cases entry)
    case (PlainEntry path)
    with rest show ?thesis by (simp add: step split: prod.split sum.split) (metis fst_conv sum.inject(2) old.sum.distinct(1))
  next
    case (DirectoryEntry path inner)
    have "\<exists>v. walk_entries env inner u = (Inr (concat (map entry_paths inner)), v)" for u
      using 2(1) [OF refl _ DirectoryEntry 2(3)] by (metis prod.collapse)
    with rest DirectoryEntry show ?thesis by (simp add: step split: prod.split sum.split) (metis fst_conv sum.inject(2) old.sum.distinct(1))
  qed
qed (simp add: retW_def)

lemma walk_files_complete:
  "\<not> may_fail env \<Longrightarrow> fst (walk_files env entries w) = Inr (concat (map entry_paths entries))"
  by (simp add: walk_files_def doW_def outside_healthy retW_def walk_entries_complete)

lemma remove_temporary_exact:
  assumes "\<not> may_fail env"
  shows "wd_files (remove_temporary env paths w) p = (if p \<in> set paths \<and> is_temporary p then None else wd_files w p)"
  by (induction paths arbitrary: w)
     (auto simp: fs_remove_file_def outside_healthy [OF assms] failW_def split: option.split)

text \<open>Opening the cache without failing calls removes just the temporary files of the tree, so no page.\<close>

lemma open_cache_files:
  assumes "\<not> may_fail env" and "open_cache env tree config w = (Inr cache, w')"
  shows "\<exists>v. wd_files v = wd_files w \<and> wd_files w' = (\<lambda>p. if p \<in> set (concat (map entry_paths (tree v))) \<and> is_temporary p
    then None else wd_files w p)"
proof -
  let ?v = "w\<lparr>wd_clock := wd_clock w + 3\<rparr>"
  have start: "doW (fs_create_dir_all env (cc_directory config)) (\<lambda>_. doW (outside env (retW ())) (\<lambda>_. outside env (retW ()))) w
    = (Inr (), ?v)"
    by (simp add: fs_create_dir_all_def doW_def retW_def outside_healthy [OF assms(1)] numeral_3_eq_3)
  let ?u = "?v\<lparr>wd_state := empty_cache_state\<rparr>"
  have "remove_temporary_files env (tree ?v) ?u = (Inr (), w')"
    using assms(2) by (auto simp: open_cache_def start split: prod.splits sum.splits)
  moreover obtain n where "walk_files env (tree ?v) ?u = (Inr (concat (map entry_paths (tree ?v))), ?u\<lparr>wd_clock := n\<rparr>)"
    using walk_files_complete [OF assms(1)] clock_walk_files [of env "tree ?v"] by (metis clock_only_def prod.collapse)
  ultimately have "w' = remove_temporary env (concat (map entry_paths (tree ?v))) (?u\<lparr>wd_clock := n\<rparr>)"
    by (simp add: remove_temporary_files_def doW_def)
  then show ?thesis by (intro exI [of _ ?v]) (simp add: remove_temporary_exact [OF assms(1)] fun_eq_iff)
qed

lemma open_cache_world_ok:
  assumes "open_cache env listing config w = (Inr cache, w')" and "env_ok env cache"
  shows "world_ok env cache w'"
proof -
  have "wd_state w' = empty_cache_state" by (rule open_cache_state [OF assms(1)])
  with assms(2) cache_inv_empty show ?thesis
    by (simp add: world_ok_def) (simp add: empty_cache_state_def)
qed

end
