(* ===== verification/Storage_Props.thy ===== *)
theory Storage_Props
  imports Repository_Facts Config_Props
begin

text \<open>
  The properties of the page cache, the repositories and the chunk reads through them, and a small
  environment for their witnesses: one object \<open>p\<close> of repository \<open>r\<close>, no faults, and a digest that
  pads its input.
\<close>

section \<open>A concrete environment\<close>

definition pad32 :: "bytes \<Rightarrow> bytes" where
  "pad32 bs = take 32 (bs @ replicate 32 0)"

definition demo_env :: "bytes \<Rightarrow> env" where
  "demo_env content = \<lparr>
     ev_objects = (\<lambda>r p. if r = ''r'' \<and> p = ''p'' then Some content else None),
     ev_fault = (\<lambda>_. None), ev_beyond = (\<lambda>_ _ _. Inl ''beyond''), ev_sha256 = pad32, ev_pid = 1\<rparr>"

definition demo_cache :: range_cache where
  "demo_cache = \<lparr>rg_directory = ''d'', rg_page_size = 4, rg_max_size = 8, rg_policy = Slru,
     rg_protected_fraction = default_protected_fraction\<rparr>"

definition demo_repository :: repository where
  "demo_repository = \<lparr>rp_name = ''r'',
     rp_operator = \<lparr>op_service = FsService ''x'', op_max_times = 3, op_timeout = 30, op_concurrent = 64\<rparr>,
     rp_cache = Some demo_cache, rp_bulk_chunk_size = 8, rp_bulk_concurrency = 4\<rparr>"

definition demo_world :: world where
  "demo_world = \<lparr>wd_state = empty_cache_state, wd_files = (\<lambda>_. None), wd_clock = 0\<rparr>"

lemma pad32_inj: "length xs = length ys \<Longrightarrow> length xs \<le> 32 \<Longrightarrow> pad32 xs = pad32 ys \<Longrightarrow> xs = ys"
proof -
  assume l: "length xs = length ys" "length xs \<le> 32" and eq: "pad32 xs = pad32 ys"
  have "take (length zs) (pad32 zs) = zs" if "length zs \<le> 32" for zs
    using that by (simp only: pad32_def take_take min.absorb1) simp
  with eq l show "xs = ys" by metis
qed

lemma length_pad32: "length (pad32 bs) = 32"
  by (simp only: pad32_def length_take length_append length_replicate)

lemma demo_env_ok:
  assumes "length content < 2 ^ 62"
  shows "env_ok (demo_env content) demo_cache"
proof -
  have dom: "pk_repository k = ''r'' \<and> pk_path k = ''p''" if "k \<in> dom (page_of (demo_env content) demo_cache)" for k
  proof (rule ccontr)
    assume "\<not> (pk_repository k = ''r'' \<and> pk_path k = ''p'')"
    then have "ev_objects (demo_env content) (pk_repository k) (pk_path k) = None" by (simp add: demo_env_def)
    with that show False by (auto simp: page_of_def)
  qed
  have len: "length (page_preimage k) = 11" if "k \<in> dom (page_of (demo_env content) demo_cache)" for k
    using dom [OF that] by (simp add: page_preimage_def)
  have "inj_on pad32 (page_preimage ` dom (page_of (demo_env content) demo_cache))"
  proof (rule inj_onI)
    fix x y assume "x \<in> page_preimage ` dom (page_of (demo_env content) demo_cache)"
      and "y \<in> page_preimage ` dom (page_of (demo_env content) demo_cache)" and eq: "pad32 x = pad32 y"
    then have "length x = 11" "length y = 11" using len by blast+
    then show "x = y" by (intro pad32_inj [OF _ _ eq]) linarith+
  qed
  moreover have "no_nul (pk_repository k)" if "page_of (demo_env content) demo_cache k = Some page" for k page
  proof -
    have "k \<in> dom (page_of (demo_env content) demo_cache)" using that by (rule domI)
    from dom [OF this] show ?thesis by (simp add: no_nul_def)
  qed
  moreover have "ev_sha256 (demo_env content) = pad32" by (simp add: demo_env_def)
  moreover have "length c + 4 < 2 ^ 63" if "ev_objects (demo_env content) r p = Some c" for r p c
  proof -
    have "c = content" using that by (simp add: demo_env_def split: if_splits)
    with assms show ?thesis by simp
  qed
  moreover have "rg_page_size demo_cache = 4" "rg_max_size demo_cache = 8" by (simp_all add: demo_cache_def)
  ultimately show ?thesis
    unfolding env_ok_def by (simp add: length_pad32) blast?
qed

lemma demo_ok: "length content < 2 ^ 62 \<Longrightarrow> world_ok (demo_env content) demo_cache demo_world"
  using demo_env_ok cache_inv_empty
  by (simp add: world_ok_def demo_world_def) (simp add: empty_cache_state_def)

lemma demo_no_fault: "\<not> may_fail (demo_env content)"
  by (simp add: may_fail_def demo_env_def)

section \<open>Properties of the page cache\<close>

text \<open>
  C22: reading a range through the cache returns the bytes of the stored object or an error, never
  other bytes and never a truncated range, whatever calls fail on the way; and it keeps the cache
  consistent: the queues hold exactly the resident pages once, the byte count is their total and at
  most the configured size, and the file of every resident page holds that page of the object.
\<close>

theorem cached_range_is_exact:
  assumes "world_ok env cache w" and "a < b"
    and "ev_objects env repository path = Some content"
    and "cache_read_range env cache repository path a b w = (r, w')"
  shows "world_ok env cache w' \<and> (\<forall>bs. r = Inr bs \<longrightarrow> b \<le> length content \<and> bs = slice content a b)"
proof (intro conjI allI impI)
  show "world_ok env cache w'" using assms(1,4) by (rule cache_read_range_keeps)
next
  fix bs assume r: "r = Inr bs"
  then have "b - a < 2 ^ 63" using assms(4) by (auto simp: cache_read_range_def split: if_splits)
  from triple_cache_read_range [where F = True and env = env, OF TrueI TrueI assms(3,2) this]
  have "triple True (world_ok env cache) (world_ok env cache) (cache_read_range env cache repository path a b)
      (\<lambda>bs w. world_ok env cache w \<and> b \<le> length content \<and> bs = slice content a b)" .
  from triple_Inr [OF this assms(1) assms(4) [unfolded r]]
  show "b \<le> length content" "bs = slice content a b" by simp_all
qed

theorem cached_range_is_exact_witness:
  "case cache_read_range (demo_env [1, 2, 3, 4, 5, 6]) demo_cache ''r'' ''p'' 2 6 demo_world of
     (r, w') \<Rightarrow> world_ok (demo_env [1, 2, 3, 4, 5, 6]) demo_cache w'"
  using cached_range_is_exact [OF demo_ok, of "[1, 2, 3, 4, 5, 6]" 2 6 "''r''" "''p''" "[1, 2, 3, 4, 5, 6]"]
  by (auto simp: demo_env_def)

text \<open>
  C23: while no outside call fails, a range inside the object is read, and read exactly.
\<close>

theorem cached_range_is_available:
  assumes "world_ok env cache w" and "\<And>n. ev_fault env n = None"
    and "ev_objects env repository path = Some content" and "a < b" and "b \<le> length content"
  shows "\<exists>w'. cache_read_range env cache repository path a b w = (Inr (slice content a b), w')"
proof -
  have "env_ok env cache" using assms(1) by (simp add: world_ok_def)
  with assms(3) have "length content < 2 ^ 63" by (fastforce simp: env_ok_def)
  with assms have "b - a < 2 ^ 63" "\<not> may_fail env" "\<not> length content < b" by (auto simp: may_fail_def)
  from triple_cache_read_range [of env False content b, OF _ _ assms(3,4) this(1)] this(2,3)
  have t: "triple False (world_ok env cache) (world_ok env cache) (cache_read_range env cache repository path a b)
      (\<lambda>bs w. world_ok env cache w \<and> b \<le> length content \<and> bs = slice content a b)"
    by blast
  obtain r w' where run: "cache_read_range env cache repository path a b w = (r, w')" by fastforce
  from triple_total [OF t assms(1) run] run show ?thesis by auto
qed

theorem cached_range_is_available_witness:
  "\<exists>w'. cache_read_range (demo_env [1, 2, 3, 4, 5, 6]) demo_cache ''r'' ''p'' 2 6 demo_world = (Inr [3, 4, 5, 6], w')"
  using cached_range_is_available [OF demo_ok, of "[1, 2, 3, 4, 5, 6]" "''r''" "''p''" "[1, 2, 3, 4, 5, 6]" 2 6]
  by (simp add: demo_env_def slice_def)

text \<open>
  A page that is resident is served from its file: no change of the object store matters.
\<close>

theorem resident_page_needs_no_store:
  assumes "world_ok env cache w" and "\<And>n. ev_fault env n = None"
    and "cs_entries (wd_state w) \<lparr>pk_repository = repository, pk_path = path, pk_offset = offset\<rparr> \<noteq> None"
  shows "\<exists>page w'. page_of env cache \<lparr>pk_repository = repository, pk_path = path, pk_offset = offset\<rparr> = Some page
    \<and> get_page (env\<lparr>ev_objects := objects\<rparr>) cache repository path offset w = (Inr page, w')"
proof -
  let ?key = "\<lparr>pk_repository = repository, pk_path = path, pk_offset = offset\<rparr>"
  obtain page where page: "page_of env cache ?key = Some page"
    and stored: "wd_files w (page_path env cache ?key) = Some page"
    using world_ok_page [OF assms(1), of ?key] assms(3) by (auto simp: page_stored_def)
  have "page_path (env\<lparr>ev_objects := objects\<rparr>) cache ?key = page_path env cache ?key"
    by (simp add: page_path_def page_digest_def)
  with page stored assms(2,3) show ?thesis
    by (auto simp: get_page_def load_cached_def doW_def retW_def fs_read_def outside_def Let_def)
qed

definition warm_world :: world where
  "warm_world = snd (get_page (demo_env [1, 2, 3, 4, 5, 6]) demo_cache ''r'' ''p'' 0 demo_world)"

lemma warm_world_ok:
  "world_ok (demo_env [1, 2, 3, 4, 5, 6]) demo_cache warm_world
   \<and> cs_entries (wd_state warm_world) \<lparr>pk_repository = ''r'', pk_path = ''p'', pk_offset = 0\<rparr> \<noteq> None"
proof
  let ?e = "demo_env [1, 2, 3, 4, 5, 6]"
  have "triple True (world_ok ?e demo_cache) (world_ok ?e demo_cache) (get_page ?e demo_cache ''r'' ''p'' 0)
      (\<lambda>_. world_ok ?e demo_cache)"
    by (rule triple_weaken [OF triple_get_page]) auto
  from triple_keeps [OF this demo_ok prod.collapse [symmetric]]
  show "world_ok ?e demo_cache warm_world" by (simp add: warm_world_def)
next
  show "cs_entries (wd_state warm_world) \<lparr>pk_repository = ''r'', pk_path = ''p'', pk_offset = 0\<rparr> \<noteq> None"
    by (simp add: warm_world_def get_page_def load_cached_def demo_world_def empty_cache_state_def
        doW_def fetch_page_def operator_stat_def operator_read_def outside_def demo_env_def retW_def
        demo_cache_def u64_wrap_def slice_def store_cached_def fs_create_dir_all_def fs_write_def
        fs_rename_def insert_page_def entry_size_def evict.simps Let_def)
qed

theorem resident_page_needs_no_store_witness:
  "\<exists>page w'. page_of (demo_env [1, 2, 3, 4, 5, 6]) demo_cache \<lparr>pk_repository = ''r'', pk_path = ''p'', pk_offset = 0\<rparr> = Some page
    \<and> get_page ((demo_env [1, 2, 3, 4, 5, 6])\<lparr>ev_objects := (\<lambda>_ _. None)\<rparr>) demo_cache ''r'' ''p'' 0 warm_world = (Inr page, w')"
  by (rule resident_page_needs_no_store) (use warm_world_ok in \<open>auto simp: demo_env_def\<close>)

text \<open>
  C24: storing a page that is not resident evicts from the front of the queues, probationary pages
  before protected ones and each queue oldest first, exactly as many pages as the limit demands:
  with the last page evicted the rest would still be too large.
\<close>

theorem eviction_order:
  assumes "cache_inv st" and "evict max_size st = (st', evicted)"
  shows "cs_probationary st @ cs_protected st = evicted @ cs_probationary st' @ cs_protected st'
    \<and> cs_bytes st' \<le> max_size
    \<and> (evicted = [] \<or> max_size < entry_size st (last evicted) + cs_bytes st')"
  using evict_spec [OF assms] by (simp add: cs_keys_def)

definition demo_key :: "nat \<Rightarrow> page_key" where
  "demo_key i = \<lparr>pk_repository = ''r'', pk_path = ''p'', pk_offset = 4 * i\<rparr>"

definition full_state :: cache_state where
  "full_state = insert_page (demo_key 1) 4 (insert_page (demo_key 0) 4 empty_cache_state)"

lemma full_state_inv: "cache_inv full_state"
proof -
  have "cache_inv (insert_page (demo_key 0) 4 empty_cache_state)"
    by (rule conjunct1 [OF insert_page_inv [OF cache_inv_empty]]) (simp_all add: empty_cache_state_def)
  then show ?thesis
    unfolding full_state_def
    by (rule conjunct1 [OF insert_page_inv])
       (simp_all add: insert_page_def empty_cache_state_def demo_key_def u64_wrap_def entry_size_def)
qed

lemma full_state_evict:
  "snd (evict 4 full_state) = [demo_key 0]"
  by (simp add: evict.simps full_state_def insert_page_def empty_cache_state_def pop_candidate_def
      demo_key_def u64_wrap_def entry_size_def)

theorem eviction_order_witness:
  "cs_bytes (fst (evict 4 full_state)) \<le> 4 \<and> snd (evict 4 full_state) = [demo_key 0]"
  using eviction_order [OF full_state_inv prod.collapse [symmetric], of 4] full_state_evict by simp

text \<open>
  Touching a resident page keeps the invariant, the resident pages and the byte count; under
  \<open>Slru\<close> the protected pages then take no more than the protected fraction of the size.
\<close>

theorem touch_keeps_protected_limit:
  assumes "cache_inv st" and "cs_entries st key \<noteq> None"
  shows "cache_inv (touch key Slru fraction max_size st)
    \<and> dom (cs_entries (touch key Slru fraction max_size st)) = dom (cs_entries st)
    \<and> cs_bytes (touch key Slru fraction max_size st) = cs_bytes st
    \<and> protected_bytes (touch key Slru fraction max_size st) \<le> mul_f64_as_u64 max_size fraction"
  using touch_inv [OF assms(1)] touch_protected_bound [OF refl assms(2)] by (simp add: same_pages_def)

theorem touch_keeps_protected_limit_witness:
  "protected_bytes (touch (demo_key 0) Slru default_protected_fraction 10 full_state) \<le> 8"
proof -
  have "cs_entries full_state (demo_key 0) \<noteq> None"
    by (simp add: full_state_def insert_page_def demo_key_def)
  from touch_keeps_protected_limit [OF full_state_inv this, of default_protected_fraction 10]
  have "protected_bytes (touch (demo_key 0) Slru default_protected_fraction 10 full_state)
    \<le> mul_f64_as_u64 10 default_protected_fraction" by simp
  also have "mul_f64_as_u64 10 default_protected_fraction = 8"
    by (simp add: mul_f64_as_u64_def default_protected_fraction_def f64_is_nan_def f64_is_infinite_def
        f64_exponent_def f64_fraction_def f64_significand_def f64_negative_def round53_def
        bit_length.simps Let_def bit_iff_odd)
  finally show ?thesis .
qed

text \<open>
  When the file of a resident page has vanished, \<open>load_cached\<close> forgets the entry but neither its
  bytes nor its place in the queue: from then on the byte count exceeds the total of the resident
  pages by the size of the lost one.
\<close>

theorem vanished_page_leaks_its_bytes:
  assumes "cache_inv (wd_state w)" and "cs_entries (wd_state w) key = Some entry"
    and "wd_files w (page_path env cache key) = None" and "\<And>n. ev_fault env n = None"
    and "load_cached env cache key w = (r, w')"
  shows "r = Inr None \<and> cs_entries (wd_state w') key = None
    \<and> key \<in> set (cs_probationary (wd_state w') @ cs_protected (wd_state w'))
    \<and> cs_bytes (wd_state w') = total_bytes (wd_state w') + pe_size entry"
proof -
  define st where "st = touch key (rg_policy cache) (rg_protected_fraction cache) (rg_max_size cache) (wd_state w)"
  have st: "cache_inv st" "same_pages (wd_state w) st" using touch_inv [OF assms(1)] by (simp_all add: st_def)
  have key: "key \<in> set (cs_keys st)" using assms(2) st by (auto simp: cache_inv_def same_pages_def)
  have size: "entry_size st key = pe_size entry" using st(2) assms(2) by (simp add: same_pages_def entry_size_def)
  define st' where "st' = st\<lparr>cs_entries := (cs_entries st)(key := None)\<rparr>"
  have res: "r = Inr None" "wd_state w' = st'"
    using assms(2-5)
    by (auto simp: load_cached_def fs_read_def outside_def retW_def Let_def st'_def st_def)
  have keys: "cs_keys st' = cs_keys st" by (simp add: st'_def cs_keys_def)
  have es: "entry_size st' = (entry_size st)(key := 0)" by (auto simp: st'_def entry_size_def fun_eq_iff)
  have "total_bytes st = total_bytes st' + pe_size entry"
  proof -
    have d: "distinct (cs_keys st)" using st(1) by (simp add: cache_inv_def)
    then have "total_bytes st = (\<Sum>k \<in> set (cs_keys st). entry_size st k)"
      "total_bytes st' = (\<Sum>k \<in> set (cs_keys st). entry_size st' k)"
      by (simp_all add: total_bytes_def keys sum_list_distinct_conv_sum_set)
    then show ?thesis using key size es
      by (simp add: sum.remove [of _ key])
  qed
  with st(1) have "cs_bytes st' = total_bytes st' + pe_size entry" by (simp add: cache_inv_def st'_def)
  with res key keys show ?thesis by (auto simp: st'_def cs_keys_def)
qed

theorem vanished_page_leaks_its_bytes_witness:
  "cs_bytes (wd_state (snd (load_cached (demo_env [1, 2, 3, 4, 5, 6]) demo_cache (demo_key 0)
      (demo_world\<lparr>wd_state := full_state\<rparr>))))
   = total_bytes (wd_state (snd (load_cached (demo_env [1, 2, 3, 4, 5, 6]) demo_cache (demo_key 0)
      (demo_world\<lparr>wd_state := full_state\<rparr>)))) + 4"
proof -
  have e: "cs_entries full_state (demo_key 0) = Some \<lparr>pe_size = 4, pe_protected = False\<rparr>"
    by (simp add: full_state_def insert_page_def demo_key_def)
  from vanished_page_leaks_its_bytes [of "demo_world\<lparr>wd_state := full_state\<rparr>" "demo_key 0" _ "demo_env [1, 2, 3, 4, 5, 6]"
      demo_cache, OF _ _ _ _ prod.collapse [symmetric]] full_state_inv e
  show ?thesis by (simp add: demo_world_def demo_env_def)
qed

text \<open>
  Distinct pages of the stored objects have distinct files, as long as the digest does not
  collide on them, and no temporary file is the file of a page.
\<close>

theorem page_files_distinct:
  assumes "env_ok env cache" and "page_of env cache k \<noteq> None" and "page_of env cache k' \<noteq> None" and "k \<noteq> k'"
  shows "page_path env cache k \<noteq> page_path env cache k' \<and> temporary_path env cache k \<noteq> page_path env cache k'"
  using page_path_inj [OF assms(1-3)] temporary_path_fresh [OF assms(1)] assms(4) by blast

theorem page_files_distinct_witness:
  "page_path (demo_env [1, 2, 3, 4, 5, 6]) demo_cache (demo_key 0)
   \<noteq> page_path (demo_env [1, 2, 3, 4, 5, 6]) demo_cache (demo_key 1)"
  using page_files_distinct [OF demo_env_ok, of "[1, 2, 3, 4, 5, 6]" "demo_key 0" "demo_key 1"]
  by (simp add: page_of_def demo_env_def demo_key_def)

section \<open>Chunks through a repository\<close>

text \<open>
  A chunk stored in an object at an offset is read back through the repository, with or without
  the page cache, as that chunk, or the read fails with the repository's error; nothing else.
\<close>

theorem stored_chunk_is_read:
  assumes "reader_ok env repository w" and "ev_objects env (rp_name repository) path = Some content"
    and "stores content offset (frame crc enc payload)" and "length payload < 2 ^ 35"
    and "read_encoded_chunk crc (repository_read_range env repository) path offset w = (r, w')"
  shows "reader_ok env repository w'
    \<and> (r = decode_encoded_record crc (frame crc enc payload) \<or> (\<exists>e. r = Inl (map_fault RangeError e)))"
proof -
  obtain q where run: "read_record (repository_read_range env repository) path offset w = (q, w')"
    and r: "r = tryR q (decode_encoded_record crc)"
    using assms(5) by (auto simp: read_encoded_chunk_def split: prod.splits)
  from repository_reader.read_record_sound [OF assms(1-4) run] r show ?thesis by auto
qed

definition demo_chunk :: bytes where
  "demo_chunk = frame (\<lambda>_. 7) 1 [9, 9]"

lemma demo_chunk_eval: "demo_chunk = [2, 1, 9, 9, 0, 0, 0, 7]"
proof -
  have four: "4 = Suc (Suc (Suc (Suc 0)))" by simp
  have "to_be_bytes 4 7 = [0, 0, 0, 7]" unfolding four by simp
  moreover have "unat (7 :: u32) = 7" by simp
  ultimately show ?thesis
    by (simp add: demo_chunk_def frame_def encode_uvarint_small)
qed

lemma demo_chunk_stored: "stores demo_chunk 0 (frame (\<lambda>_. 7) 1 [9, 9])"
  unfolding demo_chunk_def [symmetric] by (simp add: stores_def slice_def) (simp add: demo_chunk_eval)

lemma demo_reader_ok: "reader_ok (demo_env demo_chunk) demo_repository demo_world"
  using demo_ok [of demo_chunk] by (simp add: reader_ok_def demo_repository_def demo_chunk_eval)

theorem stored_chunk_is_read_witness:
  "reader_ok (demo_env demo_chunk) demo_repository
     (snd (read_encoded_chunk (\<lambda>_. 7) (repository_read_range (demo_env demo_chunk) demo_repository) ''p'' 0 demo_world))"
  using stored_chunk_is_read [OF demo_reader_ok _ demo_chunk_stored _ prod.collapse [symmetric], of "''p''"]
  by (simp add: demo_env_def demo_repository_def)

text \<open>
  While no outside call fails, the stored chunk is read: an XOR chunk comes back as its payload.
\<close>

theorem stored_xor_chunk_is_returned:
  assumes "reader_ok env repository w" and "\<And>n. ev_fault env n = None"
    and "ev_objects env (rp_name repository) path = Some content"
    and "stores content offset (frame crc (word_of_nat ENCODING_XOR) payload)" and "length payload < 2 ^ 35"
  shows "\<exists>w'. read_encoded_chunk crc (repository_read_range env repository) path offset w = (Inr (Xor payload), w')
    \<and> reader_ok env repository w'"
proof -
  have "reader_ok env repository w \<and> \<not> may_fail env" using assms(1,2) by (simp add: may_fail_def)
  from healthy_reader.read_record_exact [OF this assms(3-5)] obtain w' where
    "read_record (repository_read_range env repository) path offset w
       = (Inr (frame crc (word_of_nat ENCODING_XOR) payload), w')" "reader_ok env repository w'" by blast
  then show ?thesis
    using validated_payload_encode [OF assms(5)]
    by (simp add: read_encoded_chunk_def decode_encoded_record_def ENCODING_XOR_def)
qed

theorem stored_xor_chunk_is_returned_witness:
  "\<exists>w'. read_encoded_chunk (\<lambda>_. 7) (repository_read_range (demo_env demo_chunk) demo_repository) ''p'' 0 demo_world
     = (Inr (Xor [9, 9]), w') \<and> reader_ok (demo_env demo_chunk) demo_repository w'"
  by (rule stored_xor_chunk_is_returned [OF demo_reader_ok])
     (use demo_chunk_stored in \<open>simp_all add: demo_env_def demo_repository_def ENCODING_XOR_def\<close>)

section \<open>The registry\<close>

text \<open>
  C25: a registry built from a configuration answers each URI with the repository of the last
  configured entry that has it, and no other URI.
\<close>

theorem registry_lookup:
  assumes "registry_new build parse_duration env tree config w = (Inr registry, w')"
  shows "\<exists>cache. registry_get registry uri =
    Option.bind (find (\<lambda>repository. rc_uri repository = uri) (rev (cf_repositories config)))
      (\<lambda>repository.
        case new_repository build parse_duration (cf_storage config) cache repository of
          Inl _ \<Rightarrow> None | Inr r \<Rightarrow> Some r)"
proof -
  obtain cache by_uri where
    ins: "insert_repositories build parse_duration (cf_storage config) cache (cf_repositories config) [] = Inr by_uri"
    and reg: "rr_by_uri registry = by_uri"
    using assms by (auto simp: registry_new_def Let_def tryR_eq_Inr split: prod.splits)
  have "bt_ok []" by (simp add: bt_ok_def)
  from insert_repositories_get [OF ins this, of uri] reg show ?thesis
    by (intro exI [of _ cache]) (auto simp: registry_get_def bt_get_def split: option.splits)
qed

definition demo_config :: reader_config where
  "demo_config = \<lparr>cf_listen_addr = ''127.0.0.1:1'', cf_metrics_listen_addr = ''127.0.0.1:2'',
     cf_index_cache_location = ''t'',
     cf_repositories =
       [\<lparr>rc_name = ''a'', rc_uri = ''file://x'', rc_s3 = None, rc_gcs = None\<rparr>,
        \<lparr>rc_name = ''b'', rc_uri = ''file://x'', rc_s3 = None, rc_gcs = None\<rparr>],
     cf_storage = default_storage\<rparr>"

lemma demo_registry:
  "\<exists>registry. registry_new (\<lambda>_. Inr ()) (\<lambda>_. Inr 1) (demo_env []) (\<lambda>_. []) demo_config demo_world
     = (Inr registry, demo_world)"
proof -
  have bytes: "bulk_read_chunk_size_bytes default_storage = Inr (8 * 1024 ^ 2)"
    using parse_size_suffixed [of "''MiB''" "1024 ^ 2" 8 "''storage bulk_read_chunk_size''"]
    by (simp add: bulk_read_chunk_size_bytes_def default_storage_def default_bulk_read_chunk_size_def
        size_suffixes_def show_nat.simps digit_char_def char_of_def bit_0)
  have "uri_service \<lparr>rc_name = n, rc_uri = ''file://x'', rc_s3 = None, rc_gcs = None\<rparr> = Inr (FsService ''x'')" for n
    by (simp add: uri_service_def split_once.simps strip_prefix_def)
  moreover have "st_chunk_cache default_storage = None" by (simp add: default_storage_def)
  moreover have "request_timeout_duration (\<lambda>_. Inr 1) default_storage = Inr 1"
    by (simp add: request_timeout_duration_def)
  ultimately show ?thesis
    by (simp add: registry_new_def demo_config_def new_repository_def repository_operator_def bytes)
qed

theorem registry_lookup_witness:
  "\<exists>registry cache. registry_get registry ''file://x'' =
    (case new_repository (\<lambda>_. Inr ()) (\<lambda>_. Inr 1) default_storage cache
        \<lparr>rc_name = ''b'', rc_uri = ''file://x'', rc_s3 = None, rc_gcs = None\<rparr> of
      Inl _ \<Rightarrow> None | Inr r \<Rightarrow> Some r)"
proof -
  from demo_registry obtain registry where
    "registry_new (\<lambda>_. Inr ()) (\<lambda>_. Inr 1) (demo_env []) (\<lambda>_. []) demo_config demo_world
     = (Inr registry, demo_world)" by blast
  from registry_lookup [OF this, of "''file://x''"] show ?thesis
    by (simp add: demo_config_def) blast
qed

end
