(* ===== verification/Arrow_Data.thy ===== *)
theory Arrow_Data
  imports Prelude
begin

text \<open>
  Arrow schemas and record batches as far as the program looks into them, and the schema of a metric's
  table, \<open>MetricTableSchema\<close> of \<open>src/block_index.rs\<close>: three fixed columns and one text column per
  label.  \<open>BTreeSet\<close> is the sorted list of its elements.  Both Arrow string types are one constructor,
  since the code treats them alike.
\<close>

text \<open>
  A list has its item's name, type and nullability; a map has its entries' name, their fields and
  whether its keys are sorted.
\<close>

datatype data_type =
    TimestampMillisecondType | Float64Type | Int64Type | UInt64Type | Int32Type | UInt32Type | Utf8Type
  | ListType string data_type bool
  | MapType string "(string \<times> data_type \<times> bool) list" bool
  | OtherType

record field =
  fd_name :: string
  fd_type :: data_type
  fd_nullable :: bool

record metric_table_schema =
  mt_name :: string
  mt_label_columns :: "string list"

definition arrow_schema :: "metric_table_schema \<Rightarrow> field list" where
  "arrow_schema schema =
     [\<lparr>fd_name = ''timestamp'', fd_type = TimestampMillisecondType, fd_nullable = False\<rparr>,
      \<lparr>fd_name = ''value'', fd_type = Float64Type, fd_nullable = True\<rparr>,
      \<lparr>fd_name = ''downsample_resolution'', fd_type = Int64Type, fd_nullable = False\<rparr>]
     @ map (\<lambda>label. \<lparr>fd_name = label, fd_type = Utf8Type, fd_nullable = False\<rparr>)
         (mt_label_columns schema)"

text \<open>
  The columns of record batches that the code builds or reads.  The \<open>Opt\<close> columns are arrays built from
  optional values.
\<close>

datatype column =
    StringColumn "string list"
  | UInt64Column "nat list"
  | Int64Column "int list"
  | Int32Column "int list"
  | UInt32Column "nat list"
  | OptStringColumn "string option list"
  | OptInt64Column "int option list"
  | StringListColumn "string list list"
  | StringMapColumn "(string \<times> string) list list"
  | OtherColumn

record batch =
  ba_columns :: "(string \<times> column) list"
  ba_num_rows :: nat

definition column_by_name :: "batch \<Rightarrow> string \<Rightarrow> column option" where
  "column_by_name batch name = map_of (ba_columns batch) name"

text \<open>What \<open>RecordBatch::try_new\<close> checks: the number of columns, their types, nulls and lengths.\<close>

definition string_list_type :: data_type where
  "string_list_type = ListType ''item'' Utf8Type True"

definition string_map_type :: data_type where
  "string_map_type = MapType ''entries'' [(''keys'', Utf8Type, False), (''values'', Utf8Type, True)] False"

fun column_type :: "column \<Rightarrow> data_type" where
  "column_type (StringColumn xs) = Utf8Type"
| "column_type (UInt64Column xs) = UInt64Type"
| "column_type (Int64Column xs) = Int64Type"
| "column_type (Int32Column xs) = Int32Type"
| "column_type (UInt32Column xs) = UInt32Type"
| "column_type (OptStringColumn xs) = Utf8Type"
| "column_type (OptInt64Column xs) = Int64Type"
| "column_type (StringListColumn xs) = string_list_type"
| "column_type (StringMapColumn xs) = string_map_type"
| "column_type OtherColumn = OtherType"

fun column_nulls :: "column \<Rightarrow> bool" where
  "column_nulls (OptStringColumn xs) = (None \<in> set xs)"
| "column_nulls (OptInt64Column xs) = (None \<in> set xs)"
| "column_nulls _ = False"

fun column_length :: "column \<Rightarrow> nat" where
  "column_length (StringColumn xs) = length xs"
| "column_length (UInt64Column xs) = length xs"
| "column_length (Int64Column xs) = length xs"
| "column_length (Int32Column xs) = length xs"
| "column_length (UInt32Column xs) = length xs"
| "column_length (OptStringColumn xs) = length xs"
| "column_length (OptInt64Column xs) = length xs"
| "column_length (StringListColumn xs) = length xs"
| "column_length (StringMapColumn xs) = length xs"
| "column_length OtherColumn = 0"

definition batch_try_new :: "field list \<Rightarrow> column list \<Rightarrow> string fault + batch" where
  "batch_try_new schema columns =
     (if length columns \<noteq> length schema then Inl (Err ''number of columns'')
      else case columns of
        [] \<Rightarrow> Inl (Err ''must either specify a row count or at least one column'')
      | first # _ \<Rightarrow>
          if list_ex (\<lambda>(f, c). \<not> fd_nullable f \<and> column_nulls c) (zip schema columns)
          then Inl (Err ''declared as non-nullable but contains null values'')
          else if list_ex (\<lambda>c. column_length c \<noteq> column_length first) columns
          then Inl (Err ''all columns in a record batch must have the same length'')
          else if list_ex (\<lambda>(f, c). column_type c \<noteq> fd_type f) (zip schema columns)
          then Inl (Err ''column types must match schema types'')
          else Inr \<lparr>ba_columns = zip (map fd_name schema) columns, ba_num_rows = column_length first\<rparr>)"

text \<open>
  The labels of a series, a \<open>BTreeMap<String, String>\<close>, and the lookup all filters use: a missing label
  reads as the empty string.
\<close>

type_synonym labels = "(string \<times> string) list"

definition label_value :: "labels \<Rightarrow> string \<Rightarrow> string" where
  "label_value labels name = (case bt_get labels name of None \<Rightarrow> '''' | Some v \<Rightarrow> v)"

end
