(* ===== verification/Metric_Table.thy ===== *)
theory Metric_Table
  imports Arrow_Data Repository Chunk_Reader
begin

text \<open>
  The metric table of the SQL side, \<open>src/metric_table.rs\<close>: which filters it takes over from
  DataFusion, how it prunes chunks and samples with them, and the record batch it returns.

  Parameters: \<open>regex\<close> is \<open>Regex::new\<close>, giving the test \<open>is_match\<close>; \<open>from_json\<close> is \<open>serde_json::from_str\<close>
  into a map of strings; the child plan's batches are an argument.  Expressions, scalars and
  operators of DataFusion are data types with the constructors the code matches on.
\<close>

section \<open>Expressions\<close>

datatype operator_kind =
    OpEq | OpNotEq | OpLt | OpLtEq | OpGt | OpGtEq
  | OpRegexMatch | OpRegexIMatch | OpRegexNotMatch | OpRegexNotIMatch
  | OpOther string

datatype scalar =
    ScInt8 "int option" | ScInt16 "int option" | ScInt32 "int option" | ScInt64 "int option"
  | ScUInt8 "nat option" | ScUInt16 "nat option" | ScUInt32 "nat option" | ScUInt64 "nat option"
  | ScTimestampMillisecond "int option" "string option"
  | ScUtf8 "string option" | ScUtf8View "string option" | ScLargeUtf8 "string option"
  | ScOther string

datatype expr =
    ColumnExpr string
  | CastExpr expr
  | TryCastExpr expr
  | LiteralExpr scalar
  | ScalarFunctionExpr string "expr list"
  | BinaryExpr expr operator_kind expr
  | OtherExpr string

fun column_name :: "expr \<Rightarrow> string option" where
  "column_name (ColumnExpr name) = Some name"
| "column_name (CastExpr e) = column_name e"
| "column_name (TryCastExpr e) = column_name e"
| "column_name e = None"

definition scalar_i64 :: "scalar \<Rightarrow> int option" where
  "scalar_i64 value =
     (case value of
        ScInt8 (Some v) \<Rightarrow> Some v
      | ScInt16 (Some v) \<Rightarrow> Some v
      | ScInt32 (Some v) \<Rightarrow> Some v
      | ScInt64 (Some v) \<Rightarrow> Some v
      | ScUInt8 (Some v) \<Rightarrow> Some (int v)
      | ScUInt16 (Some v) \<Rightarrow> Some (int v)
      | ScUInt32 (Some v) \<Rightarrow> Some (int v)
      | ScUInt64 (Some v) \<Rightarrow> (if v < 2 ^ 63 then Some (int v) else None)
      | ScTimestampMillisecond (Some v) _ \<Rightarrow> Some v
      | _ \<Rightarrow> None)"

definition scalar_string :: "scalar \<Rightarrow> string option" where
  "scalar_string value =
     (case value of
        ScUtf8 (Some v) \<Rightarrow> Some v
      | ScUtf8View (Some v) \<Rightarrow> Some v
      | ScLargeUtf8 (Some v) \<Rightarrow> Some v
      | _ \<Rightarrow> None)"

fun scalar_value :: "expr \<Rightarrow> scalar option" where
  "scalar_value (LiteralExpr value) = Some value"
| "scalar_value (CastExpr e) = scalar_value e"
| "scalar_value (TryCastExpr e) = scalar_value e"
| "scalar_value (ScalarFunctionExpr name [arg]) =
     (if name = ''to_timestamp_millis'' then
        map_option (\<lambda>v. ScTimestampMillisecond (Some v) None)
          (Option.bind (scalar_value arg) scalar_i64)
      else None)"
| "scalar_value e = None"

fun reverse_operator :: "operator_kind \<Rightarrow> operator_kind option" where
  "reverse_operator OpEq = Some OpEq"
| "reverse_operator OpNotEq = Some OpNotEq"
| "reverse_operator OpGt = Some OpLt"
| "reverse_operator OpGtEq = Some OpLtEq"
| "reverse_operator OpLt = Some OpGt"
| "reverse_operator OpLtEq = Some OpGtEq"
| "reverse_operator _ = None"

section \<open>Filters\<close>

datatype metric_filter =
    TimestampFilter operator_kind int
  | ResolutionFilter operator_kind int
  | LabelFilter string operator_kind string
  | LabelRegexFilter string "string \<Rightarrow> bool" bool

type_synonym regex_parser = "string \<Rightarrow> (string \<Rightarrow> bool) option"

definition label_filter :: "regex_parser \<Rightarrow> string \<Rightarrow> operator_kind \<Rightarrow> string \<Rightarrow> metric_filter option" where
  "label_filter regex column operator value =
     (if operator \<in> {OpEq, OpNotEq} then Some (LabelFilter column operator value)
      else if operator \<in> {OpRegexMatch, OpRegexIMatch, OpRegexNotMatch, OpRegexNotIMatch} then
        let case_insensitive = operator \<in> {OpRegexIMatch, OpRegexNotIMatch};
            negated = operator \<in> {OpRegexNotMatch, OpRegexNotIMatch};
            pattern = (if case_insensitive then ''(?i:'' @ value @ '')'' else value) in
        map_option (\<lambda>is_match. LabelRegexFilter column is_match negated) (regex pattern)
      else None)"

definition column_filter :: "regex_parser \<Rightarrow> string \<Rightarrow> operator_kind \<Rightarrow> scalar \<Rightarrow> metric_filter option" where
  "column_filter regex column operator value =
     (if column = ''timestamp'' then map_option (TimestampFilter operator) (scalar_i64 value)
      else if column = ''downsample_resolution'' then map_option (ResolutionFilter operator) (scalar_i64 value)
      else if column = ''value'' then None
      else Option.bind (scalar_string value) (label_filter regex column operator))"

definition parse_filter :: "regex_parser \<Rightarrow> expr \<Rightarrow> metric_filter option" where
  "parse_filter regex e =
     (case e of
        BinaryExpr left operator right \<Rightarrow>
          (case (column_name left, scalar_value right) of
             (Some column, Some value) \<Rightarrow> column_filter regex column operator value
           | _ \<Rightarrow>
               (case (column_name right, scalar_value left) of
                  (Some column, Some value) \<Rightarrow>
                    Option.bind (reverse_operator operator) (\<lambda>reversed.
                      column_filter regex column reversed value)
                | _ \<Rightarrow> None))
      | _ \<Rightarrow> None)"

fun compare_i64 :: "int \<Rightarrow> operator_kind \<Rightarrow> int \<Rightarrow> bool" where
  "compare_i64 left OpEq right = (left = right)"
| "compare_i64 left OpNotEq right = (left \<noteq> right)"
| "compare_i64 left OpGt right = (right < left)"
| "compare_i64 left OpGtEq right = (right \<le> left)"
| "compare_i64 left OpLt right = (left < right)"
| "compare_i64 left OpLtEq right = (left \<le> right)"
| "compare_i64 left _ right = False"

fun compare_str :: "string \<Rightarrow> operator_kind \<Rightarrow> string \<Rightarrow> bool" where
  "compare_str left OpEq right = (left = right)"
| "compare_str left OpNotEq right = (left \<noteq> right)"
| "compare_str left _ right = False"

record chunk_descriptor =
  cd_mint :: int
  cd_maxt :: int
  cd_downsample_resolution :: int
  cd_labels :: labels

fun matches_descriptor :: "metric_filter \<Rightarrow> chunk_descriptor \<Rightarrow> bool" where
  "matches_descriptor (TimestampFilter operator value) d =
     (case operator of
        OpEq \<Rightarrow> cd_mint d \<le> value \<and> value \<le> cd_maxt d
      | OpGt \<Rightarrow> value < cd_maxt d
      | OpGtEq \<Rightarrow> value \<le> cd_maxt d
      | OpLt \<Rightarrow> cd_mint d < value
      | OpLtEq \<Rightarrow> cd_mint d \<le> value
      | _ \<Rightarrow> False)"
| "matches_descriptor (ResolutionFilter operator value) d =
     compare_i64 (cd_downsample_resolution d) operator value"
| "matches_descriptor (LabelFilter name operator value) d =
     compare_str (label_value (cd_labels d) name) operator value"
| "matches_descriptor (LabelRegexFilter name is_match negated) d =
     (is_match (label_value (cd_labels d) name) \<noteq> negated)"

fun matches_sample :: "metric_filter \<Rightarrow> sample \<Rightarrow> int \<Rightarrow> labels \<Rightarrow> bool" where
  "matches_sample (TimestampFilter operator value) s resolution labels =
     compare_i64 (sm_timestamp s) operator value"
| "matches_sample (ResolutionFilter operator value) s resolution labels =
     compare_i64 resolution operator value"
| "matches_sample (LabelFilter name operator value) s resolution labels =
     compare_str (label_value labels name) operator value"
| "matches_sample (LabelRegexFilter name is_match negated) s resolution labels =
     (is_match (label_value labels name) \<noteq> negated)"

section \<open>Chunk index batches\<close>

datatype metric_error =
    MissingColumn string
  | InvalidColumn string
  | InvalidStringColumn
  | NoStorageRepository string
  | InvalidLabelsJson string
  | SamplesFailed chunk_error
  | UnsupportedField string
  | BatchWithoutColumns
  | UnsupportedFilter
  | ChildPlanFailed string

type_synonym metric_fault = "metric_error fault"

definition string_column :: "batch \<Rightarrow> string \<Rightarrow> metric_fault + column" where
  "string_column batch name = ok_or (MissingColumn name) (column_by_name batch name)"

definition string_value :: "column \<Rightarrow> nat \<Rightarrow> metric_fault + string" where
  "string_value column index =
     (case column of StringColumn values \<Rightarrow> elem_index values index | _ \<Rightarrow> Inl (Err InvalidStringColumn))"

definition uint64_column :: "batch \<Rightarrow> string \<Rightarrow> metric_fault + nat list" where
  "uint64_column batch name =
     (case column_by_name batch name of
        None \<Rightarrow> Inl (Err (MissingColumn name))
      | Some (UInt64Column values) \<Rightarrow> Inr values
      | Some _ \<Rightarrow> Inl (Err (InvalidColumn name)))"

definition int64_column :: "batch \<Rightarrow> string \<Rightarrow> metric_fault + int list" where
  "int64_column batch name =
     (case column_by_name batch name of
        None \<Rightarrow> Inl (Err (MissingColumn name))
      | Some (Int64Column values) \<Rightarrow> Inr values
      | Some _ \<Rightarrow> Inl (Err (InvalidColumn name)))"

section \<open>Rows\<close>

record metric_row =
  mr_timestamp :: int
  mr_value :: u64
  mr_downsample_resolution :: int
  mr_labels :: labels

text \<open>The columns of a batch of chunks, and what the scan needs of its surroundings.\<close>

record chunk_columns =
  cl_repository_uri :: column
  cl_chunk_file_path :: column
  cl_chunk_file_offset :: "nat list"
  cl_resolution :: "int list"
  cl_chunk_mint :: "int list"
  cl_chunk_maxt :: "int list"
  cl_labels_json :: column
  cl_metric_name :: column

type_synonym ('r, 'w) sample_reader =
  "'r \<Rightarrow> string \<Rightarrow> nat \<Rightarrow> bool \<Rightarrow> 'w \<Rightarrow> (chunk_fault + sample list) \<times> 'w"

definition chunk_columns_of :: "batch \<Rightarrow> metric_fault + chunk_columns" where
  "chunk_columns_of batch =
     tryR (string_column batch ''repository_uri'') (\<lambda>repository_uri.
     tryR (string_column batch ''chunk_file_path'') (\<lambda>chunk_file_path.
     tryR (uint64_column batch ''chunk_file_offset'') (\<lambda>chunk_file_offset.
     tryR (int64_column batch ''downsample_resolution'') (\<lambda>resolution.
     tryR (int64_column batch ''chunk_mint'') (\<lambda>chunk_mint.
     tryR (int64_column batch ''chunk_maxt'') (\<lambda>chunk_maxt.
     tryR (string_column batch ''labels_json'') (\<lambda>labels_json.
     tryR (string_column batch ''metric_name'') (\<lambda>metric_name.
       Inr \<lparr>cl_repository_uri = repository_uri, cl_chunk_file_path = chunk_file_path,
            cl_chunk_file_offset = chunk_file_offset, cl_resolution = resolution,
            cl_chunk_mint = chunk_mint, cl_chunk_maxt = chunk_maxt, cl_labels_json = labels_json,
            cl_metric_name = metric_name\<rparr>))))))))"

record chunk_ref =
  ck_repository_uri :: string
  ck_path :: string
  ck_offset :: nat
  ck_descriptor :: chunk_descriptor

text \<open>Row \<open>index\<close> of a batch: none when it belongs to another metric.\<close>

definition chunk_row ::
  "(string \<Rightarrow> string + labels) \<Rightarrow> (string \<Rightarrow> 'r option) \<Rightarrow> string \<Rightarrow> chunk_columns \<Rightarrow> nat
   \<Rightarrow> metric_fault + ('r \<times> chunk_ref) option" where
  "chunk_row from_json repository_for metric_name columns index =
     tryR (string_value (cl_metric_name columns) index) (\<lambda>name.
       if name \<noteq> metric_name then Inr None
       else
         tryR (string_value (cl_repository_uri columns) index) (\<lambda>repository_uri.
         tryR (string_value (cl_chunk_file_path columns) index) (\<lambda>path.
         tryR (string_value (cl_labels_json columns) index) (\<lambda>labels_json.
         tryR (ok_or (NoStorageRepository repository_uri) (repository_for repository_uri)) (\<lambda>repository.
         tryR (map_err (\<lambda>e. Err (InvalidLabelsJson e)) (from_json labels_json)) (\<lambda>labels.
         tryR (elem_index (cl_chunk_mint columns) index) (\<lambda>mint.
         tryR (elem_index (cl_chunk_maxt columns) index) (\<lambda>maxt.
         tryR (elem_index (cl_resolution columns) index) (\<lambda>resolution.
         tryR (elem_index (cl_chunk_file_offset columns) index) (\<lambda>offset.
           Inr (Some (repository,
             \<lparr>ck_repository_uri = repository_uri, ck_path = path, ck_offset = offset,
              ck_descriptor = \<lparr>cd_mint = mint, cd_maxt = maxt, cd_downsample_resolution = resolution,
                cd_labels = labels\<rparr>\<rparr>))))))))))))"

definition sample_row :: "chunk_descriptor \<Rightarrow> sample \<Rightarrow> metric_row" where
  "sample_row d s =
     \<lparr>mr_timestamp = sm_timestamp s, mr_value = sm_value s,
      mr_downsample_resolution = cd_downsample_resolution d, mr_labels = cd_labels d\<rparr>"

definition keep_sample :: "metric_filter list \<Rightarrow> chunk_descriptor \<Rightarrow> sample \<Rightarrow> bool" where
  "keep_sample filters d s =
     list_all (\<lambda>f. matches_sample f s (cd_downsample_resolution d) (cd_labels d)) filters"

definition chunk_rows ::
  "('r, 'w) sample_reader \<Rightarrow> metric_filter list \<Rightarrow> bool \<Rightarrow> 'r \<times> chunk_ref
   \<Rightarrow> 'w \<Rightarrow> (metric_fault + metric_row list) \<times> 'w" where
  "chunk_rows reader filters counter_metric chunk w =
     (case chunk of (repository, c) \<Rightarrow>
        if \<not> list_all (\<lambda>f. matches_descriptor f (ck_descriptor c)) filters then (Inr [], w)
        else
          case reader repository (ck_path c) (ck_offset c) counter_metric w of
            (Inl e, w') \<Rightarrow> (Inl (map_fault SamplesFailed e), w')
          | (Inr samples, w') \<Rightarrow>
              (Inr (map (sample_row (ck_descriptor c))
                (filter (keep_sample filters (ck_descriptor c)) samples)), w'))"

fun batch_rows ::
  "(string \<Rightarrow> string + labels) \<Rightarrow> (string \<Rightarrow> 'r option) \<Rightarrow> ('r, 'w) sample_reader \<Rightarrow> string
   \<Rightarrow> metric_filter list \<Rightarrow> bool \<Rightarrow> chunk_columns \<Rightarrow> nat list \<Rightarrow> 'w
   \<Rightarrow> (metric_fault + metric_row list) \<times> 'w" where
  "batch_rows from_json repository_for reader metric_name filters counter_metric columns [] w = (Inr [], w)"
| "batch_rows from_json repository_for reader metric_name filters counter_metric columns (index # indices) w =
     (case chunk_row from_json repository_for metric_name columns index of
        Inl e \<Rightarrow> (Inl e, w)
      | Inr None \<Rightarrow>
          batch_rows from_json repository_for reader metric_name filters counter_metric columns indices w
      | Inr (Some chunk) \<Rightarrow>
          doW (chunk_rows reader filters counter_metric chunk) (\<lambda>rows.
          doW (batch_rows from_json repository_for reader metric_name filters counter_metric columns indices)
            (\<lambda>rest. retW (rows @ rest))) w)"

fun batches_rows ::
  "(string \<Rightarrow> string + labels) \<Rightarrow> (string \<Rightarrow> 'r option) \<Rightarrow> ('r, 'w) sample_reader \<Rightarrow> string
   \<Rightarrow> metric_filter list \<Rightarrow> bool \<Rightarrow> batch list \<Rightarrow> 'w \<Rightarrow> (metric_fault + metric_row list) \<times> 'w" where
  "batches_rows from_json repository_for reader metric_name filters counter_metric [] w = (Inr [], w)"
| "batches_rows from_json repository_for reader metric_name filters counter_metric (batch # batches) w =
     (case chunk_columns_of batch of
        Inl e \<Rightarrow> (Inl e, w)
      | Inr columns \<Rightarrow>
          doW (batch_rows from_json repository_for reader metric_name filters counter_metric columns
                 [0..<ba_num_rows batch]) (\<lambda>rows.
          doW (batches_rows from_json repository_for reader metric_name filters counter_metric batches)
            (\<lambda>rest. retW (rows @ rest))) w)"

section \<open>The record batch\<close>

datatype out_column =
    TimestampOut "int list"
  | Float64Out "u64 list"
  | Int64Out "int list"
  | Utf8Out "string list"

definition projected_schema :: "field list \<Rightarrow> nat list option \<Rightarrow> metric_fault + field list" where
  "projected_schema schema projection =
     (case projection of None \<Rightarrow> Inr schema | Some indices \<Rightarrow> mapR (elem_index schema) indices)"

definition output_column :: "metric_row list \<Rightarrow> field \<Rightarrow> metric_fault + out_column" where
  "output_column rows field =
     (if fd_name field = ''timestamp'' \<and> fd_type field = TimestampMillisecondType
        then Inr (TimestampOut (map mr_timestamp rows))
      else if fd_name field = ''value'' \<and> fd_type field = Float64Type
        then Inr (Float64Out (map mr_value rows))
      else if fd_name field = ''downsample_resolution'' \<and> fd_type field = Int64Type
        then Inr (Int64Out (map mr_downsample_resolution rows))
      else if fd_type field = Utf8Type
        then Inr (Utf8Out (map (\<lambda>row. label_value (mr_labels row) (fd_name field)) rows))
      else Inl (Err (UnsupportedField (fd_name field))))"

text \<open>\<open>RecordBatch::try_new\<close> takes its row count from the first column and refuses to have none.\<close>

definition record_batch ::
  "field list \<Rightarrow> nat list option \<Rightarrow> metric_row list \<Rightarrow> metric_fault + (field list \<times> out_column list)" where
  "record_batch schema projection rows =
     tryR (projected_schema schema projection) (\<lambda>output_schema.
     tryR (mapR (output_column rows) output_schema) (\<lambda>columns.
       if columns = [] then Inl (Err BatchWithoutColumns) else Inr (output_schema, columns)))"

definition build_metric_batch ::
  "(string \<Rightarrow> string + labels) \<Rightarrow> (string \<Rightarrow> 'r option) \<Rightarrow> ('r, 'w) sample_reader
   \<Rightarrow> field list \<Rightarrow> nat list option \<Rightarrow> string \<Rightarrow> metric_filter list \<Rightarrow> bool \<Rightarrow> batch list \<Rightarrow> 'w
   \<Rightarrow> (metric_fault + (field list \<times> out_column list)) \<times> 'w" where
  "build_metric_batch from_json repository_for reader schema projection metric_name filters counter_metric
     descriptors =
     doW (batches_rows from_json repository_for reader metric_name filters counter_metric descriptors)
       (\<lambda>rows w. (record_batch schema projection rows, w))"

section \<open>The table provider\<close>

fun option_list :: "'a option list \<Rightarrow> 'a list option" where
  "option_list [] = Some []"
| "option_list (None # xs) = None"
| "option_list (Some x # xs) = map_option (\<lambda>ys. x # ys) (option_list xs)"

datatype pushdown = Exact | Unsupported

definition supports_filters_pushdown :: "regex_parser \<Rightarrow> expr list \<Rightarrow> pushdown list" where
  "supports_filters_pushdown regex filters =
     map (\<lambda>e. if parse_filter regex e \<noteq> None then Exact else Unsupported) filters"

text \<open>
  \<open>scan\<close> and \<open>MetricScanExec::execute\<close>: the child plan is the chunk index restricted to the metric.
\<close>

definition metric_scan ::
  "regex_parser \<Rightarrow> (string \<Rightarrow> string + labels) \<Rightarrow> (string \<Rightarrow> string + batch list) \<Rightarrow> (string \<Rightarrow> 'r option)
   \<Rightarrow> ('r, 'w) sample_reader \<Rightarrow> metric_table_schema \<Rightarrow> nat list option \<Rightarrow> expr list \<Rightarrow> 'w
   \<Rightarrow> (metric_fault + (field list \<times> out_column list)) \<times> 'w" where
  "metric_scan regex from_json child repository_for reader schema projection filters w =
     (case ok_or UnsupportedFilter (option_list (map (parse_filter regex) filters)) of
        Inl e \<Rightarrow> (Inl e, w)
      | Inr parsed \<Rightarrow>
          (case child (mt_name schema) of
             Inl e \<Rightarrow> (Inl (Err (ChildPlanFailed e)), w)
           | Inr descriptors \<Rightarrow>
               build_metric_batch from_json repository_for reader (arrow_schema schema) projection
                 (mt_name schema) parsed (ends_with ''_total'' (mt_name schema)) descriptors w))"

text \<open>The sample reader of the program: the registry's repositories and the chunk reader.\<close>

definition repository_samples ::
  "(bytes \<Rightarrow> u32) \<Rightarrow> (bytes \<Rightarrow> sample list option) \<Rightarrow> env \<Rightarrow> (repository, world) sample_reader" where
  "repository_samples crc read_xor env repository path offset counter_metric =
     read_samples crc read_xor (repository_read_range env repository) path offset counter_metric"

end
