(* ===== verification/Metric_Table_Facts.thy ===== *)
theory Metric_Table_Facts
  imports Metric_Table
begin

text \<open>
  The metric scan: pruning by descriptors is sound for every filter but one, the scan returns exactly
  the matching samples, and the shape of the record batch.
\<close>

section \<open>Filters\<close>

lemma reverse_operator_flips: "reverse_operator op = Some op' \<Longrightarrow> compare_i64 a op b = compare_i64 b op' a"
  by (cases op) auto

text \<open>The filters whose descriptor test is implied by their sample test.\<close>

definition prunes_soundly :: "metric_filter \<Rightarrow> bool" where
  "prunes_soundly f = (\<forall>v. f \<noteq> TimestampFilter OpNotEq v)"

definition sample_in_chunk :: "chunk_descriptor \<Rightarrow> sample \<Rightarrow> bool" where
  "sample_in_chunk d s \<longleftrightarrow> cd_mint d \<le> sm_timestamp s \<and> sm_timestamp s \<le> cd_maxt d"

lemma matches_descriptor_sound:
  assumes "prunes_soundly f" and "sample_in_chunk d s"
    and "matches_sample f s (cd_downsample_resolution d) (cd_labels d)"
  shows "matches_descriptor f d"
proof (cases f)
  case (TimestampFilter op v)
  with assms show ?thesis by (cases op) (auto simp: prunes_soundly_def sample_in_chunk_def)
qed (use assms in auto)

lemma not_eq_prunes_all: "\<not> matches_descriptor (TimestampFilter OpNotEq v) d"
  by simp

lemma no_sample_of_pruned_chunk:
  assumes "list_all prunes_soundly filters" and "list_all (sample_in_chunk d) samples"
    and "\<not> list_all (\<lambda>f. matches_descriptor f d) filters"
  shows "filter (keep_sample filters d) samples = []"
  using assms matches_descriptor_sound
  by (fastforce simp: filter_empty_conv keep_sample_def list_all_iff)

section \<open>The rows of a scan\<close>

text \<open>
  The specification: the samples of every chunk of the metric that pass all filters, in order, with
  no pruning.  \<open>contents\<close> says which samples a chunk holds.
\<close>

definition chunk_rows_spec ::
  "('r \<Rightarrow> chunk_ref \<Rightarrow> sample list) \<Rightarrow> metric_filter list \<Rightarrow> 'r \<times> chunk_ref \<Rightarrow> metric_row list" where
  "chunk_rows_spec contents filters chunk =
     (case chunk of (repository, c) \<Rightarrow>
        map (sample_row (ck_descriptor c))
          (filter (keep_sample filters (ck_descriptor c)) (contents repository c)))"

definition reads_contents ::
  "('r, 'w) sample_reader \<Rightarrow> ('r \<Rightarrow> chunk_ref \<Rightarrow> sample list) \<Rightarrow> bool \<Rightarrow> ('w \<Rightarrow> bool)
   \<Rightarrow> 'r \<times> chunk_ref \<Rightarrow> bool" where
  "reads_contents reader contents counter_metric ok chunk \<longleftrightarrow>
     (case chunk of (repository, c) \<Rightarrow>
        list_all (sample_in_chunk (ck_descriptor c)) (contents repository c)
        \<and> (\<forall>w. ok w \<longrightarrow>
              (\<exists>w'. reader repository (ck_path c) (ck_offset c) counter_metric w
                      = (Inr (contents repository c), w') \<and> ok w')))"

lemma chunk_rows_exact:
  assumes "list_all prunes_soundly filters" and "reads_contents reader contents counter_metric ok chunk"
    and "ok w"
  shows "\<exists>w'. chunk_rows reader filters counter_metric chunk w
    = (Inr (chunk_rows_spec contents filters chunk), w') \<and> ok w'"
proof -
  obtain repository c where chunk: "chunk = (repository, c)" by (cases chunk)
  obtain w' where read: "reader repository (ck_path c) (ck_offset c) counter_metric w
      = (Inr (contents repository c), w')" "ok w'"
    and inside: "list_all (sample_in_chunk (ck_descriptor c)) (contents repository c)"
    using assms(2,3) by (auto simp: reads_contents_def chunk)
  show ?thesis
  proof (cases "list_all (\<lambda>f. matches_descriptor f (ck_descriptor c)) filters")
    case True
    with read show ?thesis by (simp add: chunk_rows_def chunk_rows_spec_def chunk)
  next
    case False
    from no_sample_of_pruned_chunk [OF assms(1) inside this] False assms(3) show ?thesis
      by (simp add: chunk_rows_def chunk_rows_spec_def chunk)
  qed
qed

text \<open>The chunks of the metric that the batches list, in order, when every row can be decoded.\<close>

definition batch_chunks ::
  "(string \<Rightarrow> string + labels) \<Rightarrow> (string \<Rightarrow> 'r option) \<Rightarrow> string \<Rightarrow> batch
   \<Rightarrow> metric_fault + ('r \<times> chunk_ref) list" where
  "batch_chunks from_json repository_for metric_name batch =
     tryR (chunk_columns_of batch) (\<lambda>columns.
     tryR (mapR (chunk_row from_json repository_for metric_name columns) [0..<ba_num_rows batch])
       (\<lambda>rows. Inr (List.map_filter id rows)))"

lemma batch_rows_exact:
  assumes "list_all prunes_soundly filters"
    and "mapR (chunk_row from_json repository_for metric_name columns) indices = Inr rows"
    and "list_all (reads_contents reader contents counter_metric ok) (List.map_filter id rows)"
    and "ok w"
  shows "\<exists>w'. batch_rows from_json repository_for reader metric_name filters counter_metric columns indices w
    = (Inr (concat (map (chunk_rows_spec contents filters) (List.map_filter id rows))), w') \<and> ok w'"
  using assms(2-4)
proof (induction indices arbitrary: rows w)
  case Nil
  then show ?case by (simp add: map_filter_def)
next
  case (Cons index indices)
  from Cons.prems(1) obtain r rs where
    r: "chunk_row from_json repository_for metric_name columns index = Inr r" and
    rs: "mapR (chunk_row from_json repository_for metric_name columns) indices = Inr rs" and
    rows: "rows = r # rs"
    by (auto simp: tryR_eq_Inr)
  show ?case
  proof (cases r)
    case None
    with Cons.IH [OF rs] Cons.prems r show ?thesis by (simp add: rows map_filter_simps)
  next
    case (Some chunk)
    from Cons.prems rows Some have c: "reads_contents reader contents counter_metric ok chunk"
      and rest: "list_all (reads_contents reader contents counter_metric ok) (List.map_filter id rs)"
      by (simp_all add: map_filter_simps id_def)
    from chunk_rows_exact [OF assms(1) c Cons.prems(3)] obtain w1 where
      "chunk_rows reader filters counter_metric chunk w = (Inr (chunk_rows_spec contents filters chunk), w1)" "ok w1"
      by blast
    with Cons.IH [OF rs rest \<open>ok w1\<close>] r Some show ?thesis
      by (auto simp: doW_def retW_def rows map_filter_simps)
  qed
qed

lemma batches_rows_exact:
  assumes "list_all prunes_soundly filters"
    and "mapR (batch_chunks from_json repository_for metric_name) batches = Inr chunks"
    and "list_all (list_all (reads_contents reader contents counter_metric ok)) chunks"
    and "ok w"
  shows "\<exists>w'. batches_rows from_json repository_for reader metric_name filters counter_metric batches w
    = (Inr (concat (map (chunk_rows_spec contents filters) (concat chunks))), w') \<and> ok w'"
  using assms(2-4)
proof (induction batches arbitrary: chunks w)
  case Nil
  then show ?case by simp
next
  case (Cons batch batches)
  from Cons.prems(1) obtain c cs where c: "batch_chunks from_json repository_for metric_name batch = Inr c"
    and cs: "mapR (batch_chunks from_json repository_for metric_name) batches = Inr cs" and chunks: "chunks = c # cs"
    by (auto simp: tryR_eq_Inr)
  from c obtain columns rows where cols: "chunk_columns_of batch = Inr columns"
    and rows: "mapR (chunk_row from_json repository_for metric_name columns) [0..<ba_num_rows batch] = Inr rows"
    and c_eq: "c = List.map_filter id rows"
    by (auto simp: batch_chunks_def tryR_eq_Inr)
  have "list_all (reads_contents reader contents counter_metric ok) (List.map_filter id rows)"
    using Cons.prems(2) chunks c_eq by simp
  from batch_rows_exact [OF assms(1) rows this Cons.prems(3)] obtain w1 where
    "batch_rows from_json repository_for reader metric_name filters counter_metric columns [0..<ba_num_rows batch] w
     = (Inr (concat (map (chunk_rows_spec contents filters) c)), w1)" "ok w1"
    by (auto simp: c_eq)
  with Cons.IH [OF cs _ \<open>ok w1\<close>] Cons.prems(2) cols show ?case
    by (auto simp: doW_def retW_def chunks)
qed

section \<open>The record batch\<close>

lemma output_column_arrow_schema:
  "field \<in> set (arrow_schema schema) \<Longrightarrow> \<exists>column. output_column rows field = Inr column"
  by (auto simp: arrow_schema_def output_column_def)

lemma mapR_elem_index: "mapR (elem_index xs) idxs = Inr ys \<Longrightarrow> set ys \<subseteq> set xs \<and> length ys = length idxs"
  by (induction idxs arbitrary: ys) (auto simp: tryR_eq_Inr elem_index_Inr)

lemma projected_schema_subset: "projected_schema schema projection = Inr out_fields \<Longrightarrow> set out_fields \<subseteq> set schema"
  by (auto simp: projected_schema_def split: option.splits dest!: mapR_elem_index)

lemma record_batch_arrow_schema:
  assumes "projected_schema (arrow_schema schema) projection = Inr out_fields" and "out_fields \<noteq> []"
  shows "\<exists>columns. record_batch (arrow_schema schema) projection rows = Inr (out_fields, columns)
    \<and> list_all2 (\<lambda>field column. output_column rows field = Inr column) out_fields columns"
proof -
  have "\<forall>field \<in> set out_fields. \<exists>column. output_column rows field = Inr column"
    using projected_schema_subset [OF assms(1)] output_column_arrow_schema by blast
  then obtain g where "\<forall>field \<in> set out_fields. output_column rows field = Inr (g field)" by metis
  then have m: "mapR (output_column rows) out_fields = Inr (map g out_fields)" by (auto intro: mapR_all_Inr)
  then have "list_all2 (\<lambda>field column. output_column rows field = Inr column) out_fields (map g out_fields)"
    by (simp only: mapR_eq_Inr)
  with assms m show ?thesis by (simp add: record_batch_def)
qed

end
