(* ===== verification/Metric_Table_Props.thy ===== *)
theory Metric_Table_Props
  imports Metric_Table_Facts
begin

text \<open>The properties of the metric scan, with a small chunk index for their witnesses.\<close>

section \<open>Filters\<close>

text \<open>
  A comparison written with the literal first means the same after \<open>parse_filter\<close> has turned it
  round.
\<close>

theorem reversed_comparison:
  assumes "reverse_operator op = Some op'"
  shows "compare_i64 a op b \<longleftrightarrow> compare_i64 b op' a"
  by (rule reverse_operator_flips [OF assms])

theorem reversed_comparison_witness: "compare_i64 3 OpGtEq 2 \<longleftrightarrow> compare_i64 2 OpLtEq 3"
  by (rule reversed_comparison) simp


definition demo_descriptor :: chunk_descriptor where
  "demo_descriptor = \<lparr>cd_mint = 100, cd_maxt = 200, cd_downsample_resolution = 0,
     cd_labels = [(''pod'', ''a'')]\<rparr>"


text \<open>
  C33: the filter \<open>timestamp != v\<close> is accepted as an exact pushdown, yet its descriptor test fails for
  every chunk, also for those whose samples all pass it.
\<close>

theorem timestamp_not_equal_prunes_everything:
  "\<exists>f. parse_filter regex (BinaryExpr (ColumnExpr ''timestamp'') OpNotEq (LiteralExpr (ScInt64 (Some v)))) = Some f
    \<and> supports_filters_pushdown regex
        [BinaryExpr (ColumnExpr ''timestamp'') OpNotEq (LiteralExpr (ScInt64 (Some v)))] = [Exact]
    \<and> (\<forall>d. \<not> matches_descriptor f d)
    \<and> (\<forall>s resolution labels. matches_sample f s resolution labels \<longleftrightarrow> sm_timestamp s \<noteq> v)"
  by (simp add: parse_filter_def column_filter_def scalar_i64_def supports_filters_pushdown_def)

section \<open>Scans\<close>

text \<open>
  C29: when every listed chunk can be read and holds samples of its own time range, a scan with any
  filters but \<open>timestamp != v\<close> returns the batch of exactly the samples that pass the filters, in the
  order of the index: pruning changes nothing but the chunks it reads.
\<close>

theorem scan_is_exact:
  assumes "option_list (map (parse_filter regex) exprs) = Some filters" and "list_all prunes_soundly filters"
    and "child (mt_name schema) = Inr batches"
    and "mapR (batch_chunks from_json repository_for (mt_name schema)) batches = Inr chunks"
    and "list_all (list_all (reads_contents reader contents (ends_with ''_total'' (mt_name schema)) ok)) chunks"
    and "ok w"
  shows "\<exists>w'. metric_scan regex from_json child repository_for reader schema projection exprs w
    = (record_batch (arrow_schema schema) projection
         (concat (map (chunk_rows_spec contents filters) (concat chunks))), w') \<and> ok w'"
  using batches_rows_exact [OF assms(2,4,5,6)] assms(1,3)
  by (auto simp: metric_scan_def build_metric_batch_def doW_def)

definition demo_batch :: batch where
  "demo_batch = \<lparr>ba_columns =
     [(''repository_uri'', StringColumn [''file://x'']), (''chunk_file_path'', StringColumn [''c'']),
      (''chunk_file_offset'', UInt64Column [8]), (''downsample_resolution'', Int64Column [0]),
      (''chunk_mint'', Int64Column [100]), (''chunk_maxt'', Int64Column [200]),
      (''labels_json'', StringColumn [''{}'']), (''metric_name'', StringColumn [''up''])], ba_num_rows = 1\<rparr>"

definition demo_samples :: "sample list" where
  "demo_samples = [\<lparr>sm_timestamp = 120, sm_value = 1\<rparr>, \<lparr>sm_timestamp = 160, sm_value = 2\<rparr>]"

definition demo_ref :: chunk_ref where
  "demo_ref = \<lparr>ck_repository_uri = ''file://x'', ck_path = ''c'', ck_offset = 8, ck_descriptor = demo_descriptor\<rparr>"

lemma demo_chunks:
  "batch_chunks (\<lambda>_. Inr [(''pod'', ''a'')]) (\<lambda>_. Some ()) ''up'' demo_batch = Inr [((), demo_ref)]"
  by (simp add: batch_chunks_def chunk_columns_of_def demo_batch_def string_column_def uint64_column_def
      int64_column_def column_by_name_def chunk_row_def string_value_def elem_index_def demo_ref_def
      demo_descriptor_def map_filter_def)

theorem scan_is_exact_witness:
  "fst (metric_scan (\<lambda>_. None) (\<lambda>_. Inr [(''pod'', ''a'')]) (\<lambda>_. Inr [demo_batch]) (\<lambda>_. Some ())
      (\<lambda>r p off c w. (Inr demo_samples, w)) \<lparr>mt_name = ''up'', mt_label_columns = [''pod'']\<rparr> (Some [0, 3])
      [BinaryExpr (LiteralExpr (ScInt64 (Some 150))) OpLt (ColumnExpr ''timestamp'')] ())
    = Inr ([\<lparr>fd_name = ''timestamp'', fd_type = TimestampMillisecondType, fd_nullable = False\<rparr>,
            \<lparr>fd_name = ''pod'', fd_type = Utf8Type, fd_nullable = False\<rparr>],
           [TimestampOut [160], Utf8Out [''a'']])"
proof -
  let ?schema = "\<lparr>mt_name = ''up'', mt_label_columns = [''pod'']\<rparr>"
  let ?reader = "\<lambda>(r :: unit) (p :: string) (off :: nat) (c :: bool) (w :: unit). (Inr demo_samples :: chunk_fault + sample list, w)"
  have parsed: "option_list (map (parse_filter (\<lambda>_. None))
      [BinaryExpr (LiteralExpr (ScInt64 (Some 150))) OpLt (ColumnExpr ''timestamp'')]) = Some [TimestampFilter OpGt 150]"
    by (simp add: parse_filter_def column_filter_def scalar_i64_def)
  have reads: "list_all (list_all (reads_contents ?reader (\<lambda>_ _. demo_samples) (ends_with ''_total'' (mt_name ?schema)) (\<lambda>_. True)))
      [[((), demo_ref)]]"
    by (simp add: reads_contents_def demo_ref_def demo_descriptor_def demo_samples_def sample_in_chunk_def)
  have chunks: "mapR (batch_chunks (\<lambda>_. Inr [(''pod'', ''a'')]) (\<lambda>_. Some ()) (mt_name ?schema)) [demo_batch]
      = Inr [[((), demo_ref)]]"
    by (simp add: demo_chunks)
  have "list_all prunes_soundly [TimestampFilter OpGt 150]" by (simp add: prunes_soundly_def)
  from scan_is_exact [OF parsed this _ chunks reads, where child = "\<lambda>_. Inr [demo_batch]" and projection = "Some [0, 3]"]
  have "fst (metric_scan (\<lambda>_. None) (\<lambda>_. Inr [(''pod'', ''a'')]) (\<lambda>_. Inr [demo_batch]) (\<lambda>_. Some ()) ?reader
      ?schema (Some [0, 3]) [BinaryExpr (LiteralExpr (ScInt64 (Some 150))) OpLt (ColumnExpr ''timestamp'')] ())
    = record_batch (arrow_schema ?schema) (Some [0, 3])
        (concat (map (chunk_rows_spec (\<lambda>_ _. demo_samples) [TimestampFilter OpGt 150]) (concat [[((), demo_ref)]])))"
    by auto
  then show ?thesis
    by (simp add: record_batch_def projected_schema_def arrow_schema_def elem_index_def output_column_def
        chunk_rows_spec_def demo_samples_def keep_sample_def demo_ref_def demo_descriptor_def sample_row_def
        label_value_def bt_get_def)
qed

text \<open>
  The batch of a metric's table has one column per projected field, each with the field's values
  of the rows, whatever the rows; the empty projection of a plain row count is the one that fails.
\<close>

theorem metric_batch_columns:
  assumes "projected_schema (arrow_schema schema) projection = Inr out_fields"
  shows "if out_fields = [] then record_batch (arrow_schema schema) projection rows = Inl (Err BatchWithoutColumns)
    else \<exists>columns. record_batch (arrow_schema schema) projection rows = Inr (out_fields, columns)
      \<and> list_all2 (\<lambda>field column. output_column rows field = Inr column) out_fields columns"
  using record_batch_arrow_schema [OF assms] assms by (simp add: record_batch_def)

theorem metric_batch_columns_witness:
  "record_batch (arrow_schema \<lparr>mt_name = ''up'', mt_label_columns = []\<rparr>) (Some []) []
    = Inl (Err BatchWithoutColumns)
   \<and> (\<exists>columns. record_batch (arrow_schema \<lparr>mt_name = ''up'', mt_label_columns = []\<rparr>) (Some [1]) []
      = Inr ([\<lparr>fd_name = ''value'', fd_type = Float64Type, fd_nullable = True\<rparr>], columns))"
  using metric_batch_columns [of "\<lparr>mt_name = ''up'', mt_label_columns = []\<rparr>" "Some []" "[]" "[]"]
    metric_batch_columns [of "\<lparr>mt_name = ''up'', mt_label_columns = []\<rparr>" "Some [1]"
      "[\<lparr>fd_name = ''value'', fd_type = Float64Type, fd_nullable = True\<rparr>]" "[]"]
  by (auto simp: projected_schema_def arrow_schema_def elem_index_def)

end
