(* ===== verification/Store_Service.thy ===== *)
theory Store_Service
  imports Arrow_Data Repository Chunk_Reader "HOL-Library.Product_Lexorder"
begin

text \<open>
  The Thanos StoreAPI service, \<open>src/store_service.rs\<close>: compiling matchers, finding the matching series
  in the block index, the \<open>Series\<close>, \<open>LabelNames\<close>, \<open>LabelValues\<close> and \<open>Info\<close> calls.

  Parameters: \<open>regex\<close> is \<open>Regex::new\<close>; \<open>sql\<close> is the DataFusion session's answer to a query text;
  \<open>json_string\<close>, \<open>labels_from_json\<close> and \<open>chunks_from_json\<close> are \<open>serde_json\<close>; \<open>xxh64\<close> is the chunk
  hash.  Messages of the generated protobuf code are records with the fields the service reads.
\<close>

section \<open>Statuses\<close>

datatype message =
    Text string
  | NoRepositoryFor string
  | ChunkReadFailed chunk_error
  | QueryFailed string
  | RegexRefused string
  | JsonFailed string
  | MissingBatchColumn string
  | UnexpectedColumnType string

datatype status =
    InvalidArgument (status_message: message)
  | Unimplemented (status_message: message)
  | Internal (status_message: message)

type_synonym store_fault = "status fault"

section \<open>Data\<close>

record chunk_location =
  lc_chunk_file_path :: string
  lc_chunk_file_offset :: nat
  lc_chunk_mint :: int
  lc_chunk_maxt :: int

record series_descriptor =
  sd_repository_uri :: string
  sd_downsample_resolution :: int
  sd_series_mint :: int
  sd_series_maxt :: int
  sd_labels :: labels
  sd_chunks :: "chunk_location list"

record block_metadata =
  bm_min_time :: int
  bm_max_time :: int
  bm_external_labels :: labels

datatype matcher =
    EqM string string
  | NeqM string string
  | ReM string "string \<Rightarrow> bool"
  | NreM string "string \<Rightarrow> bool"

record label_matcher =
  lm_type :: int
  lm_name :: string
  lm_value :: string

record series_request =
  sq_min_time :: int
  sq_max_time :: int
  sq_matchers :: "label_matcher list"
  sq_max_resolution_window :: int
  sq_aggregates :: "int list"
  sq_partial_response_disabled :: bool
  sq_partial_response_strategy :: int
  sq_skip_chunks :: bool
  sq_has_hints :: bool
  sq_has_shard_info :: bool
  sq_without_replica_labels :: "string list"
  sq_limit :: int
  sq_response_batch_size :: int

datatype chunk_encoding = XorEncoding | HistogramEncoding | FloatHistogramEncoding

record raw_chunk =
  rk_type :: chunk_encoding
  rk_data :: bytes
  rk_hash :: u64

record aggr_chunk =
  ac_min_time :: int
  ac_max_time :: int
  ac_raw :: "raw_chunk option"
  ac_count :: "raw_chunk option"
  ac_sum :: "raw_chunk option"
  ac_min :: "raw_chunk option"
  ac_max :: "raw_chunk option"
  ac_counter :: "raw_chunk option"

record series =
  se_labels :: labels
  se_chunks :: "aggr_chunk list"

datatype series_response =
    SeriesResponse series
  | BatchResponse "series list"
  | WarningResponse message

text \<open>The numbers of the protobuf enumerations.\<close>

definition AGGR_RAW :: int where "AGGR_RAW = 0"
definition AGGR_COUNT :: int where "AGGR_COUNT = 1"
definition AGGR_SUM :: int where "AGGR_SUM = 2"
definition AGGR_MIN :: int where "AGGR_MIN = 3"
definition AGGR_MAX :: int where "AGGR_MAX = 4"
definition AGGR_COUNTER :: int where "AGGR_COUNTER = 5"
definition STRATEGY_ABORT :: int where "STRATEGY_ABORT = 1"

lemmas aggr_consts = AGGR_RAW_def AGGR_COUNT_def AGGR_SUM_def AGGR_MIN_def AGGR_MAX_def AGGR_COUNTER_def

section \<open>Requests\<close>

definition reject_unsupported_series_options :: "series_request \<Rightarrow> store_fault + unit" where
  "reject_unsupported_series_options request =
     (if sq_has_hints request \<or> sq_has_shard_info request \<or> sq_without_replica_labels request \<noteq> []
      then Inl (Err (Unimplemented
        (Text ''opaque hints, sharding, and replica-label removal are not supported'')))
      else Inr ())"

definition reject_unsupported_label_options :: "string list \<Rightarrow> bool \<Rightarrow> store_fault + unit" where
  "reject_unsupported_label_options without_replica_labels has_hints =
     (if has_hints \<or> without_replica_labels \<noteq> []
      then Inl (Err (Unimplemented (Text ''opaque hints and replica-label removal are not supported'')))
      else Inr ())"

definition compile_matcher ::
  "(string \<Rightarrow> string + (string \<Rightarrow> bool)) \<Rightarrow> label_matcher \<Rightarrow> store_fault + matcher" where
  "compile_matcher regex m =
     (if lm_name m = '''' then Inl (Err (InvalidArgument (Text ''label matcher name must not be empty'')))
      else if lm_type m = 0 then Inr (EqM (lm_name m) (lm_value m))
      else if lm_type m = 1 then Inr (NeqM (lm_name m) (lm_value m))
      else if lm_type m = 2 \<or> lm_type m = 3 then
        tryR (map_err (\<lambda>e. Err (InvalidArgument (RegexRefused e))) (regex (''^(?:'' @ lm_value m @ '')$'')))
          (\<lambda>is_match. Inr (if lm_type m = 2 then ReM (lm_name m) is_match else NreM (lm_name m) is_match))
      else Inl (Err (InvalidArgument (Text ''unknown label matcher type''))))"

definition compile_matchers ::
  "(string \<Rightarrow> string + (string \<Rightarrow> bool)) \<Rightarrow> label_matcher list \<Rightarrow> store_fault + matcher list" where
  "compile_matchers regex matchers = mapR (compile_matcher regex) matchers"

fun matches_one :: "labels \<Rightarrow> matcher \<Rightarrow> bool" where
  "matches_one labels (EqM name value) = (label_value labels name = value)"
| "matches_one labels (NeqM name value) = (label_value labels name \<noteq> value)"
| "matches_one labels (ReM name is_match) = is_match (label_value labels name)"
| "matches_one labels (NreM name is_match) = (\<not> is_match (label_value labels name))"

definition matches_all :: "labels \<Rightarrow> matcher list \<Rightarrow> bool" where
  "matches_all labels matchers = list_all (matches_one labels) matchers"

definition overlaps :: "int \<Rightarrow> int \<Rightarrow> int \<Rightarrow> int \<Rightarrow> bool" where
  "overlaps min_time max_time start end_time \<longleftrightarrow> min_time \<le> end_time \<and> start \<le> max_time"

definition aggregates :: "int list \<Rightarrow> store_fault + int list" where
  "aggregates values =
     tryR (mapR (\<lambda>v. if 0 \<le> v \<and> v \<le> 5 then Inr v
                 else Inl (Err (InvalidArgument (Text ''unknown aggregate type''))))
            (if values = [] then [AGGR_RAW] else values))
       (\<lambda>vs. Inr (bs_of_list vs))"

text \<open>\<open>usize::MAX\<close> stands for no limit.\<close>

definition USIZE_MAX :: nat where "USIZE_MAX = 2 ^ 64 - 1"

definition request_limit :: "int \<Rightarrow> store_fault + nat" where
  "request_limit n =
     (if n < 0 then Inl (Err (InvalidArgument (Text ''limit must not be negative'')))
      else Inr (if n = 0 then USIZE_MAX else nat n))"

definition take_limit :: "string list \<Rightarrow> int \<Rightarrow> store_fault + string list" where
  "take_limit values n = tryR (request_limit n) (\<lambda>l. Inr (take l values))"

section \<open>Finding series\<close>

definition show_int :: "int \<Rightarrow> string" where
  "show_int i = (if i < 0 then ''-'' @ show_nat (nat (- i)) else show_nat (nat i))"

fun exact_pairs :: "matcher list \<Rightarrow> (string \<times> string) list" where
  "exact_pairs [] = []"
| "exact_pairs (EqM name value # ms) = (if value \<noteq> '''' then [(name, value)] else []) @ exact_pairs ms"
| "exact_pairs (_ # ms) = exact_pairs ms"

definition exact_label_filters ::
  "(string \<Rightarrow> string + string) \<Rightarrow> matcher list \<Rightarrow> string + string list" where
  "exact_label_filters json_string matchers =
     mapR (\<lambda>(name, value).
        tryR (json_string name) (\<lambda>n. tryR (json_string value) (\<lambda>v. Inr (''%'' @ n @ '':'' @ v @ ''%''))))
       (exact_pairs matchers)"

definition sql_literal :: "string \<Rightarrow> string" where
  "sql_literal value =
     [CHR 0x27] @ concat (map (\<lambda>c. if c = CHR 0x27 then [c, c] else [c]) value) @ [CHR 0x27]"

definition series_query :: "int \<Rightarrow> int \<Rightarrow> string list \<Rightarrow> string" where
  "series_query start end_time filters =
     ''SELECT repository_uri, downsample_resolution, series_mint, series_maxt, labels_json, chunks_json ''
     @ ''FROM series WHERE series_mint <= '' @ show_int end_time @ '' AND series_maxt >= '' @ show_int start
     @ concat (map (\<lambda>f. '' AND labels_json LIKE '' @ sql_literal f) filters)"

definition batch_strings :: "batch \<Rightarrow> string \<Rightarrow> message fault + column" where
  "batch_strings batch name = ok_or (MissingBatchColumn name) (column_by_name batch name)"

definition column_string :: "column \<Rightarrow> nat \<Rightarrow> message fault + string" where
  "column_string column index =
     (case column of StringColumn values \<Rightarrow> elem_index values index
      | _ \<Rightarrow> Inl (Err (Text ''expected a UTF-8 column'')))"

definition batch_int64s :: "batch \<Rightarrow> string \<Rightarrow> message fault + int list" where
  "batch_int64s batch name =
     tryR (ok_or (MissingBatchColumn name) (column_by_name batch name)) (\<lambda>column.
       case column of Int64Column values \<Rightarrow> Inr values | _ \<Rightarrow> Inl (Err (UnexpectedColumnType name)))"

definition series_from_batch ::
  "(string \<Rightarrow> string + labels) \<Rightarrow> (string \<Rightarrow> string + chunk_location list) \<Rightarrow> batch
   \<Rightarrow> message fault + series_descriptor list" where
  "series_from_batch labels_from_json chunks_from_json batch =
     tryR (batch_strings batch ''repository_uri'') (\<lambda>repository_uri.
     tryR (batch_int64s batch ''downsample_resolution'') (\<lambda>downsample_resolution.
     tryR (batch_int64s batch ''series_mint'') (\<lambda>series_mint.
     tryR (batch_int64s batch ''series_maxt'') (\<lambda>series_maxt.
     tryR (batch_strings batch ''labels_json'') (\<lambda>labels_json.
     tryR (batch_strings batch ''chunks_json'') (\<lambda>chunks_json.
       mapR (\<lambda>index.
         tryR (column_string repository_uri index) (\<lambda>uri.
         tryR (elem_index downsample_resolution index) (\<lambda>resolution.
         tryR (elem_index series_mint index) (\<lambda>mint.
         tryR (elem_index series_maxt index) (\<lambda>maxt.
         tryR (column_string labels_json index) (\<lambda>labels_text.
         tryR (map_err (\<lambda>e. Err (JsonFailed e)) (labels_from_json labels_text)) (\<lambda>labels.
         tryR (column_string chunks_json index) (\<lambda>chunks_text.
         tryR (map_err (\<lambda>e. Err (JsonFailed e)) (chunks_from_json chunks_text)) (\<lambda>chunks.
           Inr \<lparr>sd_repository_uri = uri, sd_downsample_resolution = resolution, sd_series_mint = mint,
                sd_series_maxt = maxt, sd_labels = labels, sd_chunks = chunks\<rparr>)))))))))
         [0..<ba_num_rows batch]))))))"

definition blocks_from_batch ::
  "(string \<Rightarrow> string + labels) \<Rightarrow> batch \<Rightarrow> message fault + block_metadata list" where
  "blocks_from_batch labels_from_json batch =
     tryR (batch_int64s batch ''min_time'') (\<lambda>min_time.
     tryR (batch_int64s batch ''max_time'') (\<lambda>max_time.
     tryR (batch_strings batch ''external_labels'') (\<lambda>external_labels.
       mapR (\<lambda>index.
         tryR (elem_index min_time index) (\<lambda>mint.
         tryR (elem_index max_time index) (\<lambda>maxt.
         tryR (column_string external_labels index) (\<lambda>text.
         tryR (map_err (\<lambda>e. Err (JsonFailed e)) (labels_from_json text)) (\<lambda>labels.
           Inr \<lparr>bm_min_time = mint, bm_max_time = maxt, bm_external_labels = labels\<rparr>)))))
         [0..<ba_num_rows batch])))"

text \<open>A query is refused, or answered by a stream whose items are batches or errors.\<close>

type_synonym sql_engine = "string \<Rightarrow> string + (string + batch) list"

record store_codec =
  sc_regex :: "string \<Rightarrow> string + (string \<Rightarrow> bool)"
  sc_sql :: sql_engine
  sc_json_string :: "string \<Rightarrow> string + string"
  sc_labels_from_json :: "string \<Rightarrow> string + labels"
  sc_chunks_from_json :: "string \<Rightarrow> string + chunk_location list"
  sc_xxh64 :: "bytes \<Rightarrow> u64"

definition load_blocks :: "store_codec \<Rightarrow> message fault + block_metadata list" where
  "load_blocks codec =
     tryR (map_err (\<lambda>e. Err (QueryFailed e)) (sc_sql codec ''SELECT min_time, max_time, external_labels FROM blocks''))
       (\<lambda>items. tryR (map_err (\<lambda>e. Err (QueryFailed e)) (mapR id items))
       (\<lambda>batches. tryR (mapR (blocks_from_batch (sc_labels_from_json codec)) batches) (\<lambda>bs. Inr (concat bs))))"

definition internal :: "message fault \<Rightarrow> store_fault" where
  "internal f = map_fault Internal f"

definition matching_series ::
  "store_codec \<Rightarrow> int \<Rightarrow> int \<Rightarrow> matcher list \<Rightarrow> store_fault + series_descriptor list" where
  "matching_series codec start end_time matchers =
     tryR (map_err (\<lambda>e. Err (Internal (JsonFailed e)))
             (exact_label_filters (sc_json_string codec) matchers)) (\<lambda>filters.
     tryR (map_err (\<lambda>e. Err (Internal (QueryFailed e))) (sc_sql codec (series_query start end_time filters)))
       (\<lambda>items.
        tryR (mapR (\<lambda>item.
            tryR (map_err (\<lambda>e. Err (Internal (QueryFailed e))) item) (\<lambda>batch.
            map_err internal (series_from_batch (sc_labels_from_json codec) (sc_chunks_from_json codec) batch))) items)
          (\<lambda>series. Inr (filter (\<lambda>s. matches_all (sd_labels s) matchers) (concat series)))))"

text \<open>The search of the test build, over descriptors in memory: the reference of \<open>matching_series\<close>.\<close>

definition matching_series_reference ::
  "series_descriptor list \<Rightarrow> int \<Rightarrow> int \<Rightarrow> matcher list \<Rightarrow> series_descriptor list" where
  "matching_series_reference descriptors start end_time matchers =
     filter (\<lambda>s. overlaps (sd_series_mint s) (sd_series_maxt s) start end_time
        \<and> matches_all (sd_labels s) matchers) descriptors"

section \<open>Chunks\<close>

definition make_raw_chunk :: "store_codec \<Rightarrow> bytes \<Rightarrow> chunk_encoding \<Rightarrow> raw_chunk" where
  "make_raw_chunk codec data encoding =
     \<lparr>rk_type = encoding, rk_data = data, rk_hash = sc_xxh64 codec data\<rparr>"

definition aggregate_chunk :: "store_codec \<Rightarrow> bytes option \<Rightarrow> int list \<Rightarrow> int \<Rightarrow> raw_chunk option" where
  "aggregate_chunk codec data aggrs aggregate =
     (if aggregate \<in> set aggrs then map_option (\<lambda>d. make_raw_chunk codec d XorEncoding) data else None)"

definition encode_chunk_data ::
  "store_codec \<Rightarrow> chunk_location \<Rightarrow> int list \<Rightarrow> encoded_chunk \<Rightarrow> aggr_chunk option" where
  "encode_chunk_data codec descriptor aggrs chunk =
     (let empty = \<lparr>ac_min_time = lc_chunk_mint descriptor, ac_max_time = lc_chunk_maxt descriptor,
            ac_raw = None, ac_count = None, ac_sum = None, ac_min = None, ac_max = None, ac_counter = None\<rparr>;
          result = (case chunk of
              Xor data \<Rightarrow> empty\<lparr>ac_raw := Some (make_raw_chunk codec data XorEncoding)\<rparr>
            | Histogram data \<Rightarrow> empty\<lparr>ac_raw := Some (make_raw_chunk codec data HistogramEncoding)\<rparr>
            | FloatHistogram data \<Rightarrow> empty\<lparr>ac_raw := Some (make_raw_chunk codec data FloatHistogramEncoding)\<rparr>
            | Aggregate count0 sum0 min0 max0 counter0 \<Rightarrow>
                empty\<lparr>ac_count := aggregate_chunk codec count0 aggrs AGGR_COUNT,
                      ac_sum := aggregate_chunk codec sum0 aggrs AGGR_SUM,
                      ac_min := aggregate_chunk codec min0 aggrs AGGR_MIN,
                      ac_max := aggregate_chunk codec max0 aggrs AGGR_MAX,
                      ac_counter := aggregate_chunk codec counter0 aggrs AGGR_COUNTER\<rparr>) in
      if ac_raw result = None \<and> ac_count result = None \<and> ac_sum result = None
        \<and> ac_min result = None \<and> ac_max result = None \<and> ac_counter result = None
      then None else Some result)"

type_synonym ('r, 'w) chunk_source = "'r \<Rightarrow> string \<Rightarrow> nat \<Rightarrow> 'w \<Rightarrow> (chunk_fault + encoded_chunk) \<times> 'w"

definition encode_chunk ::
  "store_codec \<Rightarrow> (string \<Rightarrow> 'r option) \<Rightarrow> ('r, 'w) chunk_source \<Rightarrow> string \<Rightarrow> chunk_location \<Rightarrow> int list
   \<Rightarrow> 'w \<Rightarrow> (store_fault + aggr_chunk option) \<times> 'w" where
  "encode_chunk codec repository_for source repository_uri descriptor aggrs w =
     (case repository_for repository_uri of
        None \<Rightarrow> (Inl (Err (Internal (NoRepositoryFor repository_uri))), w)
      | Some repository \<Rightarrow>
          (case source repository (lc_chunk_file_path descriptor) (lc_chunk_file_offset descriptor) w of
             (Inl e, w') \<Rightarrow> (Inl (map_fault (\<lambda>x. Internal (ChunkReadFailed x)) e), w')
           | (Inr chunk, w') \<Rightarrow> (Inr (encode_chunk_data codec descriptor aggrs chunk), w')))"

section \<open>The Series call\<close>

definition selected_resolution :: "series_request \<Rightarrow> int list \<Rightarrow> series_descriptor \<Rightarrow> bool" where
  "selected_resolution request aggrs descriptor \<longleftrightarrow>
     (if AGGR_RAW \<in> set aggrs then sd_downsample_resolution descriptor = 0
      else sd_downsample_resolution descriptor \<le> sq_max_resolution_window request)"

text \<open>
  The loop over the chunks of one series: the chunks and the warnings.  A panic of the read is not
  caught.
\<close>

fun chunks_loop ::
  "(chunk_location \<Rightarrow> 'w \<Rightarrow> (store_fault + aggr_chunk option) \<times> 'w) \<Rightarrow> series_request \<Rightarrow> bool
   \<Rightarrow> chunk_location list \<Rightarrow> 'w \<Rightarrow> (store_fault + (aggr_chunk list \<times> message list)) \<times> 'w" where
  "chunks_loop encode request abort_on_error [] w = (Inr ([], []), w)"
| "chunks_loop encode request abort_on_error (chunk # chunks) w =
     (if \<not> overlaps (lc_chunk_mint chunk) (lc_chunk_maxt chunk) (sq_min_time request) (sq_max_time request)
      then chunks_loop encode request abort_on_error chunks w
      else
        case encode chunk w of
          (Inr r, w1) \<Rightarrow>
            doW (chunks_loop encode request abort_on_error chunks) (\<lambda>(cs, ws).
              retW ((case r of Some c \<Rightarrow> c # cs | None \<Rightarrow> cs), ws)) w1
        | (Inl Panic, w1) \<Rightarrow> (Inl Panic, w1)
        | (Inl (Err e), w1) \<Rightarrow>
            if abort_on_error then (Inl (Err e), w1)
            else
              doW (chunks_loop encode request abort_on_error chunks) (\<lambda>(cs, ws).
                retW (cs, status_message e # ws)) w1)"

text \<open>The loop over the series; \<open>sent\<close> is the number of series collected so far.\<close>

fun series_loop_of ::
  "(series_descriptor \<Rightarrow> 'w \<Rightarrow> (store_fault + (aggr_chunk list \<times> message list)) \<times> 'w) \<Rightarrow> series_request
   \<Rightarrow> int list \<Rightarrow> nat \<Rightarrow> nat \<Rightarrow> series_descriptor list \<Rightarrow> 'w
   \<Rightarrow> (store_fault + (series list \<times> message list)) \<times> 'w" where
  "series_loop_of read_chunks request aggrs l sent [] w = (Inr ([], []), w)"
| "series_loop_of read_chunks request aggrs l sent (descriptor # descriptors) w =
     (if l \<le> sent then (Inr ([], []), w)
      else if \<not> selected_resolution request aggrs descriptor
        then series_loop_of read_chunks request aggrs l sent descriptors w
      else
        doW (if sq_skip_chunks request then retW ([], []) else read_chunks descriptor) (\<lambda>(chunks, warnings).
          if sq_skip_chunks request \<or> chunks \<noteq> [] then
            doW (series_loop_of read_chunks request aggrs l (sent + 1) descriptors) (\<lambda>(ss, ws).
              retW (\<lparr>se_labels = sd_labels descriptor, se_chunks = chunks\<rparr> # ss, warnings @ ws))
          else
            doW (series_loop_of read_chunks request aggrs l sent descriptors) (\<lambda>(ss, ws).
              retW (ss, warnings @ ws))) w)"

text \<open>\<open>slice::chunks\<close>, with the size at least 1.\<close>

function list_chunks :: "nat \<Rightarrow> 'a list \<Rightarrow> 'a list list" where
  "list_chunks n xs = (if xs = [] \<or> n = 0 then [] else take n xs # list_chunks n (drop n xs))"
  by pat_completeness auto
termination
  by (relation "measure (\<lambda>(n, xs). length xs)") auto

declare list_chunks.simps [simp del]

definition batch_size :: "int \<Rightarrow> nat" where
  "batch_size n = (if 1 < n then nat n else 1)"

definition batch_responses :: "int \<Rightarrow> series list \<Rightarrow> series_response list" where
  "batch_responses n ss =
     (if batch_size n = 1 then map SeriesResponse ss
      else map BatchResponse (list_chunks (batch_size n) ss))"

definition series_call ::
  "store_codec \<Rightarrow> (string \<Rightarrow> 'r option) \<Rightarrow> ('r, 'w) chunk_source \<Rightarrow> series_request \<Rightarrow> 'w
   \<Rightarrow> (store_fault + series_response list) \<times> 'w" where
  "series_call codec repository_for source request w =
     (case tryR (reject_unsupported_series_options request) (\<lambda>_.
           tryR (compile_matchers (sc_regex codec) (sq_matchers request)) (\<lambda>matchers.
           tryR (aggregates (sq_aggregates request)) (\<lambda>aggrs.
           tryR (request_limit (sq_limit request)) (\<lambda>l.
           tryR (matching_series codec (sq_min_time request) (sq_max_time request) matchers) (\<lambda>descriptors.
             Inr (aggrs, l, descriptors)))))) of
        Inl e \<Rightarrow> (Inl e, w)
      | Inr (aggrs, l, descriptors) \<Rightarrow>
          (let abort_on_error = (sq_partial_response_disabled request
                 \<or> sq_partial_response_strategy request = STRATEGY_ABORT);
               read_chunks = (\<lambda>d. chunks_loop (\<lambda>c. encode_chunk codec repository_for source (sd_repository_uri d) c aggrs)
                 request abort_on_error (sd_chunks d)) in
           doW (series_loop_of read_chunks request aggrs l 0 descriptors) (\<lambda>(ss, ws).
             retW (batch_responses (sq_response_batch_size request) ss @ map WarningResponse ws)) w))"

section \<open>Label names, label values and Info\<close>

record label_names_request =
  ln_start :: int
  ln_end :: int
  ln_matchers :: "label_matcher list"
  ln_without_replica_labels :: "string list"
  ln_has_hints :: bool
  ln_limit :: int

definition label_names :: "store_codec \<Rightarrow> label_names_request \<Rightarrow> store_fault + string list" where
  "label_names codec request =
     tryR (reject_unsupported_label_options (ln_without_replica_labels request) (ln_has_hints request)) (\<lambda>_.
     tryR (compile_matchers (sc_regex codec) (ln_matchers request)) (\<lambda>matchers.
     tryR (matching_series codec (ln_start request) (ln_end request) matchers) (\<lambda>descriptors.
       take_limit (bs_of_list (concat (map (\<lambda>d. bt_keys (sd_labels d)) descriptors))) (ln_limit request))))"

record label_values_request = label_names_request +
  lv_label :: string

definition label_values :: "store_codec \<Rightarrow> label_values_request \<Rightarrow> store_fault + string list" where
  "label_values codec request =
     (if lv_label request = '''' then Inl (Err (InvalidArgument (Text ''label must not be empty'')))
      else
        tryR (reject_unsupported_label_options (ln_without_replica_labels request) (ln_has_hints request)) (\<lambda>_.
        tryR (compile_matchers (sc_regex codec) (ln_matchers request)) (\<lambda>matchers.
        tryR (matching_series codec (ln_start request) (ln_end request) matchers) (\<lambda>descriptors.
          take_limit
            (bs_of_list (List.map_filter (\<lambda>d. bt_get (sd_labels d) (lv_label request)) descriptors))
            (ln_limit request)))))"

record tsdb_info =
  ti_labels :: labels
  ti_min_time :: int
  ti_max_time :: int

record info_reply =
  in_label_sets :: "labels list"
  in_component_type :: string
  in_min_time :: int
  in_max_time :: int
  in_supports_sharding :: bool
  in_supports_without_replica_labels :: bool
  in_tsdb_infos :: "tsdb_info list"

definition add_range ::
  "block_metadata \<Rightarrow> (labels \<times> (int \<times> int)) list \<Rightarrow> (labels \<times> (int \<times> int)) list" where
  "add_range block ranges =
     bt_insert (bm_external_labels block)
       (case bt_get ranges (bm_external_labels block) of
          Some (mint, maxt) \<Rightarrow> (min mint (bm_min_time block), max maxt (bm_max_time block))
        | None \<Rightarrow> (bm_min_time block, bm_max_time block)) ranges"

definition block_ranges :: "block_metadata list \<Rightarrow> (labels \<times> (int \<times> int)) list" where
  "block_ranges blocks = fold add_range blocks []"

fun min_of :: "int list \<Rightarrow> int option" where
  "min_of [] = None"
| "min_of (x # xs) = Some (case min_of xs of None \<Rightarrow> x | Some y \<Rightarrow> min x y)"

fun max_of :: "int list \<Rightarrow> int option" where
  "max_of [] = None"
| "max_of (x # xs) = Some (case max_of xs of None \<Rightarrow> x | Some y \<Rightarrow> max x y)"

definition unwrap_or :: "'a \<Rightarrow> 'a option \<Rightarrow> 'a" where
  "unwrap_or d m = (case m of None \<Rightarrow> d | Some x \<Rightarrow> x)"

definition info_response :: "block_metadata list \<Rightarrow> info_reply" where
  "info_response blocks =
     (let ranges = block_ranges blocks in
      \<lparr>in_label_sets = map fst ranges, in_component_type = ''store'',
       in_min_time = unwrap_or 0 (min_of (map (\<lambda>(l, r). fst r) ranges)),
       in_max_time = unwrap_or 0 (max_of (map (\<lambda>(l, r). snd r) ranges)),
       in_supports_sharding = False, in_supports_without_replica_labels = False,
       in_tsdb_infos = map (\<lambda>(l, r). \<lparr>ti_labels = l, ti_min_time = fst r, ti_max_time = snd r\<rparr>) ranges\<rparr>)"

text \<open>The chunk source of the program.\<close>

definition repository_chunks :: "(bytes \<Rightarrow> u32) \<Rightarrow> env \<Rightarrow> (repository, world) chunk_source" where
  "repository_chunks crc env repository path offset =
     read_encoded_chunk crc (repository_read_range env repository) path offset"

end
