(* ===== verification/Store_Service_Facts.thy ===== *)
theory Store_Service_Facts
  imports Store_Service "HOL-Library.Sublist"
begin

text \<open>
  Reference descriptions of what the StoreAPI calls answer, and the lemmas that relate the loops of
  \<open>Store_Service\<close> to them: a chunk source with fixed answers (locale \<open>chunk_answers\<close>), the series a
  request selects, batching, the search over series rows, sets of names, block ranges, SQL literals.
\<close>

section \<open>The Series loop against its reference\<close>

text \<open>
  \<open>ans d c\<close> is what reading chunk \<open>c\<close> of series \<open>d\<close> answers.  The reference says which chunks a series
  has, which series are given, which descriptors are visited before the limit is reached.
\<close>

type_synonym chunk_answer = "chunk_location \<Rightarrow> status + aggr_chunk option"

definition wanted_chunks :: "series_request \<Rightarrow> series_descriptor \<Rightarrow> chunk_location list" where
  "wanted_chunks request d =
     filter (\<lambda>c. lc_chunk_mint c \<le> sq_max_time request \<and> sq_min_time request \<le> lc_chunk_maxt c) (sd_chunks d)"

definition ok_chunks :: "chunk_answer \<Rightarrow> chunk_location list \<Rightarrow> aggr_chunk list" where
  "ok_chunks ans cs = List.map_filter (\<lambda>c. case ans c of Inr r \<Rightarrow> r | Inl _ \<Rightarrow> None) cs"

definition failures :: "chunk_answer \<Rightarrow> chunk_location list \<Rightarrow> status list" where
  "failures ans cs = List.map_filter (\<lambda>c. case ans c of Inl e \<Rightarrow> Some e | Inr _ \<Rightarrow> None) cs"

definition answered_chunks ::
  "series_request \<Rightarrow> (series_descriptor \<Rightarrow> chunk_answer) \<Rightarrow> series_descriptor \<Rightarrow> aggr_chunk list" where
  "answered_chunks request ans d =
     (if sq_skip_chunks request then [] else ok_chunks (ans d) (wanted_chunks request d))"

definition answered_failures ::
  "series_request \<Rightarrow> (series_descriptor \<Rightarrow> chunk_answer) \<Rightarrow> series_descriptor \<Rightarrow> status list" where
  "answered_failures request ans d =
     (if sq_skip_chunks request then [] else failures (ans d) (wanted_chunks request d))"

definition given ::
  "series_request \<Rightarrow> int list \<Rightarrow> (series_descriptor \<Rightarrow> chunk_answer) \<Rightarrow> series_descriptor \<Rightarrow> bool" where
  "given request aggrs ans d \<longleftrightarrow>
     selected_resolution request aggrs d \<and> (sq_skip_chunks request \<or> answered_chunks request ans d \<noteq> [])"

definition series_answer ::
  "series_request \<Rightarrow> (series_descriptor \<Rightarrow> chunk_answer) \<Rightarrow> series_descriptor \<Rightarrow> series" where
  "series_answer request ans d = \<lparr>se_labels = sd_labels d, se_chunks = answered_chunks request ans d\<rparr>"

text \<open>The shortest prefix with \<open>n\<close> elements that satisfy \<open>P\<close>, or the whole list.\<close>

fun take_until :: "('a \<Rightarrow> bool) \<Rightarrow> nat \<Rightarrow> 'a list \<Rightarrow> 'a list" where
  "take_until P n [] = []"
| "take_until P n (x # xs) =
     (case n of 0 \<Rightarrow> [] | Suc m \<Rightarrow> x # take_until P (if P x then m else n) xs)"

lemma filter_take_until: "filter P (take_until P n xs) = take n (filter P xs)"
  by (induction P n xs rule: take_until.induct) (auto split: nat.split)

lemma take_until_prefix: "\<exists>ys. xs = take_until P n xs @ ys"
  by (induction P n xs rule: take_until.induct) (auto split: nat.split)

lemma take_until_all: "length xs \<le> n \<Longrightarrow> take_until P n xs = xs"
  by (induction P n xs rule: take_until.induct) (auto split: nat.split)

definition visited_failures ::
  "series_request \<Rightarrow> int list \<Rightarrow> (series_descriptor \<Rightarrow> chunk_answer) \<Rightarrow> nat \<Rightarrow> series_descriptor list
   \<Rightarrow> status list" where
  "visited_failures request aggrs ans l ds =
     concat (map (answered_failures request ans)
       (filter (selected_resolution request aggrs) (take_until (given request aggrs ans) l ds)))"

definition given_series ::
  "series_request \<Rightarrow> int list \<Rightarrow> (series_descriptor \<Rightarrow> chunk_answer) \<Rightarrow> nat \<Rightarrow> series_descriptor list
   \<Rightarrow> series list" where
  "given_series request aggrs ans l ds =
     map (series_answer request ans) (take l (filter (given request aggrs ans) ds))"

lemma wanted_chunks_eq:
  "wanted_chunks request d =
     filter (\<lambda>c. overlaps (lc_chunk_mint c) (lc_chunk_maxt c) (sq_min_time request) (sq_max_time request)) (sd_chunks d)"
  by (simp add: wanted_chunks_def overlaps_def)

lemma chunk_lists_simps:
  "ok_chunks ans [] = []" "failures ans [] = []"
  "ok_chunks ans (c # cs) = (case ans c of Inr (Some r) \<Rightarrow> [r] | _ \<Rightarrow> []) @ ok_chunks ans cs"
  "failures ans (c # cs) = (case ans c of Inl e \<Rightarrow> [e] | _ \<Rightarrow> []) @ failures ans cs"
  by (auto simp: ok_chunks_def failures_def List.map_filter_def split: sum.split option.split)

lemma visited_failures_simps:
  "visited_failures request aggrs ans l [] = []"
  "visited_failures request aggrs ans 0 ds = []"
  "visited_failures request aggrs ans (Suc m) (d # ds) =
     (if selected_resolution request aggrs d then answered_failures request ans d else [])
     @ visited_failures request aggrs ans (if given request aggrs ans d then m else Suc m) ds"
  by (simp_all add: visited_failures_def) (cases ds; simp)

lemma given_series_simps:
  "given_series request aggrs ans l [] = []"
  "given_series request aggrs ans 0 ds = []"
  "given_series request aggrs ans (Suc m) (d # ds) =
     (if given request aggrs ans d
      then series_answer request ans d # given_series request aggrs ans m ds
      else given_series request aggrs ans (Suc m) ds)"
  by (simp_all add: given_series_def)

lemma doW_Inl: "m w = (Inl e, w') \<Longrightarrow> doW m f w = (Inl e, w')"
  by (simp add: doW_def)

lemma doW_Inr: "m w = (Inr x, w') \<Longrightarrow> doW m f w = f x w'"
  by (simp add: doW_def)

definition read_chunks_of ::
  "(series_descriptor \<Rightarrow> chunk_location \<Rightarrow> 'w \<Rightarrow> (store_fault + aggr_chunk option) \<times> 'w) \<Rightarrow> series_request
   \<Rightarrow> bool \<Rightarrow> series_descriptor \<Rightarrow> 'w \<Rightarrow> (store_fault + (aggr_chunk list \<times> message list)) \<times> 'w" where
  "read_chunks_of encode request ab d = chunks_loop (encode d) request ab (sd_chunks d)"

text \<open>
  The interface: a chunk source whose answers to the chunks \<open>listed\<close> do not depend on the state and are
  no panic.
\<close>

locale chunk_answers =
  fixes encode :: "series_descriptor \<Rightarrow> chunk_location \<Rightarrow> 'w \<Rightarrow> (store_fault + aggr_chunk option) \<times> 'w"
    and ans :: "series_descriptor \<Rightarrow> chunk_answer"
    and listed :: "series_descriptor \<Rightarrow> chunk_location \<Rightarrow> bool"
    and ok :: "'w \<Rightarrow> bool"
  assumes encode_ans: "ok w \<Longrightarrow> listed d c \<Longrightarrow> fst (encode d c w) = map_err Err (ans d c)"
    and encode_keeps: "ok w \<Longrightarrow> ok (snd (encode d c w))"
begin

lemma encode_eq: "ok w \<Longrightarrow> listed d c \<Longrightarrow> \<exists>w'. encode d c w = (map_err Err (ans d c), w') \<and> ok w'"
  using encode_ans encode_keeps by (metis prod.collapse)

lemma chunks_loop_ans:
  "ok w \<Longrightarrow> \<forall>c \<in> set cs. listed d c \<Longrightarrow> \<exists>w'. ok w' \<and> chunks_loop (encode d) request ab cs w =
    (let ws = filter (\<lambda>c. overlaps (lc_chunk_mint c) (lc_chunk_maxt c) (sq_min_time request) (sq_max_time request)) cs in
     if ab \<and> failures (ans d) ws \<noteq> [] then Inl (Err (hd (failures (ans d) ws)))
     else Inr (ok_chunks (ans d) ws, map status_message (failures (ans d) ws)), w')"
proof (induction cs arbitrary: w)
  case Nil
  then show ?case by (auto simp: chunk_lists_simps)
next
  case (Cons c cs)
  show ?case
  proof (cases "overlaps (lc_chunk_mint c) (lc_chunk_maxt c) (sq_min_time request) (sq_max_time request)")
    case False
    then show ?thesis using Cons.IH [OF Cons.prems(1)] Cons.prems(2) by simp
  next
    case over: True
    obtain w1 where enc: "encode d c w = (map_err Err (ans d c), w1)" and ok1: "ok w1"
      using encode_eq [OF Cons.prems(1), of d c] Cons.prems(2) by auto
    from Cons.IH [OF ok1] Cons.prems(2) obtain w2 where ok2: "ok w2" and loop: "chunks_loop (encode d) request ab cs w1 =
      (let ws = filter (\<lambda>c. overlaps (lc_chunk_mint c) (lc_chunk_maxt c) (sq_min_time request) (sq_max_time request)) cs in
       if ab \<and> failures (ans d) ws \<noteq> [] then Inl (Err (hd (failures (ans d) ws)))
       else Inr (ok_chunks (ans d) ws, map status_message (failures (ans d) ws)), w2)"
      by auto
    show ?thesis
    proof (cases "ans d c")
      case (Inl e)
      show ?thesis
      proof (cases ab)
        case True
        then show ?thesis using over enc ok1 Inl by (auto simp: chunk_lists_simps)
      next
        case False
        then show ?thesis using over enc ok2 loop Inl
          by (intro exI [of _ w2]) (simp add: chunk_lists_simps doW_def retW_def Let_def)
      qed
    next
      case (Inr r)
      then show ?thesis using over enc ok2 loop
        by (intro exI [of _ w2]) (cases r; simp add: chunk_lists_simps doW_def retW_def Let_def)
    qed
  qed
qed

lemma read_chunks_ans:
  "ok w \<Longrightarrow> \<forall>c \<in> set (sd_chunks d). listed d c \<Longrightarrow> \<not> sq_skip_chunks request \<Longrightarrow> \<exists>w'. ok w' \<and> read_chunks_of encode request ab d w =
    (if ab \<and> answered_failures request ans d \<noteq> [] then Inl (Err (hd (answered_failures request ans d)))
     else Inr (answered_chunks request ans d, map status_message (answered_failures request ans d)), w')"
  using chunks_loop_ans [of w "sd_chunks d" d request ab]
  by (auto simp: read_chunks_of_def answered_failures_def answered_chunks_def wanted_chunks_eq Let_def)

lemma step_ans:
  "ok w \<Longrightarrow> \<forall>c \<in> set (sd_chunks d). listed d c \<Longrightarrow> \<exists>w'. ok w'
    \<and> (if sq_skip_chunks request then retW ([], []) else read_chunks_of encode request ab d) w =
    (if ab \<and> answered_failures request ans d \<noteq> [] then Inl (Err (hd (answered_failures request ans d)))
     else Inr (answered_chunks request ans d, map status_message (answered_failures request ans d)), w')"
  using read_chunks_ans [of w d request ab]
  by (cases "sq_skip_chunks request") (auto simp: answered_failures_def answered_chunks_def retW_def)

lemma series_loop_ans:
  "ok w \<Longrightarrow> \<forall>d \<in> set ds. \<forall>c \<in> set (sd_chunks d). listed d c \<Longrightarrow> \<exists>w'. ok w' \<and> series_loop_of (read_chunks_of encode request ab) request aggrs l sent ds w =
    (let fs = visited_failures request aggrs ans (l - sent) ds in
     if ab \<and> fs \<noteq> [] then Inl (Err (hd fs))
     else Inr (given_series request aggrs ans (l - sent) ds, map status_message fs), w')"
proof (induction ds arbitrary: w sent)
  case Nil
  then show ?case by (auto simp: visited_failures_simps given_series_simps)
next
  case (Cons d ds)
  show ?case
  proof (cases "l \<le> sent")
    case True
    then show ?thesis using Cons.prems(1) by (auto simp: visited_failures_simps given_series_simps)
  next
    case below: False
    then obtain m where m: "l - sent = Suc m" "l - (sent + 1) = m"
      by (metis Suc_diff_Suc add.commute diff_diff_eq diff_Suc_1 not_le plus_1_eq_Suc)
    show ?thesis
    proof (cases "selected_resolution request aggrs d")
      case False
      then have "\<not> given request aggrs ans d" by (simp add: given_def)
      then show ?thesis using below False m Cons.IH [OF Cons.prems(1), of sent] Cons.prems(2)
        by (simp add: visited_failures_simps given_series_simps Let_def split del: if_split cong: if_cong)
    next
      case sel: True
      define M where "M = (if sq_skip_chunks request then retW ([], []) else read_chunks_of encode request ab d)"
      obtain w1 where ok1: "ok w1" and step: "M w =
        (if ab \<and> answered_failures request ans d \<noteq> [] then Inl (Err (hd (answered_failures request ans d)))
         else Inr (answered_chunks request ans d, map status_message (answered_failures request ans d)), w1)"
        using step_ans [OF Cons.prems(1), of d request ab] Cons.prems(2) unfolding M_def by (meson list.set_intros(1))
      have unf: "series_loop_of (read_chunks_of encode request ab) request aggrs l sent (d # ds) w =
        doW M (\<lambda>(chunks, warnings).
            if sq_skip_chunks request \<or> chunks \<noteq> [] then
              doW (series_loop_of (read_chunks_of encode request ab) request aggrs l (sent + 1) ds) (\<lambda>(ss, ws).
                retW (\<lparr>se_labels = sd_labels d, se_chunks = chunks\<rparr> # ss, warnings @ ws))
            else
              doW (series_loop_of (read_chunks_of encode request ab) request aggrs l sent ds) (\<lambda>(ss, ws).
                retW (ss, warnings @ ws))) w"
        using below sel by (simp add: M_def)
      show ?thesis
      proof (cases "ab \<and> answered_failures request ans d \<noteq> []")
        case True
        have "series_loop_of (read_chunks_of encode request ab) request aggrs l sent (d # ds) w
          = (Inl (Err (hd (answered_failures request ans d))), w1)"
          unfolding unf by (rule doW_Inl [of M, OF step [unfolded if_P [OF True]]])
        then show ?thesis using True sel ok1 m
          by (intro exI [of _ w1]) (simp add: visited_failures_simps Let_def)
      next
        case cont: False
        let ?sent = "if given request aggrs ans d then sent + 1 else sent"
        let ?fs = "visited_failures request aggrs ans (l - ?sent) ds"
        obtain w2 where ok2: "ok w2"
          and loop: "series_loop_of (read_chunks_of encode request ab) request aggrs l ?sent ds w1 =
            (if ab \<and> ?fs \<noteq> [] then Inl (Err (hd ?fs))
             else Inr (given_series request aggrs ans (l - ?sent) ds, map status_message ?fs), w2)"
          using Cons.IH [OF ok1, of ?sent] Cons.prems(2) by (auto simp: Let_def)
        note step' = step [unfolded if_not_P [OF cont]]
        have given: "given request aggrs ans d \<longleftrightarrow> sq_skip_chunks request \<or> answered_chunks request ans d \<noteq> []"
          using sel by (simp add: given_def)
        have run: "series_loop_of (read_chunks_of encode request ab) request aggrs l sent (d # ds) w =
          (if given request aggrs ans d
           then doW (series_loop_of (read_chunks_of encode request ab) request aggrs l ?sent ds) (\<lambda>(ss, ws).
                retW (series_answer request ans d # ss, map status_message (answered_failures request ans d) @ ws)) w1
           else doW (series_loop_of (read_chunks_of encode request ab) request aggrs l ?sent ds) (\<lambda>(ss, ws).
                retW (ss, map status_message (answered_failures request ans d) @ ws)) w1)"
          unfolding unf doW_Inr [of M, OF step'] using given by (simp add: series_answer_def)
        show ?thesis
        proof (cases "ab \<and> ?fs \<noteq> []")
          case True
          with loop have "series_loop_of (read_chunks_of encode request ab) request aggrs l ?sent ds w1 = (Inl (Err (hd ?fs)), w2)"
            by simp
          with True cont ok2 m sel show ?thesis unfolding run
            by (intro exI [of _ w2]) (cases "given request aggrs ans d"; simp add: doW_Inl visited_failures_simps given_series_simps Let_def)
        next
          case False
          with loop have "series_loop_of (read_chunks_of encode request ab) request aggrs l ?sent ds w1 =
            (Inr (given_series request aggrs ans (l - ?sent) ds, map status_message ?fs), w2)"
            by (simp split: if_splits)
          with False cont ok2 m sel show ?thesis unfolding run
            by (intro exI [of _ w2])
               (cases ab; cases "given request aggrs ans d"; simp add: doW_Inr retW_def visited_failures_simps given_series_simps Let_def)
        qed
      qed
    qed
  qed
qed

end

section \<open>Batches\<close>

fun series_of_response :: "series_response \<Rightarrow> series list" where
  "series_of_response (SeriesResponse s) = [s]"
| "series_of_response (BatchResponse ss) = ss"
| "series_of_response (WarningResponse m) = []"

lemma list_chunks_concat: "0 < n \<Longrightarrow> concat (list_chunks n xs) = xs"
  by (induction n xs rule: list_chunks.induct) (subst list_chunks.simps, simp)

lemma list_chunks_sizes: "c \<in> set (list_chunks n xs) \<Longrightarrow> c \<noteq> [] \<and> length c \<le> n"
proof (induction n xs rule: list_chunks.induct)
  case (1 n xs)
  show ?case
  proof (cases "xs = [] \<or> n = 0")
    case False
    with "1.prems" have "c = take n xs \<or> c \<in> set (list_chunks n (drop n xs))"
      by (subst (asm) list_chunks.simps) simp
    with False "1.IH" [OF False] show ?thesis by auto
  next
    case True
    with "1.prems" show ?thesis by (subst (asm) list_chunks.simps) simp
  qed
qed

lemma batch_size_pos: "0 < batch_size n"
  by (simp add: batch_size_def)

section \<open>Sets of names\<close>

lemma sorted_insort_insert: "sorted_wrt (<) xs \<Longrightarrow> sorted_wrt (<) (insort_insert x xs)"
  for xs :: "'a::linorder list"
  by (simp add: strict_sorted_iff sorted_insort_insert distinct_insort_insert)

lemma bs_of_list_spec: "sorted_wrt (<) (bs_of_list xs) \<and> set (bs_of_list xs) = set xs"
  for xs :: "'a::linorder list"
  by (induction xs) (simp_all add: bs_of_list_def sorted_insort_insert set_insort_insert)

lemma bs_of_list_eq: "bs_of_list xs = sorted_list_of_set (set xs)"
  for xs :: "'a::linorder list"
  using bs_of_list_spec [of xs] by (metis sorted_list_of_set.idem_if_sorted_distinct strict_sorted_iff)

lemma take_limit_eq:
  "take_limit xs n =
    (if n < 0 then Inl (Err (InvalidArgument (Text ''limit must not be negative'')))
     else Inr (if n = 0 then take USIZE_MAX xs else take (nat n) xs))"
  by (simp add: take_limit_def request_limit_def)

section \<open>Ranges of label sets\<close>

text \<open>The range of a label set by its blocks.\<close>

definition range_of_blocks :: "block_metadata list \<Rightarrow> labels \<Rightarrow> (int \<times> int) option" where
  "range_of_blocks blocks l =
     (let bs = filter (\<lambda>b. bm_external_labels b = l) blocks in
      if bs = [] then None
      else Some (Min (set (map bm_min_time bs)), Max (set (map bm_max_time bs))))"

lemma Min_snoc: "xs \<noteq> [] \<Longrightarrow> Min (set (map f (xs @ [b]))) = min (Min (set (map f xs))) (f b)"
  for f :: "'a \<Rightarrow> int"
  by (simp add: Min_insert min.commute)

lemma Max_snoc: "xs \<noteq> [] \<Longrightarrow> Max (set (map f (xs @ [b]))) = max (Max (set (map f xs))) (f b)"
  for f :: "'a \<Rightarrow> int"
  by (simp add: Max_insert max.commute)

lemma add_range_ok: "bt_ok m \<Longrightarrow> bt_ok (add_range b m)"
  by (simp add: add_range_def bt.inv_insert)

lemma block_ranges_fold:
  "bt_ok (fold add_range blocks []) \<and> bt_get (fold add_range blocks []) = range_of_blocks blocks"
proof (induction blocks rule: rev_induct)
  case Nil
  then show ?case by (simp add: bt_ok_def bt_get_def range_of_blocks_def fun_eq_iff)
next
  case (snoc b blocks)
  then have ok: "bt_ok (fold add_range blocks [])" and get: "bt_get (fold add_range blocks []) = range_of_blocks blocks"
    by simp_all
  have "bt_get (add_range b (fold add_range blocks [])) = range_of_blocks (blocks @ [b])"
  proof
    fix l
    show "bt_get (add_range b (fold add_range blocks [])) l = range_of_blocks (blocks @ [b]) l"
    proof (cases "filter (\<lambda>b. bm_external_labels b = l) blocks = []")
      case True
      then show ?thesis using get
        by (auto simp: add_range_def bt.get_insert [OF ok] range_of_blocks_def Let_def filter_empty_conv)
    next
      case False
      then have ne: "Min (set (map bm_min_time (filter (\<lambda>b. bm_external_labels b = l) blocks @ [b])))
          = min (Min (set (map bm_min_time (filter (\<lambda>b. bm_external_labels b = l) blocks)))) (bm_min_time b)"
        "Max (set (map bm_max_time (filter (\<lambda>b. bm_external_labels b = l) blocks @ [b])))
          = max (Max (set (map bm_max_time (filter (\<lambda>b. bm_external_labels b = l) blocks)))) (bm_max_time b)"
        using Min_snoc [OF False] Max_snoc [OF False] by blast+
      show ?thesis
      proof (cases "bm_external_labels b = l")
        case True
        then have "range_of_blocks blocks (bm_external_labels b) =
          Some (Min (set (map bm_min_time (filter (\<lambda>b. bm_external_labels b = l) blocks))),
            Max (set (map bm_max_time (filter (\<lambda>b. bm_external_labels b = l) blocks))))"
          using False by (simp add: range_of_blocks_def Let_def)
        moreover have "range_of_blocks (blocks @ [b]) l =
          Some (Min (set (map bm_min_time (filter (\<lambda>b. bm_external_labels b = l) blocks @ [b]))),
            Max (set (map bm_max_time (filter (\<lambda>b. bm_external_labels b = l) blocks @ [b]))))"
          using True by (simp add: range_of_blocks_def Let_def)
        ultimately show ?thesis using True get
          unfolding ne by (simp add: add_range_def bt.get_insert [OF ok])
      next
        case other: False
        then show ?thesis using get
          by (simp add: add_range_def bt.get_insert [OF ok] range_of_blocks_def Let_def)
      qed
    qed
  qed
  with ok show ?case by (simp add: add_range_ok)
qed

lemma min_of_eq: "min_of xs = (if xs = [] then None else Some (Min (set xs)))"
proof (induction xs)
  case (Cons x xs)
  then show ?case by (cases "xs = []") (simp_all add: Min_insert)
qed simp

lemma max_of_eq: "max_of xs = (if xs = [] then None else Some (Max (set xs)))"
proof (induction xs)
  case (Cons x xs)
  then show ?case by (cases "xs = []") (simp_all add: Max_insert)
qed simp

section \<open>SQL literals\<close>

text \<open>The rest of a string literal after its opening quote: its value and what follows it.\<close>

fun lex_literal :: "string \<Rightarrow> (string \<times> string) option" where
  "lex_literal [] = None"
| "lex_literal (c # cs) =
     (if c = CHR 0x27 then
        (case cs of
           d # ds \<Rightarrow> if d = CHR 0x27 then map_option (\<lambda>(v, rest). (c # v, rest)) (lex_literal ds) else Some ([], cs)
         | [] \<Rightarrow> Some ([], []))
      else map_option (\<lambda>(v, rest). (c # v, rest)) (lex_literal cs))"

lemma lex_literal_quoted:
  "(case rest of c # _ \<Rightarrow> c \<noteq> CHR 0x27 | [] \<Rightarrow> True) \<Longrightarrow>
    lex_literal (concat (map (\<lambda>c. if c = CHR 0x27 then [c, c] else [c]) v) @ CHR 0x27 # rest) = Some (v, rest)"
  by (induction v) (auto split: list.splits)

section \<open>The search through the query engine\<close>

text \<open>
  What the service relies on of DataFusion's \<open>LIKE\<close> and of the query: a pattern between percent signs
  without an escape character matches at least the texts that contain it, and the query returns the rows
  of the table \<open>series\<close> that satisfy its conditions.  A row is a descriptor with the text of its labels.
\<close>

definition like_finds_infix :: "(string \<Rightarrow> string \<Rightarrow> bool) \<Rightarrow> bool" where
  "like_finds_infix like \<longleftrightarrow>
     (\<forall>p t. CHR 0x5C \<notin> set p \<and> sublist p t \<longrightarrow> like (''%'' @ p @ ''%'') t)"

definition query_answered ::
  "store_codec \<Rightarrow> (string \<Rightarrow> string \<Rightarrow> bool) \<Rightarrow> (series_descriptor \<times> string) list \<Rightarrow> int \<Rightarrow> int \<Rightarrow> string list
   \<Rightarrow> bool" where
  "query_answered codec like rows start end_time filters \<longleftrightarrow>
     (\<exists>batches dss. sc_sql codec (series_query start end_time filters) = Inr (map Inr batches)
       \<and> mapR (series_from_batch (sc_labels_from_json codec) (sc_chunks_from_json codec)) batches = Inr dss
       \<and> concat dss = map fst (filter (\<lambda>(d, t). sd_series_mint d \<le> end_time \<and> start \<le> sd_series_maxt d
            \<and> (\<forall>f \<in> set filters. like f t)) rows))"

text \<open>The text of a label map contains the canonical fragment of each of its entries.\<close>

definition labels_text ::
  "(string \<Rightarrow> string + string) \<Rightarrow> (series_descriptor \<times> string) list \<Rightarrow> bool" where
  "labels_text json_string rows \<longleftrightarrow>
     (\<forall>(d, t) \<in> set rows. \<forall>n v jn jv. bt_get (sd_labels d) n = Some v \<and> json_string n = Inr jn
        \<and> json_string v = Inr jv \<longrightarrow> sublist (jn @ '':'' @ jv) t)"

definition no_backslash :: "(string \<Rightarrow> string + string) \<Rightarrow> matcher list \<Rightarrow> bool" where
  "no_backslash json_string matchers \<longleftrightarrow>
     (\<forall>(n, v) \<in> set (exact_pairs matchers). \<forall>jn jv. json_string n = Inr jn \<and> json_string v = Inr jv
        \<longrightarrow> CHR 0x5C \<notin> set jn \<and> CHR 0x5C \<notin> set jv)"

lemma exact_pairs_matched:
  "matches_all l ms \<Longrightarrow> (n, v) \<in> set (exact_pairs ms) \<Longrightarrow> bt_get l n = Some v"
proof (induction ms rule: exact_pairs.induct)
  case (2 name val ms)
  then show ?case
    by (auto simp: matches_all_def label_value_def split: if_splits option.splits)
qed (simp_all add: matches_all_def)

lemma mapR_Inr_items: "mapR (\<lambda>item. tryR (map_err g item) h) (map Inr xs) = mapR h xs"
  by (induction xs) (simp_all cong del: tryR_weak_cong)

lemma mapR_mem: "mapR f xs = Inr ys \<Longrightarrow> y \<in> set ys \<Longrightarrow> \<exists>x \<in> set xs. f x = Inr y"
  by (induction xs arbitrary: ys) (auto simp: tryR_eq_Inr)

lemma mapR_map_err: "mapR f xs = Inr ys \<Longrightarrow> mapR (\<lambda>x. map_err g (f x)) xs = Inr ys"
  by (simp add: mapR_eq_Inr map_err_eq_Inr)

lemma prefilter_keeps:
  assumes "like_finds_infix like" and "labels_text json rows" and "no_backslash json ms"
    and "exact_label_filters json ms = Inr filters" and "(d, t) \<in> set rows" and "matches_all (sd_labels d) ms"
    and "f \<in> set filters"
  shows "like f t"
proof -
  obtain n v where nv: "(n, v) \<in> set (exact_pairs ms)"
    and "tryR (json n) (\<lambda>n. tryR (json v) (\<lambda>v. Inr (''%'' @ n @ '':'' @ v @ ''%''))) = Inr f"
    using mapR_mem [OF assms(4) [unfolded exact_label_filters_def] assms(7)] by auto
  then obtain jn jv where j: "json n = Inr jn" "json v = Inr jv" "f = ''%'' @ (jn @ '':'' @ jv) @ ''%''"
    by (auto simp: tryR_eq_Inr)
  have "bt_get (sd_labels d) n = Some v" by (rule exact_pairs_matched [OF assms(6) nv])
  with assms(2,5) j have "sublist (jn @ '':'' @ jv) t" unfolding labels_text_def by blast
  moreover have "CHR 0x5C \<notin> set (jn @ '':'' @ jv)"
    using assms(3) nv j unfolding no_backslash_def by fastforce
  ultimately show ?thesis using assms(1) j(3) unfolding like_finds_infix_def by blast
qed

lemma matching_series_exact:
  assumes "like_finds_infix like" and "labels_text (sc_json_string codec) rows"
    and "no_backslash (sc_json_string codec) ms"
    and filters: "exact_label_filters (sc_json_string codec) ms = Inr filters"
    and "query_answered codec like rows start end_time filters"
  shows "matching_series codec start end_time ms = Inr (matching_series_reference (map fst rows) start end_time ms)"
proof -
  obtain batches dss where sql: "sc_sql codec (series_query start end_time filters) = Inr (map Inr batches)"
    and dec: "mapR (series_from_batch (sc_labels_from_json codec) (sc_chunks_from_json codec)) batches = Inr dss"
    and rows: "concat dss = map fst (filter (\<lambda>(d, t). sd_series_mint d \<le> end_time \<and> start \<le> sd_series_maxt d
       \<and> (\<forall>f \<in> set filters. like f t)) rows)"
    using assms(5) unfolding query_answered_def by blast
  have "matching_series codec start end_time ms = Inr (filter (\<lambda>s. matches_all (sd_labels s) ms) (concat dss))"
    by (simp add: matching_series_def filters sql mapR_Inr_items mapR_map_err [OF dec])
  also have "filter (\<lambda>s. matches_all (sd_labels s) ms) (concat dss)
    = map fst (filter (\<lambda>(d, t). sd_series_mint d \<le> end_time \<and> start \<le> sd_series_maxt d
        \<and> matches_all (sd_labels d) ms) rows)"
    unfolding rows filter_map filter_filter o_def
    using prefilter_keeps [OF assms(1-4)] by (intro arg_cong [where f = "map fst"] filter_cong) auto
  also have "\<dots> = matching_series_reference (map fst rows) start end_time ms"
    by (simp add: matching_series_reference_def filter_map o_def overlaps_def case_prod_unfold)
  finally show ?thesis .
qed

end
