(* ===== verification/Store_Service_Props.thy ===== *)
theory Store_Service_Props
  imports Store_Service_Facts Storage_Props
begin

text \<open>
  The properties of the StoreAPI calls.  The chunk source of the program, records read through its
  repositories, is an instance of \<open>chunk_answers\<close>: while the page cache is sound and no outside call
  fails, the chunks that the repositories store have fixed answers.
\<close>

section \<open>The chunk source of the program\<close>

definition chunk_answer_of ::
  "store_codec \<Rightarrow> (string \<Rightarrow> repository option) \<Rightarrow> (repository \<Rightarrow> string \<Rightarrow> nat \<Rightarrow> chunk_error + encoded_chunk)
   \<Rightarrow> int list \<Rightarrow> series_descriptor \<Rightarrow> chunk_answer" where
  "chunk_answer_of codec repository_for stored aggrs d c =
     (case repository_for (sd_repository_uri d) of
        None \<Rightarrow> Inl (Internal (NoRepositoryFor (sd_repository_uri d)))
      | Some repository \<Rightarrow>
          (case stored repository (lc_chunk_file_path c) (lc_chunk_file_offset c) of
             Inl e \<Rightarrow> Inl (Internal (ChunkReadFailed e))
           | Inr chunk \<Rightarrow> Inr (encode_chunk_data codec c aggrs chunk)))"

text \<open>\<open>stored\<close> tells what the record at the chunk's place decodes to.\<close>

definition chunk_stored ::
  "(bytes \<Rightarrow> u32) \<Rightarrow> env \<Rightarrow> (string \<Rightarrow> repository option)
   \<Rightarrow> (repository \<Rightarrow> string \<Rightarrow> nat \<Rightarrow> chunk_error + encoded_chunk) \<Rightarrow> series_descriptor \<Rightarrow> chunk_location \<Rightarrow> bool" where
  "chunk_stored crc env repository_for stored d c \<longleftrightarrow>
     (case repository_for (sd_repository_uri d) of
        None \<Rightarrow> True
      | Some repository \<Rightarrow> \<exists>content enc payload.
          ev_objects env (rp_name repository) (lc_chunk_file_path c) = Some content
          \<and> stores content (lc_chunk_file_offset c) (frame crc enc payload) \<and> length payload < 2 ^ 35
          \<and> decode_encoded_record crc (frame crc enc payload)
              = map_err Err (stored repository (lc_chunk_file_path c) (lc_chunk_file_offset c)))"

text \<open>All repositories share one sound cache, or have none, and no outside call fails.\<close>

definition store_ok :: "env \<Rightarrow> (string \<Rightarrow> repository option) \<Rightarrow> range_cache option \<Rightarrow> world \<Rightarrow> bool" where
  "store_ok env repository_for cache w \<longleftrightarrow>
     (\<forall>uri r. repository_for uri = Some r \<longrightarrow> rp_cache r = cache)
     \<and> (case cache of None \<Rightarrow> True | Some c \<Rightarrow> world_ok env c w) \<and> \<not> may_fail env"

lemma store_ok_reader:
  "store_ok env repository_for cache w \<Longrightarrow> repository_for uri = Some r \<Longrightarrow> reader_ok env r w \<and> \<not> may_fail env"
  by (simp add: store_ok_def reader_ok_def)

lemma store_ok_keeps:
  "store_ok env repository_for cache w \<Longrightarrow> repository_for uri = Some r \<Longrightarrow> reader_ok env r w'
    \<Longrightarrow> store_ok env repository_for cache w'"
  by (simp add: store_ok_def reader_ok_def)

lemma read_record_keeps:
  assumes ok: "reader_ok env r w" and run: "read_record (repository_read_range env r) path offset w = (q, w')"
  shows "reader_ok env r w'"
proof -
  obtain p w1 where r1: "repository_read_range env r path offset (u64_wrap (offset + MAX_UVARINT_SIZE + 1)) w = (p, w1)"
    by fastforce
  note ok1 = repository_read_range_keeps [OF ok r1]
  show ?thesis
  proof (cases "\<exists>prefix n. p = Inr prefix \<and> record_length prefix = Inr n")
    case True
    then obtain prefix n where p: "p = Inr prefix" "record_length prefix = Inr n" by blast
    obtain s w2 where r2: "repository_read_range env r path offset (u64_wrap (offset + n)) w1 = (s, w2)" by fastforce
    have "w' = w2" using run r1 r2 p by (cases s) (simp_all add: read_record_def)
    then show ?thesis using repository_read_range_keeps [OF ok1 r2] by simp
  next
    case False
    with run r1 have "w' = w1"
      by (cases p) (auto simp: read_record_def split: sum.splits)
    then show ?thesis using ok1 by simp
  qed
qed

lemma read_encoded_chunk_keeps:
  "reader_ok env r w \<Longrightarrow> read_encoded_chunk crc (repository_read_range env r) path offset w = (q, w')
    \<Longrightarrow> reader_ok env r w'"
  using read_record_keeps unfolding read_encoded_chunk_def by (fastforce split: prod.splits)

interpretation repository_answers: chunk_answers
    "\<lambda>d c. encode_chunk codec repository_for (repository_chunks crc env) (sd_repository_uri d) c aggrs"
    "chunk_answer_of codec repository_for stored aggrs" "chunk_stored crc env repository_for stored"
    "store_ok env repository_for cache"
  for codec repository_for crc env aggrs stored cache
proof unfold_locales
  fix w d c
  assume ok: "store_ok env repository_for cache w" and st: "chunk_stored crc env repository_for stored d c"
  show "fst (encode_chunk codec repository_for (repository_chunks crc env) (sd_repository_uri d) c aggrs w)
    = map_err Err (chunk_answer_of codec repository_for stored aggrs d c)"
  proof (cases "repository_for (sd_repository_uri d)")
    case None
    then show ?thesis by (simp add: encode_chunk_def chunk_answer_of_def)
  next
    case (Some r)
    with st obtain content enc payload where
      s: "ev_objects env (rp_name r) (lc_chunk_file_path c) = Some content"
        "stores content (lc_chunk_file_offset c) (frame crc enc payload)" "length payload < 2 ^ 35"
      and dec: "decode_encoded_record crc (frame crc enc payload)
        = map_err Err (stored r (lc_chunk_file_path c) (lc_chunk_file_offset c))"
      by (auto simp: chunk_stored_def)
    obtain w' where run: "read_record (repository_read_range env r) (lc_chunk_file_path c) (lc_chunk_file_offset c) w
        = (Inr (frame crc enc payload), w')"
      using healthy_reader.read_record_exact [OF store_ok_reader [OF ok Some] s] by blast
    show ?thesis
      by (cases "stored r (lc_chunk_file_path c) (lc_chunk_file_offset c)")
         (simp_all add: encode_chunk_def chunk_answer_of_def Some repository_chunks_def read_encoded_chunk_def
           run dec)
  qed
next
  fix w d c
  assume ok: "store_ok env repository_for cache w"
  show "store_ok env repository_for cache
    (snd (encode_chunk codec repository_for (repository_chunks crc env) (sd_repository_uri d) c aggrs w))"
  proof (cases "repository_for (sd_repository_uri d)")
    case None
    then show ?thesis using ok by (simp add: encode_chunk_def)
  next
    case (Some r)
    obtain q w' where run: "read_encoded_chunk crc (repository_read_range env r) (lc_chunk_file_path c)
        (lc_chunk_file_offset c) w = (q, w')" by fastforce
    then have "reader_ok env r w'" using store_ok_reader [OF ok Some] read_encoded_chunk_keeps by blast
    with ok Some have "store_ok env repository_for cache w'" by (rule store_ok_keeps)
    then show ?thesis
      by (cases q) (simp_all add: encode_chunk_def Some repository_chunks_def run)
  qed
qed

section \<open>The Series call\<close>

text \<open>What the checks before the search accept.\<close>

definition series_accepted ::
  "store_codec \<Rightarrow> series_request \<Rightarrow> matcher list \<Rightarrow> int list \<Rightarrow> nat \<Rightarrow> bool" where
  "series_accepted codec request matchers aggrs l \<longleftrightarrow>
     reject_unsupported_series_options request = Inr ()
     \<and> compile_matchers (sc_regex codec) (sq_matchers request) = Inr matchers
     \<and> aggregates (sq_aggregates request) = Inr aggrs \<and> request_limit (sq_limit request) = Inr l"

definition aborts :: "series_request \<Rightarrow> bool" where
  "aborts request \<longleftrightarrow> sq_partial_response_disabled request \<or> sq_partial_response_strategy request = STRATEGY_ABORT"

lemma series_call_answer:
  assumes "series_accepted codec request matchers aggrs l"
    and "matching_series codec (sq_min_time request) (sq_max_time request) matchers = Inr ds"
    and "store_ok env repository_for cache w"
    and "\<forall>d \<in> set ds. \<forall>c \<in> set (sd_chunks d). chunk_stored crc env repository_for stored d c"
  defines "ans \<equiv> chunk_answer_of codec repository_for stored aggrs"
  shows "\<exists>w'. store_ok env repository_for cache w' \<and>
    series_call codec repository_for (repository_chunks crc env) request w =
      (if aborts request \<and> visited_failures request aggrs ans l ds \<noteq> []
       then Inl (Err (hd (visited_failures request aggrs ans l ds)))
       else Inr (batch_responses (sq_response_batch_size request) (given_series request aggrs ans l ds)
         @ map (\<lambda>e. WarningResponse (status_message e)) (visited_failures request aggrs ans l ds)), w')"
proof -
  let ?encode = "\<lambda>d c. encode_chunk codec repository_for (repository_chunks crc env) (sd_repository_uri d) c aggrs"
  obtain w' where ok: "store_ok env repository_for cache w'" and loop:
    "series_loop_of (read_chunks_of ?encode request (aborts request))
       request aggrs l 0 ds w =
     (let fs = visited_failures request aggrs ans (l - 0) ds in
      if aborts request \<and> fs \<noteq> [] then Inl (Err (hd fs))
      else Inr (given_series request aggrs ans (l - 0) ds, map status_message fs), w')"
    using repository_answers.series_loop_ans [OF assms(3,4), where request = request and ab = "aborts request"
        and l = l and sent = 0 and aggrs = aggrs and aggrsa = aggrs]
    unfolding ans_def by blast
  have reads: "(\<lambda>d. chunks_loop (\<lambda>c. encode_chunk codec repository_for (repository_chunks crc env)
        (sd_repository_uri d) c aggrs) request (aborts request) (sd_chunks d))
    = read_chunks_of ?encode request (aborts request)"
    by (simp add: read_chunks_of_def fun_eq_iff)
  have call: "series_call codec repository_for (repository_chunks crc env) request w =
    doW (series_loop_of (read_chunks_of ?encode request (aborts request))
       request aggrs l 0 ds)
      (\<lambda>(ss, ws). retW (batch_responses (sq_response_batch_size request) ss @ map WarningResponse ws)) w"
    using assms(1,2) unfolding reads [symmetric]
    by (simp add: series_call_def series_accepted_def aborts_def)
  show ?thesis
    using ok loop by (intro exI [of _ w']) (simp add: call doW_def retW_def Let_def)
qed

text \<open>
  C26: an accepted Series call answers exactly what its reference says: the first \<open>limit\<close> series in the
  order of the index that have the wanted resolution and a readable chunk in the time range, batched,
  then one warning per unreadable chunk of the series visited; a call that must not be partial fails with
  the first such error instead.
\<close>

theorem series_call_exact:
  assumes "series_accepted codec request matchers aggrs l"
    and "matching_series codec (sq_min_time request) (sq_max_time request) matchers = Inr ds"
    and "store_ok env repository_for cache w"
    and "\<forall>d \<in> set ds. \<forall>c \<in> set (sd_chunks d). chunk_stored crc env repository_for stored d c"
  shows "fst (series_call codec repository_for (repository_chunks crc env) request w) =
    (let ans = chunk_answer_of codec repository_for stored aggrs;
         failed = visited_failures request aggrs ans l ds in
     if aborts request \<and> failed \<noteq> [] then Inl (Err (hd failed))
     else Inr (batch_responses (sq_response_batch_size request) (given_series request aggrs ans l ds)
       @ map (\<lambda>e. WarningResponse (status_message e)) failed))"
  using series_call_answer [OF assms] by (auto simp: Let_def)

definition demo_location :: chunk_location where
  "demo_location = \<lparr>lc_chunk_file_path = ''p'', lc_chunk_file_offset = 0, lc_chunk_mint = 0, lc_chunk_maxt = 10\<rparr>"

definition demo_series :: series_descriptor where
  "demo_series = \<lparr>sd_repository_uri = ''u'', sd_downsample_resolution = 0, sd_series_mint = 0, sd_series_maxt = 10,
     sd_labels = [(''job'', ''a'')], sd_chunks = [demo_location]\<rparr>"

definition demo_batch :: batch where
  "demo_batch = \<lparr>ba_columns =
     [(''repository_uri'', StringColumn [''u'']), (''downsample_resolution'', Int64Column [0]),
      (''series_mint'', Int64Column [0]), (''series_maxt'', Int64Column [10]),
      (''labels_json'', StringColumn [''L'']), (''chunks_json'', StringColumn [''C''])], ba_num_rows = 1\<rparr>"

definition demo_codec :: store_codec where
  "demo_codec = \<lparr>sc_regex = (\<lambda>_. Inl ''regex''), sc_sql = (\<lambda>_. Inr [Inr demo_batch]),
     sc_json_string = (\<lambda>s. Inr ([CHR 0x22] @ s @ [CHR 0x22])),
     sc_labels_from_json = (\<lambda>_. Inr [(''job'', ''a'')]), sc_chunks_from_json = (\<lambda>_. Inr [demo_location]),
     sc_xxh64 = (\<lambda>_. 5)\<rparr>"

definition demo_request :: series_request where
  "demo_request = \<lparr>sq_min_time = 5, sq_max_time = 20,
     sq_matchers = [\<lparr>lm_type = 0, lm_name = ''job'', lm_value = ''a''\<rparr>],
     sq_max_resolution_window = 0, sq_aggregates = [], sq_partial_response_disabled = False,
     sq_partial_response_strategy = STRATEGY_ABORT, sq_skip_chunks = False, sq_has_hints = False,
     sq_has_shard_info = False, sq_without_replica_labels = [], sq_limit = 3, sq_response_batch_size = 0\<rparr>"

lemma demo_rows:
  "series_from_batch (sc_labels_from_json demo_codec) (sc_chunks_from_json demo_codec) demo_batch = Inr [demo_series]"
  by (simp add: series_from_batch_def batch_strings_def batch_int64s_def demo_batch_def column_by_name_def
      column_string_def elem_index_def demo_codec_def demo_series_def)

lemma demo_filters: "exact_label_filters (sc_json_string demo_codec) [EqM ''job'' ''a'']
    = Inr [''%'' @ ([CHR 0x22] @ ''job'' @ [CHR 0x22]) @ '':'' @ ([CHR 0x22] @ ''a'' @ [CHR 0x22]) @ ''%'']"
  by (simp add: exact_label_filters_def demo_codec_def)

lemma demo_matching: "matching_series demo_codec start end_time [EqM ''job'' ''a''] = Inr [demo_series]"
  unfolding matching_series_def demo_filters
  by (simp add: demo_codec_def demo_rows [unfolded demo_codec_def, simplified])
     (simp add: matches_all_def label_value_def bt_get_def demo_series_def)

lemma demo_accepted: "series_accepted demo_codec demo_request [EqM ''job'' ''a''] [AGGR_RAW] 3"
  by (simp add: series_accepted_def reject_unsupported_series_options_def compile_matchers_def compile_matcher_def
      aggregates_def request_limit_def demo_request_def aggr_consts bs_of_list_def insort_insert_key_def)

theorem series_call_exact_witness:
  "fst (series_call demo_codec (\<lambda>_. Some demo_repository) (repository_chunks (\<lambda>_. 7) (demo_env demo_chunk))
      demo_request demo_world)
    = Inr [SeriesResponse \<lparr>se_labels = [(''job'', ''a'')], se_chunks =
        [\<lparr>ac_min_time = 0, ac_max_time = 10,
          ac_raw = Some \<lparr>rk_type = XorEncoding, rk_data = [9, 9], rk_hash = 5\<rparr>,
          ac_count = None, ac_sum = None, ac_min = None, ac_max = None, ac_counter = None\<rparr>]\<rparr>]"
proof -
  have ok: "store_ok (demo_env demo_chunk) (\<lambda>_. Some demo_repository) (Some demo_cache) demo_world"
    using demo_reader_ok demo_no_fault by (simp add: store_ok_def reader_ok_def demo_repository_def)
  have dec: "decode_encoded_record (\<lambda>_. 7) (frame (\<lambda>_. 7) 1 [9, 9]) = Inr (Xor [9, 9])"
    by (simp add: decode_encoded_record_def validated_payload_encode chunk_consts)
  have stored: "chunk_stored (\<lambda>_. 7) (demo_env demo_chunk) (\<lambda>_. Some demo_repository)
      (\<lambda>_ _ _. Inr (Xor [9, 9])) demo_series demo_location"
    unfolding chunk_stored_def option.case
    by (rule exI [of _ demo_chunk], rule exI [of _ 1], rule exI [of _ "[9, 9]"])
       (use demo_chunk_stored dec in \<open>simp add: demo_env_def demo_repository_def demo_location_def\<close>)
  have chunks: "sd_chunks demo_series = [demo_location]" by (simp add: demo_series_def)
  from series_call_exact [OF demo_accepted demo_matching ok, of "\<lambda>_. 7" "\<lambda>_ _ _. Inr (Xor [9, 9])"] stored show ?thesis
    by (simp add: chunks visited_failures_def given_series_def answered_failures_def failures_def Let_def)
       (simp add: demo_request_def demo_series_def demo_location_def selected_resolution_def given_def
         answered_chunks_def wanted_chunks_def ok_chunks_def List.map_filter_def chunk_answer_of_def
         encode_chunk_data_def make_raw_chunk_def demo_codec_def series_answer_def batch_responses_def
         batch_size_def)
qed

text \<open>
  Whatever the batch size, the responses carry the same series in the same order, and no batch is
  empty or longer than asked for.
\<close>

theorem batches_flatten:
  "concat (map series_of_response (batch_responses n ss)) = ss
    \<and> list_all (\<lambda>r. r \<noteq> BatchResponse [] \<and> length (series_of_response r) \<le> batch_size n) (batch_responses n ss)"
proof (cases "batch_size n = 1")
  case True
  then show ?thesis by (simp add: batch_responses_def list_all_iff o_def)
next
  case False
  have "concat (list_chunks (batch_size n) ss) = ss"
    by (rule list_chunks_concat) (simp add: batch_size_pos)
  then show ?thesis using False list_chunks_sizes [of _ "batch_size n" ss]
    by (simp add: batch_responses_def list_all_iff o_def)
qed

section \<open>The search\<close>

text \<open>
  C27: the search through the query engine, with its \<open>LIKE\<close> prefilter and final matching, returns the
  series the search over all descriptors of the test build returns, provided no matcher's name or value
  has a backslash in its JSON form.
\<close>

theorem search_is_reference:
  assumes "like_finds_infix like" and "labels_text (sc_json_string codec) rows"
    and "no_backslash (sc_json_string codec) ms"
    and "exact_label_filters (sc_json_string codec) ms = Inr filters"
    and "query_answered codec like rows start end_time filters"
  shows "matching_series codec start end_time ms = Inr (matching_series_reference (map fst rows) start end_time ms)"
  by (rule matching_series_exact [OF assms])

definition demo_text :: string where
  "demo_text = [CHR 0x7B] @ ([CHR 0x22] @ ''job'' @ [CHR 0x22]) @ '':'' @ ([CHR 0x22] @ ''a'' @ [CHR 0x22]) @ [CHR 0x7D]"

theorem search_is_reference_witness:
  "matching_series demo_codec 5 20 [EqM ''job'' ''a''] = Inr (matching_series_reference [demo_series] 5 20 [EqM ''job'' ''a''])"
proof -
  have like: "like_finds_infix (\<lambda>p t. sublist (butlast (tl p)) t)"
    by (simp add: like_finds_infix_def butlast_append)
  have frag: "sublist (([CHR 0x22] @ ''job'' @ [CHR 0x22]) @ '':'' @ ([CHR 0x22] @ ''a'' @ [CHR 0x22])) demo_text"
    unfolding demo_text_def by (simp add: sublist_code)
  have texts: "labels_text (sc_json_string demo_codec) [(demo_series, demo_text)]"
    using frag by (auto simp: labels_text_def demo_codec_def demo_series_def bt_get_def split: if_splits)
  have plain: "no_backslash (sc_json_string demo_codec) [EqM ''job'' ''a'']"
    by (simp add: no_backslash_def demo_codec_def)
  have "query_answered demo_codec (\<lambda>p t. sublist (butlast (tl p)) t) [(demo_series, demo_text)] 5 20
     [''%'' @ ([CHR 0x22] @ ''job'' @ [CHR 0x22]) @ '':'' @ ([CHR 0x22] @ ''a'' @ [CHR 0x22]) @ ''%'']"
    unfolding query_answered_def
    by (rule exI [of _ "[demo_batch]"], rule exI [of _ "[[demo_series]]"])
       (use frag demo_rows in \<open>simp add: demo_codec_def butlast_append, simp add: demo_series_def\<close>)
  from search_is_reference [OF like texts plain demo_filters this] show ?thesis by simp
qed

text \<open>Reading the filters of a query text back.\<close>

fun lex_filters :: "nat \<Rightarrow> string \<Rightarrow> string list option" where
  "lex_filters 0 s = (if s = [] then Some [] else None)"
| "lex_filters (Suc n) s =
     Option.bind (strip_prefix ('' AND labels_json LIKE '' @ [CHR 0x27]) s) (\<lambda>r.
     Option.bind (lex_literal r) (\<lambda>(v, rest). map_option ((#) v) (lex_filters n rest)))"

lemma lex_filters_quoted:
  "lex_filters (length fs) (concat (map (\<lambda>f. '' AND labels_json LIKE '' @ sql_literal f) fs)) = Some fs"
proof (induction fs)
  case (Cons f fs)
  let ?rest = "concat (map (\<lambda>f. '' AND labels_json LIKE '' @ sql_literal f) fs)"
  let ?body = "concat (map (\<lambda>c. if c = CHR 0x27 then [c, c] else [c]) f)"
  have lit: "lex_literal (?body @ CHR 0x27 # ?rest) = Some (f, ?rest)"
    by (rule lex_literal_quoted) (cases fs; simp)
  have "concat (map (\<lambda>f. '' AND labels_json LIKE '' @ sql_literal f) (f # fs))
    = ('' AND labels_json LIKE '' @ [CHR 0x27]) @ (?body @ CHR 0x27 # ?rest)"
    by (simp add: sql_literal_def)
  then show ?case
    by (simp only: length_Cons list.size lex_filters.simps strip_prefix_append Option.bind.bind_lunit lit Cons.IH
        prod.case option.map)
qed simp

text \<open>
  C28: the filters cannot break out of the query text: read as SQL string literals, in which a doubled
  quote stands for one, they are exactly the filters, whatever characters the matchers contain.
\<close>

theorem query_literals_round_trip:
  "\<exists>tail. series_query start end_time filters = series_query start end_time [] @ tail
    \<and> lex_filters (length filters) tail = Some filters"
proof (intro exI conjI)
  show "lex_filters (length filters) (concat (map (\<lambda>f. '' AND labels_json LIKE '' @ sql_literal f) filters))
    = Some filters" by (rule lex_filters_quoted)
qed (simp add: series_query_def)

section \<open>Names and values\<close>

definition label_request_accepted ::
  "store_codec \<Rightarrow> 'a label_names_request_scheme \<Rightarrow> series_descriptor list \<Rightarrow> bool" where
  "label_request_accepted codec request ds \<longleftrightarrow>
     ln_without_replica_labels request = [] \<and> \<not> ln_has_hints request \<and> 0 \<le> ln_limit request
     \<and> (\<exists>ms. compile_matchers (sc_regex codec) (ln_matchers request) = Inr ms
          \<and> matching_series codec (ln_start request) (ln_end request) ms = Inr ds)"

definition limit_of :: "int \<Rightarrow> nat" where
  "limit_of n = (if n = 0 then USIZE_MAX else nat n)"

text \<open>
  LabelNames answers the label names of the matching series, each once, in byte order, cut to the
  limit.
\<close>

theorem label_names_exact:
  assumes "label_request_accepted codec request ds"
  shows "label_names codec request =
    Inr (take (limit_of (ln_limit request)) (sorted_list_of_set (\<Union>d \<in> set ds. dom (bt_get (sd_labels d)))))"
proof -
  have "set (concat (map (\<lambda>d. bt_keys (sd_labels d)) ds)) = (\<Union>d \<in> set ds. dom (bt_get (sd_labels d)))"
    by (simp add: bt_keys_def bt_get_def dom_map_of_conv_image_fst)
  then show ?thesis
    using assms
    by (auto simp: label_names_def label_request_accepted_def reject_unsupported_label_options_def
        take_limit_eq limit_of_def bs_of_list_eq simp del: set_concat)
qed

definition demo_label_request :: label_names_request where
  "demo_label_request = \<lparr>ln_start = 5, ln_end = 20,
     ln_matchers = [\<lparr>lm_type = 0, lm_name = ''job'', lm_value = ''a''\<rparr>],
     ln_without_replica_labels = [], ln_has_hints = False, ln_limit = 1\<rparr>"

theorem label_names_exact_witness: "label_names demo_codec demo_label_request = Inr [''job'']"
proof -
  have "label_request_accepted demo_codec demo_label_request [demo_series]"
    using demo_matching
    by (simp add: label_request_accepted_def demo_label_request_def compile_matchers_def compile_matcher_def)
  from label_names_exact [OF this] show ?thesis
    by (simp add: demo_label_request_def limit_of_def demo_series_def bt_get_def)
qed

text \<open>
  LabelValues answers the values the matching series have for the label, each once, in byte order, cut
  to the limit.
\<close>

theorem label_values_exact:
  assumes "label_request_accepted codec request ds" and "lv_label request \<noteq> ''''"
  shows "label_values codec request =
    Inr (take (limit_of (ln_limit request))
      (sorted_list_of_set {v. \<exists>d \<in> set ds. bt_get (sd_labels d) (lv_label request) = Some v}))"
proof -
  have "set (List.map_filter (\<lambda>d. bt_get (sd_labels d) (lv_label request)) ds)
    = {v. \<exists>d \<in> set ds. bt_get (sd_labels d) (lv_label request) = Some v}"
    by (force simp: List.map_filter_def)
  then show ?thesis
    using assms
    by (auto simp: label_values_def label_request_accepted_def reject_unsupported_label_options_def
        take_limit_eq limit_of_def bs_of_list_eq)
qed

definition demo_values_request :: label_values_request where
  "demo_values_request = label_names_request.extend demo_label_request \<lparr>lv_label = ''job''\<rparr>"

theorem label_values_exact_witness: "label_values demo_codec demo_values_request = Inr [''a'']"
proof -
  have "label_request_accepted demo_codec demo_values_request [demo_series]" "lv_label demo_values_request \<noteq> ''''"
    using demo_matching
    by (simp_all add: label_request_accepted_def demo_label_request_def demo_values_request_def
        label_names_request.defs compile_matchers_def compile_matcher_def)
  from label_values_exact [OF this] show ?thesis
    by (simp add: demo_values_request_def demo_label_request_def label_names_request.defs limit_of_def
        demo_series_def bt_get_def)
qed

section \<open>Info\<close>

lemma group_image: "(\<And>l r. (l, r) \<in> set m \<Longrightarrow> p r = F l) \<Longrightarrow> set (map (\<lambda>(l, r). p r) m) = F ` set (map fst m)"
  by force

lemma Min_of_groups:
  fixes f :: "'a \<Rightarrow> int"
  assumes "finite A" and "A \<noteq> {}"
  shows "Min ((\<lambda>l. Min (f ` {b \<in> A. g b = l})) ` g ` A) = Min (f ` A)"
proof (rule Min_eqI)
  fix y assume "y \<in> (\<lambda>l. Min (f ` {b \<in> A. g b = l})) ` g ` A"
  then obtain a where a: "a \<in> A" "y = Min (f ` {b \<in> A. g b = g a})" by blast
  then have "y \<in> f ` {b \<in> A. g b = g a}"
    unfolding a(2) using assms(1) by (intro Min_in) auto
  then show "Min (f ` A) \<le> y" using assms(1) by (intro Min_le) auto
next
  have "Min (f ` A) \<in> f ` A" using assms by simp
  then obtain a where a: "a \<in> A" "f a = Min (f ` A)" by (metis imageE)
  have "Min (f ` {b \<in> A. g b = g a}) = f a"
  proof (rule Min_eqI)
    show "y \<in> f ` {b \<in> A. g b = g a} \<Longrightarrow> f a \<le> y" for y
      unfolding a(2) using assms(1) by (intro Min_le) auto
    show "f a \<in> f ` {b \<in> A. g b = g a}" using a(1) by blast
  qed (use assms(1) in simp)
  then have "Min (f ` A) = Min (f ` {b \<in> A. g b = g a})" using a(2) by simp
  then show "Min (f ` A) \<in> (\<lambda>l. Min (f ` {b \<in> A. g b = l})) ` g ` A"
    using a(1) by (intro image_eqI [of _ _ "g a"]) auto
qed (use assms in simp)

lemma Max_of_groups:
  fixes f :: "'a \<Rightarrow> int"
  assumes "finite A" and "A \<noteq> {}"
  shows "Max ((\<lambda>l. Max (f ` {b \<in> A. g b = l})) ` g ` A) = Max (f ` A)"
proof (rule Max_eqI)
  fix y assume "y \<in> (\<lambda>l. Max (f ` {b \<in> A. g b = l})) ` g ` A"
  then obtain a where a: "a \<in> A" "y = Max (f ` {b \<in> A. g b = g a})" by blast
  then have "y \<in> f ` {b \<in> A. g b = g a}"
    unfolding a(2) using assms(1) by (intro Max_in) auto
  then show "y \<le> Max (f ` A)" using assms(1) by (intro Max_ge) auto
next
  have "Max (f ` A) \<in> f ` A" using assms by simp
  then obtain a where a: "a \<in> A" "f a = Max (f ` A)" by (metis imageE)
  have "Max (f ` {b \<in> A. g b = g a}) = f a"
  proof (rule Max_eqI)
    show "y \<in> f ` {b \<in> A. g b = g a} \<Longrightarrow> y \<le> f a" for y
      unfolding a(2) using assms(1) by (intro Max_ge) auto
    show "f a \<in> f ` {b \<in> A. g b = g a}" using a(1) by blast
  qed (use assms(1) in simp)
  then have "Max (f ` A) = Max (f ` {b \<in> A. g b = g a})" using a(2) by simp
  then show "Max (f ` A) \<in> (\<lambda>l. Max (f ` {b \<in> A. g b = l})) ` g ` A"
    using a(1) by (intro image_eqI [of _ _ "g a"]) auto
qed (use assms in simp)

text \<open>
  Info advertises each set of external labels of the blocks once, in order, with the earliest and the
  latest time of its blocks, and the earliest and the latest time of all blocks as a whole; so the answer
  does not depend on the order of the blocks.
\<close>

theorem info_response_exact:
  "info_response blocks =
    (let sets = sorted_list_of_set (bm_external_labels ` set blocks);
         times = (\<lambda>l. set (filter (\<lambda>b. bm_external_labels b = l) blocks)) in
     \<lparr>in_label_sets = sets, in_component_type = ''store'',
      in_min_time = (if blocks = [] then 0 else Min (bm_min_time ` set blocks)),
      in_max_time = (if blocks = [] then 0 else Max (bm_max_time ` set blocks)),
      in_supports_sharding = False, in_supports_without_replica_labels = False,
      in_tsdb_infos = map (\<lambda>l. \<lparr>ti_labels = l, ti_min_time = Min (bm_min_time ` times l),
        ti_max_time = Max (bm_max_time ` times l)\<rparr>) sets\<rparr>)"
proof -
  let ?m = "block_ranges blocks"
  have ok: "bt_ok ?m" and get: "bt_get ?m = range_of_blocks blocks"
    using block_ranges_fold [of blocks] by (simp_all add: block_ranges_def)
  have "dom (range_of_blocks blocks) = bm_external_labels ` set blocks"
    by (auto simp: range_of_blocks_def Let_def filter_empty_conv dom_def)
  then have keys: "map fst ?m = sorted_list_of_set (bm_external_labels ` set blocks)"
    using bt.keys_eq [OF ok] by (simp add: get bt_keys_def)
  have entry: "range_of_blocks blocks l = Some r" if "(l, r) \<in> set ?m" for l r
    using that ok get [symmetric] bt_ok_distinct [OF ok] by (simp add: bt_get_def)
  have val: "r = (Min (bm_min_time ` set (filter (\<lambda>b. bm_external_labels b = l) blocks)),
        Max (bm_max_time ` set (filter (\<lambda>b. bm_external_labels b = l) blocks)))" if "(l, r) \<in> set ?m" for l r
    using entry [OF that] by (auto simp: range_of_blocks_def Let_def split: if_splits)
  have infos: "map (\<lambda>(l, r). \<lparr>ti_labels = l, ti_min_time = fst r, ti_max_time = snd r\<rparr>) ?m
    = map (\<lambda>l. \<lparr>ti_labels = l, ti_min_time = Min (bm_min_time ` set (filter (\<lambda>b. bm_external_labels b = l) blocks)),
        ti_max_time = Max (bm_max_time ` set (filter (\<lambda>b. bm_external_labels b = l) blocks))\<rparr>) (map fst ?m)"
    by (auto dest!: val)
  have groups: "set (map fst ?m) = bm_external_labels ` set blocks" unfolding keys by simp
  have mins: "set (map (\<lambda>(l, r). fst r) ?m)
      = (\<lambda>l. Min (bm_min_time ` {b \<in> set blocks. bm_external_labels b = l})) ` bm_external_labels ` set blocks"
    unfolding groups [symmetric] using val by (intro group_image) auto
  have maxs: "set (map (\<lambda>(l, r). snd r) ?m)
      = (\<lambda>l. Max (bm_max_time ` {b \<in> set blocks. bm_external_labels b = l})) ` bm_external_labels ` set blocks"
    unfolding groups [symmetric] using val by (intro group_image) auto
  have empty: "?m = [] \<longleftrightarrow> blocks = []"
    using arg_cong [OF keys, of set] by auto
  have total_min: "unwrap_or 0 (min_of (map (\<lambda>(l, r). fst r) ?m)) = (if blocks = [] then 0 else Min (bm_min_time ` set blocks))"
    unfolding min_of_eq mins using Min_of_groups [of "set blocks" bm_min_time bm_external_labels] empty
    by (auto simp: unwrap_or_def)
  have total_max: "unwrap_or 0 (max_of (map (\<lambda>(l, r). snd r) ?m)) = (if blocks = [] then 0 else Max (bm_max_time ` set blocks))"
    unfolding max_of_eq maxs using Max_of_groups [of "set blocks" bm_max_time bm_external_labels] empty
    by (auto simp: unwrap_or_def)
  show ?thesis
    by (simp only: info_response_def Let_def infos total_min total_max keys)
qed

section \<open>Serving a stored chunk\<close>

definition requested :: "store_codec \<Rightarrow> int list \<Rightarrow> int \<Rightarrow> bytes option \<Rightarrow> raw_chunk option" where
  "requested codec aggrs kind slot =
     (case slot of None \<Rightarrow> None
      | Some d \<Rightarrow> if kind \<in> set aggrs then Some \<lparr>rk_type = XorEncoding, rk_data = d, rk_hash = sc_xxh64 codec d\<rparr> else None)"

text \<open>
  From a stored aggregate chunk the service takes exactly the requested aggregates the chunk has, each
  with its own bytes, and no chunk when there is none.
\<close>

theorem stored_aggregates_are_served:
  assumes "store_ok env repository_for cache w" and "repository_for uri = Some r"
    and "ev_objects env (rp_name r) (lc_chunk_file_path c) = Some content"
    and "stores content (lc_chunk_file_offset c) (frame crc 255 (encode_aggregate cnt sm mn mx ctr))"
    and "\<forall>slot \<in> {cnt, sm, mn, mx, ctr}. slot_ok slot"
    and "length (encode_aggregate cnt sm mn mx ctr) < 2 ^ 35"
  shows "fst (encode_chunk codec repository_for (repository_chunks crc env) uri c aggrs w) =
    (let result = \<lparr>ac_min_time = lc_chunk_mint c, ac_max_time = lc_chunk_maxt c, ac_raw = None,
           ac_count = requested codec aggrs AGGR_COUNT cnt, ac_sum = requested codec aggrs AGGR_SUM sm,
           ac_min = requested codec aggrs AGGR_MIN mn, ac_max = requested codec aggrs AGGR_MAX mx,
           ac_counter = requested codec aggrs AGGR_COUNTER ctr\<rparr> in
     Inr (if list_all (\<lambda>a. a = None) [ac_count result, ac_sum result, ac_min result, ac_max result, ac_counter result]
          then None else Some result))"
proof -
  let ?d = "\<lparr>sd_repository_uri = uri, sd_downsample_resolution = 0, sd_series_mint = 0, sd_series_maxt = 0,
     sd_labels = [], sd_chunks = []\<rparr>"
  let ?stored = "\<lambda>_ _ _. Inr (Aggregate cnt sm mn mx ctr)"
  have dec: "decode_encoded_record crc (frame crc 255 (encode_aggregate cnt sm mn mx ctr)) = Inr (Aggregate cnt sm mn mx ctr)"
    using decode_aggregate_encode [OF assms(5)] validated_payload_encode [OF assms(6)]
    by (simp add: decode_encoded_record_def chunk_consts)
  have "chunk_stored crc env repository_for ?stored ?d c"
    using assms(2-4,6) dec by (auto simp: chunk_stored_def)
  from repository_answers.encode_ans [OF assms(1) this, of codec aggrs]
  have "fst (encode_chunk codec repository_for (repository_chunks crc env) uri c aggrs w)
    = Inr (encode_chunk_data codec c aggrs (Aggregate cnt sm mn mx ctr))"
    by (simp add: chunk_answer_of_def assms(2))
  moreover have "aggregate_chunk codec slot aggrs kind = requested codec aggrs kind slot" for slot kind
    by (simp add: aggregate_chunk_def requested_def make_raw_chunk_def split: option.split)
  ultimately show ?thesis
    by (simp add: encode_chunk_data_def Let_def)
qed

definition demo_aggregate :: bytes where
  "demo_aggregate = frame (\<lambda>_. 7) 255 (encode_aggregate None (Some [1, 2]) None None (Some [9]))"

lemma demo_aggregate_size: "length demo_aggregate < 2 ^ 62 \<and> length demo_aggregate < 2 ^ 64"
  by (simp add: demo_aggregate_def frame_def encode_aggregate_def encode_slot_def encode_uvarint_small)

theorem stored_aggregates_are_served_witness:
  "fst (encode_chunk demo_codec (\<lambda>_. Some demo_repository) (repository_chunks (\<lambda>_. 7) (demo_env demo_aggregate))
      ''u'' demo_location [AGGR_COUNT, AGGR_SUM] demo_world)
    = Inr (Some \<lparr>ac_min_time = 0, ac_max_time = 10, ac_raw = None, ac_count = None,
        ac_sum = Some \<lparr>rk_type = XorEncoding, rk_data = [1, 2], rk_hash = 5\<rparr>,
        ac_min = None, ac_max = None, ac_counter = None\<rparr>)"
proof -
  have "world_ok (demo_env demo_aggregate) demo_cache demo_world"
    by (rule demo_ok, rule demo_aggregate_size [THEN conjunct1])
  then have ok: "store_ok (demo_env demo_aggregate) (\<lambda>_. Some demo_repository) (Some demo_cache) demo_world"
    using demo_no_fault by (simp add: store_ok_def demo_repository_def)
  have stored: "stores demo_aggregate (lc_chunk_file_offset demo_location)
      (frame (\<lambda>_. 7) 255 (encode_aggregate None (Some [1, 2]) None None (Some [9])))"
    unfolding demo_aggregate_def [symmetric]
    using demo_aggregate_size by (simp add: stores_def slice_def demo_location_def)
  have obj: "ev_objects (demo_env demo_aggregate) (rp_name demo_repository) (lc_chunk_file_path demo_location)
      = Some demo_aggregate"
    by (simp add: demo_env_def demo_repository_def demo_location_def)
  show ?thesis
    using stored_aggregates_are_served [OF ok _ obj stored, where codec = demo_codec and aggrs = "[AGGR_COUNT, AGGR_SUM]" and uri = "''u''"]
    by (simp add: slot_ok_def encode_aggregate_def encode_slot_def encode_uvarint_small requested_def aggr_consts
        demo_codec_def demo_location_def)
qed

end
