(* ===== verification/Block_Rows.thy ===== *)
theory Block_Rows
  imports Arrow_Data Tsdb_Index Config
begin

text \<open>
  The data of the block index, the first half of \<open>src/block_index.rs\<close> without its files: the block
  metadata, the rows of the three tables, how a row is made from a block or a series, the schemas and the
  record batches.

  Parameters, gathered in \<open>index_codec\<close>: \<open>serde_json\<close> on the values the code writes and reads.  Counters
  that come from JSON are \<open>u64\<close> words, so that sums wrap as in the release profile.
\<close>

section \<open>Block metadata\<close>

record block_stats =
  bs_num_samples :: u64
  bs_num_float_samples :: u64
  bs_num_histogram_samples :: u64
  bs_num_series :: u64
  bs_num_chunks :: u64

record compaction =
  cp_level :: int
  cp_sources :: "string list"

record block_file =
  bf_rel_path :: string
  bf_size_bytes :: u64

record thanos_meta =
  tm_labels :: labels
  tm_resolution :: int
  tm_source :: string
  tm_files :: "block_file list"
  tm_series_max_size :: "int option"
  tm_upload_time :: "string option"

record block_meta =
  me_ulid :: string
  me_min_time :: int
  me_max_time :: int
  me_version :: int
  me_stats :: block_stats
  me_compaction :: compaction
  me_thanos :: thanos_meta

section \<open>Rows\<close>

record block_index_row =
  br_repository_name :: string
  br_repository_uri :: string
  br_block_ulid :: string
  br_block_path :: string
  br_meta_path :: string
  br_min_time :: int
  br_max_time :: int
  br_downsample_resolution :: int
  br_external_labels :: string
  br_external_labels_map :: labels
  br_source :: string
  br_upload_time :: "string option"
  br_version :: int
  br_compaction_level :: int
  br_compaction_sources :: "string list"
  br_num_samples :: u64
  br_num_float_samples :: u64
  br_num_histogram_samples :: u64
  br_num_series :: u64
  br_num_chunks :: u64
  br_index_series_max_size :: "int option"
  br_index_size_bytes :: u64
  br_chunks_size_bytes :: u64
  br_total_size_bytes :: u64
  br_files :: string

record chunk_index_row =
  xr_repository_name :: string
  xr_repository_uri :: string
  xr_block_ulid :: string
  xr_block_path :: string
  xr_downsample_resolution :: int
  xr_metric_name :: string
  xr_chunk_file_path :: string
  xr_chunk_ref :: u64
  xr_chunk_file_seq :: u32
  xr_chunk_file_offset :: u64
  xr_series_ref :: nat
  xr_series_mint :: int
  xr_series_maxt :: int
  xr_chunk_mint :: int
  xr_chunk_maxt :: int
  xr_labels :: labels
  xr_labels_json :: string

record series_index_row =
  sr_repository_uri :: string
  sr_downsample_resolution :: int
  sr_series_mint :: int
  sr_series_maxt :: int
  sr_labels_json :: string
  sr_chunks_json :: string

record series_chunk_location =
  sl_chunk_file_path :: string
  sl_chunk_file_offset :: u64
  sl_chunk_mint :: int
  sl_chunk_maxt :: int

record index_codec =
  ix_meta_from_json :: "bytes \<Rightarrow> string + block_meta"
  ix_labels_json :: "labels \<Rightarrow> string + string"
  ix_files_json :: "block_file list \<Rightarrow> string + string"
  ix_locations_json :: "series_chunk_location list \<Rightarrow> string + string"

type_synonym metric_labels = "(string \<times> string list) list"

definition INDEX_BATCH_SIZE :: nat where "INDEX_BATCH_SIZE = 5000"

section \<open>Making rows\<close>

definition index_row ::
  "index_codec \<Rightarrow> repository_config \<Rightarrow> block_meta \<Rightarrow> string \<Rightarrow> string \<Rightarrow> string fault + block_index_row" where
  "index_row codec repository meta block_path meta_path =
     (let files = tm_files (me_thanos meta);
          size = (\<lambda>keep. sum_list (map bf_size_bytes (filter keep files))) in
      tryR (map_err Err (ix_labels_json codec (tm_labels (me_thanos meta)))) (\<lambda>external_labels.
      tryR (map_err Err (ix_files_json codec files)) (\<lambda>files_json.
        Inr \<lparr>br_repository_name = rc_name repository, br_repository_uri = rc_uri repository,
          br_block_ulid = me_ulid meta, br_block_path = block_path, br_meta_path = meta_path,
          br_min_time = me_min_time meta, br_max_time = me_max_time meta,
          br_downsample_resolution = tm_resolution (me_thanos meta),
          br_external_labels = external_labels, br_external_labels_map = tm_labels (me_thanos meta),
          br_source = tm_source (me_thanos meta), br_upload_time = tm_upload_time (me_thanos meta),
          br_version = me_version meta, br_compaction_level = cp_level (me_compaction meta),
          br_compaction_sources = cp_sources (me_compaction meta),
          br_num_samples = bs_num_samples (me_stats meta),
          br_num_float_samples = bs_num_float_samples (me_stats meta),
          br_num_histogram_samples = bs_num_histogram_samples (me_stats meta),
          br_num_series = bs_num_series (me_stats meta), br_num_chunks = bs_num_chunks (me_stats meta),
          br_index_series_max_size = tm_series_max_size (me_thanos meta),
          br_index_size_bytes = size (\<lambda>f. bf_rel_path f = ''index''),
          br_chunks_size_bytes = size (\<lambda>f. starts_with ''chunks/'' (bf_rel_path f)),
          br_total_size_bytes = size (\<lambda>_. True), br_files = files_json\<rparr>)))"

text \<open>The upper half of a chunk reference numbers the chunk file from zero, the lower half is the offset.\<close>

definition chunk_file_seq :: "u64 \<Rightarrow> u32" where
  "chunk_file_seq reference = ucast (drop_bit 32 reference)"

definition chunk_file_offset :: "u64 \<Rightarrow> u64" where
  "chunk_file_offset reference = reference AND 0xFFFFFFFF"

definition chunk_file_path :: "string \<Rightarrow> u64 \<Rightarrow> string" where
  "chunk_file_path block_path reference =
     block_path @ ''/chunks/'' @ pad_zeros 6 (show_nat (unat (chunk_file_seq reference + 1)))"

definition chunk_location_of :: "string \<Rightarrow> index_chunk \<Rightarrow> series_chunk_location" where
  "chunk_location_of block_path chunk =
     \<lparr>sl_chunk_file_path = chunk_file_path block_path (ic_reference chunk),
      sl_chunk_file_offset = chunk_file_offset (ic_reference chunk),
      sl_chunk_mint = ic_mint chunk, sl_chunk_maxt = ic_maxt chunk\<rparr>"

text \<open>The labels of the block are added where the series has none of that name.\<close>

definition with_external_labels :: "block_meta \<Rightarrow> labels \<Rightarrow> labels" where
  "with_external_labels meta labels =
     fold (\<lambda>(name, v) m. bt_or_insert name v m) (tm_labels (me_thanos meta)) labels"

definition first_mint :: "index_series \<Rightarrow> string fault + int" where
  "first_mint series =
     (case is_chunks series of [] \<Rightarrow> Inl (Err ''series has no chunks'') | c # _ \<Rightarrow> Inr (ic_mint c))"

definition last_maxt :: "index_series \<Rightarrow> string fault + int" where
  "last_maxt series =
     (case rev (is_chunks series) of [] \<Rightarrow> Inl (Err ''series has no chunks'') | c # _ \<Rightarrow> Inr (ic_maxt c))"

definition append_series_row ::
  "index_codec \<Rightarrow> string \<Rightarrow> block_meta \<Rightarrow> string \<Rightarrow> index_series \<Rightarrow> series_index_row list
   \<Rightarrow> (string fault + nat) \<times> series_index_row list" where
  "append_series_row codec repository_uri meta block_path series series_rows =
     (case tryR (first_mint series) (\<lambda>series_mint.
           tryR (last_maxt series) (\<lambda>series_maxt.
           tryR (map_err Err (ix_labels_json codec (with_external_labels meta (is_labels series)))) (\<lambda>labels_json.
           tryR (map_err Err (ix_locations_json codec (map (chunk_location_of block_path) (is_chunks series))))
             (\<lambda>chunks_json.
               Inr \<lparr>sr_repository_uri = repository_uri,
                 sr_downsample_resolution = tm_resolution (me_thanos meta),
                 sr_series_mint = series_mint, sr_series_maxt = series_maxt,
                 sr_labels_json = labels_json, sr_chunks_json = chunks_json\<rparr>)))) of
        Inl e \<Rightarrow> (Inl e, series_rows)
      | Inr row \<Rightarrow> (Inr (length (is_chunks series)), series_rows @ [row]))"

definition chunk_row_of ::
  "repository_config \<Rightarrow> block_meta \<Rightarrow> string \<Rightarrow> index_series \<Rightarrow> string \<Rightarrow> int \<Rightarrow> int \<Rightarrow> labels \<Rightarrow> string
   \<Rightarrow> index_chunk \<Rightarrow> chunk_index_row" where
  "chunk_row_of repository meta block_path series metric_name series_mint series_maxt labels labels_json chunk =
     \<lparr>xr_repository_name = rc_name repository, xr_repository_uri = rc_uri repository,
      xr_block_ulid = me_ulid meta, xr_block_path = block_path,
      xr_downsample_resolution = tm_resolution (me_thanos meta), xr_metric_name = metric_name,
      xr_chunk_file_path = chunk_file_path block_path (ic_reference chunk),
      xr_chunk_ref = ic_reference chunk, xr_chunk_file_seq = chunk_file_seq (ic_reference chunk),
      xr_chunk_file_offset = chunk_file_offset (ic_reference chunk), xr_series_ref = is_reference series,
      xr_series_mint = series_mint, xr_series_maxt = series_maxt,
      xr_chunk_mint = ic_mint chunk, xr_chunk_maxt = ic_maxt chunk, xr_labels = labels,
      xr_labels_json = labels_json\<rparr>"

text \<open>The chunk rows are pushed before the locations are serialized, so they stay when that fails.\<close>

definition append_chunk_rows ::
  "index_codec \<Rightarrow> repository_config \<Rightarrow> block_meta \<Rightarrow> string \<Rightarrow> index_series
   \<Rightarrow> chunk_index_row list \<Rightarrow> series_index_row list
   \<Rightarrow> (string fault + nat) \<times> chunk_index_row list \<times> series_index_row list" where
  "append_chunk_rows codec repository meta block_path series rows series_rows =
     (let labels = with_external_labels meta (is_labels series) in
      case tryR (first_mint series) (\<lambda>series_mint.
           tryR (last_maxt series) (\<lambda>series_maxt.
           tryR (ok_or ''series is missing __name__ label'' (bt_get (is_labels series) ''__name__'')) (\<lambda>metric_name.
           tryR (map_err Err (ix_labels_json codec labels)) (\<lambda>labels_json.
             Inr (series_mint, series_maxt, metric_name, labels_json))))) of
        Inl e \<Rightarrow> (Inl e, rows, series_rows)
      | Inr (series_mint, series_maxt, metric_name, labels_json) \<Rightarrow>
          (let rows' = rows @ map (chunk_row_of repository meta block_path series metric_name series_mint
                 series_maxt labels labels_json) (is_chunks series) in
           case map_err Err (ix_locations_json codec (map (chunk_location_of block_path) (is_chunks series))) of
             Inl e \<Rightarrow> (Inl e, rows', series_rows)
           | Inr chunks_json \<Rightarrow>
               (Inr (length (is_chunks series)), rows', series_rows @
                 [\<lparr>sr_repository_uri = rc_uri repository,
                   sr_downsample_resolution = tm_resolution (me_thanos meta),
                   sr_series_mint = series_mint, sr_series_maxt = series_maxt,
                   sr_labels_json = labels_json, sr_chunks_json = chunks_json\<rparr>])))"

section \<open>Labels of metrics\<close>

text \<open>\<open>entry(k).or_default().extend(values)\<close>\<close>

definition extend_entry :: "string \<Rightarrow> string list \<Rightarrow> metric_labels \<Rightarrow> metric_labels" where
  "extend_entry k vs m =
     bt_insert k (fold insort_insert vs (case bt_get m k of Some s \<Rightarrow> s | None \<Rightarrow> [])) m"

definition collect_metric_labels ::
  "labels \<Rightarrow> index_series list \<Rightarrow> metric_labels \<Rightarrow> metric_labels" where
  "collect_metric_labels external_labels series metric_labels =
     fold (\<lambda>s m.
       case bt_get (is_labels s) ''__name__'' of
         None \<Rightarrow> m
       | Some metric_name \<Rightarrow>
           extend_entry metric_name
             (filter (\<lambda>label. label \<noteq> ''__name__'') (bt_keys (is_labels s) @ bt_keys external_labels)) m)
       series metric_labels"

definition merge_metric_labels :: "metric_labels \<Rightarrow> metric_labels \<Rightarrow> metric_labels" where
  "merge_metric_labels target source = fold (\<lambda>(metric, labels). extend_entry metric labels) source target"

end
