(* ===== verification/Block_Batches.thy ===== *)
theory Block_Batches
  imports Block_Rows
begin

text \<open>
  The Arrow schemas of the three index tables and the record batches made of their rows, from
  \<open>src/block_index.rs\<close>.  Every batch is checked against its schema by \<open>RecordBatch::try_new\<close>.
\<close>

section \<open>Schemas\<close>

definition plain_field :: "string \<Rightarrow> data_type \<Rightarrow> bool \<Rightarrow> field" where
  "plain_field name type nullable = \<lparr>fd_name = name, fd_type = type, fd_nullable = nullable\<rparr>"

definition block_schema :: "field list" where
  "block_schema =
     [plain_field ''repository_name'' Utf8Type False,
      plain_field ''repository_uri'' Utf8Type False,
      plain_field ''block_ulid'' Utf8Type False,
      plain_field ''block_path'' Utf8Type False,
      plain_field ''meta_path'' Utf8Type False,
      plain_field ''min_time'' Int64Type False,
      plain_field ''max_time'' Int64Type False,
      plain_field ''downsample_resolution'' Int64Type False,
      plain_field ''external_labels'' Utf8Type False,
      plain_field ''external_labels_map'' string_map_type False,
      plain_field ''source'' Utf8Type False,
      plain_field ''upload_time'' Utf8Type True,
      plain_field ''version'' Int32Type False,
      plain_field ''compaction_level'' Int32Type False,
      plain_field ''compaction_sources'' string_list_type True,
      plain_field ''num_samples'' UInt64Type False,
      plain_field ''num_float_samples'' UInt64Type False,
      plain_field ''num_histogram_samples'' UInt64Type False,
      plain_field ''num_series'' UInt64Type False,
      plain_field ''num_chunks'' UInt64Type False,
      plain_field ''index_series_max_size'' Int64Type True,
      plain_field ''index_size_bytes'' UInt64Type False,
      plain_field ''chunks_size_bytes'' UInt64Type False,
      plain_field ''total_size_bytes'' UInt64Type False,
      plain_field ''files'' Utf8Type False]"

definition chunk_schema :: "field list" where
  "chunk_schema =
     [plain_field ''repository_name'' Utf8Type False,
      plain_field ''repository_uri'' Utf8Type False,
      plain_field ''block_ulid'' Utf8Type False,
      plain_field ''block_path'' Utf8Type False,
      plain_field ''downsample_resolution'' Int64Type False,
      plain_field ''metric_name'' Utf8Type False,
      plain_field ''chunk_file_path'' Utf8Type False,
      plain_field ''chunk_ref'' UInt64Type False,
      plain_field ''chunk_file_seq'' UInt32Type False,
      plain_field ''chunk_file_offset'' UInt64Type False,
      plain_field ''series_ref'' UInt64Type False,
      plain_field ''series_mint'' Int64Type False,
      plain_field ''series_maxt'' Int64Type False,
      plain_field ''chunk_mint'' Int64Type False,
      plain_field ''chunk_maxt'' Int64Type False,
      plain_field ''labels'' string_map_type False,
      plain_field ''labels_json'' Utf8Type False]"

definition series_schema :: "field list" where
  "series_schema =
     [plain_field ''repository_uri'' Utf8Type False,
      plain_field ''downsample_resolution'' Int64Type False,
      plain_field ''series_mint'' Int64Type False,
      plain_field ''series_maxt'' Int64Type False,
      plain_field ''labels_json'' Utf8Type False,
      plain_field ''chunks_json'' Utf8Type False]"

section \<open>Record batches\<close>

definition block_columns :: "block_index_row list \<Rightarrow> column list" where
  "block_columns rows =
     [StringColumn (map br_repository_name rows),
      StringColumn (map br_repository_uri rows),
      StringColumn (map br_block_ulid rows),
      StringColumn (map br_block_path rows),
      StringColumn (map br_meta_path rows),
      Int64Column (map br_min_time rows),
      Int64Column (map br_max_time rows),
      Int64Column (map br_downsample_resolution rows),
      StringColumn (map br_external_labels rows),
      StringMapColumn (map br_external_labels_map rows),
      StringColumn (map br_source rows),
      OptStringColumn (map br_upload_time rows),
      Int32Column (map br_version rows),
      Int32Column (map br_compaction_level rows),
      StringListColumn (map br_compaction_sources rows),
      UInt64Column (map (unat o br_num_samples) rows),
      UInt64Column (map (unat o br_num_float_samples) rows),
      UInt64Column (map (unat o br_num_histogram_samples) rows),
      UInt64Column (map (unat o br_num_series) rows),
      UInt64Column (map (unat o br_num_chunks) rows),
      OptInt64Column (map br_index_series_max_size rows),
      UInt64Column (map (unat o br_index_size_bytes) rows),
      UInt64Column (map (unat o br_chunks_size_bytes) rows),
      UInt64Column (map (unat o br_total_size_bytes) rows),
      StringColumn (map br_files rows)]"

definition block_record_batch :: "block_index_row list \<Rightarrow> string fault + batch" where
  "block_record_batch rows = batch_try_new block_schema (block_columns rows)"

definition chunk_columns :: "chunk_index_row list \<Rightarrow> column list" where
  "chunk_columns rows =
     [StringColumn (map xr_repository_name rows),
      StringColumn (map xr_repository_uri rows),
      StringColumn (map xr_block_ulid rows),
      StringColumn (map xr_block_path rows),
      Int64Column (map xr_downsample_resolution rows),
      StringColumn (map xr_metric_name rows),
      StringColumn (map xr_chunk_file_path rows),
      UInt64Column (map (unat o xr_chunk_ref) rows),
      UInt32Column (map (unat o xr_chunk_file_seq) rows),
      UInt64Column (map (unat o xr_chunk_file_offset) rows),
      UInt64Column (map xr_series_ref rows),
      Int64Column (map xr_series_mint rows),
      Int64Column (map xr_series_maxt rows),
      Int64Column (map xr_chunk_mint rows),
      Int64Column (map xr_chunk_maxt rows),
      StringMapColumn (map xr_labels rows),
      StringColumn (map xr_labels_json rows)]"

definition chunk_record_batch :: "chunk_index_row list \<Rightarrow> string fault + batch" where
  "chunk_record_batch rows = batch_try_new chunk_schema (chunk_columns rows)"

definition series_columns :: "series_index_row list \<Rightarrow> column list" where
  "series_columns rows =
     [StringColumn (map sr_repository_uri rows),
      Int64Column (map sr_downsample_resolution rows),
      Int64Column (map sr_series_mint rows),
      Int64Column (map sr_series_maxt rows),
      StringColumn (map sr_labels_json rows),
      StringColumn (map sr_chunks_json rows)]"

definition series_record_batch :: "series_index_row list \<Rightarrow> string fault + batch" where
  "series_record_batch rows = batch_try_new series_schema (series_columns rows)"

section \<open>The batches fit their schemas\<close>

definition batch_of :: "field list \<Rightarrow> column list \<Rightarrow> nat \<Rightarrow> batch" where
  "batch_of schema columns n = \<lparr>ba_columns = zip (map fd_name schema) columns, ba_num_rows = n\<rparr>"

lemma block_record_batch_ok: "block_record_batch rows = Inr (batch_of block_schema (block_columns rows) (length rows))"
  by (simp add: block_record_batch_def batch_try_new_def block_schema_def block_columns_def plain_field_def batch_of_def)

lemma chunk_record_batch_ok: "chunk_record_batch rows = Inr (batch_of chunk_schema (chunk_columns rows) (length rows))"
  by (simp add: chunk_record_batch_def batch_try_new_def chunk_schema_def chunk_columns_def plain_field_def batch_of_def)

lemma series_record_batch_ok: "series_record_batch rows = Inr (batch_of series_schema (series_columns rows) (length rows))"
  by (simp add: series_record_batch_def batch_try_new_def series_schema_def series_columns_def plain_field_def batch_of_def)

end
