(* ===== verification/Block_Files.thy ===== *)
theory Block_Files
  imports Block_Batches Repository
begin

text \<open>
  The files of the block index, from \<open>src/block_index.rs\<close>: where they are, the streaming writers of one
  block's tables, the manifest of a finished block, loading it again, and the clean-up.

  Files are those of \<open>Range_Cache.world\<close>, and every call of \<open>std::fs\<close> and of the Parquet writer counts as
  an outside call that may fail.  \<open>parquet schema batches\<close> is the file \<open>ArrowWriter\<close> has written when it is
  closed; until then the file it was given is open, with contents nobody reads, and is empty here.
  \<open>directory_view\<close> is what the file system says of a directory.  The paths here end in a file name, so
  \<open>Path::file_name\<close> is what follows the last slash.
\<close>

section \<open>Paths\<close>

definition local_path :: "string \<Rightarrow> string" where
  "local_path location = (case strip_prefix ''file://'' location of Some path \<Rightarrow> path | None \<Rightarrow> location)"

text \<open>\<open>Path::join\<close>: an absolute path replaces the directory.\<close>

definition join_path :: "string \<Rightarrow> string \<Rightarrow> string" where
  "join_path directory name = (if starts_with ''/'' name then name else path_join directory name)"

definition block_index_file_path :: "string \<Rightarrow> string" where
  "block_index_file_path location = join_path (local_path location) ''block_index.parquet''"

definition chunk_index_directory_path :: "string \<Rightarrow> string" where
  "chunk_index_directory_path location = join_path (local_path location) ''indexes''"

definition series_index_directory_path :: "string \<Rightarrow> string" where
  "series_index_directory_path location = join_path (local_path location) ''series''"

definition chunk_index_file_path :: "string \<Rightarrow> string \<Rightarrow> string" where
  "chunk_index_file_path location block_ulid =
     join_path (join_path (local_path location) ''indexes'') (block_ulid @ ''.parquet'')"

definition series_index_file_path :: "string \<Rightarrow> string \<Rightarrow> string" where
  "series_index_file_path location block_ulid =
     join_path (join_path (local_path location) ''series'') (block_ulid @ ''.parquet'')"

definition block_manifest_file_path :: "string \<Rightarrow> string \<Rightarrow> string" where
  "block_manifest_file_path location block_ulid =
     join_path (join_path (local_path location) ''manifests'') (block_ulid @ ''.json'')"

definition parent_path :: "string \<Rightarrow> string" where
  "parent_path path =
     (case dropWhile (\<lambda>c. c \<noteq> CHR ''/'') (rev path) of
        [] \<Rightarrow> ''''
      | [slash] \<Rightarrow> ''/''
      | slash # directory \<Rightarrow> rev directory)"

definition has_file_name :: "string \<Rightarrow> bool" where
  "has_file_name path \<longleftrightarrow> file_name path \<noteq> '''' \<and> file_name path \<noteq> ''..''"

definition file_stem :: "string \<Rightarrow> string" where
  "file_stem path =
     (case path_extension path of
        None \<Rightarrow> file_name path
      | Some ext \<Rightarrow> take (length (file_name path) - (length ext + 1)) (file_name path))"

definition with_extension :: "string \<Rightarrow> string \<Rightarrow> string" where
  "with_extension path ext =
     (case path_extension path of
        None \<Rightarrow> path @ ''.'' @ ext
      | Some old \<Rightarrow> take (length path - length old) path @ ext)"

definition partial_path :: "string \<Rightarrow> string" where
  "partial_path path = path @ ''.partial''"

section \<open>Buffered rows and the Parquet writer\<close>

type_synonym parquet = "field list \<Rightarrow> batch list \<Rightarrow> bytes"

text \<open>One table being written: the rows not yet written, and the batches written.\<close>

record 'r table_writer =
  tw_rows :: "'r list"
  tw_batches :: "batch list"

definition new_table :: "'r table_writer" where
  "new_table = \<lparr>tw_rows = [], tw_batches = []\<rparr>"

text \<open>\<open>flush_chunk_rows\<close> and \<open>flush_series_rows\<close>: on an error the rows stay.\<close>

definition flush_rows ::
  "env \<Rightarrow> ('r list \<Rightarrow> string fault + batch) \<Rightarrow> 'r table_writer \<Rightarrow> 'r table_writer action" where
  "flush_rows env record_batch table w =
     (if tw_rows table = [] then (Inr table, w)
      else
        case record_batch (tw_rows table) of
          Inl e \<Rightarrow> (Inl e, w)
        | Inr batch \<Rightarrow>
            doW (outside env (retW ())) (\<lambda>_. doW (outside env (retW ())) (\<lambda>_.
              retW \<lparr>tw_rows = [], tw_batches = tw_batches table @ [batch]\<rparr>)) w)"

text \<open>Opening a table: the directory, the temporary file, the writer.\<close>

definition open_table :: "env \<Rightarrow> string \<Rightarrow> unit action" where
  "open_table env path =
     (if \<not> has_file_name path then failW ''invalid index path''
      else
        doW (if parent_path path = '''' then retW () else fs_create_dir_all env (parent_path path)) (\<lambda>_.
        doW (fs_write env (partial_path path) []) (\<lambda>_. outside env (retW ()))))"

definition close_table :: "env \<Rightarrow> parquet \<Rightarrow> field list \<Rightarrow> string \<Rightarrow> batch list \<Rightarrow> unit action" where
  "close_table env parquet schema path batches = fs_write env (partial_path path) (parquet schema batches)"

text \<open>\<open>let _ = fs::remove_file(..)\<close>\<close>

definition remove_quietly :: "env \<Rightarrow> string \<Rightarrow> world \<Rightarrow> world" where
  "remove_quietly env path w = snd (fs_remove_file env path w)"

section \<open>The series table alone\<close>

record series_progress =
  ss_table :: "series_index_row table_writer"
  ss_series_count :: nat
  ss_chunk_count :: nat
  ss_error :: "string fault option"

record series_stream = series_progress +
  ss_world :: world

definition visit_series ::
  "env \<Rightarrow> index_codec \<Rightarrow> string \<Rightarrow> block_meta \<Rightarrow> string \<Rightarrow> index_series \<Rightarrow> series_stream \<Rightarrow> series_stream" where
  "visit_series env codec repository_uri meta block_path series s =
     (if ss_error s \<noteq> None then s
      else
        let s1 = s\<lparr>ss_series_count := ss_series_count s + 1\<rparr>;
            (r, rows) = append_series_row codec repository_uri meta block_path series (tw_rows (ss_table s)) in
        case r of
          Inl e \<Rightarrow> s1\<lparr>ss_error := Some e\<rparr>
        | Inr count \<Rightarrow>
            (let table = (ss_table s)\<lparr>tw_rows := rows\<rparr>;
                 s2 = s1\<lparr>ss_chunk_count := ss_chunk_count s + count, ss_table := table\<rparr> in
             if length rows < INDEX_BATCH_SIZE then s2
             else
               case flush_rows env series_record_batch table (ss_world s) of
                 (Inl e, w) \<Rightarrow> s2\<lparr>ss_error := Some e, ss_world := w\<rparr>
               | (Inr table', w) \<Rightarrow> s2\<lparr>ss_table := table', ss_world := w\<rparr>))"

text \<open>
  The end of the writer, \<open>match parsed\<close>.  An error of the parser or of the visitor falls through to the
  removal of the temporary file; an error of the last flush, of closing or of renaming leaves the function
  at once.  A panic of the parser leaves it too.
\<close>

definition finish_series ::
  "env \<Rightarrow> parquet \<Rightarrow> string \<Rightarrow> string fault + unit \<Rightarrow> series_stream
   \<Rightarrow> (string fault + (nat \<times> nat)) \<times> world" where
  "finish_series env parquet path parsed s =
     (case tryR parsed (\<lambda>_. case ss_error s of Some e \<Rightarrow> Inl e | None \<Rightarrow> Inr ()) of
        Inl Panic \<Rightarrow> (Inl Panic, ss_world s)
      | Inl (Err e) \<Rightarrow> (Inl (Err e), remove_quietly env (partial_path path) (ss_world s))
      | Inr _ \<Rightarrow>
          doW (flush_rows env series_record_batch (ss_table s)) (\<lambda>table.
          doW (close_table env parquet series_schema path (tw_batches table)) (\<lambda>_.
          doW (fs_rename env (partial_path path) path) (\<lambda>_.
            retW (ss_series_count s, ss_chunk_count s)))) (ss_world s))"

definition write_series_index_streaming ::
  "env \<Rightarrow> (bytes \<Rightarrow> u32) \<Rightarrow> parquet \<Rightarrow> index_codec \<Rightarrow> string \<Rightarrow> block_meta \<Rightarrow> string \<Rightarrow> bytes \<Rightarrow> string
   \<Rightarrow> world \<Rightarrow> ((string fault + (nat \<times> nat)) \<times> world) option" where
  "write_series_index_streaming env crc parquet codec repository_uri meta block_path index series_index_path w =
     (let path = local_path series_index_path in
      case open_table env path w of
        (Inl e, w1) \<Rightarrow> Some (Inl e, w1)
      | (Inr _, w1) \<Rightarrow>
          map_option (\<lambda>(parsed, s). finish_series env parquet path parsed s)
            (parse_each crc index (visit_series env codec repository_uri meta block_path)
              \<lparr>ss_table = new_table, ss_series_count = 0, ss_chunk_count = 0, ss_error = None, ss_world = w1\<rparr>))"

section \<open>The chunk table and the series table\<close>

record both_progress =
  bo_chunks :: "chunk_index_row table_writer"
  bo_series :: "series_index_row table_writer"
  bo_metric_labels :: metric_labels
  bo_series_count :: nat
  bo_chunk_count :: nat
  bo_error :: "string fault option"

record both_stream = both_progress +
  bo_world :: world

definition flush_full ::
  "env \<Rightarrow> ('r list \<Rightarrow> string fault + batch) \<Rightarrow> 'r table_writer \<Rightarrow> string fault option \<Rightarrow> world
   \<Rightarrow> 'r table_writer \<times> string fault option \<times> world" where
  "flush_full env record_batch table error w =
     (if length (tw_rows table) < INDEX_BATCH_SIZE then (table, error, w)
      else
        case flush_rows env record_batch table w of
          (Inl e, w') \<Rightarrow> (table, Some e, w')
        | (Inr table', w') \<Rightarrow> (table', error, w'))"

definition visit_both ::
  "env \<Rightarrow> index_codec \<Rightarrow> repository_config \<Rightarrow> block_meta \<Rightarrow> string \<Rightarrow> index_series \<Rightarrow> both_stream \<Rightarrow> both_stream" where
  "visit_both env codec repository meta block_path series s =
     (if bo_error s \<noteq> None then s
      else
        let s1 = s\<lparr>bo_series_count := bo_series_count s + 1,
                   bo_metric_labels := collect_metric_labels (tm_labels (me_thanos meta)) [series] (bo_metric_labels s)\<rparr>;
            (r, rows, series_rows) = append_chunk_rows codec repository meta block_path series
              (tw_rows (bo_chunks s)) (tw_rows (bo_series s));
            chunks = (bo_chunks s)\<lparr>tw_rows := rows\<rparr>;
            series_table = (bo_series s)\<lparr>tw_rows := series_rows\<rparr> in
        case r of
          Inl e \<Rightarrow> s1\<lparr>bo_chunks := chunks, bo_series := series_table, bo_error := Some e\<rparr>
        | Inr count \<Rightarrow>
            (let (chunks', error, w1) = flush_full env chunk_record_batch chunks None (bo_world s);
                 (series_table', error', w2) = flush_full env series_record_batch series_table error w1 in
             s1\<lparr>bo_chunk_count := bo_chunk_count s + count, bo_chunks := chunks', bo_series := series_table',
                bo_error := error', bo_world := w2\<rparr>))"

definition finish_both ::
  "env \<Rightarrow> parquet \<Rightarrow> string \<Rightarrow> string \<Rightarrow> string fault + unit \<Rightarrow> both_stream
   \<Rightarrow> (string fault + (nat \<times> nat \<times> metric_labels)) \<times> world" where
  "finish_both env parquet path series_path parsed s =
     (case tryR parsed (\<lambda>_. case bo_error s of Some e \<Rightarrow> Inl e | None \<Rightarrow> Inr ()) of
        Inl Panic \<Rightarrow> (Inl Panic, bo_world s)
      | Inl (Err e) \<Rightarrow>
          (Inl (Err e), remove_quietly env (partial_path series_path)
             (remove_quietly env (partial_path path) (bo_world s)))
      | Inr _ \<Rightarrow>
          doW (flush_rows env chunk_record_batch (bo_chunks s)) (\<lambda>chunks.
          doW (flush_rows env series_record_batch (bo_series s)) (\<lambda>series_table.
          doW (close_table env parquet chunk_schema path (tw_batches chunks)) (\<lambda>_.
          doW (close_table env parquet series_schema series_path (tw_batches series_table)) (\<lambda>_.
          doW (fs_rename env (partial_path path) path) (\<lambda>_.
          doW (fs_rename env (partial_path series_path) series_path) (\<lambda>_.
            retW (bo_series_count s, bo_chunk_count s, bo_metric_labels s))))))) (bo_world s))"

definition write_chunk_and_series_index_streaming ::
  "env \<Rightarrow> (bytes \<Rightarrow> u32) \<Rightarrow> parquet \<Rightarrow> index_codec \<Rightarrow> repository_config \<Rightarrow> block_meta \<Rightarrow> string \<Rightarrow> bytes
   \<Rightarrow> string \<Rightarrow> string \<Rightarrow> world \<Rightarrow> ((string fault + (nat \<times> nat \<times> metric_labels)) \<times> world) option" where
  "write_chunk_and_series_index_streaming env crc parquet codec repository meta block_path index
     chunk_index_path series_index_path w =
     (let path = local_path chunk_index_path; series_path = local_path series_index_path in
      case doW (open_table env path) (\<lambda>_. open_table env series_path) w of
        (Inl e, w1) \<Rightarrow> Some (Inl e, w1)
      | (Inr _, w1) \<Rightarrow>
          map_option (\<lambda>(parsed, s). finish_both env parquet path series_path parsed s)
            (parse_each crc index (visit_both env codec repository meta block_path)
              \<lparr>bo_chunks = new_table, bo_series = new_table, bo_metric_labels = [], bo_series_count = 0,
               bo_chunk_count = 0, bo_error = None, bo_world = w1\<rparr>))"

end
