(* ===== verification/Block_Index.thy ===== *)
theory Block_Index
  imports Block_Files "HOL-Library.Product_Lexorder"
begin

text \<open>
  Building the block index, the rest of \<open>src/block_index.rs\<close>: reading the metadata of the blocks, reusing
  or building each block's tables, the clean-up, the table of blocks, and the schemas of the metrics.

  The tasks that the code runs concurrently, and whose results it takes in the order they end in, run here
  one after the other in an order given by \<open>schedule\<close>.  \<open>index_outside\<close> gathers what is outside: the
  listing of a repository, the clock, the directories, JSON, Parquet and CRC-32C.
\<close>

section \<open>Outside\<close>

record cached_block_index =
  cb_row :: block_index_row
  cb_materialize_chunk_index :: bool
  cb_series_count :: nat
  cb_chunk_count :: nat
  cb_metric_labels :: metric_labels

record index_outside =
  io_env :: env
  io_crc :: "bytes \<Rightarrow> u32"
  io_parquet :: parquet
  io_codec :: index_codec
  io_manifest_json :: "cached_block_index \<Rightarrow> string + bytes"
  io_manifest_from_json :: "bytes \<Rightarrow> string + cached_block_index"
  io_list :: "repository \<Rightarrow> string + string list"
  io_now :: "world \<Rightarrow> string + nat"
  io_dir_exists :: "string \<Rightarrow> world \<Rightarrow> bool"
  io_read_dir :: "string \<Rightarrow> world \<Rightarrow> (string \<times> bool) list"

text \<open>A read whose error kind matters: none for \<open>NotFound\<close>.\<close>

definition repository_read_found :: "env \<Rightarrow> repository \<Rightarrow> string \<Rightarrow> bytes option action" where
  "repository_read_found env repository path =
     outside env (\<lambda>w. retW (ev_objects env (rp_name repository) path) w)"

definition operator_exists :: "env \<Rightarrow> repository \<Rightarrow> string \<Rightarrow> bool action" where
  "operator_exists env repository path =
     outside env (\<lambda>w. retW (ev_objects env (rp_name repository) path \<noteq> None) w)"

section \<open>Block metadata\<close>

record block_build_task =
  bb_repository :: repository_config
  bb_storage :: repository
  bb_meta :: block_meta
  bb_block_path :: string
  bb_meta_path :: string

record meta_read_task =
  mk_repository :: repository_config
  mk_storage :: repository
  mk_block_path :: string
  mk_meta_path :: string

datatype meta_read_result = Build block_build_task | SkippedOld | SkippedDeleted

definition DELETION_MARK_FILE_NAME :: string where "DELETION_MARK_FILE_NAME = ''deletion-mark.json''"

definition block_has_deletion_mark :: "env \<Rightarrow> repository \<Rightarrow> string \<Rightarrow> bool action" where
  "block_has_deletion_mark env repository block_path =
     operator_exists env repository
       (if block_path = '''' then DELETION_MARK_FILE_NAME else block_path @ ''/'' @ DELETION_MARK_FILE_NAME)"

text \<open>Ages and times since the epoch are in nanoseconds; the subtraction saturates at zero.\<close>

definition block_is_older_than :: "string + nat \<Rightarrow> block_meta \<Rightarrow> nat option \<Rightarrow> string fault + bool" where
  "block_is_older_than now meta max_age =
     (case max_age of
        None \<Rightarrow> Inr False
      | Some age \<Rightarrow>
          tryR (map_err Err now) (\<lambda>now.
            let cutoff = (now - age) div 10 ^ 6 in Inr (me_max_time meta < int cutoff)))"

definition read_block_meta :: "index_outside \<Rightarrow> nat option \<Rightarrow> meta_read_task \<Rightarrow> meta_read_result action" where
  "read_block_meta io block_max_age task =
     doW (block_has_deletion_mark (io_env io) (mk_storage task) (mk_block_path task)) (\<lambda>marked.
       if marked then retW SkippedDeleted
       else
         doW (repository_read_found (io_env io) (mk_storage task) (mk_meta_path task)) (\<lambda>contents w.
           case contents of
             None \<Rightarrow> (Inr SkippedDeleted, w)
           | Some bs \<Rightarrow>
               (tryR (map_err Err (ix_meta_from_json (io_codec io) bs)) (\<lambda>meta.
                tryR (block_is_older_than (io_now io w) meta block_max_age) (\<lambda>old.
                  Inr (if old then SkippedOld
                       else Build \<lparr>bb_repository = mk_repository task, bb_storage = mk_storage task,
                         bb_meta = meta, bb_block_path = mk_block_path task,
                         bb_meta_path = mk_meta_path task\<rparr>))), w)))"

text \<open>The tasks for the paths a repository lists.\<close>

definition meta_task :: "repository_config \<Rightarrow> repository \<Rightarrow> string \<Rightarrow> string fault + meta_read_task option" where
  "meta_task config storage path =
     (if \<not> ends_with ''meta.json'' path then Inr None
      else
        tryR (ok_or ''invalid metadata path'' (strip_suffix ''/meta.json'' path)) (\<lambda>block_path.
          Inr (Some \<lparr>mk_repository = config, mk_storage = storage, mk_block_path = block_path,
            mk_meta_path = path\<rparr>)))"

definition list_metas ::
  "index_outside \<Rightarrow> (string \<Rightarrow> repository option) \<Rightarrow> repository_config \<Rightarrow> string fault + meta_read_task list" where
  "list_metas io repository_for config =
     tryR (ok_or ''no storage repository'' (repository_for (rc_uri config))) (\<lambda>storage.
     tryR (map_err Err (io_list io storage)) (\<lambda>paths.
     tryR (mapR (meta_task config storage) paths) (\<lambda>tasks. Inr (List.map_filter id tasks))))"

text \<open>All tasks, the newest block first.\<close>

definition discover ::
  "index_outside \<Rightarrow> (string \<Rightarrow> repository option) \<Rightarrow> repository_config list \<Rightarrow> string fault + meta_read_task list" where
  "discover io repository_for repositories =
     tryR (mapR (list_metas io repository_for) repositories) (\<lambda>tasks.
       Inr (rev (sort_key mk_block_path (concat tasks))))"

section \<open>Manifests\<close>

record built_block_index =
  bx_row :: block_index_row
  bx_block_ulid :: string
  bx_block_path :: string
  bx_index_path :: string
  bx_series_index_path :: string
  bx_series_count :: nat
  bx_chunk_count :: nat
  bx_metric_labels :: metric_labels

definition is_file :: "world \<Rightarrow> string \<Rightarrow> bool" where
  "is_file w path \<longleftrightarrow> wd_files w path \<noteq> None"

definition manifest_matches :: "block_build_task \<Rightarrow> bool \<Rightarrow> cached_block_index \<Rightarrow> bool" where
  "manifest_matches task materialize cached \<longleftrightarrow>
     br_block_ulid (cb_row cached) = me_ulid (bb_meta task)
     \<and> cb_materialize_chunk_index cached = materialize
     \<and> br_repository_name (cb_row cached) = rc_name (bb_repository task)
     \<and> br_repository_uri (cb_row cached) = rc_uri (bb_repository task)
     \<and> br_block_path (cb_row cached) = bb_block_path task
     \<and> br_meta_path (cb_row cached) = bb_meta_path task"

definition load_cached_block_index ::
  "index_outside \<Rightarrow> block_build_task \<Rightarrow> string \<Rightarrow> bool \<Rightarrow> built_block_index option action" where
  "load_cached_block_index io task location materialize w =
     (let ulid = me_ulid (bb_meta task);
          series_index_path = series_index_file_path location ulid in
      if \<not> is_file w series_index_path
        \<or> (materialize \<and> \<not> is_file w (chunk_index_file_path location ulid)) then (Inr None, w)
      else
        doW (fs_read (io_env io) (block_manifest_file_path location ulid)) (\<lambda>contents.
          case contents of
            None \<Rightarrow> retW None
          | Some bs \<Rightarrow>
              (case io_manifest_from_json io bs of
                 Inl _ \<Rightarrow> retW None
               | Inr cached \<Rightarrow>
                   if \<not> manifest_matches task materialize cached then retW None
                   else retW (Some \<lparr>bx_row = cb_row cached, bx_block_ulid = br_block_ulid (cb_row cached),
                     bx_block_path = bb_block_path task, bx_index_path = bb_block_path task @ ''/index'',
                     bx_series_index_path = series_index_path, bx_series_count = cb_series_count cached,
                     bx_chunk_count = cb_chunk_count cached, bx_metric_labels = cb_metric_labels cached\<rparr>))) w)"

definition write_block_manifest ::
  "index_outside \<Rightarrow> string \<Rightarrow> string \<Rightarrow> cached_block_index \<Rightarrow> unit action" where
  "write_block_manifest io location block_ulid cached =
     (let path = block_manifest_file_path location block_ulid;
          temporary_path = with_extension path ''json.partial'' in
      if parent_path path = '''' then failW ''invalid block manifest path''
      else
        doW (fs_create_dir_all (io_env io) (parent_path path)) (\<lambda>_ w.
          case io_manifest_json io cached of
            Inl e \<Rightarrow> (Inl (Err e), w)
          | Inr bs \<Rightarrow>
              doW (fs_write (io_env io) temporary_path bs) (\<lambda>_.
                fs_rename (io_env io) temporary_path path) w))"

section \<open>Cleaning up\<close>

text \<open>The loop over the entries of a directory, with the test which files to remove.\<close>

fun remove_entries :: "env \<Rightarrow> (string \<Rightarrow> bool \<Rightarrow> bool) \<Rightarrow> (string \<times> bool) list \<Rightarrow> unit action" where
  "remove_entries env stale [] = retW ()"
| "remove_entries env stale ((path, regular) # entries) =
     doW (outside env (retW ())) (\<lambda>_.
     doW (if stale path regular then fs_remove_file env path else retW ()) (\<lambda>_.
       remove_entries env stale entries))"

definition clean_directory ::
  "index_outside \<Rightarrow> string \<Rightarrow> (string \<Rightarrow> bool \<Rightarrow> bool) \<Rightarrow> unit action" where
  "clean_directory io directory stale w =
     (if \<not> io_dir_exists io directory w then (Inr (), w)
      else
        doW (outside (io_env io) (\<lambda>w. retW (io_read_dir io directory w) w))
          (remove_entries (io_env io) stale) w)"

definition stale_index_file :: "string list \<Rightarrow> string \<Rightarrow> bool \<Rightarrow> bool" where
  "stale_index_file active path regular \<longleftrightarrow>
     regular \<and> path_extension path \<in> {Some ''parquet'', Some ''json''} \<and> file_stem path \<notin> set active"

definition cleanup_index_files :: "index_outside \<Rightarrow> string \<Rightarrow> string list \<Rightarrow> unit action" where
  "cleanup_index_files io directory active = clean_directory io directory (stale_index_file active)"

definition cleanup_chunk_index_files :: "index_outside \<Rightarrow> string \<Rightarrow> string list \<Rightarrow> unit action" where
  "cleanup_chunk_index_files io location active =
     cleanup_index_files io (chunk_index_directory_path location) active"

definition cleanup_series_index_files :: "index_outside \<Rightarrow> string \<Rightarrow> string list \<Rightarrow> unit action" where
  "cleanup_series_index_files io location active =
     cleanup_index_files io (series_index_directory_path location) active"

definition cleanup_block_manifest_files :: "index_outside \<Rightarrow> string \<Rightarrow> string list \<Rightarrow> unit action" where
  "cleanup_block_manifest_files io location active =
     cleanup_index_files io (join_path (local_path location) ''manifests'') active"

definition legacy_chunk_file :: "string \<Rightarrow> bool \<Rightarrow> bool" where
  "legacy_chunk_file path regular \<longleftrightarrow>
     regular \<and> (path_extension path = Some ''parquet'' \<or> ends_with ''.parquet.partial'' (file_name path))"

definition remove_chunk_index_files :: "index_outside \<Rightarrow> string \<Rightarrow> unit action" where
  "remove_chunk_index_files io location = clean_directory io (chunk_index_directory_path location) legacy_chunk_file"

section \<open>Building one block\<close>

definition cached_of ::
  "block_index_row \<Rightarrow> bool \<Rightarrow> nat \<Rightarrow> nat \<Rightarrow> metric_labels \<Rightarrow> cached_block_index" where
  "cached_of row materialize series_count chunk_count labels =
     \<lparr>cb_row = row, cb_materialize_chunk_index = materialize, cb_series_count = series_count,
      cb_chunk_count = chunk_count, cb_metric_labels = labels\<rparr>"

definition built_of :: "block_build_task \<Rightarrow> string \<Rightarrow> cached_block_index \<Rightarrow> built_block_index" where
  "built_of task location cached =
     \<lparr>bx_row = cb_row cached, bx_block_ulid = me_ulid (bb_meta task), bx_block_path = bb_block_path task,
      bx_index_path = bb_block_path task @ ''/index'',
      bx_series_index_path = series_index_file_path location (me_ulid (bb_meta task)),
      bx_series_count = cb_series_count cached, bx_chunk_count = cb_chunk_count cached,
      bx_metric_labels = cb_metric_labels cached\<rparr>"

text \<open>The part that runs on a blocking thread, from the bytes of the index on.\<close>

definition write_block ::
  "index_outside \<Rightarrow> block_build_task \<Rightarrow> string \<Rightarrow> bool \<Rightarrow> bytes \<Rightarrow> world
   \<Rightarrow> ((string fault + (nat \<times> nat \<times> metric_labels)) \<times> world) option" where
  "write_block io task location materialize index w =
     (let ulid = me_ulid (bb_meta task); series_index_path = series_index_file_path location ulid in
      if materialize then
        write_chunk_and_series_index_streaming (io_env io) (io_crc io) (io_parquet io) (io_codec io)
          (bb_repository task) (bb_meta task) (bb_block_path task) index
          (chunk_index_file_path location ulid) series_index_path w
      else
        map_option (\<lambda>(r, w'). (tryR r (\<lambda>(series_count, chunk_count). Inr (series_count, chunk_count, [])), w'))
          (write_series_index_streaming (io_env io) (io_crc io) (io_parquet io) (io_codec io)
             (rc_uri (bb_repository task)) (bb_meta task) (bb_block_path task) index series_index_path w))"

definition finish_block ::
  "index_outside \<Rightarrow> block_build_task \<Rightarrow> string \<Rightarrow> bool \<Rightarrow> nat \<times> nat \<times> metric_labels \<Rightarrow> built_block_index action" where
  "finish_block io task location materialize counts w =
     (case counts of (series_count, chunk_count, labels) \<Rightarrow>
        (case index_row (io_codec io) (bb_repository task) (bb_meta task) (bb_block_path task) (bb_meta_path task) of
           Inl e \<Rightarrow> (Inl e, w)
         | Inr row \<Rightarrow>
             (let cached = cached_of row materialize series_count chunk_count labels in
              doW (write_block_manifest io location (me_ulid (bb_meta task)) cached) (\<lambda>_.
                retW (built_of task location cached)) w)))"

text \<open>Errors get the name of the index in front; a panic of the thread is an error of its join.\<close>

definition worker_result :: "string \<Rightarrow> string fault + 'a \<Rightarrow> string fault + 'a" where
  "worker_result index_path r =
     (case r of
        Inl Panic \<Rightarrow> Inl (Err ''block index worker failed'')
      | Inl (Err e) \<Rightarrow> Inl (Err (''failed to process '' @ index_path @ '': '' @ e))
      | Inr x \<Rightarrow> Inr x)"

definition build_chunk_index ::
  "index_outside \<Rightarrow> block_build_task \<Rightarrow> string \<Rightarrow> bool \<Rightarrow> world
   \<Rightarrow> ((string fault + built_block_index) \<times> world) option" where
  "build_chunk_index io task location materialize w =
     (let index_path = bb_block_path task @ ''/index'' in
      case repository_read (io_env io) (bb_storage task) index_path w of
        (Inl e, w1) \<Rightarrow> Some (Inl e, w1)
      | (Inr index, w1) \<Rightarrow>
          map_option (\<lambda>(r, w2). map_prod (worker_result index_path) id
              (case r of Inl e \<Rightarrow> (Inl e, w2) | Inr counts \<Rightarrow> finish_block io task location materialize counts w2))
            (write_block io task location materialize index w1))"

definition build_or_reuse ::
  "index_outside \<Rightarrow> string \<Rightarrow> bool \<Rightarrow> block_build_task \<Rightarrow> world
   \<Rightarrow> ((string fault + built_block_index) \<times> world) option" where
  "build_or_reuse io location materialize task w =
     (case load_cached_block_index io task location materialize w of
        (Inl e, w1) \<Rightarrow> Some (Inl e, w1)
      | (Inr (Some built), w1) \<Rightarrow> Some (Inr built, w1)
      | (Inr None, w1) \<Rightarrow> build_chunk_index io task location materialize w1)"

section \<open>Building the index\<close>

fun run_all ::
  "('t \<Rightarrow> world \<Rightarrow> ((string fault + 'a) \<times> world) option) \<Rightarrow> 't list \<Rightarrow> world
   \<Rightarrow> ((string fault + 'a list) \<times> world) option" where
  "run_all f [] w = Some (Inr [], w)"
| "run_all f (t # ts) w =
     Option.bind (f t w) (\<lambda>(r, w1).
       case r of
         Inl e \<Rightarrow> Some (Inl e, w1)
       | Inr x \<Rightarrow> map_option (\<lambda>(rs, w2). (tryR rs (\<lambda>xs. Inr (x # xs)), w2)) (run_all f ts w1))"

definition build_tasks :: "meta_read_result list \<Rightarrow> block_build_task list" where
  "build_tasks results = List.map_filter (\<lambda>r. case r of Build task \<Rightarrow> Some task | _ \<Rightarrow> None) results"

definition row_key :: "block_index_row \<Rightarrow> string \<times> int \<times> string" where
  "row_key row = (br_repository_name row, br_min_time row, br_block_ulid row)"

definition block_parquet_bytes :: "parquet \<Rightarrow> block_index_row list \<Rightarrow> string fault + bytes" where
  "block_parquet_bytes parquet rows =
     tryR (block_record_batch rows) (\<lambda>batch. Inr (parquet block_schema [batch]))"

definition write_local_file :: "env \<Rightarrow> string \<Rightarrow> bytes \<Rightarrow> unit action" where
  "write_local_file env path bs =
     (let path = local_path path in
      if \<not> has_file_name path then failW ''invalid block index path''
      else
        doW (if parent_path path = '''' then retW () else fs_create_dir_all env (parent_path path)) (\<lambda>_.
        doW (outside env (retW ())) (\<lambda>_. fs_write env path bs)))"

definition metric_schemas :: "metric_labels \<Rightarrow> metric_table_schema list" where
  "metric_schemas labels = map (\<lambda>(name, columns). \<lparr>mt_name = name, mt_label_columns = columns\<rparr>) labels"

text \<open>From the built blocks on: the clean-up, the table of blocks, the schemas.\<close>

definition publish ::
  "index_outside \<Rightarrow> string \<Rightarrow> string list \<Rightarrow> built_block_index list \<Rightarrow> metric_table_schema list action" where
  "publish io location active built =
     (let labels = fold (\<lambda>b m. merge_metric_labels m (bx_metric_labels b)) built [];
          rows = sort_key row_key (map bx_row built) in
      doW (cleanup_series_index_files io location active) (\<lambda>_.
      doW (cleanup_block_manifest_files io location active) (\<lambda>_ w.
        case block_parquet_bytes (io_parquet io) rows of
          Inl e \<Rightarrow> (Inl e, w)
        | Inr bs \<Rightarrow>
            doW (write_local_file (io_env io) (block_index_file_path location) bs) (\<lambda>_.
              retW (metric_schemas labels)) w)))"

definition build_block_index ::
  "index_outside \<Rightarrow> (string \<Rightarrow> repository option) \<Rightarrow> (meta_read_result list \<Rightarrow> meta_read_result list)
   \<Rightarrow> (block_build_task list \<Rightarrow> block_build_task list) \<Rightarrow> repository_config list \<Rightarrow> string \<Rightarrow> bool \<Rightarrow> nat option
   \<Rightarrow> world \<Rightarrow> ((string fault + metric_table_schema list) \<times> world) option" where
  "build_block_index io repository_for meta_schedule schedule repositories location materialize block_max_age w =
     (case discover io repository_for repositories of
        Inl e \<Rightarrow> Some (Inl e, w)
      | Inr meta_tasks \<Rightarrow>
          Option.bind (run_all (\<lambda>t w. Some (read_block_meta io block_max_age t w)) meta_tasks w) (\<lambda>(r, w1).
          case r of
            Inl e \<Rightarrow> Some (Inl e, w1)
          | Inr results \<Rightarrow>
              (let tasks = build_tasks (meta_schedule results);
                   active = bs_of_list (map (\<lambda>t. me_ulid (bb_meta t)) tasks) in
               case (if materialize then (Inr (), w1) else remove_chunk_index_files io location w1) of
                 (Inl e, w2) \<Rightarrow> Some (Inl e, w2)
               | (Inr _, w2) \<Rightarrow>
                   map_option (\<lambda>(rs, w3).
                     case rs of Inl e \<Rightarrow> (Inl e, w3) | Inr built \<Rightarrow> publish io location active built w3)
                     (run_all (build_or_reuse io location materialize) (schedule tasks) w2))))"

end
