(* ===== verification/Block_Rows_Facts.thy ===== *)
theory Block_Rows_Facts
  imports Block_Rows Block_Batches Store_Service_Facts "HOL-Library.Multiset"
begin

text \<open>
  Facts on the rows of the block index: a chunk's file and offset determine its reference, the two ways to
  make a series row agree, rows read back through their batch, and the labels of a metric as a map to sets.
\<close>

section \<open>Chunk places\<close>

lemma parse_digits_zeros: "parse_digits 0 (replicate k (CHR ''0'') @ s) = parse_digits 0 s"
proof (induction k)
  case (Suc k)
  have "to_digit (CHR ''0'') = Some 0" by (simp add: to_digit_def)
  with Suc show ?case by simp
qed simp

lemma pad_zeros_inj:
  assumes "pad_zeros w (show_nat m) = pad_zeros w (show_nat n)" and "m < 2 ^ 64" and "n < 2 ^ 64"
  shows "m = n"
proof -
  have "parse_digits 0 (pad_zeros w (show_nat m)) = parse_digits 0 (pad_zeros w (show_nat n))"
    using assms(1) by simp
  then show ?thesis
    using assms(2,3) by (simp add: pad_zeros_def parse_digits_zeros parse_digits_show_nat)
qed

lemma chunk_file_seq_inj: "chunk_file_seq r = chunk_file_seq r' \<Longrightarrow> drop_bit 32 r = drop_bit 32 r'"
proof -
  assume eq: "chunk_file_seq r = chunk_file_seq r'"
  show "drop_bit 32 r = drop_bit 32 r'"
  proof (rule bit_word_eqI)
    fix n assume n: "n < LENGTH(64)"
    show "bit (drop_bit 32 r) n = bit (drop_bit 32 r') n"
    proof (cases "n < 32")
      case True
      have "bit (chunk_file_seq r) n = bit (chunk_file_seq r') n" using eq by simp
      with True show ?thesis by (simp add: chunk_file_seq_def bit_simps)
    next
      case False
      have high: "\<not> bit x (32 + n)" for x :: u64
        using False bit_imp_le_length [of x "32 + n"] by auto
      then show ?thesis by (simp add: bit_simps)
    qed
  qed
qed

lemma reference_split: "(r :: u64) = push_bit 32 (drop_bit 32 r) OR chunk_file_offset r"
proof (rule bit_word_eqI)
  fix n assume "n < LENGTH(64)"
  have mask: "(0xFFFFFFFF :: u64) = mask 32" by (simp add: mask_eq_exp_minus_1)
  show "bit r n = bit (push_bit 32 (drop_bit 32 r) OR chunk_file_offset r) n"
    using \<open>n < LENGTH(64)\<close>
    by (cases "n < 32") (simp_all add: chunk_file_offset_def mask bit_simps)
qed

lemma chunk_place_reference:
  assumes "chunk_file_path p r = chunk_file_path p r'" and "chunk_file_offset r = chunk_file_offset r'"
  shows "r = r'"
proof -
  have "pad_zeros 6 (show_nat (unat (chunk_file_seq r + 1))) = pad_zeros 6 (show_nat (unat (chunk_file_seq r' + 1)))"
    using assms(1) by (simp add: chunk_file_path_def)
  moreover have "unat (x :: u32) < 2 ^ 64" for x
    using unsigned_less [of x, where ?'a = nat] by simp
  ultimately have "unat (chunk_file_seq r + 1) = unat (chunk_file_seq r' + 1)"
    using pad_zeros_inj by blast
  then have "chunk_file_seq r = chunk_file_seq r'"
    by (metis add_right_cancel word_unat_eq_iff)
  then have "drop_bit 32 r = drop_bit 32 r'" by (rule chunk_file_seq_inj)
  with assms(2) reference_split [of r] reference_split [of r'] show ?thesis by metis
qed

lemma chunk_file_offset_bound: "unat (chunk_file_offset r) < 2 ^ 32"
proof -
  have mask: "(0xFFFFFFFF :: u64) = mask 32" by (simp add: mask_eq_exp_minus_1)
  have "unat (r AND mask 32) < 2 ^ 32"
    by (simp only: take_bit_eq_mask [symmetric] unsigned_take_bit_eq take_bit_nat_less_exp)
  then show ?thesis by (simp add: chunk_file_offset_def mask)
qed

section \<open>Series rows\<close>

definition series_row ::
  "index_codec \<Rightarrow> string \<Rightarrow> block_meta \<Rightarrow> string \<Rightarrow> index_series \<Rightarrow> string fault + series_index_row" where
  "series_row codec repository_uri meta block_path series =
     tryR (first_mint series) (\<lambda>series_mint.
     tryR (last_maxt series) (\<lambda>series_maxt.
     tryR (map_err Err (ix_labels_json codec (with_external_labels meta (is_labels series)))) (\<lambda>labels_json.
     tryR (map_err Err (ix_locations_json codec (map (chunk_location_of block_path) (is_chunks series))))
       (\<lambda>chunks_json.
         Inr \<lparr>sr_repository_uri = repository_uri, sr_downsample_resolution = tm_resolution (me_thanos meta),
           sr_series_mint = series_mint, sr_series_maxt = series_maxt,
           sr_labels_json = labels_json, sr_chunks_json = chunks_json\<rparr>))))"

lemma append_series_row_eq:
  "append_series_row codec uri meta path series rows =
    (case series_row codec uri meta path series of
       Inl e \<Rightarrow> (Inl e, rows) | Inr row \<Rightarrow> (Inr (length (is_chunks series)), rows @ [row]))"
  by (simp add: append_series_row_def series_row_def)

lemma append_rows_agree:
  assumes "bt_get (is_labels series) ''__name__'' = Some name"
  shows "fst (append_chunk_rows codec repository meta path series rows srows)
      = fst (append_series_row codec (rc_uri repository) meta path series srows)
    \<and> snd (snd (append_chunk_rows codec repository meta path series rows srows))
      = snd (append_series_row codec (rc_uri repository) meta path series srows)"
  using assms
  by (cases "first_mint series"; cases "last_maxt series";
      cases "ix_labels_json codec (with_external_labels meta (is_labels series))";
      cases "ix_locations_json codec (map (chunk_location_of path) (is_chunks series))")
     (simp_all add: append_chunk_rows_def append_series_row_def Let_def)

text \<open>The chunk rows of a series, compared with the locations of its series row.\<close>

definition row_location :: "chunk_index_row \<Rightarrow> series_chunk_location" where
  "row_location row =
     \<lparr>sl_chunk_file_path = xr_chunk_file_path row, sl_chunk_file_offset = xr_chunk_file_offset row,
      sl_chunk_mint = xr_chunk_mint row, sl_chunk_maxt = xr_chunk_maxt row\<rparr>"

lemma chunk_rows_locations:
  assumes "fst (append_chunk_rows codec repository meta path series rows srows) = Inr n"
  shows "\<exists>new. fst (snd (append_chunk_rows codec repository meta path series rows srows)) = rows @ new
    \<and> map row_location new = map (chunk_location_of path) (is_chunks series) \<and> n = length new"
  using assms
  by (cases "first_mint series"; cases "last_maxt series"; cases "bt_get (is_labels series) ''__name__''";
      cases "ix_labels_json codec (with_external_labels meta (is_labels series))";
      cases "ix_locations_json codec (map (chunk_location_of path) (is_chunks series))")
     (auto simp: append_chunk_rows_def Let_def chunk_row_of_def row_location_def chunk_location_of_def)

section \<open>Rows read back\<close>

definition location_read :: "series_chunk_location \<Rightarrow> chunk_location" where
  "location_read l =
     \<lparr>lc_chunk_file_path = sl_chunk_file_path l, lc_chunk_file_offset = unat (sl_chunk_file_offset l),
      lc_chunk_mint = sl_chunk_mint l, lc_chunk_maxt = sl_chunk_maxt l\<rparr>"

text \<open>What the service reads with \<open>serde_json\<close> is what the index wrote with it.\<close>

definition json_agrees ::
  "index_codec \<Rightarrow> (string \<Rightarrow> string + labels) \<Rightarrow> (string \<Rightarrow> string + chunk_location list) \<Rightarrow> bool" where
  "json_agrees codec labels_from_json chunks_from_json \<longleftrightarrow>
     (\<forall>l t. ix_labels_json codec l = Inr t \<longrightarrow> labels_from_json t = Inr l)
     \<and> (\<forall>ls t. ix_locations_json codec ls = Inr t \<longrightarrow> chunks_from_json t = Inr (map location_read ls))"

definition descriptor_of :: "string \<Rightarrow> block_meta \<Rightarrow> string \<Rightarrow> index_series \<Rightarrow> series_descriptor" where
  "descriptor_of repository_uri meta block_path series =
     \<lparr>sd_repository_uri = repository_uri, sd_downsample_resolution = tm_resolution (me_thanos meta),
      sd_series_mint = ic_mint (hd (is_chunks series)), sd_series_maxt = ic_maxt (last (is_chunks series)),
      sd_labels = with_external_labels meta (is_labels series),
      sd_chunks = map (location_read o chunk_location_of block_path) (is_chunks series)\<rparr>"

lemma first_mint_Inr: "first_mint s = Inr t \<longleftrightarrow> is_chunks s \<noteq> [] \<and> t = ic_mint (hd (is_chunks s))"
  by (auto simp: first_mint_def split: list.splits)

lemma last_maxt_Inr: "last_maxt s = Inr t \<longleftrightarrow> is_chunks s \<noteq> [] \<and> t = ic_maxt (last (is_chunks s))"
  by (auto simp: last_maxt_def last_rev [symmetric] hd_rev split: list.splits)

lemma series_row_Inr:
  assumes "series_row codec uri meta path s = Inr row"
  shows "sr_repository_uri row = uri" "sr_downsample_resolution row = tm_resolution (me_thanos meta)"
    "sr_series_mint row = ic_mint (hd (is_chunks s))" "sr_series_maxt row = ic_maxt (last (is_chunks s))"
    "ix_labels_json codec (with_external_labels meta (is_labels s)) = Inr (sr_labels_json row)"
    "ix_locations_json codec (map (chunk_location_of path) (is_chunks s)) = Inr (sr_chunks_json row)"
  using assms
  by (auto simp: series_row_def tryR_eq_Inr map_err_eq_Inr first_mint_Inr last_maxt_Inr)

lemma series_columns_by_name:
  "column_by_name (batch_of series_schema (series_columns rows) n) ''repository_uri'' = Some (StringColumn (map sr_repository_uri rows))"
  "column_by_name (batch_of series_schema (series_columns rows) n) ''downsample_resolution'' = Some (Int64Column (map sr_downsample_resolution rows))"
  "column_by_name (batch_of series_schema (series_columns rows) n) ''series_mint'' = Some (Int64Column (map sr_series_mint rows))"
  "column_by_name (batch_of series_schema (series_columns rows) n) ''series_maxt'' = Some (Int64Column (map sr_series_maxt rows))"
  "column_by_name (batch_of series_schema (series_columns rows) n) ''labels_json'' = Some (StringColumn (map sr_labels_json rows))"
  "column_by_name (batch_of series_schema (series_columns rows) n) ''chunks_json'' = Some (StringColumn (map sr_chunks_json rows))"
  by (simp_all add: column_by_name_def batch_of_def series_schema_def series_columns_def plain_field_def)

lemma series_rows_read_back:
  assumes json: "json_agrees codec labels_from_json chunks_from_json"
    and rows: "list_all2 (\<lambda>s row. series_row codec uri meta path s = Inr row) es rows"
  shows "series_from_batch labels_from_json chunks_from_json (batch_of series_schema (series_columns rows) (length rows))
    = Inr (map (descriptor_of uri meta path) es)"
proof -
  have len: "length es = length rows" using rows by (rule list_all2_lengthD)
  have row: "series_row codec uri meta path (es ! i) = Inr (rows ! i)" if "i < length rows" for i
    using rows that len by (simp add: list_all2_conv_all_nth)
  have labels: "labels_from_json (sr_labels_json (rows ! i)) = Inr (with_external_labels meta (is_labels (es ! i)))"
    and chunks: "chunks_from_json (sr_chunks_json (rows ! i))
      = Inr (map location_read (map (chunk_location_of path) (is_chunks (es ! i))))" if "i < length rows" for i
    using json series_row_Inr(5,6) [OF row [OF that]] unfolding json_agrees_def by blast+
  have "mapR (\<lambda>index.
         tryR (column_string (StringColumn (map sr_repository_uri rows)) index) (\<lambda>uri.
         tryR (elem_index (map sr_downsample_resolution rows) index) (\<lambda>resolution.
         tryR (elem_index (map sr_series_mint rows) index) (\<lambda>mint.
         tryR (elem_index (map sr_series_maxt rows) index) (\<lambda>maxt.
         tryR (column_string (StringColumn (map sr_labels_json rows)) index) (\<lambda>labels_text.
         tryR (map_err (\<lambda>e. Err (JsonFailed e)) (labels_from_json labels_text)) (\<lambda>labels.
         tryR (column_string (StringColumn (map sr_chunks_json rows)) index) (\<lambda>chunks_text.
         tryR (map_err (\<lambda>e. Err (JsonFailed e)) (chunks_from_json chunks_text)) (\<lambda>chunks.
           Inr \<lparr>sd_repository_uri = uri, sd_downsample_resolution = resolution, sd_series_mint = mint,
                sd_series_maxt = maxt, sd_labels = labels, sd_chunks = chunks\<rparr>))))))))) [0..<length rows]
    = Inr (map (\<lambda>i. descriptor_of uri meta path (es ! i)) [0..<length rows])"
  proof (rule mapR_all_Inr)
    fix i assume "i \<in> set [0..<length rows]"
    then have i: "i < length rows" by simp
    show "tryR (column_string (StringColumn (map sr_repository_uri rows)) i) (\<lambda>uri.
         tryR (elem_index (map sr_downsample_resolution rows) i) (\<lambda>resolution.
         tryR (elem_index (map sr_series_mint rows) i) (\<lambda>mint.
         tryR (elem_index (map sr_series_maxt rows) i) (\<lambda>maxt.
         tryR (column_string (StringColumn (map sr_labels_json rows)) i) (\<lambda>labels_text.
         tryR (map_err (\<lambda>e. Err (JsonFailed e)) (labels_from_json labels_text)) (\<lambda>labels.
         tryR (column_string (StringColumn (map sr_chunks_json rows)) i) (\<lambda>chunks_text.
         tryR (map_err (\<lambda>e. Err (JsonFailed e)) (chunks_from_json chunks_text)) (\<lambda>chunks.
           Inr \<lparr>sd_repository_uri = uri, sd_downsample_resolution = resolution, sd_series_mint = mint,
                sd_series_maxt = maxt, sd_labels = labels, sd_chunks = chunks\<rparr>))))))))
      = Inr (descriptor_of uri meta path (es ! i))"
      using i series_row_Inr(1-4) [OF row [OF i]]
      by (simp add: column_string_def elem_index_def labels chunks descriptor_of_def o_def)
  qed
  moreover have "map (\<lambda>i. descriptor_of uri meta path (es ! i)) [0..<length rows] = map (descriptor_of uri meta path) es"
    by (rule nth_equalityI) (simp_all add: len)
  ultimately show ?thesis
    by (simp add: series_from_batch_def batch_strings_def batch_int64s_def series_columns_by_name)
       (simp add: batch_of_def)
qed

section \<open>Labels of metrics\<close>

text \<open>A label map as a partial function to sets; the union of two such values where either may be missing.\<close>

definition ml_set :: "metric_labels \<Rightarrow> string \<Rightarrow> string set option" where
  "ml_set m k = map_option set (bt_get m k)"

definition ml_ok :: "metric_labels \<Rightarrow> bool" where
  "ml_ok m \<longleftrightarrow> bt_ok m \<and> (\<forall>k vs. bt_get m k = Some vs \<longrightarrow> sorted_wrt (<) vs)"

fun opt_union :: "'a set option \<Rightarrow> 'a set option \<Rightarrow> 'a set option" where
  "opt_union None y = y"
| "opt_union x None = x"
| "opt_union (Some a) (Some b) = Some (a \<union> b)"

lemma opt_union_None [simp]: "opt_union x None = x"
  by (cases x) auto

lemma opt_union_commute: "opt_union (opt_union x y) z = opt_union (opt_union x z) y"
  by (cases x; cases y; cases z) auto

lemma fold_insort_insert:
  "sorted_wrt (<) acc \<Longrightarrow> sorted_wrt (<) (fold insort_insert vs acc) \<and> set (fold insort_insert vs acc) = set vs \<union> set acc"
  for acc :: "string list"
  by (induction vs arbitrary: acc) (auto simp: sorted_insort_insert set_insort_insert)

lemma ml_ext: "ml_ok m \<Longrightarrow> ml_ok m' \<Longrightarrow> ml_set m = ml_set m' \<Longrightarrow> m = m'"
proof -
  assume ok: "ml_ok m" "ml_ok m'" and eq: "ml_set m = ml_set m'"
  have "bt_get m k = bt_get m' k" for k
  proof (cases "bt_get m k")
    case None
    then show ?thesis using fun_cong [OF eq, of k] by (auto simp: ml_set_def)
  next
    case (Some vs)
    then obtain vs' where vs': "bt_get m' k = Some vs'" "set vs = set vs'"
      using fun_cong [OF eq, of k] by (cases "bt_get m' k") (auto simp: ml_set_def)
    then have "vs = vs'" using ok Some by (auto simp: ml_ok_def intro: strict_sorted_equal)
    with Some vs' show ?thesis by simp
  qed
  then show "m = m'" using ok by (intro bt_ext) (auto simp: ml_ok_def)
qed

lemma ml_ok_Nil: "ml_ok []"
  by (simp add: ml_ok_def bt_ok_def bt_get_def)

lemma extend_entry_spec:
  assumes "ml_ok m"
  shows "ml_ok (extend_entry k vs m)"
    and "ml_set (extend_entry k vs m) = (ml_set m)(k := opt_union (ml_set m k) (Some (set vs)))"
proof -
  let ?old = "case bt_get m k of Some s \<Rightarrow> s | None \<Rightarrow> []"
  have ok: "bt_ok m" and old: "sorted_wrt (<) ?old"
    using assms by (auto simp: ml_ok_def split: option.split)
  note ins = fold_insort_insert [OF old, of vs]
  show "ml_ok (extend_entry k vs m)"
    using assms ins by (auto simp: ml_ok_def extend_entry_def bt.get_insert [OF ok] bt.inv_insert [OF ok])
  show "ml_set (extend_entry k vs m) = (ml_set m)(k := opt_union (ml_set m k) (Some (set vs)))"
    using ins by (cases "bt_get m k") (simp_all add: fun_eq_iff ml_set_def extend_entry_def bt.get_insert [OF ok] Un_commute)
qed

lemma merge_spec:
  "ml_ok t \<Longrightarrow> distinct (map fst s) \<Longrightarrow>
    ml_ok (merge_metric_labels t s) \<and> ml_set (merge_metric_labels t s) = (\<lambda>k. opt_union (ml_set t k) (ml_set s k))"
proof (induction s arbitrary: t)
  case Nil
  then show ?case by (simp add: merge_metric_labels_def ml_set_def bt_get_def)
next
  case (Cons e s)
  obtain k vs where e: "e = (k, vs)" by (cases e)
  have "ml_ok (extend_entry k vs t)" using Cons.prems(1) by (rule extend_entry_spec)
  from Cons.IH [OF this] Cons.prems e
  have ok: "ml_ok (merge_metric_labels (extend_entry k vs t) s)"
    and eq: "ml_set (merge_metric_labels (extend_entry k vs t) s) = (\<lambda>k'. opt_union (ml_set (extend_entry k vs t) k') (ml_set s k'))"
    by simp_all
  have "ml_set s k = None"
    using Cons.prems(2) e by (auto simp: ml_set_def bt_get_def map_of_eq_None_iff)
  then have "(\<lambda>k'. opt_union (ml_set (extend_entry k vs t) k') (ml_set s k')) = (\<lambda>k'. opt_union (ml_set t k') (ml_set (e # s) k'))"
    by (auto simp: fun_eq_iff extend_entry_spec [OF Cons.prems(1)] e ml_set_def bt_get_def)
  with ok eq e show ?case by (simp add: merge_metric_labels_def)
qed

lemma merges_spec:
  assumes "\<forall>b \<in> set bs. ml_ok (f b)"
  shows "ml_ok (fold (\<lambda>b m. merge_metric_labels m (f b)) bs [])
    \<and> ml_set (fold (\<lambda>b m. merge_metric_labels m (f b)) bs [])
      = fold (\<lambda>b g k. opt_union (g k) (ml_set (f b) k)) bs (\<lambda>_. None)"
  using assms
proof (induction bs rule: rev_induct)
  case Nil
  then show ?case by (simp add: ml_ok_Nil) (simp add: ml_set_def bt_get_def fun_eq_iff)
next
  case (snoc b bs)
  then have "distinct (map fst (f b))" by (auto simp: ml_ok_def intro: bt_ok_distinct)
  with snoc merge_spec [of "fold (\<lambda>b m. merge_metric_labels m (f b)) bs []" "f b"] show ?case by simp
qed

lemma merges_permuted:
  assumes "mset bs = mset bs'" and "\<forall>b \<in> set bs. ml_ok (f b)"
  shows "fold (\<lambda>b m. merge_metric_labels m (f b)) bs [] = fold (\<lambda>b m. merge_metric_labels m (f b)) bs' []"
proof -
  have "fold (\<lambda>b g k. opt_union (g k) (ml_set (f b) k)) bs = fold (\<lambda>b g k. opt_union (g k) (ml_set (f b) k)) bs'"
    by (rule fold_multiset_equiv [OF _ assms(1)]) (simp add: fun_eq_iff opt_union_commute)
  moreover have "set bs = set bs'" using assms(1) by (rule mset_eq_setD)
  ultimately show ?thesis
    using merges_spec [OF assms(2)] merges_spec [of bs' f] assms(2) by (intro ml_ext) simp_all
qed

text \<open>What the labels collected for a metric are.\<close>

definition metric_columns :: "labels \<Rightarrow> index_series list \<Rightarrow> string \<Rightarrow> string set option" where
  "metric_columns external es name =
     (let named = filter (\<lambda>s. bt_get (is_labels s) ''__name__'' = Some name) es in
      if named = [] then None
      else Some ((\<Union>s \<in> set named. fst ` set (is_labels s)) \<union> fst ` set external - {''__name__''}))"

lemma collect_step:
  assumes "ml_ok m"
  shows "ml_ok (collect_metric_labels external [s] m)
    \<and> ml_set (collect_metric_labels external [s] m) =
      (case bt_get (is_labels s) ''__name__'' of
         None \<Rightarrow> ml_set m
       | Some name \<Rightarrow> (ml_set m)(name := opt_union (ml_set m name)
           (Some (fst ` set (is_labels s) \<union> fst ` set external - {''__name__''}))))"
proof (cases "bt_get (is_labels s) ''__name__''")
  case None
  then show ?thesis using assms by (simp add: collect_metric_labels_def)
next
  case (Some name)
  let ?vs = "filter (\<lambda>label. label \<noteq> ''__name__'') (bt_keys (is_labels s) @ bt_keys external)"
  have "set ?vs = fst ` set (is_labels s) \<union> fst ` set external - {''__name__''}"
    by (auto simp: bt_keys_def)
  then show ?thesis
    using extend_entry_spec [OF assms, of name ?vs] Some by (simp add: collect_metric_labels_def)
qed

lemma collect_spec:
  "ml_ok (fold (\<lambda>s. collect_metric_labels external [s]) es [])
    \<and> ml_set (fold (\<lambda>s. collect_metric_labels external [s]) es []) = metric_columns external es"
proof (induction es rule: rev_induct)
  case Nil
  then show ?case by (simp add: ml_ok_Nil) (simp add: ml_set_def bt_get_def metric_columns_def fun_eq_iff)
next
  case (snoc s es)
  let ?m = "fold (\<lambda>s. collect_metric_labels external [s]) es []"
  have "metric_columns external (es @ [s]) =
    (case bt_get (is_labels s) ''__name__'' of
       None \<Rightarrow> metric_columns external es
     | Some name \<Rightarrow> (metric_columns external es)(name := opt_union (metric_columns external es name)
         (Some (fst ` set (is_labels s) \<union> fst ` set external - {''__name__''}))))"
    by (auto simp: fun_eq_iff metric_columns_def Let_def filter_empty_conv split: option.split)
  then show ?case using snoc.IH collect_step [of ?m external s] by (cases "bt_get (is_labels s) ''__name__''") simp_all
qed

end
