(* ===== verification/Block_Files_Facts.thy ===== *)
theory Block_Files_Facts
  imports Block_Files Block_Rows_Facts Repository_Facts Tsdb_Index_Facts
begin

text \<open>
  Facts on the streaming writers: what every outside call, a flush, a visited series and the end of a
  writer do to the files and to the rows.  They hold whichever outside calls fail, unless they say that
  none does.
\<close>

section \<open>Outside calls\<close>

lemma outside_ret:
  "outside env (retW x) w = (r, w') \<Longrightarrow> wd_files w' = wd_files w \<and> (r = Inr x \<or> (\<exists>e. r = Inl (Err e)))"
  by (auto simp: outside_def retW_def Let_def split: option.splits)

lemma fs_write_spec:
  "fs_write env path bs w = (r, w') \<Longrightarrow>
    (r = Inr () \<and> wd_files w' = (wd_files w)(path := Some bs)) \<or> (\<exists>e. r = Inl (Err e) \<and> wd_files w' = wd_files w)"
  by (auto simp: fs_write_def outside_def Let_def split: option.splits)

lemma fs_rename_spec:
  "fs_rename env a b w = (r, w') \<Longrightarrow>
    (\<exists>bs. r = Inr () \<and> wd_files w a = Some bs \<and> wd_files w' = (wd_files w)(a := None, b := Some bs))
    \<or> (\<exists>e. r = Inl (Err e) \<and> wd_files w' = wd_files w)"
  by (auto simp: fs_rename_def outside_def failW_def Let_def split: option.splits)

lemma fs_create_dir_all_spec:
  "fs_create_dir_all env path w = (r, w') \<Longrightarrow> wd_files w' = wd_files w \<and> (r = Inr () \<or> (\<exists>e. r = Inl (Err e)))"
  unfolding fs_create_dir_all_def by (rule outside_ret)

lemma remove_quietly_files: "p \<noteq> path \<Longrightarrow> wd_files (remove_quietly env path w) p = wd_files w p"
  by (auto simp: remove_quietly_def fs_remove_file_def outside_def failW_def Let_def split: option.splits)

lemma doW_cases:
  assumes "doW m f w = (r, w')"
  obtains (fails) e where "m w = (Inl e, w')" "r = Inl e" | (goes) x w1 where "m w = (Inr x, w1)" "f x w1 = (r, w')"
  using assms by (auto simp: doW_def split: prod.splits sum.splits)

lemma doW_Inr_cases:
  assumes "doW m f w = (Inr y, w')"
  obtains x w1 where "m w = (Inr x, w1)" "f x w1 = (Inr y, w')"
  using assms by (auto simp: doW_def split: prod.splits sum.splits)

section \<open>Tables\<close>

text \<open>Every row passed to the table is in a written group or still buffered, in order.\<close>

definition groups_ok :: "'r list list \<Rightarrow> bool" where
  "groups_ok groups \<longleftrightarrow> (\<forall>g \<in> set groups. g \<noteq> [] \<and> length g \<le> INDEX_BATCH_SIZE)"

definition table_holds :: "('r list \<Rightarrow> batch) \<Rightarrow> 'r table_writer \<Rightarrow> 'r list \<Rightarrow> bool" where
  "table_holds mk table rows \<longleftrightarrow>
     (\<exists>groups. tw_batches table = map mk groups \<and> concat groups @ tw_rows table = rows \<and> groups_ok groups)"

lemma flush_rows_spec:
  assumes rb: "\<And>rows. rb rows = Inr (mk rows)" and run: "flush_rows env rb table w = (r, w')"
  shows "wd_files w' = wd_files w"
    and "r = Inr table' \<Longrightarrow> tw_rows table' = []"
    and "r = Inr table' \<Longrightarrow> length (tw_rows table) \<le> INDEX_BATCH_SIZE \<Longrightarrow> table_holds mk table rows
      \<Longrightarrow> table_holds mk table' rows"
    and "r \<noteq> Inl Panic"
    and "\<not> may_fail env \<Longrightarrow> \<exists>table'. r = Inr table'"
proof -
  consider (empty) "tw_rows table = []" "r = Inr table" "w' = w"
    | (full) "tw_rows table \<noteq> []"
      "doW (outside env (retW ())) (\<lambda>_. doW (outside env (retW ())) (\<lambda>_.
              retW \<lparr>tw_rows = [], tw_batches = tw_batches table @ [mk (tw_rows table)]\<rparr>)) w = (r, w')"
    using run by (auto simp: flush_rows_def rb split: if_splits)
  note cases = this
  have new: "(wd_files w' = wd_files w \<and> r \<noteq> Inl Panic) \<and> (\<forall>t. r = Inr t \<longrightarrow>
      t = (if tw_rows table = [] then table else \<lparr>tw_rows = [], tw_batches = tw_batches table @ [mk (tw_rows table)]\<rparr>))"
    using cases
  proof cases
    case full
    show ?thesis using full(2)
    proof (cases rule: doW_cases)
      case (fails e)
      then show ?thesis using outside_ret [of env "()" w] by auto
    next
      case (goes x w1)
      note first = goes
      show ?thesis using goes(2)
      proof (cases rule: doW_cases)
        case (fails e)
        then show ?thesis using outside_ret [OF first(1)] outside_ret [of env "()" w1] by auto
      next
        case (goes x w2)
        then show ?thesis using outside_ret [OF first(1)] outside_ret [OF goes(1)] full(1) by (auto simp: retW_def)
      qed
    qed
  qed auto
  then show "wd_files w' = wd_files w" "r \<noteq> Inl Panic" by auto
  show "r = Inr table' \<Longrightarrow> tw_rows table' = []" using new by auto
  show "\<not> may_fail env \<Longrightarrow> \<exists>table'. r = Inr table'"
    using cases by cases (auto simp: outside_healthy doW_def retW_def)
  assume r: "r = Inr table'" and len: "length (tw_rows table) \<le> INDEX_BATCH_SIZE" and holds: "table_holds mk table rows"
  show "table_holds mk table' rows"
  proof (cases "tw_rows table = []")
    case True
    then show ?thesis using new r holds by auto
  next
    case False
    obtain groups where "tw_batches table = map mk groups" "concat groups @ tw_rows table = rows" "groups_ok groups"
      using holds by (auto simp: table_holds_def)
    then show ?thesis
      using new r len False by (auto simp: table_holds_def groups_ok_def intro!: exI [of _ "groups @ [tw_rows table]"])
  qed
qed

section \<open>The series stream\<close>

lemma series_batch_ok: "series_record_batch rows = Inr (batch_of series_schema (series_columns rows) (length rows))"
  by (rule series_record_batch_ok)

abbreviation series_batch :: "series_index_row list \<Rightarrow> batch" where
  "series_batch rows \<equiv> batch_of series_schema (series_columns rows) (length rows)"

lemma series_tables_read_back:
  assumes "json_agrees codec labels_from_json chunks_from_json"
    and "list_all2 (\<lambda>e row. series_row codec uri meta path e = Inr row) es (concat groups)"
  shows "\<exists>found. mapR (series_from_batch labels_from_json chunks_from_json) (map series_batch groups) = Inr found
    \<and> concat found = map (descriptor_of uri meta path) es"
  using assms(2)
proof (induction groups arbitrary: es)
  case Nil
  then show ?case by simp
next
  case (Cons rows groups)
  then obtain es1 es2 where es: "es = es1 @ es2"
    and first: "list_all2 (\<lambda>e row. series_row codec uri meta path e = Inr row) es1 rows"
    and rest: "list_all2 (\<lambda>e row. series_row codec uri meta path e = Inr row) es2 (concat groups)"
    by (auto simp: list_all2_append2)
  from Cons.IH [OF rest] series_rows_read_back [OF assms(1) first] es show ?case by auto
qed

definition chunk_total :: "index_series list \<Rightarrow> nat" where
  "chunk_total es = sum_list (map (\<lambda>s. length (is_chunks s)) es)"

definition stream_ok ::
  "index_codec \<Rightarrow> string \<Rightarrow> block_meta \<Rightarrow> string \<Rightarrow> index_series list \<Rightarrow> series_stream \<Rightarrow> bool" where
  "stream_ok codec uri meta path es s \<longleftrightarrow>
     ss_error s = None \<and> ss_series_count s = length es \<and> ss_chunk_count s = chunk_total es
     \<and> length (tw_rows (ss_table s)) < INDEX_BATCH_SIZE
     \<and> (\<exists>rows. list_all2 (\<lambda>e row. series_row codec uri meta path e = Inr row) es rows
          \<and> table_holds series_batch (ss_table s) rows)"

lemma visit_files: "wd_files (ss_world (visit_series env codec uri meta path e s)) = wd_files (ss_world s)"
proof -
  have "wd_files w' = wd_files w" if "flush_rows env series_record_batch table w = (r, w')" for table r w w'
    by (rule flush_rows_spec(1) [OF series_batch_ok that])
  then show ?thesis
    by (auto simp: visit_series_def Let_def split: prod.splits sum.splits)
qed

lemma visit_stuck: "ss_error s \<noteq> None \<Longrightarrow> visit_series env codec uri meta path e s = s"
  by (simp add: visit_series_def)

lemma table_holds_push:
  "table_holds mk table rows \<Longrightarrow> table_holds mk (table\<lparr>tw_rows := tw_rows table @ [row]\<rparr>) (rows @ [row])"
  by (auto simp: table_holds_def)

lemma visit_step:
  assumes ok: "stream_ok codec uri meta path es s"
  shows "ss_error (visit_series env codec uri meta path e s) = None \<Longrightarrow>
      stream_ok codec uri meta path (es @ [e]) (visit_series env codec uri meta path e s)"
    and "\<not> may_fail env \<Longrightarrow> series_row codec uri meta path e = Inr row \<Longrightarrow>
      ss_error (visit_series env codec uri meta path e s) = None"
proof -
  let ?s' = "visit_series env codec uri meta path e s"
  obtain rows where err: "ss_error s = None" "ss_series_count s = length es" "ss_chunk_count s = chunk_total es"
    "length (tw_rows (ss_table s)) < INDEX_BATCH_SIZE"
    and rows: "list_all2 (\<lambda>e row. series_row codec uri meta path e = Inr row) es rows"
      "table_holds series_batch (ss_table s) rows"
    using ok by (auto simp: stream_ok_def)
  {
    fix row assume row: "series_row codec uri meta path e = Inr row"
    let ?t = "(ss_table s)\<lparr>tw_rows := tw_rows (ss_table s) @ [row]\<rparr>"
    have rows': "list_all2 (\<lambda>e row. series_row codec uri meta path e = Inr row) (es @ [e]) (rows @ [row])"
      using rows(1) row by (simp add: list_all2_appendI)
    have holds: "table_holds series_batch ?t (rows @ [row])" by (rule table_holds_push [OF rows(2)])
    have len: "length (tw_rows ?t) \<le> INDEX_BATCH_SIZE" using err(4) by simp
    have "(ss_error ?s' = None \<longrightarrow> stream_ok codec uri meta path (es @ [e]) ?s')
      \<and> (\<not> may_fail env \<longrightarrow> ss_error ?s' = None)"
    proof (cases "length (tw_rows ?t) < INDEX_BATCH_SIZE")
      case True
      then show ?thesis
        using err rows' holds
        by (auto simp: visit_series_def append_series_row_eq row stream_ok_def chunk_total_def Let_def)
    next
      case False
      obtain r w where run: "flush_rows env series_record_batch ?t (ss_world s) = (r, w)" by fastforce
      note spec = flush_rows_spec [OF series_batch_ok run]
      show ?thesis
      proof (cases r)
        case (Inl a)
        then show ?thesis
          using err False run spec(5) by (auto simp: visit_series_def append_series_row_eq row Let_def)
      next
        case (Inr t)
        have "INDEX_BATCH_SIZE > 0" by (simp add: INDEX_BATCH_SIZE_def)
        then show ?thesis
          using err rows' False run spec(2) [OF Inr] spec(3) [OF Inr len holds] Inr
          by (auto simp: visit_series_def append_series_row_eq row stream_ok_def chunk_total_def Let_def)
      qed
    qed
  }
  note good = this
  show "ss_error ?s' = None \<Longrightarrow> stream_ok codec uri meta path (es @ [e]) ?s'"
    using good err(1) by (cases "series_row codec uri meta path e")
      (auto simp: visit_series_def append_series_row_eq Let_def)
  show "\<not> may_fail env \<Longrightarrow> series_row codec uri meta path e = Inr row \<Longrightarrow> ss_error ?s' = None"
    using good by blast
qed

lemma fold_visit_files:
  "wd_files (ss_world (fold (visit_series env codec uri meta path) es s)) = wd_files (ss_world s)"
  by (induction es arbitrary: s) (simp_all add: visit_files)

lemma fold_visit_stuck: "ss_error s \<noteq> None \<Longrightarrow> fold (visit_series env codec uri meta path) es s = s"
  by (induction es) (simp_all add: visit_stuck)

lemma fold_visit_ok:
  "stream_ok codec uri meta path seen s \<Longrightarrow>
    ss_error (fold (visit_series env codec uri meta path) es s) = None \<Longrightarrow>
    stream_ok codec uri meta path (seen @ es) (fold (visit_series env codec uri meta path) es s)"
proof (induction es arbitrary: seen s)
  case (Cons e es)
  let ?s' = "visit_series env codec uri meta path e s"
  show ?case
  proof (cases "ss_error ?s'")
    case None
    with Cons.IH [OF visit_step(1) [OF Cons.prems(1) None]] Cons.prems(2) show ?thesis by simp
  next
    case (Some x)
    then have "fold (visit_series env codec uri meta path) es ?s' = ?s'" by (intro fold_visit_stuck) simp
    with Some Cons.prems(2) show ?thesis by simp
  qed
qed simp

lemma fold_visit_healthy:
  "stream_ok codec uri meta path seen s \<Longrightarrow> \<not> may_fail env \<Longrightarrow>
    \<forall>e \<in> set es. \<exists>row. series_row codec uri meta path e = Inr row \<Longrightarrow>
    ss_error (fold (visit_series env codec uri meta path) es s) = None"
proof (induction es arbitrary: seen s)
  case Nil
  then show ?case by (simp add: stream_ok_def)
next
  case (Cons e es)
  then obtain row where row: "series_row codec uri meta path e = Inr row" by auto
  have "ss_error (visit_series env codec uri meta path e s) = None"
    by (rule visit_step(2) [OF Cons.prems(1,2) row])
  with Cons.IH [OF visit_step(1) [OF Cons.prems(1) this]] Cons.prems(2,3) show ?case by simp
qed

section \<open>The end of the series writer\<close>

lemma partial_path_neq: "partial_path path \<noteq> path" "path \<noteq> partial_path path"
  by (simp_all add: partial_path_def)

lemma finish_series_spec:
  assumes run: "finish_series env parquet path parsed s = (r, w')"
  shows "\<forall>p. p \<noteq> partial_path path \<and> (p \<noteq> path \<or> (\<exists>e. r = Inl e)) \<longrightarrow> wd_files w' p = wd_files (ss_world s) p"
    and "r = Inr counts \<Longrightarrow> parsed = Inr () \<and> ss_error s = None \<and> counts = (ss_series_count s, ss_chunk_count s)
      \<and> (\<exists>t. (\<forall>rows. length (tw_rows (ss_table s)) \<le> INDEX_BATCH_SIZE \<longrightarrow> table_holds series_batch (ss_table s) rows
                \<longrightarrow> table_holds series_batch t rows)
           \<and> tw_rows t = [] \<and> wd_files w' (partial_path path) = None
           \<and> wd_files w' path = Some (parquet series_schema (tw_batches t)))"
proof -
  have "(\<forall>p. p \<noteq> partial_path path \<and> (p \<noteq> path \<or> (\<exists>e. r = Inl e)) \<longrightarrow> wd_files w' p = wd_files (ss_world s) p)
    \<and> (\<forall>counts. r = Inr counts \<longrightarrow> parsed = Inr () \<and> ss_error s = None \<and> counts = (ss_series_count s, ss_chunk_count s)
      \<and> (\<exists>t. (\<forall>rows. length (tw_rows (ss_table s)) \<le> INDEX_BATCH_SIZE \<longrightarrow> table_holds series_batch (ss_table s) rows
                \<longrightarrow> table_holds series_batch t rows)
           \<and> tw_rows t = [] \<and> wd_files w' (partial_path path) = None
           \<and> wd_files w' path = Some (parquet series_schema (tw_batches t))))" (is ?P)
  proof (cases "tryR parsed (\<lambda>_. case ss_error s of Some e \<Rightarrow> Inl e | None \<Rightarrow> Inr ())")
    case (Inl e)
    with run show ?thesis
      by (cases e) (auto simp: finish_series_def remove_quietly_files)
  next
    case (Inr u)
    then have good: "parsed = Inr ()" "ss_error s = None"
      by (auto simp: tryR_eq_Inr split: option.splits)
    have run': "doW (flush_rows env series_record_batch (ss_table s)) (\<lambda>table.
          doW (close_table env parquet series_schema path (tw_batches table)) (\<lambda>_.
          doW (fs_rename env (partial_path path) path) (\<lambda>_.
            retW (ss_series_count s, ss_chunk_count s)))) (ss_world s) = (r, w')"
      using run Inr by (simp add: finish_series_def)
    then show ?thesis
    proof (cases rule: doW_cases)
      case (fails e)
      then show ?thesis using flush_rows_spec(1) [OF series_batch_ok fails(1)] by auto
    next
      case flush: (goes t w1)
      note t = flush_rows_spec [OF series_batch_ok flush(1)]
      show ?thesis using flush(2)
      proof (cases rule: doW_cases)
        case (fails e)
        then show ?thesis using t(1) fs_write_spec [OF fails(1) [unfolded close_table_def]] by auto
      next
        case close: (goes u w2)
        have f2: "wd_files w2 = (wd_files (ss_world s))(partial_path path := Some (parquet series_schema (tw_batches t)))"
          using fs_write_spec [OF close(1) [unfolded close_table_def]] t(1) by auto
        show ?thesis using close(2)
        proof (cases rule: doW_cases)
          case (fails e)
          then show ?thesis using f2 fs_rename_spec [OF fails(1)] by auto
        next
          case rename: (goes u w3)
          then have "r = Inr (ss_series_count s, ss_chunk_count s)" "w' = w3" by (simp_all add: retW_def)
          moreover have "wd_files w3 = (wd_files w2)(partial_path path := None, path := Some (parquet series_schema (tw_batches t)))"
            using fs_rename_spec [OF rename(1)] f2 by auto
          ultimately show ?thesis
            using f2 good t(2,3) by (auto simp: partial_path_neq)
        qed
      qed
    qed
  qed
  then show "\<forall>p. p \<noteq> partial_path path \<and> (p \<noteq> path \<or> (\<exists>e. r = Inl e)) \<longrightarrow> wd_files w' p = wd_files (ss_world s) p"
    and "r = Inr counts \<Longrightarrow> parsed = Inr () \<and> ss_error s = None \<and> counts = (ss_series_count s, ss_chunk_count s)
      \<and> (\<exists>t. (\<forall>rows. length (tw_rows (ss_table s)) \<le> INDEX_BATCH_SIZE \<longrightarrow> table_holds series_batch (ss_table s) rows
                \<longrightarrow> table_holds series_batch t rows)
           \<and> tw_rows t = [] \<and> wd_files w' (partial_path path) = None
           \<and> wd_files w' path = Some (parquet series_schema (tw_batches t)))"
    by blast+
qed

lemma finish_series_healthy:
  assumes "\<not> may_fail env" and "ss_error s = None"
  shows "\<exists>w'. finish_series env parquet path (Inr ()) s = (Inr (ss_series_count s, ss_chunk_count s), w')"
proof -
  obtain r w1 where flush: "flush_rows env series_record_batch (ss_table s) (ss_world s) = (r, w1)" by fastforce
  then obtain t where "r = Inr t" using flush_rows_spec(5) [OF series_batch_ok flush assms(1)] by blast
  with flush assms show ?thesis
    by (simp add: finish_series_def doW_def close_table_def fs_write_def fs_rename_def outside_healthy retW_def)
qed

lemma open_table_spec:
  "open_table env path w = (r, w') \<Longrightarrow>
    (\<forall>p. p \<noteq> partial_path path \<longrightarrow> wd_files w' p = wd_files w p) \<and> r \<noteq> Inl Panic"
proof -
  assume run: "open_table env path w = (r, w')"
  show ?thesis
  proof (cases "has_file_name path")
    case False
    with run show ?thesis by (auto simp: open_table_def failW_def)
  next
    case True
    with run have "doW (if parent_path path = '''' then retW () else fs_create_dir_all env (parent_path path)) (\<lambda>_.
        doW (fs_write env (partial_path path) []) (\<lambda>_. outside env (retW ()))) w = (r, w')"
      by (simp add: open_table_def)
    then show ?thesis
    proof (cases rule: doW_cases)
      case (fails e)
      then show ?thesis using fs_create_dir_all_spec [of env "parent_path path" w]
        by (auto simp: retW_def split: if_splits)
    next
      case (goes u w1)
      then have w1: "wd_files w1 = wd_files w"
        using fs_create_dir_all_spec [of env "parent_path path" w] by (auto simp: retW_def split: if_splits)
      show ?thesis using goes(2)
      proof (cases rule: doW_cases)
        case (fails e)
        then show ?thesis using w1 fs_write_spec [OF fails(1)] by auto
      next
        case (goes u w2)
        then show ?thesis using w1 fs_write_spec [OF goes(1)] outside_ret [OF goes(2)] by auto
      qed
    qed
  qed
qed

lemma open_table_healthy:
  "\<not> may_fail env \<Longrightarrow> has_file_name path \<Longrightarrow> \<exists>w'. open_table env path w = (Inr (), w')"
  by (simp add: open_table_def doW_def fs_create_dir_all_def fs_write_def outside_healthy retW_def)

lemma start_stream_ok:
  "stream_ok codec uri meta path []
    \<lparr>ss_table = new_table, ss_series_count = 0, ss_chunk_count = 0, ss_error = None, ss_world = w\<rparr>"
  by (simp add: stream_ok_def new_table_def chunk_total_def table_holds_def groups_ok_def INDEX_BATCH_SIZE_def)

lemma series_writer_sound:
  assumes run: "write_series_index_streaming env crc parquet codec uri meta block_path index location w = Some (r, w')"
  defines "path \<equiv> local_path location"
  shows "\<forall>p. p \<noteq> partial_path path \<and> (p \<noteq> path \<or> (\<exists>e. r = Inl e)) \<longrightarrow> wd_files w' p = wd_files w p"
    and "r = Inr (n, m) \<Longrightarrow> \<exists>es groups. parse crc index = Some (Inr es) \<and> n = length es \<and> m = chunk_total es
      \<and> list_all2 (\<lambda>e row. series_row codec uri meta block_path e = Inr row) es (concat groups) \<and> groups_ok groups
      \<and> wd_files w' (partial_path path) = None
      \<and> wd_files w' path = Some (parquet series_schema (map series_batch groups))"
proof -
  obtain r1 w1 where opened: "open_table env path w = (r1, w1)" by fastforce
  note files1 = open_table_spec [OF opened, THEN conjunct1]
  let ?s = "\<lparr>ss_table = new_table, ss_series_count = 0, ss_chunk_count = 0, ss_error = None, ss_world = w1\<rparr>"
  have both: "(\<forall>p. p \<noteq> partial_path path \<and> (p \<noteq> path \<or> (\<exists>e. r = Inl e)) \<longrightarrow> wd_files w' p = wd_files w p)
    \<and> (\<forall>n m. r = Inr (n, m) \<longrightarrow> (\<exists>es groups. parse crc index = Some (Inr es) \<and> n = length es \<and> m = chunk_total es
      \<and> list_all2 (\<lambda>e row. series_row codec uri meta block_path e = Inr row) es (concat groups) \<and> groups_ok groups
      \<and> wd_files w' (partial_path path) = None
      \<and> wd_files w' path = Some (parquet series_schema (map series_batch groups))))"
  proof (cases r1)
    case (Inl e)
    then show ?thesis using run opened files1 by (auto simp: write_series_index_streaming_def path_def)
  next
    case (Inr u)
    then obtain parsed s where p: "parse_each crc index (visit_series env codec uri meta block_path) ?s = Some (parsed, s)"
      and fin: "finish_series env parquet path parsed s = (r, w')"
      using run opened by (auto simp: write_series_index_streaming_def path_def)
    obtain es where s: "s = fold (visit_series env codec uri meta block_path) es ?s"
      and parse: "parse crc index = Some (tryR parsed (\<lambda>_. Inr es))"
      using parse_each_visited [OF p] by blast
    have files: "wd_files (ss_world s) = wd_files w1" unfolding s by (simp add: fold_visit_files)
    note spec = finish_series_spec [OF fin]
    have "\<exists>es groups. parse crc index = Some (Inr es) \<and> n = length es \<and> m = chunk_total es
      \<and> list_all2 (\<lambda>e row. series_row codec uri meta block_path e = Inr row) es (concat groups) \<and> groups_ok groups
      \<and> wd_files w' (partial_path path) = None
      \<and> wd_files w' path = Some (parquet series_schema (map series_batch groups))" if r: "r = Inr (n, m)" for n m
    proof -
      from spec(2) [OF r] obtain t where good: "parsed = Inr ()" "ss_error s = None"
        "n = ss_series_count s" "m = ss_chunk_count s"
        and t: "\<And>rows. length (tw_rows (ss_table s)) \<le> INDEX_BATCH_SIZE \<Longrightarrow> table_holds series_batch (ss_table s) rows
                \<Longrightarrow> table_holds series_batch t rows"
          "tw_rows t = []" "wd_files w' (partial_path path) = None"
          "wd_files w' path = Some (parquet series_schema (tw_batches t))"
        by auto
      have "stream_ok codec uri meta block_path ([] @ es) s"
        unfolding s by (rule fold_visit_ok [OF start_stream_ok]) (use good(2) s in simp)
      then obtain rows where counts: "ss_series_count s = length es" "ss_chunk_count s = chunk_total es"
        and len: "length (tw_rows (ss_table s)) \<le> INDEX_BATCH_SIZE"
        and rows: "list_all2 (\<lambda>e row. series_row codec uri meta block_path e = Inr row) es rows"
        and holds: "table_holds series_batch (ss_table s) rows"
        by (auto simp: stream_ok_def)
      from t(1) [OF len holds] t(2) obtain groups where "tw_batches t = map series_batch groups"
        "concat groups = rows" "groups_ok groups"
        by (auto simp: table_holds_def)
      then show ?thesis using good counts rows t(3,4) parse by auto
    qed
    moreover have "\<forall>p. p \<noteq> partial_path path \<and> (p \<noteq> path \<or> (\<exists>e. r = Inl e)) \<longrightarrow> wd_files w' p = wd_files w p"
      using spec(1) files files1 by auto
    ultimately show ?thesis by blast
  qed
  then show "\<forall>p. p \<noteq> partial_path path \<and> (p \<noteq> path \<or> (\<exists>e. r = Inl e)) \<longrightarrow> wd_files w' p = wd_files w p" by blast
  show "r = Inr (n, m) \<Longrightarrow> \<exists>es groups. parse crc index = Some (Inr es) \<and> n = length es \<and> m = chunk_total es
      \<and> list_all2 (\<lambda>e row. series_row codec uri meta block_path e = Inr row) es (concat groups) \<and> groups_ok groups
      \<and> wd_files w' (partial_path path) = None
      \<and> wd_files w' path = Some (parquet series_schema (map series_batch groups))"
    using both by blast
qed

lemma series_writer_complete:
  assumes healthy: "\<not> may_fail env" and name: "has_file_name (local_path location)"
    and parse: "parse crc index = Some (Inr es)"
    and rows: "\<forall>e \<in> set es. \<exists>row. series_row codec uri meta block_path e = Inr row"
  shows "\<exists>w'. write_series_index_streaming env crc parquet codec uri meta block_path index location w
    = Some (Inr (length es, chunk_total es), w')"
proof -
  obtain w1 where opened: "open_table env (local_path location) w = (Inr (), w1)"
    using open_table_healthy [OF healthy name] by blast
  let ?s = "\<lparr>ss_table = new_table, ss_series_count = 0, ss_chunk_count = 0, ss_error = None, ss_world = w1\<rparr>"
  let ?f = "fold (visit_series env codec uri meta block_path) es ?s"
  have err: "ss_error ?f = None" by (rule fold_visit_healthy [OF start_stream_ok healthy rows])
  have "stream_ok codec uri meta block_path ([] @ es) ?f" by (rule fold_visit_ok [OF start_stream_ok err])
  then have counts: "ss_series_count ?f = length es" "ss_chunk_count ?f = chunk_total es"
    by (simp_all add: stream_ok_def)
  show ?thesis
    using finish_series_healthy [OF healthy err, of parquet "local_path location"] counts
    by (auto simp: write_series_index_streaming_def opened parse_each_parsed [OF parse])
qed

end
