(* ===== verification/Block_Both_Facts.thy ===== *)
theory Block_Both_Facts
  imports Block_Files_Facts
begin

text \<open>
  The writer of both tables: the series table is the one the other writer makes, the chunk table has one
  row per chunk of these series, and the collected labels are those of the metrics; without failing calls both
  are written.
\<close>

section \<open>Rows of one series\<close>

definition chunk_rows_of ::
  "index_codec \<Rightarrow> repository_config \<Rightarrow> block_meta \<Rightarrow> string \<Rightarrow> index_series \<Rightarrow> chunk_index_row list" where
  "chunk_rows_of codec repository meta path s =
     (case (bt_get (is_labels s) ''__name__'', ix_labels_json codec (with_external_labels meta (is_labels s))) of
        (Some name, Inr json) \<Rightarrow>
          map (chunk_row_of repository meta path s name (ic_mint (hd (is_chunks s))) (ic_maxt (last (is_chunks s)))
            (with_external_labels meta (is_labels s)) json) (is_chunks s)
      | _ \<Rightarrow> [])"

lemma append_chunk_rows_good:
  assumes name: "bt_get (is_labels s) ''__name__'' = Some name"
    and row: "series_row codec (rc_uri repository) meta path s = Inr row"
  shows "append_chunk_rows codec repository meta path s rows srows =
    (Inr (length (is_chunks s)), rows @ chunk_rows_of codec repository meta path s, srows @ [row])"
proof -
  obtain mint maxt json cjson where parts: "first_mint s = Inr mint" "last_maxt s = Inr maxt"
    "ix_labels_json codec (with_external_labels meta (is_labels s)) = Inr json"
    "ix_locations_json codec (map (chunk_location_of path) (is_chunks s)) = Inr cjson"
    and row': "row = \<lparr>sr_repository_uri = rc_uri repository, sr_downsample_resolution = tm_resolution (me_thanos meta),
           sr_series_mint = mint, sr_series_maxt = maxt, sr_labels_json = json, sr_chunks_json = cjson\<rparr>"
    using row by (auto simp: series_row_def tryR_eq_Inr map_err_eq_Inr)
  have "mint = ic_mint (hd (is_chunks s))" "maxt = ic_maxt (last (is_chunks s))"
    using parts(1,2) by (simp_all add: first_mint_Inr last_maxt_Inr)
  with parts name row' show ?thesis by (simp add: append_chunk_rows_def chunk_rows_of_def Let_def)
qed

lemma append_chunk_rows_fails:
  "bt_get (is_labels s) ''__name__'' = None \<or> (\<exists>e. series_row codec (rc_uri repository) meta path s = Inl e) \<Longrightarrow>
    \<exists>e. fst (append_chunk_rows codec repository meta path s rows srows) = Inl e"
  by (cases "first_mint s"; cases "last_maxt s"; cases "bt_get (is_labels s) ''__name__''";
      cases "ix_labels_json codec (with_external_labels meta (is_labels s))";
      cases "ix_locations_json codec (map (chunk_location_of path) (is_chunks s))")
     (simp_all add: append_chunk_rows_def series_row_def Let_def)

section \<open>The stream\<close>

abbreviation chunk_batch :: "chunk_index_row list \<Rightarrow> batch" where
  "chunk_batch rows \<equiv> batch_of chunk_schema (chunk_columns rows) (length rows)"

definition table_has :: "('r list \<Rightarrow> batch) \<Rightarrow> 'r table_writer \<Rightarrow> 'r list \<Rightarrow> bool" where
  "table_has mk table rows \<longleftrightarrow>
     (\<exists>groups. tw_batches table = map mk groups \<and> concat groups @ tw_rows table = rows)"

lemma flush_rows_result:
  assumes rb: "\<And>rows. rb rows = Inr (mk rows)" and run: "flush_rows env rb table w = (Inr t, w')"
  shows "t = (if tw_rows table = [] then table else \<lparr>tw_rows = [], tw_batches = tw_batches table @ [mk (tw_rows table)]\<rparr>)"
  using run by (auto simp: flush_rows_def rb retW_def split: if_splits elim!: doW_cases)

lemma flush_rows_has:
  assumes rb: "\<And>rows. rb rows = Inr (mk rows)" and run: "flush_rows env rb table w = (Inr t, w')"
    and has: "table_has mk table rows"
  shows "table_has mk t rows"
proof -
  obtain groups where g: "tw_batches table = map mk groups" "concat groups @ tw_rows table = rows"
    using has by (auto simp: table_has_def)
  show ?thesis
  proof (cases "tw_rows table = []")
    case True
    then show ?thesis using flush_rows_result [OF rb run] has by simp
  next
    case False
    then show ?thesis using flush_rows_result [OF rb run] g
      by (auto simp: table_has_def intro!: exI [of _ "groups @ [tw_rows table]"])
  qed
qed

definition both_ok ::
  "index_codec \<Rightarrow> repository_config \<Rightarrow> block_meta \<Rightarrow> string \<Rightarrow> index_series list \<Rightarrow> both_stream \<Rightarrow> bool" where
  "both_ok codec repository meta path es s \<longleftrightarrow>
     bo_error s = None \<and> bo_series_count s = length es \<and> bo_chunk_count s = chunk_total es
     \<and> bo_metric_labels s = fold (\<lambda>e. collect_metric_labels (tm_labels (me_thanos meta)) [e]) es []
     \<and> table_has chunk_batch (bo_chunks s) (concat (map (chunk_rows_of codec repository meta path) es))
     \<and> length (tw_rows (bo_series s)) < INDEX_BATCH_SIZE
     \<and> (\<exists>rows. list_all2 (\<lambda>e row. series_row codec (rc_uri repository) meta path e = Inr row) es rows
          \<and> table_holds series_batch (bo_series s) rows)"

lemma flush_full_files:
  assumes rb: "\<And>rows. rb rows = Inr (mk rows)"
  shows "wd_files (snd (snd (flush_full env rb table error w))) = wd_files w"
proof -
  obtain r w' where run: "flush_rows env rb table w = (r, w')" by fastforce
  show ?thesis
    using flush_rows_spec(1) [OF rb run] run by (cases r) (simp_all add: flush_full_def)
qed

lemma visit_both_files: "wd_files (bo_world (visit_both env codec repository meta path e s)) = wd_files (bo_world s)"
proof -
  have c: "wd_files w' = wd_files w" if "flush_full env chunk_record_batch t er w = (t', er', w')" for t er w t' er' w'
    using flush_full_files [of chunk_record_batch chunk_batch env t er w] that chunk_record_batch_ok by simp
  have s: "wd_files w' = wd_files w" if "flush_full env series_record_batch t er w = (t', er', w')" for t er w t' er' w'
    using flush_full_files [of series_record_batch series_batch env t er w] that series_batch_ok by simp
  show ?thesis
    by (auto simp: visit_both_def Let_def split: prod.splits sum.splits dest!: c s)
qed

lemma visit_both_stuck: "bo_error s \<noteq> None \<Longrightarrow> visit_both env codec repository meta path e s = s"
  by (simp add: visit_both_def)

lemma flush_full_none:
  assumes "flush_full env rb table error w = (t, None, w')"
  shows "error = None"
    and "(length (tw_rows table) < INDEX_BATCH_SIZE \<and> t = table)
      \<or> (INDEX_BATCH_SIZE \<le> length (tw_rows table) \<and> flush_rows env rb table w = (Inr t, w'))"
  using assms by (auto simp: flush_full_def split: if_splits prod.splits sum.splits)

lemma flush_full_healthy:
  assumes rb: "\<And>rows. rb rows = Inr (mk rows)" and "\<not> may_fail env"
  shows "\<exists>t w'. flush_full env rb table None w = (t, None, w')"
proof -
  obtain r w' where run: "flush_rows env rb table w = (r, w')" by fastforce
  then obtain t where "r = Inr t" using flush_rows_spec(5) [OF rb run assms(2)] by blast
  with run show ?thesis by (simp add: flush_full_def)
qed

lemma visit_both_step:
  assumes ok: "both_ok codec repository meta path es s"
  shows "bo_error (visit_both env codec repository meta path e s) = None \<Longrightarrow>
      both_ok codec repository meta path (es @ [e]) (visit_both env codec repository meta path e s)"
proof -
  let ?s' = "visit_both env codec repository meta path e s"
  obtain rows where err: "bo_error s = None" "bo_series_count s = length es" "bo_chunk_count s = chunk_total es"
    "bo_metric_labels s = fold (\<lambda>e. collect_metric_labels (tm_labels (me_thanos meta)) [e]) es []"
    "length (tw_rows (bo_series s)) < INDEX_BATCH_SIZE"
    and chunks: "table_has chunk_batch (bo_chunks s) (concat (map (chunk_rows_of codec repository meta path) es))"
    and rows: "list_all2 (\<lambda>e row. series_row codec (rc_uri repository) meta path e = Inr row) es rows"
      "table_holds series_batch (bo_series s) rows"
    using ok by (auto simp: both_ok_def)
  assume none: "bo_error ?s' = None"
  obtain name row where name: "bt_get (is_labels e) ''__name__'' = Some name"
    and row: "series_row codec (rc_uri repository) meta path e = Inr row"
  proof -
    have "\<not> (\<exists>x. fst (append_chunk_rows codec repository meta path e (tw_rows (bo_chunks s)) (tw_rows (bo_series s))) = Inl x)"
      using none err(1) by (auto simp: visit_both_def Let_def split: prod.splits)
    then show ?thesis using that append_chunk_rows_fails
      by (metis option.exhaust sum.exhaust)
  qed
  let ?c = "(bo_chunks s)\<lparr>tw_rows := tw_rows (bo_chunks s) @ chunk_rows_of codec repository meta path e\<rparr>"
  let ?t = "(bo_series s)\<lparr>tw_rows := tw_rows (bo_series s) @ [row]\<rparr>"
  have app: "append_chunk_rows codec repository meta path e (tw_rows (bo_chunks s)) (tw_rows (bo_series s))
    = (Inr (length (is_chunks e)), tw_rows ?c, tw_rows ?t)"
    using append_chunk_rows_good [OF name row] by simp
  obtain c er w1 where fc: "flush_full env chunk_record_batch ?c None (bo_world s) = (c, er, w1)" by (metis prod_cases3)
  obtain t er' w2 where ft: "flush_full env series_record_batch ?t er w1 = (t, er', w2)" by (metis prod_cases3)
  have s': "?s' = s\<lparr>bo_series_count := bo_series_count s + 1,
      bo_metric_labels := collect_metric_labels (tm_labels (me_thanos meta)) [e] (bo_metric_labels s),
      bo_chunk_count := bo_chunk_count s + length (is_chunks e), bo_chunks := c, bo_series := t,
      bo_error := er', bo_world := w2\<rparr>"
    using err(1) fc ft by (simp add: visit_both_def app Let_def)
  with none have "er' = None" by simp
  with ft have er: "er = None" using flush_full_none(1) by metis
  have "table_has chunk_batch ?c (concat (map (chunk_rows_of codec repository meta path) (es @ [e])))"
    using chunks by (auto simp: table_has_def)
  then have chunks': "table_has chunk_batch c (concat (map (chunk_rows_of codec repository meta path) (es @ [e])))"
    using flush_full_none(2) [OF fc [unfolded er]] by (auto intro: flush_rows_has [OF chunk_record_batch_ok])
  have rows': "list_all2 (\<lambda>e row. series_row codec (rc_uri repository) meta path e = Inr row) (es @ [e]) (rows @ [row])"
    using rows(1) row by (simp add: list_all2_appendI)
  have holds: "table_holds series_batch ?t (rows @ [row])" by (rule table_holds_push [OF rows(2)])
  have len: "length (tw_rows ?t) \<le> INDEX_BATCH_SIZE" using err(5) by simp
  have "table_holds series_batch t (rows @ [row]) \<and> length (tw_rows t) < INDEX_BATCH_SIZE"
    using flush_full_none(2) [OF ft [unfolded \<open>er' = None\<close>]]
  proof
    assume "length (tw_rows ?t) < INDEX_BATCH_SIZE \<and> t = ?t"
    then show ?thesis using holds by simp
  next
    assume "INDEX_BATCH_SIZE \<le> length (tw_rows ?t) \<and> flush_rows env series_record_batch ?t w1 = (Inr t, w2)"
    then have run: "flush_rows env series_record_batch ?t w1 = (Inr t, w2)" by simp
    show ?thesis
      using flush_rows_spec(2) [OF series_batch_ok run refl] flush_rows_spec(3) [OF series_batch_ok run refl len holds]
      by (simp add: INDEX_BATCH_SIZE_def)
  qed
  with err chunks' rows' \<open>er' = None\<close> show "both_ok codec repository meta path (es @ [e]) ?s'"
    unfolding s' both_ok_def by (auto simp: chunk_total_def)
qed

section \<open>The end of the writer\<close>

lemma doW_Inr_iff: "doW m f w = (Inr y, w') \<longleftrightarrow> (\<exists>x w1. m w = (Inr x, w1) \<and> f x w1 = (Inr y, w'))"
  by (auto simp: doW_def split: prod.splits sum.splits)

text \<open>An action that leaves the file at \<open>p\<close> alone.\<close>

definition keeps_file :: "string \<Rightarrow> 'a action \<Rightarrow> bool" where
  "keeps_file p m \<longleftrightarrow> (\<forall>w. wd_files (snd (m w)) p = wd_files w p)"

lemma keeps_fileD: "keeps_file p m \<Longrightarrow> m w = (r, w') \<Longrightarrow> wd_files w' p = wd_files w p"
  by (auto simp: keeps_file_def dest: spec [of _ w])

lemma keeps_doW: "keeps_file p m \<Longrightarrow> (\<And>x. keeps_file p (f x)) \<Longrightarrow> keeps_file p (doW m f)"
  unfolding keeps_file_def doW_def by (simp split: prod.split sum.split) (metis snd_conv)

lemma keeps_flush: "(\<And>rows. rb rows = Inr (mk rows)) \<Longrightarrow> keeps_file p (flush_rows env rb table)"
  using flush_rows_spec(1) [of rb mk env table] unfolding keeps_file_def by (metis prod.collapse)

lemma keeps_write: "p \<noteq> path \<Longrightarrow> keeps_file p (fs_write env path bs)"
  using fs_write_spec [of env path bs] unfolding keeps_file_def by (metis fun_upd_other prod.collapse)

lemma keeps_rename: "p \<noteq> a \<Longrightarrow> p \<noteq> b \<Longrightarrow> keeps_file p (fs_rename env a b)"
  using fs_rename_spec [of env a b] unfolding keeps_file_def by (metis fun_upd_other prod.collapse)

definition paths_apart :: "string \<Rightarrow> string \<Rightarrow> bool" where
  "paths_apart path series_path \<longleftrightarrow> distinct [path, partial_path path, series_path, partial_path series_path]"

lemma finish_both_Inl:
  assumes run: "finish_both env parquet path series_path parsed s = (Inl e, w')" and apart: "paths_apart path series_path"
  shows "wd_files w' series_path = wd_files (bo_world s) series_path"
proof (cases "tryR parsed (\<lambda>_. case bo_error s of Some e \<Rightarrow> Inl e | None \<Rightarrow> Inr ())")
  case (Inl x)
  with run apart show ?thesis
    by (cases x) (auto simp: finish_both_def remove_quietly_files paths_apart_def partial_path_neq)
next
  case (Inr u)
  let ?rest = "\<lambda>series_table chunks. doW (close_table env parquet chunk_schema path (tw_batches chunks)) (\<lambda>_.
      doW (close_table env parquet series_schema series_path (tw_batches series_table)) (\<lambda>_.
      fs_rename env (partial_path path) path))"
  let ?last = "\<lambda>_. doW (fs_rename env (partial_path series_path) series_path) (\<lambda>_.
      retW (bo_series_count s, bo_chunk_count s, bo_metric_labels s))"
  have assoc: "doW (doW m f) g = doW m (\<lambda>x. doW (f x) g)" for m :: "'a action" and f :: "'a \<Rightarrow> 'b action" and g :: "'b \<Rightarrow> 'c action"
    by (rule ext) (simp add: doW_def split: prod.split sum.split)
  let ?first = "doW (flush_rows env chunk_record_batch (bo_chunks s)) (\<lambda>chunks.
      doW (flush_rows env series_record_batch (bo_series s)) (\<lambda>series_table. ?rest series_table chunks))"
  define first where "first = ?first"
  have run': "doW first ?last (bo_world s) = (Inl e, w')"
    using run Inr by (simp add: first_def finish_both_def assoc)
  have keeps: "keeps_file series_path first"
    unfolding first_def
    using apart unfolding close_table_def paths_apart_def
    by (intro keeps_doW keeps_flush [of _ chunk_batch] keeps_flush [of _ series_batch] keeps_write keeps_rename)
       (auto simp: chunk_record_batch_ok series_batch_ok partial_path_neq)
  from run' show ?thesis
  proof (cases rule: doW_cases)
    case (fails x)
    then show ?thesis using keeps_fileD [OF keeps fails(1)] by simp
  next
    case (goes x w1)
    show ?thesis using goes(2)
    proof (cases rule: doW_cases)
      case (fails y)
      then show ?thesis using keeps_fileD [OF keeps goes(1)] fs_rename_spec [OF fails(1)] by auto
    qed (simp add: retW_def)
  qed
qed

lemma finish_both_Inr:
  assumes run: "finish_both env parquet path series_path parsed s = (Inr counts, w')" and apart: "paths_apart path series_path"
  shows "parsed = Inr () \<and> bo_error s = None \<and> counts = (bo_series_count s, bo_chunk_count s, bo_metric_labels s)
    \<and> (\<exists>c t wa wb wc. flush_rows env chunk_record_batch (bo_chunks s) wa = (Inr c, wb)
        \<and> flush_rows env series_record_batch (bo_series s) wb = (Inr t, wc)
        \<and> wd_files w' path = Some (parquet chunk_schema (tw_batches c))
        \<and> wd_files w' series_path = Some (parquet series_schema (tw_batches t)))"
proof -
  have no: "tryR parsed (\<lambda>_. case bo_error s of Some e \<Rightarrow> Inl e | None \<Rightarrow> Inr ()) \<noteq> Inl x" for x
    using run by (cases x) (auto simp: finish_both_def)
  have p: "parsed = Inr ()"
  proof (cases parsed)
    case (Inl x)
    then show ?thesis using no [of x] by simp
  qed simp
  moreover have "bo_error s = None"
  proof (cases "bo_error s")
    case (Some x)
    then show ?thesis using no [of x] p by simp
  qed
  ultimately have good: "parsed = Inr ()" "bo_error s = None" .
  have run': "doW (flush_rows env chunk_record_batch (bo_chunks s)) (\<lambda>chunks.
          doW (flush_rows env series_record_batch (bo_series s)) (\<lambda>series_table.
          doW (close_table env parquet chunk_schema path (tw_batches chunks)) (\<lambda>_.
          doW (close_table env parquet series_schema series_path (tw_batches series_table)) (\<lambda>_.
          doW (fs_rename env (partial_path path) path) (\<lambda>_.
          doW (fs_rename env (partial_path series_path) series_path) (\<lambda>_.
            retW (bo_series_count s, bo_chunk_count s, bo_metric_labels s))))))) (bo_world s) = (Inr counts, w')"
    using run good by (simp add: finish_both_def)
  obtain c w1 where c1: "flush_rows env chunk_record_batch (bo_chunks s) (bo_world s) = (Inr c, w1)"
    and r1: "doW (flush_rows env series_record_batch (bo_series s)) (\<lambda>series_table.
          doW (close_table env parquet chunk_schema path (tw_batches c)) (\<lambda>_.
          doW (close_table env parquet series_schema series_path (tw_batches series_table)) (\<lambda>_.
          doW (fs_rename env (partial_path path) path) (\<lambda>_.
          doW (fs_rename env (partial_path series_path) series_path) (\<lambda>_.
            retW (bo_series_count s, bo_chunk_count s, bo_metric_labels s)))))) w1 = (Inr counts, w')"
    using doW_Inr_iff [THEN iffD1, OF run'] by blast
  obtain t w2 where c2: "flush_rows env series_record_batch (bo_series s) w1 = (Inr t, w2)"
    and r2: "doW (close_table env parquet chunk_schema path (tw_batches c)) (\<lambda>_.
          doW (close_table env parquet series_schema series_path (tw_batches t)) (\<lambda>_.
          doW (fs_rename env (partial_path path) path) (\<lambda>_.
          doW (fs_rename env (partial_path series_path) series_path) (\<lambda>_.
            retW (bo_series_count s, bo_chunk_count s, bo_metric_labels s))))) w2 = (Inr counts, w')"
    using doW_Inr_iff [THEN iffD1, OF r1] by blast
  obtain w3 w4 where c3: "close_table env parquet chunk_schema path (tw_batches c) w2 = (Inr (), w3)"
    and c4: "close_table env parquet series_schema series_path (tw_batches t) w3 = (Inr (), w4)"
    and r4: "doW (fs_rename env (partial_path path) path) (\<lambda>_.
          doW (fs_rename env (partial_path series_path) series_path) (\<lambda>_.
            retW (bo_series_count s, bo_chunk_count s, bo_metric_labels s))) w4 = (Inr counts, w')"
    using doW_Inr_iff [THEN iffD1, OF r2] unfolding doW_Inr_iff [of "close_table env parquet series_schema series_path (tw_batches t)"]
    by (metis (full_types) old.unit.exhaust)
  obtain w5 w6 where c5: "fs_rename env (partial_path path) path w4 = (Inr (), w5)"
    and c6: "fs_rename env (partial_path series_path) series_path w5 = (Inr (), w6)"
    and res: "counts = (bo_series_count s, bo_chunk_count s, bo_metric_labels s)" "w' = w6"
    using r4 unfolding doW_Inr_iff retW_def by (auto simp: old.unit.exhaust)
  note chain = c1 c2 c3 c4 c5 c6
  have f3: "wd_files w3 = (wd_files w2)(partial_path path := Some (parquet chunk_schema (tw_batches c)))"
    using fs_write_spec [OF chain(3) [unfolded close_table_def]] by auto
  have f4: "wd_files w4 = (wd_files w3)(partial_path series_path := Some (parquet series_schema (tw_batches t)))"
    using fs_write_spec [OF chain(4) [unfolded close_table_def]] by auto
  have f5: "wd_files w5 = (wd_files w4)(partial_path path := None, path := Some (parquet chunk_schema (tw_batches c)))"
    using fs_rename_spec [OF chain(5)] f4 f3 apart by (auto simp: paths_apart_def)
  have f6: "wd_files w6 = (wd_files w5)(partial_path series_path := None, series_path := Some (parquet series_schema (tw_batches t)))"
    using fs_rename_spec [OF chain(6)] f5 f4 apart by (auto simp: paths_apart_def)
  have "wd_files w' path = Some (parquet chunk_schema (tw_batches c))"
    "wd_files w' series_path = Some (parquet series_schema (tw_batches t))"
    using f5 f6 res(2) apart by (auto simp: paths_apart_def)
  with good res(1) chain(1,2) show ?thesis by blast
qed

section \<open>The writer of both tables\<close>

lemma fold_both_files:
  "wd_files (bo_world (fold (visit_both env codec repository meta path) es s)) = wd_files (bo_world s)"
  by (induction es arbitrary: s) (simp_all add: visit_both_files)

lemma fold_both_stuck: "bo_error s \<noteq> None \<Longrightarrow> fold (visit_both env codec repository meta path) es s = s"
  by (induction es) (simp_all add: visit_both_stuck)

lemma fold_both_ok:
  "both_ok codec repository meta path seen s \<Longrightarrow>
    bo_error (fold (visit_both env codec repository meta path) es s) = None \<Longrightarrow>
    both_ok codec repository meta path (seen @ es) (fold (visit_both env codec repository meta path) es s)"
proof (induction es arbitrary: seen s)
  case (Cons e es)
  let ?s' = "visit_both env codec repository meta path e s"
  show ?case
  proof (cases "bo_error ?s'")
    case None
    with Cons.IH [OF visit_both_step [OF Cons.prems(1) None]] Cons.prems(2) show ?thesis by simp
  next
    case (Some x)
    then have "fold (visit_both env codec repository meta path) es ?s' = ?s'" by (intro fold_both_stuck) simp
    with Some Cons.prems(2) show ?thesis by simp
  qed
qed simp

lemma start_both_ok:
  "both_ok codec repository meta path []
    \<lparr>bo_chunks = new_table, bo_series = new_table, bo_metric_labels = [], bo_series_count = 0,
     bo_chunk_count = 0, bo_error = None, bo_world = w\<rparr>"
  by (simp add: both_ok_def new_table_def chunk_total_def table_holds_def table_has_def groups_ok_def INDEX_BATCH_SIZE_def)

lemma both_writer_sound:
  assumes run: "write_chunk_and_series_index_streaming env crc parquet codec repository meta block_path index
      chunk_location series_location w = Some (r, w')"
    and apart: "paths_apart (local_path chunk_location) (local_path series_location)"
  defines "path \<equiv> local_path chunk_location" and "series_path \<equiv> local_path series_location"
  shows "r = Inl e \<Longrightarrow> wd_files w' series_path = wd_files w series_path"
    and "r = Inr (n, m, labels) \<Longrightarrow> \<exists>es groups chunk_groups. parse crc index = Some (Inr es)
      \<and> n = length es \<and> m = chunk_total es
      \<and> ml_ok labels \<and> ml_set labels = metric_columns (tm_labels (me_thanos meta)) es
      \<and> list_all2 (\<lambda>e row. series_row codec (rc_uri repository) meta block_path e = Inr row) es (concat groups)
      \<and> groups_ok groups \<and> wd_files w' series_path = Some (parquet series_schema (map series_batch groups))
      \<and> concat chunk_groups = concat (map (chunk_rows_of codec repository meta block_path) es)
      \<and> wd_files w' path = Some (parquet chunk_schema (map chunk_batch chunk_groups))"
proof -
  note apart' = apart [folded path_def series_path_def]
  obtain r1 w1 where opened: "doW (open_table env path) (\<lambda>_. open_table env series_path) w = (r1, w1)" by fastforce
  have files1: "wd_files w1 series_path = wd_files w series_path"
    using opened
  proof (cases rule: doW_cases)
    case (fails e)
    then show ?thesis using open_table_spec [OF fails(1)] apart' by (auto simp: paths_apart_def)
  next
    case (goes x w0)
    then show ?thesis using open_table_spec [OF goes(1)] open_table_spec [OF goes(2)] apart'
      by (auto simp: paths_apart_def)
  qed
  let ?s = "\<lparr>bo_chunks = new_table, bo_series = new_table, bo_metric_labels = [], bo_series_count = 0,
     bo_chunk_count = 0, bo_error = None, bo_world = w1\<rparr>"
  have "(\<forall>e. r = Inl e \<longrightarrow> wd_files w' series_path = wd_files w series_path) \<and>
    (\<forall>n m labels. r = Inr (n, m, labels) \<longrightarrow> (\<exists>es groups chunk_groups. parse crc index = Some (Inr es)
      \<and> n = length es \<and> m = chunk_total es
      \<and> ml_ok labels \<and> ml_set labels = metric_columns (tm_labels (me_thanos meta)) es
      \<and> list_all2 (\<lambda>e row. series_row codec (rc_uri repository) meta block_path e = Inr row) es (concat groups)
      \<and> groups_ok groups \<and> wd_files w' series_path = Some (parquet series_schema (map series_batch groups))
      \<and> concat chunk_groups = concat (map (chunk_rows_of codec repository meta block_path) es)
      \<and> wd_files w' path = Some (parquet chunk_schema (map chunk_batch chunk_groups))))"
  proof (cases r1)
    case (Inl e)
    then show ?thesis using run opened files1
      by (auto simp: write_chunk_and_series_index_streaming_def path_def series_path_def)
  next
    case (Inr u)
    then obtain parsed s where p: "parse_each crc index (visit_both env codec repository meta block_path) ?s = Some (parsed, s)"
      and fin: "finish_both env parquet path series_path parsed s = (r, w')"
      using run opened by (auto simp: write_chunk_and_series_index_streaming_def path_def series_path_def)
    obtain es where s: "s = fold (visit_both env codec repository meta block_path) es ?s"
      and parse: "parse crc index = Some (tryR parsed (\<lambda>_. Inr es))"
      using parse_each_visited [OF p] by blast
    have files: "wd_files (bo_world s) = wd_files w1" unfolding s by (simp add: fold_both_files)
    have "\<exists>es groups chunk_groups. parse crc index = Some (Inr es)
      \<and> n = length es \<and> m = chunk_total es
      \<and> ml_ok labels \<and> ml_set labels = metric_columns (tm_labels (me_thanos meta)) es
      \<and> list_all2 (\<lambda>e row. series_row codec (rc_uri repository) meta block_path e = Inr row) es (concat groups)
      \<and> groups_ok groups \<and> wd_files w' series_path = Some (parquet series_schema (map series_batch groups))
      \<and> concat chunk_groups = concat (map (chunk_rows_of codec repository meta block_path) es)
      \<and> wd_files w' path = Some (parquet chunk_schema (map chunk_batch chunk_groups))"
      if r: "r = Inr (n, m, labels)" for n m labels
    proof -
      from finish_both_Inr [OF fin [unfolded r] apart'] obtain c t wa wb wc where
        good: "parsed = Inr ()" "bo_error s = None" "n = bo_series_count s" "m = bo_chunk_count s"
          "labels = bo_metric_labels s"
        and fl: "flush_rows env chunk_record_batch (bo_chunks s) wa = (Inr c, wb)"
          "flush_rows env series_record_batch (bo_series s) wb = (Inr t, wc)"
        and out: "wd_files w' path = Some (parquet chunk_schema (tw_batches c))"
          "wd_files w' series_path = Some (parquet series_schema (tw_batches t))"
        by auto
      have "both_ok codec repository meta block_path ([] @ es) s"
        unfolding s by (rule fold_both_ok [OF start_both_ok]) (use good(2) s in simp)
      then obtain rows where ok: "bo_series_count s = length es" "bo_chunk_count s = chunk_total es"
        "bo_metric_labels s = fold (\<lambda>e. collect_metric_labels (tm_labels (me_thanos meta)) [e]) es []"
        and chunks: "table_has chunk_batch (bo_chunks s) (concat (map (chunk_rows_of codec repository meta block_path) es))"
        and len: "length (tw_rows (bo_series s)) \<le> INDEX_BATCH_SIZE"
        and rows: "list_all2 (\<lambda>e row. series_row codec (rc_uri repository) meta block_path e = Inr row) es rows"
        and holds: "table_holds series_batch (bo_series s) rows"
        by (auto simp: both_ok_def)
      have "table_holds series_batch t rows" "tw_rows t = []"
        using flush_rows_spec(2,3) [OF series_batch_ok fl(2) refl] len holds by blast+
      then obtain groups where g: "tw_batches t = map series_batch groups" "concat groups = rows" "groups_ok groups"
        by (auto simp: table_holds_def)
      have "table_has chunk_batch c (concat (map (chunk_rows_of codec repository meta block_path) es))"
        by (rule flush_rows_has [OF chunk_record_batch_ok fl(1) chunks])
      moreover have "tw_rows c = []" using flush_rows_spec(2) [OF chunk_record_batch_ok fl(1) refl] by blast
      ultimately obtain chunk_groups where cg: "tw_batches c = map chunk_batch chunk_groups"
        "concat chunk_groups = concat (map (chunk_rows_of codec repository meta block_path) es)"
        by (auto simp: table_has_def)
      have "ml_ok labels \<and> ml_set labels = metric_columns (tm_labels (me_thanos meta)) es"
        using collect_spec [of "tm_labels (me_thanos meta)" es] ok(3) good(5) by simp
      moreover have "parse crc index = Some (Inr es)" using parse good(1) by simp
      ultimately show ?thesis
        using good(3,4) ok(1,2) rows g cg out
        by (intro exI [of _ es] exI [of _ groups] exI [of _ chunk_groups]) simp
    qed
    moreover have "r = Inl e \<longrightarrow> wd_files w' series_path = wd_files w series_path" for e
      using finish_both_Inl [OF _ apart'] fin files files1 by auto
    ultimately show ?thesis by blast
  qed
  then show "r = Inl e \<Longrightarrow> wd_files w' series_path = wd_files w series_path"
    and "r = Inr (n, m, labels) \<Longrightarrow> \<exists>es groups chunk_groups. parse crc index = Some (Inr es)
      \<and> n = length es \<and> m = chunk_total es
      \<and> ml_ok labels \<and> ml_set labels = metric_columns (tm_labels (me_thanos meta)) es
      \<and> list_all2 (\<lambda>e row. series_row codec (rc_uri repository) meta block_path e = Inr row) es (concat groups)
      \<and> groups_ok groups \<and> wd_files w' series_path = Some (parquet series_schema (map series_batch groups))
      \<and> concat chunk_groups = concat (map (chunk_rows_of codec repository meta block_path) es)
      \<and> wd_files w' path = Some (parquet chunk_schema (map chunk_batch chunk_groups))"
    by blast+
qed

section \<open>Without failing calls\<close>

definition both_rows_exist :: "index_codec \<Rightarrow> repository_config \<Rightarrow> block_meta \<Rightarrow> string \<Rightarrow> index_series \<Rightarrow> bool" where
  "both_rows_exist codec repository meta path e \<longleftrightarrow>
     bt_get (is_labels e) ''__name__'' \<noteq> None \<and> (\<exists>row. series_row codec (rc_uri repository) meta path e = Inr row)"

lemma visit_both_healthy:
  assumes "\<not> may_fail env" and "bo_error s = None" and "both_rows_exist codec repository meta path e"
  shows "bo_error (visit_both env codec repository meta path e s) = None"
proof -
  obtain name row where name: "bt_get (is_labels e) ''__name__'' = Some name"
    and row: "series_row codec (rc_uri repository) meta path e = Inr row"
    using assms(3) by (auto simp: both_rows_exist_def)
  let ?c = "(bo_chunks s)\<lparr>tw_rows := tw_rows (bo_chunks s) @ chunk_rows_of codec repository meta path e\<rparr>"
  let ?t = "(bo_series s)\<lparr>tw_rows := tw_rows (bo_series s) @ [row]\<rparr>"
  obtain c w1 where "flush_full env chunk_record_batch ?c None (bo_world s) = (c, None, w1)"
    using flush_full_healthy [of chunk_record_batch chunk_batch env ?c "bo_world s"] chunk_record_batch_ok assms(1) by blast
  moreover obtain t w2 where "flush_full env series_record_batch ?t None w1 = (t, None, w2)"
    using flush_full_healthy [of series_record_batch series_batch env ?t w1] series_batch_ok assms(1) by blast
  ultimately show ?thesis
    using assms(2) by (simp add: visit_both_def append_chunk_rows_good [OF name row] Let_def)
qed

lemma fold_both_healthy:
  "\<not> may_fail env \<Longrightarrow> bo_error s = None \<Longrightarrow> \<forall>e \<in> set es. both_rows_exist codec repository meta path e \<Longrightarrow>
    bo_error (fold (visit_both env codec repository meta path) es s) = None"
  by (induction es arbitrary: s) (simp_all add: visit_both_healthy)

lemma finish_both_healthy:
  assumes "\<not> may_fail env" and "bo_error s = None" and "paths_apart path series_path"
  shows "\<exists>w'. finish_both env parquet path series_path (Inr ()) s
    = (Inr (bo_series_count s, bo_chunk_count s, bo_metric_labels s), w')"
proof -
  obtain r w1 where c: "flush_rows env chunk_record_batch (bo_chunks s) (bo_world s) = (r, w1)" by fastforce
  then obtain t where r: "r = Inr t" using flush_rows_spec(5) [OF chunk_record_batch_ok c assms(1)] by blast
  obtain r' w2 where d: "flush_rows env series_record_batch (bo_series s) w1 = (r', w2)" by fastforce
  then obtain t' where r': "r' = Inr t'" using flush_rows_spec(5) [OF series_batch_ok d assms(1)] by blast
  have apart: "partial_path path \<noteq> partial_path series_path" "partial_path series_path \<noteq> partial_path path"
    "partial_path series_path \<noteq> path" "path \<noteq> partial_path series_path" "partial_path path \<noteq> path"
    using assms(3) unfolding paths_apart_def by auto
  from c d assms(1,2) apart show ?thesis unfolding r r'
    by (simp add: finish_both_def doW_def close_table_def fs_write_def fs_rename_def outside_healthy retW_def)
qed

lemma both_writer_complete:
  assumes healthy: "\<not> may_fail env"
    and names: "has_file_name (local_path chunk_location)" "has_file_name (local_path series_location)"
    and apart: "paths_apart (local_path chunk_location) (local_path series_location)"
    and parse: "parse crc index = Some (Inr es)" and rows: "\<forall>e \<in> set es. both_rows_exist codec repository meta block_path e"
  shows "\<exists>w'. write_chunk_and_series_index_streaming env crc parquet codec repository meta block_path index
      chunk_location series_location w
    = Some (Inr (length es, chunk_total es, fold (\<lambda>e. collect_metric_labels (tm_labels (me_thanos meta)) [e]) es []), w')"
proof -
  obtain w1 where w1: "open_table env (local_path chunk_location) w = (Inr (), w1)"
    using open_table_healthy [OF healthy names(1)] by blast
  obtain w2 where w2: "open_table env (local_path series_location) w1 = (Inr (), w2)"
    using open_table_healthy [OF healthy names(2)] by blast
  let ?s = "\<lparr>bo_chunks = new_table, bo_series = new_table, bo_metric_labels = [], bo_series_count = 0,
     bo_chunk_count = 0, bo_error = None, bo_world = w2\<rparr>"
  let ?f = "fold (visit_both env codec repository meta block_path) es ?s"
  have err: "bo_error ?f = None" using fold_both_healthy [OF healthy _ rows, of ?s] by simp
  have "both_ok codec repository meta block_path ([] @ es) ?f" by (rule fold_both_ok [OF start_both_ok err])
  then have counts: "bo_series_count ?f = length es" "bo_chunk_count ?f = chunk_total es"
    "bo_metric_labels ?f = fold (\<lambda>e. collect_metric_labels (tm_labels (me_thanos meta)) [e]) es []"
    by (simp_all add: both_ok_def)
  show ?thesis
    using finish_both_healthy [OF healthy err apart, of parquet]
    unfolding counts
    by (auto simp: write_chunk_and_series_index_streaming_def doW_def w1 w2 parse_each_parsed [OF parse])
qed

end
