(* ===== verification/Block_Index_Facts.thy ===== *)
theory Block_Index_Facts
  imports Block_Index Block_Both_Facts
begin

text \<open>
  Facts on the paths of the index files, the clean-up of a directory, the manifest of a finished block,
  the order of the results, and the whole build.
\<close>

section \<open>Paths\<close>

lemma file_name_append: "CHR ''/'' \<notin> set name \<Longrightarrow> file_name (d @ ''/'' @ name) = name"
proof -
  assume a: "CHR ''/'' \<notin> set name"
  have "takeWhile (\<lambda>c. c \<noteq> CHR ''/'') (rev name @ CHR ''/'' # rev d) = rev name"
    using a by (subst takeWhile_append2) auto
  then show ?thesis by (simp add: file_name_def)
qed

lemma path_extension_append:
  assumes "CHR ''/'' \<notin> set stem" and "stem \<noteq> []" and "CHR ''.'' \<notin> set ext" and "CHR ''/'' \<notin> set ext"
  shows "path_extension (d @ ''/'' @ stem @ ''.'' @ ext) = Some ext"
proof -
  have "file_name (d @ ''/'' @ (stem @ ''.'' @ ext)) = stem @ ''.'' @ ext"
    by (rule file_name_append) (use assms in auto)
  moreover have "takeWhile (\<lambda>c. c \<noteq> CHR ''.'') (rev (stem @ ''.'' @ ext)) = rev ext"
    using assms(3) by (simp, subst takeWhile_append2) auto
  ultimately show ?thesis
    using assms(2) by (simp add: path_extension_def Let_def)
qed

lemma file_stem_append:
  assumes "CHR ''/'' \<notin> set stem" and "stem \<noteq> []" and "CHR ''.'' \<notin> set ext" and "CHR ''/'' \<notin> set ext"
  shows "file_stem (d @ ''/'' @ stem @ ''.'' @ ext) = stem"
proof -
  have "file_name (d @ ''/'' @ (stem @ ''.'' @ ext)) = stem @ ''.'' @ ext"
    by (rule file_name_append) (use assms in auto)
  then show ?thesis by (simp add: file_stem_def path_extension_append [OF assms, simplified])
qed

text \<open>A block id as a file name.\<close>

definition plain_ulid :: "string \<Rightarrow> bool" where
  "plain_ulid ulid \<longleftrightarrow> ulid \<noteq> '''' \<and> CHR ''/'' \<notin> set ulid"

lemma not_absolute: "plain_ulid ulid \<Longrightarrow> \<not> starts_with ''/'' (ulid @ x)"
  by (cases ulid) (auto simp: plain_ulid_def starts_with_def strip_prefix_def)

lemma join_subdirectory:
  "d \<noteq> '''' \<Longrightarrow> last d \<noteq> CHR ''/'' \<Longrightarrow> plain_ulid ulid \<Longrightarrow> join_path d (ulid @ x) = d @ ''/'' @ ulid @ x"
  by (simp add: join_path_def not_absolute path_join_def)

lemma subdirectory_shape:
  "sub \<noteq> '''' \<Longrightarrow> \<not> starts_with ''/'' sub \<Longrightarrow> last sub \<noteq> CHR ''/''
    \<Longrightarrow> join_path l sub \<noteq> '''' \<and> last (join_path l sub) \<noteq> CHR ''/''"
  by (simp add: join_path_def path_join_def)

lemma index_paths:
  assumes "plain_ulid ulid"
  shows "series_index_file_path location ulid = series_index_directory_path location @ ''/'' @ ulid @ ''.parquet''"
    and "chunk_index_file_path location ulid = chunk_index_directory_path location @ ''/'' @ ulid @ ''.parquet''"
    and "block_manifest_file_path location ulid = join_path (local_path location) ''manifests'' @ ''/'' @ ulid @ ''.json''"
proof -
  have "\<not> starts_with ''/'' ''series''" "\<not> starts_with ''/'' ''indexes''" "\<not> starts_with ''/'' ''manifests''"
    by (simp_all add: starts_with_def strip_prefix_def)
  then show "series_index_file_path location ulid = series_index_directory_path location @ ''/'' @ ulid @ ''.parquet''"
    "chunk_index_file_path location ulid = chunk_index_directory_path location @ ''/'' @ ulid @ ''.parquet''"
    "block_manifest_file_path location ulid = join_path (local_path location) ''manifests'' @ ''/'' @ ulid @ ''.json''"
    using subdirectory_shape [of "''series''"] subdirectory_shape [of "''indexes''"] subdirectory_shape [of "''manifests''"]
      join_subdirectory [OF _ _ assms]
    by (simp_all add: series_index_file_path_def series_index_directory_path_def chunk_index_file_path_def
        chunk_index_directory_path_def block_manifest_file_path_def)
qed

lemma directory_lengths:
  "length (chunk_index_directory_path location) = length (series_index_directory_path location) + 1"
  by (simp add: chunk_index_directory_path_def series_index_directory_path_def join_path_def path_join_def
      starts_with_def strip_prefix_def)

lemma index_paths_apart:
  "plain_ulid ulid \<Longrightarrow> paths_apart (chunk_index_file_path location ulid) (series_index_file_path location ulid)"
proof -
  assume "plain_ulid ulid"
  then have "length (chunk_index_file_path location ulid) = length (series_index_file_path location ulid) + 1"
    by (simp add: index_paths directory_lengths)
  then have "length (chunk_index_file_path location ulid) = length (series_index_file_path location ulid) + 1"
    "length (partial_path (chunk_index_file_path location ulid)) = length (series_index_file_path location ulid) + 9"
    "length (partial_path (series_index_file_path location ulid)) = length (series_index_file_path location ulid) + 8"
    by (simp_all add: partial_path_def)
  then show ?thesis unfolding paths_apart_def by auto
qed

lemma manifest_path_last:
  assumes "plain_ulid ulid"
  shows "last (block_manifest_file_path location ulid) = CHR ''n''"
    and "last (with_extension (block_manifest_file_path location ulid) ''json.partial'') = CHR ''l''"
    and "last (series_index_file_path location ulid) = CHR ''t''"
    and "last (chunk_index_file_path location ulid) = CHR ''t''"
  using assms by (simp_all add: index_paths with_extension_def split: option.split)

section \<open>Cleaning a directory\<close>

text \<open>What a directory's listing promises: each path once, and its regular files exist.\<close>

definition listing_ok :: "index_outside \<Rightarrow> string \<Rightarrow> world \<Rightarrow> (string \<times> bool) list \<Rightarrow> bool" where
  "listing_ok io directory w entries \<longleftrightarrow>
     (\<forall>v. wd_files v = wd_files w \<longrightarrow> io_dir_exists io directory v \<and> io_read_dir io directory v = entries)
     \<and> distinct (map fst entries) \<and> (\<forall>p. (p, True) \<in> set entries \<longrightarrow> wd_files w p \<noteq> None)"

lemma remove_entries_healthy:
  assumes "\<not> may_fail env"
  shows "distinct (map fst entries) \<Longrightarrow> \<forall>(p, regular) \<in> set entries. stale p regular \<longrightarrow> wd_files w p \<noteq> None \<Longrightarrow>
    \<exists>w'. remove_entries env stale entries w = (Inr (), w')
      \<and> (\<forall>p. wd_files w' p = (if \<exists>regular. (p, regular) \<in> set entries \<and> stale p regular then None else wd_files w p))"
proof (induction entries arbitrary: w)
  case Nil
  then show ?case by (simp add: retW_def)
next
  case (Cons e entries)
  obtain path regular where e: "e = (path, regular)" by (cases e)
  define w1 where "w1 = w\<lparr>wd_clock := wd_clock w + 1\<rparr>"
  define w2 where "w2 = (if stale path regular
    then w1\<lparr>wd_clock := wd_clock w1 + 1, wd_files := (wd_files w)(path := None)\<rparr> else w1)"
  have step: "(if stale path regular then fs_remove_file env path else retW ()) w1 = (Inr (), w2)"
    using Cons.prems(2) e assms
    by (auto simp: w1_def w2_def fs_remove_file_def outside_healthy retW_def)
  have files2: "wd_files w2 = (if stale path regular then (wd_files w)(path := None) else wd_files w)"
    by (simp add: w1_def w2_def)
  have "\<forall>(p, r) \<in> set entries. stale p r \<longrightarrow> wd_files w2 p \<noteq> None"
    using Cons.prems e by (force simp: files2)
  with Cons.IH [of w2] Cons.prems(1) obtain w' where
    w': "remove_entries env stale entries w2 = (Inr (), w')"
    "\<And>p. wd_files w' p = (if \<exists>r. (p, r) \<in> set entries \<and> stale p r then None else wd_files w2 p)"
    by auto
  have "outside env (retW ()) w = (Inr (), w1)"
    using assms by (simp add: outside_healthy retW_def w1_def)
  note first = doW_Inr [where m = "outside env (retW ())", OF this]
    and second = doW_Inr [where m = "if stale path regular then fs_remove_file env path else retW ()", OF step]
  have "remove_entries env stale (e # entries) w = (Inr (), w')"
    unfolding e remove_entries.simps first second by (rule w'(1))
  then show ?case using w'(2) by (auto simp: e files2)
qed

lemma clean_directory_healthy:
  assumes "\<not> may_fail (io_env io)" and "listing_ok io directory w entries"
    and "\<And>p regular. stale p regular \<Longrightarrow> regular"
  shows "\<exists>w'. clean_directory io directory stale w = (Inr (), w')
    \<and> (\<forall>p. wd_files w' p = (if (p, True) \<in> set entries \<and> stale p True then None else wd_files w p))"
proof -
  let ?w1 = "w\<lparr>wd_clock := wd_clock w + 1\<rparr>"
  have list: "io_dir_exists io directory w" "io_read_dir io directory ?w1 = entries"
    and ok: "distinct (map fst entries)" "\<And>p. (p, True) \<in> set entries \<Longrightarrow> wd_files w p \<noteq> None"
    using assms(2) unfolding listing_ok_def by simp_all
  have "\<forall>(p, r) \<in> set entries. stale p r \<longrightarrow> wd_files ?w1 p \<noteq> None"
    using ok(2) assms(3) by fastforce
  from remove_entries_healthy [OF assms(1) ok(1) this] obtain w' where
    w': "remove_entries (io_env io) stale entries ?w1 = (Inr (), w')"
      "\<And>p. wd_files w' p = (if \<exists>r. (p, r) \<in> set entries \<and> stale p r then None else wd_files ?w1 p)" by blast
  have "clean_directory io directory stale w = (Inr (), w')"
    using list w'(1) assms(1) by (simp add: clean_directory_def outside_healthy doW_def retW_def)
  moreover have "(\<exists>r. (p, r) \<in> set entries \<and> stale p r) \<longleftrightarrow> (p, True) \<in> set entries \<and> stale p True" for p
    using assms(3) by (metis (full_types))
  ultimately show ?thesis using w'(2) by auto
qed

text \<open>Whatever fails, only stale files of the listing can go.\<close>

lemma remove_entries_safe:
  "\<not> (\<exists>regular. (p, regular) \<in> set entries \<and> stale p regular) \<Longrightarrow>
    wd_files (snd (remove_entries env stale entries w)) p = wd_files w p"
proof (induction entries arbitrary: w)
  case Nil
  then show ?case by (simp add: retW_def)
next
  case (Cons e entries)
  obtain path regular where e: "e = (path, regular)" by (cases e)
  have "keeps_file p (fs_remove_file env path)" if "p \<noteq> path"
    using that by (auto simp: keeps_file_def fs_remove_file_def outside_def failW_def Let_def split: option.split)
  moreover have "keeps_file p (retW () :: unit action)" by (simp add: keeps_file_def retW_def)
  moreover have "keeps_file p (outside env (retW ()) :: unit action)"
    by (simp add: keeps_file_def outside_def retW_def Let_def split: option.split)
  moreover have "keeps_file p (remove_entries env stale entries)"
    using Cons by (simp add: keeps_file_def e) blast
  ultimately have "keeps_file p (remove_entries env stale (e # entries))"
    using Cons.prems unfolding e remove_entries.simps by (intro keeps_doW) auto
  then show ?case by (simp add: keeps_file_def)
qed

end
