(* ===== verification/Block_Build_Facts.thy ===== *)
theory Block_Build_Facts
  imports Block_Index_Facts
begin

text \<open>
  Facts on one block's part of the build: which files it touches, what a finished block leaves behind, and
  that loading its manifest gives the same result again.
\<close>

section \<open>Locations\<close>

text \<open>A location with at most one \<open>file://\<close> in front, which the code strips twice.\<close>

definition plain_location :: "string \<Rightarrow> bool" where
  "plain_location location \<longleftrightarrow> \<not> starts_with ''file://'' (local_path location)"

lemma scheme_prefix: "starts_with ''file://'' s \<longleftrightarrow> take 7 s = ''file://''"
proof -
  have "length ''file://'' = 7" by simp
  then show ?thesis unfolding starts_with_def strip_prefix_def by (simp only: if_splits) simp
qed

lemma file_scheme_join:
  assumes d: "\<not> starts_with ''file://'' d"
    and name: "name \<in> {''series'', ''indexes'', ''manifests'', ''block_index.parquet''}"
  shows "\<not> starts_with ''file://'' (join_path d name @ x)"
proof
  assume "starts_with ''file://'' (join_path d name @ x)"
  then have eq: "take 7 (join_path d name @ x) = ''file://''"
    unfolding scheme_prefix .
  have join: "join_path d name = (if d = '''' \<or> last d = CHR ''/'' then d @ name else d @ ''/'' @ name)"
    using name by (auto simp: join_path_def path_join_def starts_with_def strip_prefix_def)
  have short: "length d < 7"
  proof (rule ccontr)
    assume "\<not> length d < 7"
    then have "take 7 d = ''file://''" using eq join by (simp split: if_splits)
    with d show False by (simp add: scheme_prefix)
  qed
  have "take (length d) (take 7 (join_path d name @ x)) = d"
    using short by (simp add: join min.absorb1)
  then have dd: "d = take (length d) ''file://''" unfolding eq by simp
  from short consider "length d = 0" | "length d = 1" | "length d = 2" | "length d = 3" | "length d = 4"
    | "length d = 5" | "length d = 6" by linarith
  then show False
    using dd eq [unfolded join] name by cases (auto simp: numeral_eq_Suc split: if_splits)
qed

lemma local_path_plain: "\<not> starts_with ''file://'' p \<Longrightarrow> local_path p = p"
  by (simp add: local_path_def starts_with_def split: option.split)

lemma local_index_paths:
  assumes "plain_location location" and "plain_ulid ulid"
  shows "local_path (series_index_file_path location ulid) = series_index_file_path location ulid"
    and "local_path (chunk_index_file_path location ulid) = chunk_index_file_path location ulid"
    and "local_path (block_index_file_path location) = block_index_file_path location"
  using assms file_scheme_join [of "local_path location" "''series''"]
    file_scheme_join [of "local_path location" "''indexes''"]
    file_scheme_join [of "local_path location" "''block_index.parquet''" "[]"]
  by (simp_all add: local_path_plain plain_location_def index_paths series_index_directory_path_def
      chunk_index_directory_path_def block_index_file_path_def)

text \<open>The files of one block.\<close>

definition manifest_temporary_path :: "string \<Rightarrow> string \<Rightarrow> string" where
  "manifest_temporary_path location ulid = with_extension (block_manifest_file_path location ulid) ''json.partial''"

definition block_files :: "string \<Rightarrow> string \<Rightarrow> string set" where
  "block_files location ulid =
     {series_index_file_path location ulid, partial_path (series_index_file_path location ulid),
      chunk_index_file_path location ulid, partial_path (chunk_index_file_path location ulid),
      block_manifest_file_path location ulid, manifest_temporary_path location ulid}"

lemma manifest_temporary_path:
  assumes "plain_ulid ulid"
  shows "manifest_temporary_path location ulid
    = join_path (local_path location) ''manifests'' @ ''/'' @ ulid @ ''.json.partial''"
proof -
  have "path_extension (join_path (local_path location) ''manifests'' @ ''/'' @ ulid @ ''.'' @ ''json'') = Some ''json''"
    by (rule path_extension_append) (use assms in \<open>auto simp: plain_ulid_def\<close>)
  then show ?thesis
    by (simp add: manifest_temporary_path_def with_extension_def index_paths [OF assms])
qed

section \<open>The manifest\<close>

lemma write_manifest_spec:
  assumes run: "write_block_manifest io location ulid cached w = (r, w')"
  shows "p \<noteq> block_manifest_file_path location ulid \<Longrightarrow> p \<noteq> manifest_temporary_path location ulid
      \<Longrightarrow> wd_files w' p = wd_files w p"
    and "r = Inr () \<Longrightarrow> \<exists>bs. io_manifest_json io cached = Inr bs
      \<and> wd_files w' (block_manifest_file_path location ulid) = Some bs"
proof -
  let ?path = "block_manifest_file_path location ulid"
  let ?temporary = "manifest_temporary_path location ulid"
  have "(\<forall>p. p \<noteq> ?path \<longrightarrow> p \<noteq> ?temporary \<longrightarrow> wd_files w' p = wd_files w p)
    \<and> (r = Inr () \<longrightarrow> (\<exists>bs. io_manifest_json io cached = Inr bs \<and> wd_files w' ?path = Some bs))"
  proof (cases "parent_path ?path = ''''")
    case True
    with run show ?thesis by (auto simp: write_block_manifest_def failW_def)
  next
    case False
    with run [unfolded write_block_manifest_def Let_def] have "doW (fs_create_dir_all (io_env io) (parent_path ?path)) (\<lambda>_ w.
          case io_manifest_json io cached of
            Inl e \<Rightarrow> (Inl (Err e), w)
          | Inr bs \<Rightarrow> doW (fs_write (io_env io) ?temporary bs) (\<lambda>_. fs_rename (io_env io) ?temporary ?path) w) w = (r, w')"
      unfolding manifest_temporary_path_def by (simp only: if_False)
    then show ?thesis
    proof (cases rule: doW_cases)
      case (fails e)
      then show ?thesis using fs_create_dir_all_spec [OF fails(1)] by simp
    next
      case (goes u w1)
      then have w1: "wd_files w1 = wd_files w" using fs_create_dir_all_spec [OF goes(1)] by simp
      show ?thesis
      proof (cases "io_manifest_json io cached")
        case (Inl e)
        with goes(2) w1 show ?thesis by auto
      next
        case (Inr bs)
        with goes(2) have "doW (fs_write (io_env io) ?temporary bs) (\<lambda>_. fs_rename (io_env io) ?temporary ?path) w1 = (r, w')"
          by simp
        then show ?thesis
        proof (cases rule: doW_cases)
          case (fails e)
          then show ?thesis using w1 fs_write_spec [OF fails(1)] by auto
        next
          case (goes u w2)
          note written = fs_write_spec [OF goes(1)] and renamed = fs_rename_spec [OF goes(2)]
          show ?thesis using w1 written renamed Inr by auto
        qed
      qed
    qed
  qed
  then show "p \<noteq> ?path \<Longrightarrow> p \<noteq> ?temporary \<Longrightarrow> wd_files w' p = wd_files w p"
    and "r = Inr () \<Longrightarrow> \<exists>bs. io_manifest_json io cached = Inr bs \<and> wd_files w' ?path = Some bs"
    by blast+
qed

section \<open>Which files a block's build touches\<close>

lemma keeps_open: "p \<noteq> partial_path path \<Longrightarrow> keeps_file p (open_table env path)"
  using open_table_spec [of env path] unfolding keeps_file_def by (metis prod.collapse)

lemma both_writer_frame:
  assumes run: "write_chunk_and_series_index_streaming env crc parquet codec repository meta block_path index
      chunk_location series_location w = Some (r, w')"
    and p: "p \<notin> {local_path chunk_location, partial_path (local_path chunk_location),
      local_path series_location, partial_path (local_path series_location)}"
  shows "wd_files w' p = wd_files w p"
proof -
  let ?path = "local_path chunk_location" and ?series = "local_path series_location"
  obtain r1 w1 where opened: "doW (open_table env ?path) (\<lambda>_. open_table env ?series) w = (r1, w1)" by fastforce
  have "keeps_file p (doW (open_table env ?path) (\<lambda>_. open_table env ?series))"
    using p by (intro keeps_doW keeps_open) auto
  then have w1: "wd_files w1 p = wd_files w p" using opened by (rule keeps_fileD)
  show ?thesis
  proof (cases r1)
    case (Inl e)
    with run opened w1 show ?thesis by (auto simp: write_chunk_and_series_index_streaming_def)
  next
    case (Inr u)
    let ?s = "\<lparr>bo_chunks = new_table, bo_series = new_table, bo_metric_labels = [], bo_series_count = 0,
     bo_chunk_count = 0, bo_error = None, bo_world = w1\<rparr>"
    from Inr obtain parsed s where visited: "parse_each crc index (visit_both env codec repository meta block_path) ?s = Some (parsed, s)"
      and fin: "finish_both env parquet ?path ?series parsed s = (r, w')"
      using run opened by (auto simp: write_chunk_and_series_index_streaming_def)
    obtain es where "s = fold (visit_both env codec repository meta block_path) es ?s"
      using parse_each_visited [OF visited] by blast
    then have files: "wd_files (bo_world s) = wd_files w1" by (simp add: fold_both_files)
    let ?finish = "doW (flush_rows env chunk_record_batch (bo_chunks s)) (\<lambda>chunks.
          doW (flush_rows env series_record_batch (bo_series s)) (\<lambda>series_table.
          doW (close_table env parquet chunk_schema ?path (tw_batches chunks)) (\<lambda>_.
          doW (close_table env parquet series_schema ?series (tw_batches series_table)) (\<lambda>_.
          doW (fs_rename env (partial_path ?path) ?path) (\<lambda>_.
          doW (fs_rename env (partial_path ?series) ?series) (\<lambda>_.
            retW (bo_series_count s, bo_chunk_count s, bo_metric_labels s)))))))"
    have ret: "keeps_file p (retW x)" for x :: "nat \<times> nat \<times> metric_labels" by (simp add: keeps_file_def retW_def)
    have keeps: "keeps_file p ?finish"
      using p unfolding close_table_def
      by (intro keeps_doW keeps_flush [of _ chunk_batch] keeps_flush [of _ series_batch] keeps_write keeps_rename ret)
         (auto simp: chunk_record_batch_ok series_batch_ok)
    have "wd_files w' p = wd_files (bo_world s) p"
    proof (cases "tryR parsed (\<lambda>_. case bo_error s of Some e \<Rightarrow> Inl e | None \<Rightarrow> Inr ())")
      case (Inl x)
      with fin p show ?thesis by (cases x) (auto simp: finish_both_def remove_quietly_files)
    next
      case (Inr u)
      with fin have "?finish (bo_world s) = (r, w')" by (simp add: finish_both_def)
      with keeps show ?thesis by (rule keeps_fileD)
    qed
    with files w1 show ?thesis by simp
  qed
qed

definition table_files :: "string \<Rightarrow> string \<Rightarrow> string set" where
  "table_files location ulid =
     {series_index_file_path location ulid, partial_path (series_index_file_path location ulid),
      chunk_index_file_path location ulid, partial_path (chunk_index_file_path location ulid)}"

lemma write_block_frame:
  assumes "write_block io task location materialize index w = Some (r, w')"
    and "plain_location location" and "plain_ulid (me_ulid (bb_meta task))"
    and "p \<notin> table_files location (me_ulid (bb_meta task))"
  shows "wd_files w' p = wd_files w p"
proof (cases materialize)
  case True
  then have "write_chunk_and_series_index_streaming (io_env io) (io_crc io) (io_parquet io) (io_codec io)
      (bb_repository task) (bb_meta task) (bb_block_path task) index
      (chunk_index_file_path location (me_ulid (bb_meta task)))
      (series_index_file_path location (me_ulid (bb_meta task))) w = Some (r, w')"
    using assms(1) by (simp add: write_block_def Let_def)
  from both_writer_frame [OF this] assms(4) show ?thesis
    by (auto simp: table_files_def local_index_paths [OF assms(2,3)])
next
  case False
  then obtain r1 where run: "write_series_index_streaming (io_env io) (io_crc io) (io_parquet io) (io_codec io)
      (rc_uri (bb_repository task)) (bb_meta task) (bb_block_path task) index
      (series_index_file_path location (me_ulid (bb_meta task))) w = Some (r1, w')"
    using assms(1) by (auto simp: write_block_def Let_def)
  from series_writer_sound(1) [OF run] assms(4) show ?thesis
    by (auto simp: table_files_def local_index_paths [OF assms(2,3)])
qed

text \<open>The manifest's files are none of the tables.\<close>

lemma manifest_apart:
  assumes "plain_ulid ulid"
  shows "block_manifest_file_path location ulid \<notin> {series_index_file_path location ulid, chunk_index_file_path location ulid}"
    and "manifest_temporary_path location ulid \<notin> {series_index_file_path location ulid, chunk_index_file_path location ulid}"
  using assms
  by (simp_all add: index_paths manifest_temporary_path series_index_directory_path_def chunk_index_directory_path_def
      join_path_def path_join_def starts_with_def strip_prefix_def)

lemma manifest_no_table:
  "plain_ulid ulid \<Longrightarrow> block_manifest_file_path location ulid \<notin> table_files location ulid"
  using manifest_apart(1) [of ulid location] manifest_path_last(1) [of ulid location]
  by (auto simp: table_files_def partial_path_def)


section \<open>The chunk table of a writer that may have failed\<close>

text \<open>When only the last renaming fails, the chunk table is already in place; it is complete then.\<close>

lemma finish_both_chunks:
  assumes run: "finish_both env parquet path series_path parsed s = (r, w')" and apart: "paths_apart path series_path"
  shows "wd_files w' path = wd_files (bo_world s) path \<or>
    parsed = Inr () \<and> bo_error s = None \<and> (\<exists>c wa wb. flush_rows env chunk_record_batch (bo_chunks s) wa = (Inr c, wb)
      \<and> wd_files w' path = Some (parquet chunk_schema (tw_batches c)))"
proof (cases "tryR parsed (\<lambda>_. case bo_error s of Some e \<Rightarrow> Inl e | None \<Rightarrow> Inr ())")
  case (Inl x)
  with run apart show ?thesis
    by (cases x) (auto simp: finish_both_def remove_quietly_files paths_apart_def partial_path_neq)
next
  case (Inr u)
  then have good: "parsed = Inr ()" "bo_error s = None"
    by (auto simp: tryR_eq_Inr split: option.splits)
  let ?finish = "doW (fs_rename env (partial_path path) path) (\<lambda>_.
      doW (fs_rename env (partial_path series_path) series_path) (\<lambda>_.
        retW (bo_series_count s, bo_chunk_count s, bo_metric_labels s)))"
  let ?closed = "\<lambda>t. doW (close_table env parquet series_schema series_path (tw_batches t)) (\<lambda>_. ?finish)"
  let ?rest = "\<lambda>c. doW (flush_rows env series_record_batch (bo_series s)) (\<lambda>t.
      doW (close_table env parquet chunk_schema path (tw_batches c)) (\<lambda>_. ?closed t))"
  have run': "doW (flush_rows env chunk_record_batch (bo_chunks s)) ?rest (bo_world s) = (r, w')"
    using run Inr by (simp add: finish_both_def)
  have keeps_flush_series: "keeps_file path (flush_rows env series_record_batch (bo_series s))"
    and keeps_flush_chunks: "keeps_file path (flush_rows env chunk_record_batch (bo_chunks s))"
    using keeps_flush [of series_record_batch series_batch] keeps_flush [of chunk_record_batch chunk_batch]
    by (simp_all add: chunk_record_batch_ok series_batch_ok)
  have keeps_close: "keeps_file path (close_table env parquet schema path' batches)" if "path' = path \<or> path' = series_path"
    for schema path' batches
    using that apart unfolding close_table_def paths_apart_def by (intro keeps_write) (auto simp: partial_path_neq)
  have keeps_last: "keeps_file path (doW (fs_rename env (partial_path series_path) series_path) (\<lambda>_.
      retW (bo_series_count s, bo_chunk_count s, bo_metric_labels s)))"
    using apart unfolding paths_apart_def
    by (intro keeps_doW keeps_rename) (auto simp: keeps_file_def retW_def)
  show ?thesis using run'
  proof (cases rule: doW_cases)
    case (fails e)
    then show ?thesis using keeps_fileD [OF keeps_flush_chunks fails(1)] by simp
  next
    case (goes c w1)
    note c = goes(1) and w1 = keeps_fileD [OF keeps_flush_chunks goes(1)]
    show ?thesis using goes(2)
    proof (cases rule: doW_cases)
      case (fails e)
      then show ?thesis using w1 keeps_fileD [OF keeps_flush_series fails(1)] by simp
    next
      case (goes t w2)
      note w2 = keeps_fileD [OF keeps_flush_series goes(1)]
      show ?thesis using goes(2)
      proof (cases rule: doW_cases)
        case (fails e)
        then show ?thesis using w1 w2 keeps_fileD [OF keeps_close fails(1)] by simp
      next
        case (goes u1 w3)
        have w3: "wd_files w3 path = wd_files w2 path" using keeps_fileD [OF keeps_close goes(1)] by simp
        have written: "wd_files w3 (partial_path path) = Some (parquet chunk_schema (tw_batches c))"
          using fs_write_spec [OF goes(1) [unfolded close_table_def]] by auto
        show ?thesis using goes(2)
        proof (cases rule: doW_cases)
          case (fails e)
          then show ?thesis using w1 w2 w3 keeps_fileD [OF keeps_close fails(1)] by simp
        next
          case (goes u2 w4)
          have w4: "wd_files w4 path = wd_files w3 path" using keeps_fileD [OF keeps_close goes(1)] by simp
          have written: "wd_files w4 (partial_path path) = Some (parquet chunk_schema (tw_batches c))"
            using written fs_write_spec [OF goes(1) [unfolded close_table_def]] apart
            by (auto simp: paths_apart_def)
          show ?thesis using goes(2)
          proof (cases rule: doW_cases)
            case (fails e)
            then show ?thesis using w1 w2 w3 w4 fs_rename_spec [OF fails(1)] by auto
          next
            case (goes u3 w5)
            have "wd_files w5 path = Some (parquet chunk_schema (tw_batches c))"
              using fs_rename_spec [OF goes(1)] written by auto
            then show ?thesis using good c keeps_fileD [OF keeps_last goes(2)] by auto
          qed
        qed
      qed
    qed
  qed
qed

lemma both_writer_chunks:
  assumes run: "write_chunk_and_series_index_streaming env crc parquet codec repository meta block_path index
      chunk_location series_location w = Some (r, w')"
    and apart: "paths_apart (local_path chunk_location) (local_path series_location)"
  defines "path \<equiv> local_path chunk_location" and "series_path \<equiv> local_path series_location"
  shows "wd_files w' path = wd_files w path \<or> (\<exists>es chunk_groups. parse crc index = Some (Inr es)
      \<and> concat chunk_groups = concat (map (chunk_rows_of codec repository meta block_path) es)
      \<and> wd_files w' path = Some (parquet chunk_schema (map chunk_batch chunk_groups)))"
proof -
  note apart' = apart [folded path_def series_path_def]
  obtain r1 w1 where opened: "doW (open_table env path) (\<lambda>_. open_table env series_path) w = (r1, w1)" by fastforce
  have "keeps_file path (doW (open_table env path) (\<lambda>_. open_table env series_path))"
    using apart' by (intro keeps_doW keeps_open) (auto simp: paths_apart_def)
  then have w1: "wd_files w1 path = wd_files w path" using opened by (rule keeps_fileD)
  show ?thesis
  proof (cases r1)
    case (Inl e)
    with run opened w1 show ?thesis
      by (auto simp: write_chunk_and_series_index_streaming_def path_def series_path_def)
  next
    case (Inr u)
    let ?s = "\<lparr>bo_chunks = new_table, bo_series = new_table, bo_metric_labels = [], bo_series_count = 0,
     bo_chunk_count = 0, bo_error = None, bo_world = w1\<rparr>"
    from Inr obtain parsed s where visited: "parse_each crc index (visit_both env codec repository meta block_path) ?s = Some (parsed, s)"
      and fin: "finish_both env parquet path series_path parsed s = (r, w')"
      using run opened by (auto simp: write_chunk_and_series_index_streaming_def path_def series_path_def)
    obtain es where s: "s = fold (visit_both env codec repository meta block_path) es ?s"
      and parse: "parse crc index = Some (tryR parsed (\<lambda>_. Inr es))"
      using parse_each_visited [OF visited] by blast
    have files: "wd_files (bo_world s) = wd_files w1" unfolding s by (simp add: fold_both_files)
    from finish_both_chunks [OF fin apart'] show ?thesis
    proof
      assume "wd_files w' path = wd_files (bo_world s) path"
      with files w1 show ?thesis by simp
    next
      assume "parsed = Inr () \<and> bo_error s = None \<and> (\<exists>c wa wb. flush_rows env chunk_record_batch (bo_chunks s) wa = (Inr c, wb)
        \<and> wd_files w' path = Some (parquet chunk_schema (tw_batches c)))"
      then obtain c wa wb where good: "parsed = Inr ()" "bo_error s = None"
        and fl: "flush_rows env chunk_record_batch (bo_chunks s) wa = (Inr c, wb)"
        and out: "wd_files w' path = Some (parquet chunk_schema (tw_batches c))" by blast
      have "both_ok codec repository meta block_path ([] @ es) s"
        unfolding s by (rule fold_both_ok [OF start_both_ok]) (use good(2) s in simp)
      then have chunks: "table_has chunk_batch (bo_chunks s) (concat (map (chunk_rows_of codec repository meta block_path) es))"
        by (auto simp: both_ok_def)
      have "table_has chunk_batch c (concat (map (chunk_rows_of codec repository meta block_path) es))"
        by (rule flush_rows_has [OF chunk_record_batch_ok fl chunks])
      moreover have "tw_rows c = []" using flush_rows_spec(2) [OF chunk_record_batch_ok fl refl] by blast
      ultimately show ?thesis using good parse out by (auto simp: table_has_def)
    qed
  qed
qed


lemma write_manifest_fails:
  assumes run: "write_block_manifest io location ulid cached w = (Inl e, w')" and ulid: "plain_ulid ulid"
  shows "wd_files w' (block_manifest_file_path location ulid) = wd_files w (block_manifest_file_path location ulid)"
proof -
  let ?path = "block_manifest_file_path location ulid"
  let ?temporary = "manifest_temporary_path location ulid"
  have apart: "?path \<noteq> ?temporary"
    using manifest_path_last(1) [OF ulid, of location] by (auto simp: manifest_temporary_path [OF ulid])
  show ?thesis
  proof (cases "parent_path ?path = ''''")
    case True
    with run show ?thesis by (auto simp: write_block_manifest_def failW_def)
  next
    case False
    with run [unfolded write_block_manifest_def Let_def]
    have "doW (fs_create_dir_all (io_env io) (parent_path ?path)) (\<lambda>_ w.
          case io_manifest_json io cached of
            Inl e \<Rightarrow> (Inl (Err e), w)
          | Inr bs \<Rightarrow> doW (fs_write (io_env io) ?temporary bs) (\<lambda>_. fs_rename (io_env io) ?temporary ?path) w) w = (Inl e, w')"
      unfolding manifest_temporary_path_def by (simp only: if_False)
    then show ?thesis
    proof (cases rule: doW_cases)
      case (fails e)
      then show ?thesis using fs_create_dir_all_spec [OF fails(1)] by simp
    next
      case (goes u w1)
      then have w1: "wd_files w1 = wd_files w" using fs_create_dir_all_spec [OF goes(1)] by simp
      show ?thesis
      proof (cases "io_manifest_json io cached")
        case (Inl e)
        with goes(2) w1 show ?thesis by auto
      next
        case (Inr bs)
        with goes(2) have "doW (fs_write (io_env io) ?temporary bs) (\<lambda>_. fs_rename (io_env io) ?temporary ?path) w1 = (Inl e, w')"
          by simp
        then show ?thesis
        proof (cases rule: doW_cases)
          case (fails e)
          then show ?thesis using w1 fs_write_spec [OF fails(1)] apart by auto
        next
          case (goes u w2)
          show ?thesis using w1 fs_write_spec [OF goes(1)] fs_rename_spec [OF goes(2)] apart by auto
        qed
      qed
    qed
  qed
qed

end
