(* ===== verification/Block_Cache_Facts.thy ===== *)
theory Block_Cache_Facts
  imports Block_Build_Facts
begin

text \<open>
  The local cache of block tables as a state: a manifest on disk tells the truth about its block, and so do
  the tables beside it.  Every step of the build keeps this, whichever outside calls fail.
\<close>

section \<open>The truth about a block\<close>

definition indexed_series :: "index_outside \<Rightarrow> block_build_task \<Rightarrow> index_series list option" where
  "indexed_series io task =
     (case ev_objects (io_env io) (rp_name (bb_storage task)) (bb_block_path task @ ''/index'') of
        None \<Rightarrow> None
      | Some index \<Rightarrow> (case parse (io_crc io) index of Some (Inr es) \<Rightarrow> Some es | _ \<Rightarrow> None))"

lemma indexed_series_Some:
  "ev_objects (io_env io) (rp_name (bb_storage task)) (bb_block_path task @ ''/index'') = Some index
    \<Longrightarrow> parse (io_crc io) index = Some (Inr es) \<Longrightarrow> indexed_series io task = Some es"
  by (simp add: indexed_series_def)

definition series_table_right :: "index_outside \<Rightarrow> block_build_task \<Rightarrow> bytes \<Rightarrow> bool" where
  "series_table_right io task bs \<longleftrightarrow> (\<exists>es groups. indexed_series io task = Some es
     \<and> list_all2 (\<lambda>e row. series_row (io_codec io) (rc_uri (bb_repository task)) (bb_meta task) (bb_block_path task) e = Inr row)
         es (concat groups)
     \<and> groups_ok groups \<and> bs = io_parquet io series_schema (map series_batch groups))"

definition chunk_table_right :: "index_outside \<Rightarrow> block_build_task \<Rightarrow> bytes \<Rightarrow> bool" where
  "chunk_table_right io task bs \<longleftrightarrow> (\<exists>es groups. indexed_series io task = Some es
     \<and> concat groups = concat (map (chunk_rows_of (io_codec io) (bb_repository task) (bb_meta task) (bb_block_path task)) es)
     \<and> bs = io_parquet io chunk_schema (map chunk_batch groups))"

definition entry_right :: "index_outside \<Rightarrow> block_build_task \<Rightarrow> cached_block_index \<Rightarrow> bool" where
  "entry_right io task cached \<longleftrightarrow> (\<exists>es. indexed_series io task = Some es
     \<and> index_row (io_codec io) (bb_repository task) (bb_meta task) (bb_block_path task) (bb_meta_path task) = Inr (cb_row cached)
     \<and> cb_series_count cached = length es \<and> cb_chunk_count cached = chunk_total es
     \<and> ml_ok (cb_metric_labels cached)
     \<and> ml_set (cb_metric_labels cached) = (if cb_materialize_chunk_index cached
         then metric_columns (tm_labels (me_thanos (bb_meta task))) es else (\<lambda>_. None)))"

definition task_ulid :: "block_build_task \<Rightarrow> string" where
  "task_ulid task = me_ulid (bb_meta task)"

definition block_truthful :: "index_outside \<Rightarrow> string \<Rightarrow> block_build_task \<Rightarrow> (string \<Rightarrow> bytes option) \<Rightarrow> bool" where
  "block_truthful io location task files \<longleftrightarrow>
     (\<forall>bs cached. files (block_manifest_file_path location (task_ulid task)) = Some bs
        \<longrightarrow> io_manifest_from_json io bs = Inr cached
        \<longrightarrow> manifest_matches task (cb_materialize_chunk_index cached) cached
        \<longrightarrow> entry_right io task cached
          \<and> (\<forall>c. files (series_index_file_path location (task_ulid task)) = Some c \<longrightarrow> series_table_right io task c)
          \<and> (cb_materialize_chunk_index cached \<longrightarrow>
              (\<forall>c. files (chunk_index_file_path location (task_ulid task)) = Some c \<longrightarrow> chunk_table_right io task c)))"

definition cache_truthful :: "index_outside \<Rightarrow> string \<Rightarrow> block_build_task set \<Rightarrow> world \<Rightarrow> bool" where
  "cache_truthful io location blocks w \<longleftrightarrow> (\<forall>task \<in> blocks. block_truthful io location task (wd_files w))"

text \<open>What is asked of the blocks: usable, distinct ids; and of the JSON of manifests: it reads back.\<close>

definition blocks_ok :: "block_build_task set \<Rightarrow> bool" where
  "blocks_ok blocks \<longleftrightarrow> inj_on task_ulid blocks \<and> (\<forall>task \<in> blocks. plain_ulid (task_ulid task))"

definition manifest_json_ok :: "index_outside \<Rightarrow> bool" where
  "manifest_json_ok io \<longleftrightarrow>
     (\<forall>cached bs. io_manifest_json io cached = Inr bs \<longrightarrow> io_manifest_from_json io bs = Inr cached)"

lemma empty_cache_truthful: "\<forall>task \<in> blocks. wd_files w (block_manifest_file_path location (task_ulid task)) = None
    \<Longrightarrow> cache_truthful io location blocks w"
  by (simp add: cache_truthful_def block_truthful_def)

section \<open>Steps that touch other files, or only remove\<close>

definition table_paths :: "string \<Rightarrow> string \<Rightarrow> string set" where
  "table_paths location ulid =
     {series_index_file_path location ulid, chunk_index_file_path location ulid, block_manifest_file_path location ulid}"

lemma truthful_shrink:
  assumes "block_truthful io location task files"
    and "\<And>p. p \<in> table_paths location (task_ulid task) \<Longrightarrow> files' p = files p \<or> files' p = None"
  shows "block_truthful io location task files'"
proof -
  have earlier: "files p = Some c" if "files' p = Some c" "p \<in> table_paths location (task_ulid task)" for p c
    using assms(2) [OF that(2)] that(1) by auto
  have paths: "series_index_file_path location (task_ulid task) \<in> table_paths location (task_ulid task)"
    "chunk_index_file_path location (task_ulid task) \<in> table_paths location (task_ulid task)"
    "block_manifest_file_path location (task_ulid task) \<in> table_paths location (task_ulid task)"
    by (simp_all add: table_paths_def)
  show ?thesis
    using assms(1) earlier [OF _ paths(1)] earlier [OF _ paths(2)] earlier [OF _ paths(3)]
    unfolding block_truthful_def by blast
qed

lemma last_of_paths:
  assumes "plain_ulid ulid"
  shows "last (partial_path p) = CHR ''l''" and "last (manifest_temporary_path location ulid) = CHR ''l''"
  using assms by (simp_all add: partial_path_def manifest_temporary_path)

lemma index_path_inj:
  assumes "plain_ulid u" and "plain_ulid v"
  shows "series_index_file_path location u = series_index_file_path location v \<Longrightarrow> u = v"
    and "chunk_index_file_path location u = chunk_index_file_path location v \<Longrightarrow> u = v"
    and "block_manifest_file_path location u = block_manifest_file_path location v \<Longrightarrow> u = v"
    and "series_index_file_path location u \<noteq> chunk_index_file_path location v"
  using assms
  by (simp_all add: index_paths) (simp add: series_index_directory_path_def chunk_index_directory_path_def
      join_path_def path_join_def starts_with_def strip_prefix_def)

lemma table_paths_last:
  assumes "plain_ulid u" and "p \<in> table_paths location u"
  shows "last p \<noteq> CHR ''l''"
  using assms manifest_path_last [OF assms(1)] by (auto simp: table_paths_def)

lemma other_block_files:
  assumes "plain_ulid u" and "plain_ulid v" and "u \<noteq> v" and "p \<in> table_paths location u"
  shows "p \<notin> block_files location v"
proof -
  have "last p \<noteq> CHR ''l''" using assms(1,4) by (rule table_paths_last)
  then have "p \<notin> {partial_path (series_index_file_path location v), partial_path (chunk_index_file_path location v),
      manifest_temporary_path location v}"
    using last_of_paths(2) [OF assms(2)] by (auto simp: partial_path_def)
  moreover have "p \<notin> {series_index_file_path location v, chunk_index_file_path location v, block_manifest_file_path location v}"
  proof -
    have same: "series_index_file_path location u \<noteq> series_index_file_path location v"
      "chunk_index_file_path location u \<noteq> chunk_index_file_path location v"
      "block_manifest_file_path location u \<noteq> block_manifest_file_path location v"
      "series_index_file_path location u \<noteq> chunk_index_file_path location v"
      "chunk_index_file_path location u \<noteq> series_index_file_path location v"
      using index_path_inj [OF assms(1,2)] index_path_inj(4) [OF assms(2,1), of location] assms(3) by auto
    have "block_manifest_file_path location a \<noteq> series_index_file_path location b"
      "block_manifest_file_path location a \<noteq> chunk_index_file_path location b"
      if "plain_ulid a" "plain_ulid b" for a b
      using manifest_path_last(1) [OF that(1), of location] manifest_path_last(3,4) [OF that(2), of location]
      by auto
    note kinds = this [OF assms(1,2)] this [OF assms(2,1)]
    show ?thesis
      using assms(4) same kinds kinds [symmetric] unfolding table_paths_def by auto
  qed
  ultimately show ?thesis by (simp add: block_files_def)
qed


section \<open>Building one block\<close>

lemma repository_read_Inr:
  "repository_read env repository path w = (r, w') \<Longrightarrow> wd_files w' = wd_files w
    \<and> (\<forall>bs. r = Inr bs \<longrightarrow> ev_objects env (rp_name repository) path = Some bs)"
  by (auto simp: repository_read_def operator_read_all_def outside_def failW_def retW_def Let_def split: option.splits)

lemma write_block_tables:
  assumes run: "write_block io task location materialize index w = Some (r, w')"
    and object: "ev_objects (io_env io) (rp_name (bb_storage task)) (bb_block_path task @ ''/index'') = Some index"
    and loc: "plain_location location" and ulid: "plain_ulid (task_ulid task)"
  defines "series \<equiv> series_index_file_path location (task_ulid task)"
    and "chunks \<equiv> chunk_index_file_path location (task_ulid task)"
  shows "wd_files w' series = wd_files w series \<or> (\<exists>c. wd_files w' series = Some c \<and> series_table_right io task c)"
    and "wd_files w' chunks = wd_files w chunks \<or> (\<exists>c. wd_files w' chunks = Some c \<and> chunk_table_right io task c)"
    and "r = Inr (n, m, labels) \<Longrightarrow> \<exists>es. indexed_series io task = Some es \<and> n = length es \<and> m = chunk_total es
      \<and> ml_ok labels
      \<and> ml_set labels = (if materialize then metric_columns (tm_labels (me_thanos (bb_meta task))) es else (\<lambda>_. None))
      \<and> (\<exists>c. wd_files w' series = Some c \<and> series_table_right io task c)
      \<and> (materialize \<longrightarrow> (\<exists>c. wd_files w' chunks = Some c \<and> chunk_table_right io task c))"
proof -
  note local = local_index_paths [OF loc ulid, folded series_def chunks_def]
  have apart: "paths_apart (local_path chunks) (local_path series)"
    unfolding local unfolding series_def chunks_def by (rule index_paths_apart [OF ulid])
  let ?goal = "(wd_files w' series = wd_files w series \<or> (\<exists>c. wd_files w' series = Some c \<and> series_table_right io task c))
    \<and> (wd_files w' chunks = wd_files w chunks \<or> (\<exists>c. wd_files w' chunks = Some c \<and> chunk_table_right io task c))
    \<and> (\<forall>n m labels. r = Inr (n, m, labels) \<longrightarrow> (\<exists>es. indexed_series io task = Some es \<and> n = length es \<and> m = chunk_total es
      \<and> ml_ok labels
      \<and> ml_set labels = (if materialize then metric_columns (tm_labels (me_thanos (bb_meta task))) es else (\<lambda>_. None))
      \<and> (\<exists>c. wd_files w' series = Some c \<and> series_table_right io task c)
      \<and> (materialize \<longrightarrow> (\<exists>c. wd_files w' chunks = Some c \<and> chunk_table_right io task c))))"
  have ?goal
  proof (cases materialize)
    case True
    then have run': "write_chunk_and_series_index_streaming (io_env io) (io_crc io) (io_parquet io) (io_codec io)
        (bb_repository task) (bb_meta task) (bb_block_path task) index chunks series w = Some (r, w')"
      using run by (simp add: write_block_def series_def chunks_def task_ulid_def Let_def)
    have parts: "\<exists>es. indexed_series io task = Some es \<and> n = length es \<and> m = chunk_total es
        \<and> ml_ok labels \<and> ml_set labels = metric_columns (tm_labels (me_thanos (bb_meta task))) es
        \<and> (\<exists>c. wd_files w' series = Some c \<and> series_table_right io task c)
        \<and> (\<exists>c. wd_files w' chunks = Some c \<and> chunk_table_right io task c)"
      if "r = Inr (n, m, labels)" for n m labels
    proof -
      from both_writer_sound(2) [OF run' apart that] obtain es groups chunk_groups where
        parse: "parse (io_crc io) index = Some (Inr es)" and facts: "n = length es" "m = chunk_total es" "ml_ok labels"
        "ml_set labels = metric_columns (tm_labels (me_thanos (bb_meta task))) es"
        "list_all2 (\<lambda>e row. series_row (io_codec io) (rc_uri (bb_repository task)) (bb_meta task) (bb_block_path task) e = Inr row)
           es (concat groups)" "groups_ok groups"
        "wd_files w' series = Some (io_parquet io series_schema (map series_batch groups))"
        "concat chunk_groups = concat (map (chunk_rows_of (io_codec io) (bb_repository task) (bb_meta task) (bb_block_path task)) es)"
        "wd_files w' chunks = Some (io_parquet io chunk_schema (map chunk_batch chunk_groups))"
        unfolding local by blast
      have "indexed_series io task = Some es" using object parse by (rule indexed_series_Some)
      then show ?thesis using facts by (auto simp: series_table_right_def chunk_table_right_def)
    qed
    have "wd_files w' chunks = wd_files w chunks \<or> (\<exists>c. wd_files w' chunks = Some c \<and> chunk_table_right io task c)"
      using both_writer_chunks [OF run' apart] indexed_series_Some [OF object]
      unfolding local chunk_table_right_def by blast
    moreover have "wd_files w' series = wd_files w series \<or> (\<exists>c. wd_files w' series = Some c \<and> series_table_right io task c)"
    proof (cases r)
      case (Inl e)
      then show ?thesis using both_writer_sound(1) [OF run' apart Inl] unfolding local by simp
    next
      case (Inr counts)
      then show ?thesis using parts by (cases counts) auto
    qed
    ultimately show ?thesis using parts True by auto
  next
    case False
    then obtain r1 where run': "write_series_index_streaming (io_env io) (io_crc io) (io_parquet io) (io_codec io)
        (rc_uri (bb_repository task)) (bb_meta task) (bb_block_path task) index series w = Some (r1, w')"
      and r: "r = tryR r1 (\<lambda>(series_count, chunk_count). Inr (series_count, chunk_count, []))"
      using run by (auto simp: write_block_def series_def task_ulid_def Let_def)
    note sound = series_writer_sound [OF run', unfolded local]
    have "chunks \<noteq> series" using index_path_inj(4) [OF ulid ulid, of location] by (simp add: series_def chunks_def)
    moreover have "chunks \<noteq> partial_path series"
      using manifest_path_last(4) [OF ulid, of location] by (auto simp: chunks_def partial_path_def)
    ultimately have chunks: "wd_files w' chunks = wd_files w chunks" using sound(1) by simp
    have parts: "\<exists>es. indexed_series io task = Some es \<and> n = length es \<and> m = chunk_total es
        \<and> (\<exists>c. wd_files w' series = Some c \<and> series_table_right io task c)"
      if "r1 = Inr (n, m)" for n m
      using sound(2) [OF that] indexed_series_Some [OF object] unfolding series_table_right_def by blast
    have "wd_files w' series = wd_files w series \<or> (\<exists>c. wd_files w' series = Some c \<and> series_table_right io task c)"
    proof (cases r1)
      case (Inl e)
      have "series \<noteq> partial_path series" by (simp add: partial_path_neq)
      then show ?thesis using sound(1) Inl by simp
    next
      case (Inr counts)
      then show ?thesis using parts by (cases counts) auto
    qed
    moreover have "ml_ok []" "ml_set [] = (\<lambda>_. None)" by (simp_all add: ml_ok_Nil ml_set_def bt_get_def fun_eq_iff)
    ultimately show ?thesis using parts False chunks r
      by (auto simp: tryR_eq_Inr split: prod.splits)
  qed
  then show "wd_files w' series = wd_files w series \<or> (\<exists>c. wd_files w' series = Some c \<and> series_table_right io task c)"
    and "wd_files w' chunks = wd_files w chunks \<or> (\<exists>c. wd_files w' chunks = Some c \<and> chunk_table_right io task c)"
    and "r = Inr (n, m, labels) \<Longrightarrow> \<exists>es. indexed_series io task = Some es \<and> n = length es \<and> m = chunk_total es
      \<and> ml_ok labels
      \<and> ml_set labels = (if materialize then metric_columns (tm_labels (me_thanos (bb_meta task))) es else (\<lambda>_. None))
      \<and> (\<exists>c. wd_files w' series = Some c \<and> series_table_right io task c)
      \<and> (materialize \<longrightarrow> (\<exists>c. wd_files w' chunks = Some c \<and> chunk_table_right io task c))"
    by blast+
qed


lemma index_row_fields:
  assumes "index_row codec repository meta block_path meta_path = Inr row"
  shows "br_block_ulid row = me_ulid meta" "br_repository_name row = rc_name repository"
    "br_repository_uri row = rc_uri repository" "br_block_path row = block_path" "br_meta_path row = meta_path"
  using assms by (auto simp: index_row_def Let_def tryR_eq_Inr)

lemma entry_matches: "entry_right io task cached \<Longrightarrow> manifest_matches task (cb_materialize_chunk_index cached) cached"
  by (auto simp: entry_right_def manifest_matches_def index_row_fields)

text \<open>A finished block: its manifest and its tables are there and right.\<close>

definition block_finished ::
  "index_outside \<Rightarrow> string \<Rightarrow> bool \<Rightarrow> block_build_task \<Rightarrow> built_block_index \<Rightarrow> (string \<Rightarrow> bytes option) \<Rightarrow> bool" where
  "block_finished io location materialize task built files \<longleftrightarrow>
     (\<exists>cached bs. entry_right io task cached \<and> cb_materialize_chunk_index cached = materialize
        \<and> built = built_of task location cached
        \<and> files (block_manifest_file_path location (task_ulid task)) = Some bs
        \<and> io_manifest_from_json io bs = Inr cached
        \<and> (\<exists>c. files (series_index_file_path location (task_ulid task)) = Some c \<and> series_table_right io task c)
        \<and> (materialize \<longrightarrow>
            (\<exists>c. files (chunk_index_file_path location (task_ulid task)) = Some c \<and> chunk_table_right io task c)))"

lemma finished_truthful:
  "block_finished io location materialize task built files \<Longrightarrow> block_truthful io location task files"
  by (auto simp: block_finished_def block_truthful_def)

lemma finished_same_tables:
  assumes "block_finished io location materialize task built files"
    and "\<And>p. p \<in> table_paths location (task_ulid task) \<Longrightarrow> files' p = files p"
  shows "block_finished io location materialize task built files'"
  using assms by (simp add: block_finished_def table_paths_def)

lemma truthful_replace:
  assumes "block_truthful io location task files"
    and "files' (block_manifest_file_path location (task_ulid task)) = files (block_manifest_file_path location (task_ulid task))"
    and "files' (series_index_file_path location (task_ulid task)) = files (series_index_file_path location (task_ulid task))
      \<or> (\<exists>c. files' (series_index_file_path location (task_ulid task)) = Some c \<and> series_table_right io task c)"
    and "files' (chunk_index_file_path location (task_ulid task)) = files (chunk_index_file_path location (task_ulid task))
      \<or> (\<exists>c. files' (chunk_index_file_path location (task_ulid task)) = Some c \<and> chunk_table_right io task c)"
  shows "block_truthful io location task files'"
  unfolding block_truthful_def
proof (intro allI impI)
  fix bs cached
  assume "files' (block_manifest_file_path location (task_ulid task)) = Some bs"
    and "io_manifest_from_json io bs = Inr cached"
    and "manifest_matches task (cb_materialize_chunk_index cached) cached"
  then have old: "entry_right io task cached"
    "\<And>c. files (series_index_file_path location (task_ulid task)) = Some c \<Longrightarrow> series_table_right io task c"
    "\<And>c. cb_materialize_chunk_index cached \<Longrightarrow> files (chunk_index_file_path location (task_ulid task)) = Some c
      \<Longrightarrow> chunk_table_right io task c"
    using assms(1,2) unfolding block_truthful_def by simp_all
  show "entry_right io task cached
    \<and> (\<forall>c. files' (series_index_file_path location (task_ulid task)) = Some c \<longrightarrow> series_table_right io task c)
    \<and> (cb_materialize_chunk_index cached \<longrightarrow>
        (\<forall>c. files' (chunk_index_file_path location (task_ulid task)) = Some c \<longrightarrow> chunk_table_right io task c))"
    using old assms(3,4) by auto
qed

lemma finish_block_cases:
  assumes run: "finish_block io task location materialize (n, m, labels) w = (r, w')"
    and json: "manifest_json_ok io" and ulid: "plain_ulid (task_ulid task)"
  shows "p \<in> {series_index_file_path location (task_ulid task), chunk_index_file_path location (task_ulid task)}
      \<Longrightarrow> wd_files w' p = wd_files w p"
    and "p \<notin> block_files location (task_ulid task) \<Longrightarrow> wd_files w' p = wd_files w p"
    and "r = Inl e \<Longrightarrow> wd_files w' (block_manifest_file_path location (task_ulid task))
      = wd_files w (block_manifest_file_path location (task_ulid task))"
    and "r = Inr built \<Longrightarrow> \<exists>row bs. index_row (io_codec io) (bb_repository task) (bb_meta task) (bb_block_path task)
        (bb_meta_path task) = Inr row
      \<and> built = built_of task location (cached_of row materialize n m labels)
      \<and> wd_files w' (block_manifest_file_path location (task_ulid task)) = Some bs
      \<and> io_manifest_from_json io bs = Inr (cached_of row materialize n m labels)"
proof -
  let ?manifest = "block_manifest_file_path location (task_ulid task)"
  have "(\<forall>p. p \<in> {series_index_file_path location (task_ulid task), chunk_index_file_path location (task_ulid task)}
      \<or> p \<notin> block_files location (task_ulid task) \<longrightarrow> wd_files w' p = wd_files w p)
    \<and> ((\<exists>e. r = Inl e) \<longrightarrow> wd_files w' ?manifest = wd_files w ?manifest)
    \<and> (\<forall>built. r = Inr built \<longrightarrow> (\<exists>row bs. index_row (io_codec io) (bb_repository task) (bb_meta task) (bb_block_path task)
        (bb_meta_path task) = Inr row
      \<and> built = built_of task location (cached_of row materialize n m labels)
      \<and> wd_files w' ?manifest = Some bs \<and> io_manifest_from_json io bs = Inr (cached_of row materialize n m labels)))"
  proof (cases "index_row (io_codec io) (bb_repository task) (bb_meta task) (bb_block_path task) (bb_meta_path task)")
    case (Inl e)
    with run show ?thesis by (auto simp: finish_block_def)
  next
    case (Inr row)
    let ?cached = "cached_of row materialize n m labels"
    from run Inr have "doW (write_block_manifest io location (task_ulid task) ?cached)
        (\<lambda>_. retW (built_of task location ?cached)) w = (r, w')"
      by (simp add: finish_block_def task_ulid_def Let_def)
    then obtain r1 where written: "write_block_manifest io location (task_ulid task) ?cached w = (r1, w')"
      and r: "r = tryR r1 (\<lambda>_. Inr (built_of task location ?cached))"
      by (auto simp: doW_def retW_def split: prod.splits sum.splits)
    have other: "wd_files w' p = wd_files w p" if "p \<noteq> ?manifest" "p \<noteq> manifest_temporary_path location (task_ulid task)" for p
      using write_manifest_spec(1) [OF written that] .
    have frame: "wd_files w' p = wd_files w p"
      if "p \<in> {series_index_file_path location (task_ulid task), chunk_index_file_path location (task_ulid task)}
        \<or> p \<notin> block_files location (task_ulid task)" for p
      using that manifest_apart [OF ulid, of location] by (intro other) (auto simp: block_files_def)
    show ?thesis
    proof (cases r1)
      case (Inl e)
      with written have "wd_files w' ?manifest = wd_files w ?manifest" by (auto intro: write_manifest_fails [OF _ ulid])
      with frame r Inl show ?thesis by auto
    next
      case Inr1: (Inr u)
      then obtain bs where "io_manifest_json io ?cached = Inr bs" "wd_files w' ?manifest = Some bs"
        using write_manifest_spec(2) [OF written] by auto
      then show ?thesis using frame r Inr1 Inr json by (auto simp: manifest_json_ok_def)
    qed
  qed
  then show "p \<in> {series_index_file_path location (task_ulid task), chunk_index_file_path location (task_ulid task)}
      \<Longrightarrow> wd_files w' p = wd_files w p"
    and "p \<notin> block_files location (task_ulid task) \<Longrightarrow> wd_files w' p = wd_files w p"
    and "r = Inl e \<Longrightarrow> wd_files w' ?manifest = wd_files w ?manifest"
    and "r = Inr built \<Longrightarrow> \<exists>row bs. index_row (io_codec io) (bb_repository task) (bb_meta task) (bb_block_path task)
        (bb_meta_path task) = Inr row
      \<and> built = built_of task location (cached_of row materialize n m labels)
      \<and> wd_files w' ?manifest = Some bs
      \<and> io_manifest_from_json io bs = Inr (cached_of row materialize n m labels)"
    by blast+
qed


lemma worker_result_Inr: "worker_result path r = Inr x \<longleftrightarrow> r = Inr x"
  by (auto simp: worker_result_def split: sum.splits fault.splits)

lemma build_chunk_index_spec:
  assumes run: "build_chunk_index io task location materialize w = Some (r, w')"
    and json: "manifest_json_ok io" and loc: "plain_location location" and ulid: "plain_ulid (task_ulid task)"
    and truthful: "block_truthful io location task (wd_files w)"
  shows "block_truthful io location task (wd_files w')"
    and "p \<notin> block_files location (task_ulid task) \<Longrightarrow> wd_files w' p = wd_files w p"
    and "r = Inr built \<Longrightarrow> block_finished io location materialize task built (wd_files w')"
proof -
  let ?manifest = "block_manifest_file_path location (task_ulid task)"
  obtain r1 w1 where read: "repository_read (io_env io) (bb_storage task) (bb_block_path task @ ''/index'') w = (r1, w1)"
    by fastforce
  note w1 = repository_read_Inr [OF read]
  have "block_truthful io location task (wd_files w')
    \<and> (\<forall>p. p \<notin> block_files location (task_ulid task) \<longrightarrow> wd_files w' p = wd_files w p)
    \<and> (\<forall>built. r = Inr built \<longrightarrow> block_finished io location materialize task built (wd_files w'))"
  proof (cases r1)
    case (Inl e)
    with run read have "r = Inl e" "w' = w1" by (simp_all add: build_chunk_index_def)
    with w1 truthful show ?thesis by simp
  next
    case (Inr index)
    with w1 have object: "ev_objects (io_env io) (rp_name (bb_storage task)) (bb_block_path task @ ''/index'') = Some index"
      by simp
    from run read Inr obtain r2 w2 where written: "write_block io task location materialize index w1 = Some (r2, w2)"
      and rest: "map_prod (worker_result (bb_block_path task @ ''/index'')) id
        (case r2 of Inl e \<Rightarrow> (Inl e, w2) | Inr counts \<Rightarrow> finish_block io task location materialize counts w2) = (r, w')"
      by (auto simp: build_chunk_index_def)
    note tables = write_block_tables [OF written object loc ulid]
    have frame: "wd_files w2 p = wd_files w p" if "p \<notin> table_files location (task_ulid task)" for p
      using write_block_frame [OF written loc] ulid that w1 by (simp add: task_ulid_def)
    have frame2: "wd_files w2 p = wd_files w p" if "p \<notin> block_files location (task_ulid task)" for p
      using that by (intro frame) (auto simp: block_files_def table_files_def)
    note manifest2 = frame [OF manifest_no_table [OF ulid]]
    have truthful2: "block_truthful io location task (wd_files w2)"
      by (rule truthful_replace [where files = "wd_files w"]) (use truthful manifest2 tables(1,2) w1 in auto)
    show ?thesis
    proof (cases r2)
      case (Inl e)
      with rest have "w' = w2" "\<nexists>built. r = Inr built" by (auto simp: worker_result_Inr)
      with truthful2 frame2 show ?thesis by simp
    next
      case Inr2: (Inr counts)
      obtain n m labels where counts: "counts = (n, m, labels)" by (cases counts)
      obtain r4 where fin: "finish_block io task location materialize (n, m, labels) w2 = (r4, w')"
        and r4: "r = worker_result (bb_block_path task @ ''/index'') r4"
        using rest Inr2 counts by (cases "finish_block io task location materialize (n, m, labels) w2") auto
      note f = finish_block_cases [OF fin json ulid]
      obtain es where es: "indexed_series io task = Some es" "n = length es" "m = chunk_total es" "ml_ok labels"
        "ml_set labels = (if materialize then metric_columns (tm_labels (me_thanos (bb_meta task))) es else (\<lambda>_. None))"
        and series: "\<exists>c. wd_files w2 (series_index_file_path location (task_ulid task)) = Some c \<and> series_table_right io task c"
        and chunks: "materialize \<longrightarrow>
          (\<exists>c. wd_files w2 (chunk_index_file_path location (task_ulid task)) = Some c \<and> chunk_table_right io task c)"
        using tables(3) [OF Inr2 [unfolded counts]] by blast
      have finished: "block_finished io location materialize task built (wd_files w')" if "r = Inr built" for built
      proof -
        have "r4 = Inr built" using that r4 worker_result_Inr [of _ r4 built] by metis
        from f(4) [OF this] obtain row bs where
          row: "index_row (io_codec io) (bb_repository task) (bb_meta task) (bb_block_path task) (bb_meta_path task) = Inr row"
          and built: "built = built_of task location (cached_of row materialize n m labels)"
          and bs: "wd_files w' ?manifest = Some bs" "io_manifest_from_json io bs = Inr (cached_of row materialize n m labels)"
          by blast
        have "entry_right io task (cached_of row materialize n m labels)"
          using es row by (simp add: entry_right_def cached_of_def)
        then show ?thesis
          unfolding block_finished_def using built bs series chunks f(1)
          by (intro exI [of _ "cached_of row materialize n m labels"] exI [of _ bs]) (simp add: cached_of_def)
      qed
      have "block_truthful io location task (wd_files w')"
      proof (cases r4)
        case (Inl e)
        note same = f(3) [OF Inl] f(1) [of "series_index_file_path location (task_ulid task)"]
          f(1) [of "chunk_index_file_path location (task_ulid task)"]
        show ?thesis
          by (rule truthful_replace [where files = "wd_files w2"]) (simp_all only: truthful2 same insert_iff simp_thms)
      next
        case (Inr built)
        then have "r = Inr built" using r4 by (simp add: worker_result_def)
        then show ?thesis by (rule finished_truthful [OF finished])
      qed
      with finished f(2) frame2 show ?thesis by simp
    qed
  qed
  then show "block_truthful io location task (wd_files w')"
    and "p \<notin> block_files location (task_ulid task) \<Longrightarrow> wd_files w' p = wd_files w p"
    and "r = Inr built \<Longrightarrow> block_finished io location materialize task built (wd_files w')"
    by blast+
qed

section \<open>Loading a finished block\<close>

lemma fs_read_spec:
  "fs_read env path w = (r, w') \<Longrightarrow> wd_files w' = wd_files w
    \<and> (r = Inr (wd_files w path) \<or> (may_fail env \<and> (\<exists>e. r = Inl (Err e))))"
  by (auto simp: fs_read_def outside_def retW_def may_fail_def Let_def split: option.splits)

lemma load_spec:
  assumes run: "load_cached_block_index io task location materialize w = (r, w')"
  shows "wd_files w' = wd_files w"
    and "r = Inr (Some built) \<Longrightarrow> \<exists>cached bs. built = built_of task location cached
      \<and> wd_files w (block_manifest_file_path location (task_ulid task)) = Some bs
      \<and> io_manifest_from_json io bs = Inr cached \<and> manifest_matches task materialize cached
      \<and> is_file w (series_index_file_path location (task_ulid task))
      \<and> (materialize \<longrightarrow> is_file w (chunk_index_file_path location (task_ulid task)))"
proof -
  let ?manifest = "block_manifest_file_path location (task_ulid task)"
  let ?missing = "\<not> is_file w (series_index_file_path location (task_ulid task))
    \<or> (materialize \<and> \<not> is_file w (chunk_index_file_path location (task_ulid task)))"
  have "wd_files w' = wd_files w \<and> (\<forall>built. r = Inr (Some built) \<longrightarrow> (\<exists>cached bs. built = built_of task location cached
      \<and> wd_files w ?manifest = Some bs \<and> io_manifest_from_json io bs = Inr cached
      \<and> manifest_matches task materialize cached \<and> \<not> ?missing))"
  proof (cases ?missing)
    case True
    with run show ?thesis by (auto simp: load_cached_block_index_def task_ulid_def Let_def)
  next
    case False
    let ?rest = "\<lambda>contents. case contents of
            None \<Rightarrow> retW None
          | Some bs \<Rightarrow>
              (case io_manifest_from_json io bs of
                 Inl _ \<Rightarrow> retW None
               | Inr cached \<Rightarrow>
                   if \<not> manifest_matches task materialize cached then retW None
                   else retW (Some \<lparr>bx_row = cb_row cached, bx_block_ulid = br_block_ulid (cb_row cached),
                     bx_block_path = bb_block_path task, bx_index_path = bb_block_path task @ ''/index'',
                     bx_series_index_path = series_index_file_path location (task_ulid task),
                     bx_series_count = cb_series_count cached,
                     bx_chunk_count = cb_chunk_count cached, bx_metric_labels = cb_metric_labels cached\<rparr>))"
    from run False have "doW (fs_read (io_env io) ?manifest) ?rest w = (r, w')"
      unfolding load_cached_block_index_def task_ulid_def Let_def by (simp only: if_False)
    then show ?thesis
    proof (cases rule: doW_cases)
      case (fails e)
      then show ?thesis using fs_read_spec [OF fails(1)] by auto
    next
      case (goes contents w1)
      then have files: "wd_files w1 = wd_files w" "contents = wd_files w ?manifest"
        using fs_read_spec [OF goes(1)] by auto
      have "w' = w1" using goes(2) by (auto simp: retW_def split: option.splits sum.splits if_splits)
      moreover have "\<exists>cached bs. built = built_of task location cached
        \<and> wd_files w ?manifest = Some bs \<and> io_manifest_from_json io bs = Inr cached
        \<and> manifest_matches task materialize cached" if "r = Inr (Some built)" for built
        using goes(2) that files(2)
        by (auto simp: retW_def built_of_def manifest_matches_def task_ulid_def split: option.splits sum.splits if_splits)
      ultimately show ?thesis using files(1) False by auto
    qed
  qed
  then show "wd_files w' = wd_files w"
    and "r = Inr (Some built) \<Longrightarrow> \<exists>cached bs. built = built_of task location cached
      \<and> wd_files w (block_manifest_file_path location (task_ulid task)) = Some bs
      \<and> io_manifest_from_json io bs = Inr cached \<and> manifest_matches task materialize cached
      \<and> is_file w (series_index_file_path location (task_ulid task))
      \<and> (materialize \<longrightarrow> is_file w (chunk_index_file_path location (task_ulid task)))"
    by blast+
qed

lemma load_finished:
  assumes healthy: "\<not> may_fail (io_env io)"
    and finished: "block_finished io location materialize task built (wd_files w)"
  shows "\<exists>w'. load_cached_block_index io task location materialize w = (Inr (Some built), w') \<and> wd_files w' = wd_files w"
proof -
  from finished obtain cached bs where right: "entry_right io task cached" "cb_materialize_chunk_index cached = materialize"
    and built: "built = built_of task location cached"
    and bs: "wd_files w (block_manifest_file_path location (me_ulid (bb_meta task))) = Some bs" "io_manifest_from_json io bs = Inr cached"
    and tables: "is_file w (series_index_file_path location (me_ulid (bb_meta task)))"
      "materialize \<Longrightarrow> is_file w (chunk_index_file_path location (me_ulid (bb_meta task)))"
    by (auto simp: block_finished_def task_ulid_def is_file_def)
  have matches: "manifest_matches task materialize cached" using entry_matches [OF right(1)] right(2) by simp
  then have "br_block_ulid (cb_row cached) = me_ulid (bb_meta task)" by (simp add: manifest_matches_def)
  then show ?thesis
    using healthy tables bs matches built
    by (simp add: load_cached_block_index_def Let_def doW_def fs_read_def outside_healthy retW_def built_of_def)
qed

lemma loaded_finished:
  assumes "load_cached_block_index io task location materialize w = (Inr (Some built), w')"
    and "block_truthful io location task (wd_files w)"
  shows "block_finished io location materialize task built (wd_files w)"
proof -
  from load_spec(2) [OF assms(1) refl] obtain cached bs where
    facts: "built = built_of task location cached" "wd_files w (block_manifest_file_path location (task_ulid task)) = Some bs"
      "io_manifest_from_json io bs = Inr cached" "manifest_matches task materialize cached"
      "is_file w (series_index_file_path location (task_ulid task))"
      "materialize \<longrightarrow> is_file w (chunk_index_file_path location (task_ulid task))"
    by blast
  from facts(4) have m: "cb_materialize_chunk_index cached = materialize" by (simp add: manifest_matches_def)
  with facts assms(2) show ?thesis
    unfolding block_finished_def block_truthful_def is_file_def by fastforce
qed

lemma build_or_reuse_spec:
  assumes run: "build_or_reuse io location materialize task w = Some (r, w')"
    and json: "manifest_json_ok io" and loc: "plain_location location" and ulid: "plain_ulid (task_ulid task)"
    and truthful: "block_truthful io location task (wd_files w)"
  shows "block_truthful io location task (wd_files w')"
    and "p \<notin> block_files location (task_ulid task) \<Longrightarrow> wd_files w' p = wd_files w p"
    and "r = Inr built \<Longrightarrow> block_finished io location materialize task built (wd_files w')"
proof -
  obtain r1 w1 where load: "load_cached_block_index io task location materialize w = (r1, w1)" by fastforce
  note w1 = load_spec(1) [OF load]
  have "block_truthful io location task (wd_files w')
    \<and> (\<forall>p. p \<notin> block_files location (task_ulid task) \<longrightarrow> wd_files w' p = wd_files w p)
    \<and> (\<forall>built. r = Inr built \<longrightarrow> block_finished io location materialize task built (wd_files w'))"
  proof (cases r1)
    case (Inl e)
    with run load w1 truthful show ?thesis by (auto simp: build_or_reuse_def)
  next
    case (Inr found)
    show ?thesis
    proof (cases found)
      case None
      then have built: "build_chunk_index io task location materialize w1 = Some (r, w')"
        using run load Inr by (simp add: build_or_reuse_def)
      from build_chunk_index_spec [OF built json loc ulid] truthful w1 show ?thesis by simp
    next
      case (Some b)
      then have "r = Inr b" "w' = w1" using run load Inr by (simp_all add: build_or_reuse_def)
      moreover have "block_finished io location materialize task b (wd_files w)"
        using load Inr Some truthful by (intro loaded_finished) simp_all
      ultimately show ?thesis using w1 truthful by simp
    qed
  qed
  then show "block_truthful io location task (wd_files w')"
    and "p \<notin> block_files location (task_ulid task) \<Longrightarrow> wd_files w' p = wd_files w p"
    and "r = Inr built \<Longrightarrow> block_finished io location materialize task built (wd_files w')"
    by blast+
qed

section \<open>All blocks, one after the other\<close>

text \<open>
  What running the blocks one after the other needs of the work on one block: it keeps the truth about its
  own block, touches its own files only, and leaves a finished block behind; and the facts about a block
  rest on files that the work on another block does not touch.
\<close>

locale block_worker =
  fixes work :: "'t \<Rightarrow> world \<Rightarrow> ((string fault + 'b) \<times> world) option"
    and truthful :: "'t \<Rightarrow> (string \<Rightarrow> bytes option) \<Rightarrow> bool"
    and finished :: "'t \<Rightarrow> 'b \<Rightarrow> (string \<Rightarrow> bytes option) \<Rightarrow> bool"
    and own :: "'t \<Rightarrow> string set"
    and rests_on :: "'t \<Rightarrow> string set"
    and tasks :: "'t set"
  assumes work_truthful: "t \<in> tasks \<Longrightarrow> work t w = Some (r, w') \<Longrightarrow> truthful t (wd_files w) \<Longrightarrow> truthful t (wd_files w')"
    and work_frame: "t \<in> tasks \<Longrightarrow> work t w = Some (r, w') \<Longrightarrow> truthful t (wd_files w) \<Longrightarrow> p \<notin> own t
      \<Longrightarrow> wd_files w' p = wd_files w p"
    and work_finished: "t \<in> tasks \<Longrightarrow> work t w = Some (Inr x, w') \<Longrightarrow> truthful t (wd_files w) \<Longrightarrow> finished t x (wd_files w')"
    and truthful_rests: "truthful t files \<Longrightarrow> (\<And>p. p \<in> rests_on t \<Longrightarrow> files' p = files p) \<Longrightarrow> truthful t files'"
    and finished_rests: "finished t x files \<Longrightarrow> (\<And>p. p \<in> rests_on t \<Longrightarrow> files' p = files p) \<Longrightarrow> finished t x files'"
    and tasks_apart: "t \<in> tasks \<Longrightarrow> u \<in> tasks \<Longrightarrow> t \<noteq> u \<Longrightarrow> p \<in> rests_on t \<Longrightarrow> p \<notin> own u"
begin

lemma work_keeps_all:
  assumes "t \<in> tasks" and "work t w = Some (r, w')" and "\<forall>u \<in> tasks. truthful u (wd_files w)"
  shows "\<forall>u \<in> tasks. truthful u (wd_files w')"
proof
  fix u assume u: "u \<in> tasks"
  show "truthful u (wd_files w')"
  proof (cases "u = t")
    case True
    then show ?thesis using work_truthful [OF assms(1,2)] assms(3) u by blast
  next
    case False
    have "wd_files w' p = wd_files w p" if "p \<in> rests_on u" for p
      using work_frame [OF assms(1,2)] tasks_apart [OF u assms(1) False that] assms(1,3) by blast
    then show ?thesis using truthful_rests [of u "wd_files w" "wd_files w'"] assms(3) u by blast
  qed
qed

lemma run_all_truthful:
  "run_all work ts w = Some (r, w') \<Longrightarrow> set ts \<subseteq> tasks \<Longrightarrow> \<forall>u \<in> tasks. truthful u (wd_files w) \<Longrightarrow>
    (\<forall>u \<in> tasks. truthful u (wd_files w')) \<and> (\<forall>p. p \<notin> (\<Union>t \<in> set ts. own t) \<longrightarrow> wd_files w' p = wd_files w p)"
proof (induction ts arbitrary: r w)
  case Nil
  then show ?case by simp
next
  case (Cons t ts)
  then obtain r1 w1 where one: "work t w = Some (r1, w1)"
    and rest: "(case r1 of Inl e \<Rightarrow> Some (Inl e, w1)
      | Inr x \<Rightarrow> map_option (\<lambda>(rs, w2). (tryR rs (\<lambda>xs. Inr (x # xs)), w2)) (run_all work ts w1)) = Some (r, w')"
    by (auto simp: bind_eq_Some_conv)
  have t: "t \<in> tasks" using Cons.prems(2) by simp
  have frame1: "wd_files w1 p = wd_files w p" if "p \<notin> own t" for p
    using work_frame [OF t one] Cons.prems(3) t that by blast
  have all1: "\<forall>u \<in> tasks. truthful u (wd_files w1)" by (rule work_keeps_all [OF t one Cons.prems(3)])
  show ?case
  proof (cases r1)
    case (Inl e)
    with rest have "w' = w1" by simp
    with all1 frame1 show ?thesis by simp
  next
    case (Inr x)
    with rest obtain r2 where "run_all work ts w1 = Some (r2, w')" by auto
    from Cons.IH [OF this _ all1] Cons.prems(2) frame1 show ?thesis by simp
  qed
qed

lemma run_all_finished:
  "run_all work ts w = Some (Inr xs, w') \<Longrightarrow> set ts \<subseteq> tasks \<Longrightarrow> distinct ts \<Longrightarrow> \<forall>u \<in> tasks. truthful u (wd_files w) \<Longrightarrow>
    list_all2 (\<lambda>t x. finished t x (wd_files w')) ts xs"
proof (induction ts arbitrary: xs w)
  case Nil
  then show ?case by simp
next
  case (Cons t ts)
  have t: "t \<in> tasks" and "t \<notin> set ts" "set ts \<subseteq> tasks" "distinct ts" using Cons.prems(2,3) by auto
  obtain x w1 ys where one: "work t w = Some (Inr x, w1)" and rest: "run_all work ts w1 = Some (Inr ys, w')"
    and xs: "xs = x # ys"
  proof -
    obtain r1 w1 where step: "work t w = Some (r1, w1)"
      "(case r1 of Inl e \<Rightarrow> Some (Inl e, w1)
        | Inr x \<Rightarrow> map_option (\<lambda>(rs, w2). (tryR rs (\<lambda>xs. Inr (x # xs)), w2)) (run_all work ts w1)) = Some (Inr xs, w')"
      using Cons.prems(1) by (auto simp: bind_eq_Some_conv)
    then obtain x where r1: "r1 = Inr x" by (cases r1) auto
    with step(2) obtain rs where "run_all work ts w1 = Some (rs, w')" "tryR rs (\<lambda>xs. Inr (x # xs)) = Inr xs" by auto
    with step(1) r1 that show thesis by (auto simp: tryR_eq_Inr)
  qed
  have all1: "\<forall>u \<in> tasks. truthful u (wd_files w1)" by (rule work_keeps_all [OF t one Cons.prems(4)])
  have "wd_files w' p = wd_files w1 p" if "p \<in> rests_on t" for p
    using run_all_truthful [OF rest \<open>set ts \<subseteq> tasks\<close> all1] tasks_apart [OF t _ _ that] \<open>t \<notin> set ts\<close> \<open>set ts \<subseteq> tasks\<close> by blast
  then have "finished t x (wd_files w')"
    using finished_rests [OF work_finished [OF t one]] Cons.prems(4) t by blast
  with Cons.IH [OF rest \<open>set ts \<subseteq> tasks\<close> \<open>distinct ts\<close> all1] xs show ?case by simp
qed

end

text \<open>The blocks of a cache directory, when the ids, the location and the JSON are usable.\<close>

definition usable_blocks :: "index_outside \<Rightarrow> string \<Rightarrow> block_build_task set \<Rightarrow> block_build_task set" where
  "usable_blocks io location blocks =
     {task \<in> blocks. manifest_json_ok io \<and> plain_location location \<and> blocks_ok blocks}"

interpretation builder: block_worker "build_or_reuse io location materialize" "block_truthful io location"
  "block_finished io location materialize" "\<lambda>task. block_files location (task_ulid task)"
  "\<lambda>task. table_paths location (task_ulid task)" "usable_blocks io location blocks"
  for io location materialize blocks
proof unfold_locales
  fix t w r w'
  assume t: "t \<in> usable_blocks io location blocks" and run: "build_or_reuse io location materialize t w = Some (r, w')"
    and ok: "block_truthful io location t (wd_files w)"
  then have usable: "manifest_json_ok io" "plain_location location" "plain_ulid (task_ulid t)"
    by (auto simp: usable_blocks_def blocks_ok_def)
  show "block_truthful io location t (wd_files w')" by (rule build_or_reuse_spec(1) [OF run usable ok])
  show "wd_files w' p = wd_files w p" if "p \<notin> block_files location (task_ulid t)" for p
    using that by (rule build_or_reuse_spec(2) [OF run usable ok])
next
  fix t w x w'
  assume "t \<in> usable_blocks io location blocks" and "build_or_reuse io location materialize t w = Some (Inr x, w')"
    and "block_truthful io location t (wd_files w)"
  then show "block_finished io location materialize t x (wd_files w')"
    by (intro build_or_reuse_spec(3) [OF _ _ _ _ _ refl]) (auto simp: usable_blocks_def blocks_ok_def)
next
  fix t files files'
  assume "block_truthful io location t files" and "\<And>p. p \<in> table_paths location (task_ulid t) \<Longrightarrow> files' p = files p"
  then show "block_truthful io location t files'" by (blast intro: truthful_shrink)
next
  fix t x files files'
  assume "block_finished io location materialize t x files" and "\<And>p. p \<in> table_paths location (task_ulid t) \<Longrightarrow> files' p = files p"
  then show "block_finished io location materialize t x files'" by (rule finished_same_tables)
next
  fix t u p
  assume "t \<in> usable_blocks io location blocks" "u \<in> usable_blocks io location blocks" "t \<noteq> u"
    and p: "p \<in> table_paths location (task_ulid t)"
  then have "plain_ulid (task_ulid t)" "plain_ulid (task_ulid u)" "task_ulid t \<noteq> task_ulid u"
    by (auto simp: usable_blocks_def blocks_ok_def inj_on_def)
  then show "p \<notin> block_files location (task_ulid u)" using p by (rule other_block_files)
qed

end
