(* ===== verification/Block_Publish_Facts.thy ===== *)
theory Block_Publish_Facts
  imports Block_Cache_Facts
begin

text \<open>
  Facts on the whole build: the blocks discovery finds, the clean-up, the published tables and schemas, and
  the two results about \<open>build_block_index\<close>: what it publishes, and that it keeps the cache truthful.
\<close>

section \<open>Cleaning up\<close>

lemma fs_remove_file_shrinks:
  "fs_remove_file env path w = (r, w') \<Longrightarrow> wd_files w' p = wd_files w p \<or> wd_files w' p = None"
  by (auto simp: fs_remove_file_def outside_def failW_def Let_def split: option.splits if_splits)

lemma remove_entries_shrinks:
  "remove_entries env stale entries w = (r, w') \<Longrightarrow> wd_files w' p = wd_files w p \<or> wd_files w' p = None"
proof (induction entries arbitrary: w)
  case Nil
  then show ?case by (simp add: retW_def)
next
  case (Cons e entries)
  obtain path regular where e: "e = (path, regular)" by (cases e)
  from Cons.prems [unfolded e remove_entries.simps] show ?case
  proof (cases rule: doW_cases)
    case (fails x)
    then show ?thesis using outside_ret [OF fails(1)] by simp
  next
    case (goes u w1)
    then have w1: "wd_files w1 = wd_files w" using outside_ret [OF goes(1)] by simp
    show ?thesis using goes(2)
    proof (cases rule: doW_cases)
      case (fails x)
      then show ?thesis using w1 fs_remove_file_shrinks [of env path w1 _ w'] by (auto simp: retW_def split: if_splits)
    next
      case (goes v w2)
      then have "wd_files w2 p = wd_files w1 p \<or> wd_files w2 p = None"
        using fs_remove_file_shrinks [of env path w1 _ w2] by (auto simp: retW_def split: if_splits)
      with Cons.IH [OF goes(2)] w1 show ?thesis by auto
    qed
  qed
qed

lemma clean_directory_cases:
  assumes "clean_directory io directory stale w = (r, w')"
  shows "wd_files w' p = wd_files w p \<or> wd_files w' p = None"
    and "(\<And>regular. \<not> stale p regular) \<Longrightarrow> wd_files w' p = wd_files w p"
proof -
  have "(wd_files w' p = wd_files w p \<or> wd_files w' p = None)
    \<and> ((\<forall>regular. \<not> stale p regular) \<longrightarrow> wd_files w' p = wd_files w p)"
  proof (cases "io_dir_exists io directory w")
    case False
    with assms show ?thesis by (simp add: clean_directory_def)
  next
    case True
    with assms have "doW (outside (io_env io) (\<lambda>w. retW (io_read_dir io directory w) w))
        (remove_entries (io_env io) stale) w = (r, w')" by (simp add: clean_directory_def)
    then show ?thesis
    proof (cases rule: doW_cases)
      case (fails e)
      then show ?thesis by (auto simp: outside_def retW_def Let_def split: option.splits)
    next
      case (goes entries w1)
      then have w1: "wd_files w1 = wd_files w" by (auto simp: outside_def retW_def Let_def split: option.splits)
      have "wd_files w' p = wd_files w1 p" if "\<forall>regular. \<not> stale p regular"
        using remove_entries_safe [of p entries stale "io_env io" w1] that goes(2) by simp
      then show ?thesis using remove_entries_shrinks [OF goes(2), of p] w1 by simp
    qed
  qed
  then show "wd_files w' p = wd_files w p \<or> wd_files w' p = None"
    and "(\<And>regular. \<not> stale p regular) \<Longrightarrow> wd_files w' p = wd_files w p" by simp_all
qed

lemma cleanup_cases:
  assumes "cleanup_index_files io directory active w = (r, w')"
  shows "wd_files w' p = wd_files w p \<or> wd_files w' p = None"
    and "file_stem p \<in> set active \<Longrightarrow> wd_files w' p = wd_files w p"
  using clean_directory_cases [OF assms [unfolded cleanup_index_files_def], of p]
  by (auto simp: stale_index_file_def)

lemma table_path_stem:
  assumes "plain_ulid ulid" and "p \<in> table_paths location ulid"
  shows "file_stem p = ulid"
proof -
  have "file_stem (d @ ''/'' @ ulid @ ''.'' @ ext) = ulid" if "ext \<in> {''parquet'', ''json''}" for d ext
    by (rule file_stem_append) (use assms(1) that in \<open>auto simp: plain_ulid_def\<close>)
  from this [of "''parquet''"] this [of "''json''"] assms(2) show ?thesis
    by (auto simp: table_paths_def index_paths [OF assms(1)])
qed

section \<open>Discovery\<close>

text \<open>The block a listed \<open>meta.json\<close> stands for: none when it is marked for deletion, gone or unreadable.\<close>

definition deletion_mark_path :: "string \<Rightarrow> string" where
  "deletion_mark_path block_path =
     (if block_path = '''' then DELETION_MARK_FILE_NAME else block_path @ ''/'' @ DELETION_MARK_FILE_NAME)"

definition live_block :: "index_outside \<Rightarrow> meta_read_task \<Rightarrow> block_build_task option" where
  "live_block io task =
     (if ev_objects (io_env io) (rp_name (mk_storage task)) (deletion_mark_path (mk_block_path task)) \<noteq> None then None
      else
        case ev_objects (io_env io) (rp_name (mk_storage task)) (mk_meta_path task) of
          None \<Rightarrow> None
        | Some bs \<Rightarrow>
            (case ix_meta_from_json (io_codec io) bs of
               Inl _ \<Rightarrow> None
             | Inr meta \<Rightarrow> Some \<lparr>bb_repository = mk_repository task, bb_storage = mk_storage task,
                 bb_meta = meta, bb_block_path = mk_block_path task, bb_meta_path = mk_meta_path task\<rparr>))"

fun built_task :: "meta_read_result \<Rightarrow> block_build_task option" where
  "built_task (Build task) = Some task"
| "built_task _ = None"

lemma build_tasks_built: "build_tasks results = List.map_filter built_task results"
proof -
  have "(\<lambda>r. case r of Build task \<Rightarrow> Some task | _ \<Rightarrow> None) = built_task"
    by (rule ext) (auto split: meta_read_result.split)
  then show ?thesis by (simp add: build_tasks_def)
qed

lemma read_block_meta_spec:
  assumes "read_block_meta io age task w = (r, w')"
  shows "wd_files w' = wd_files w
    \<and> (\<forall>x. r = Inr x \<longrightarrow> built_task x = live_block io task \<or> (age \<noteq> None \<and> built_task x = None))"
  using assms
  by (auto simp: read_block_meta_def block_has_deletion_mark_def operator_exists_def repository_read_found_def
      outside_def retW_def doW_def Let_def live_block_def deletion_mark_path_def tryR_eq_Inr map_err_eq_Inr
      block_is_older_than_def split: option.splits if_splits sum.splits prod.splits)

lemma run_all_reads:
  assumes "\<And>t w r w'. f t w = Some (r, w') \<Longrightarrow> wd_files w' = wd_files w \<and> (\<forall>x. r = Inr x \<longrightarrow> R t x)"
  shows "run_all f ts w = Some (r, w') \<Longrightarrow> wd_files w' = wd_files w \<and> (\<forall>xs. r = Inr xs \<longrightarrow> list_all2 R ts xs)"
proof (induction ts arbitrary: r w)
  case Nil
  then show ?case by auto
next
  case (Cons t ts)
  obtain r1 w1 where one: "f t w = Some (r1, w1)"
    and rest: "(case r1 of Inl e \<Rightarrow> Some (Inl e, w1)
      | Inr x \<Rightarrow> map_option (\<lambda>(rs, w2). (tryR rs (\<lambda>xs. Inr (x # xs)), w2)) (run_all f ts w1)) = Some (r, w')"
    using Cons.prems by (auto simp: bind_eq_Some_conv)
  show ?case
  proof (cases r1)
    case (Inl e)
    with one rest assms [OF one] show ?thesis by auto
  next
    case (Inr x)
    with rest obtain rs where "run_all f ts w1 = Some (rs, w')" and r: "r = tryR rs (\<lambda>xs. Inr (x # xs))" by auto
    from Cons.IH [OF this(1)] assms [OF one] Inr r show ?thesis by (auto simp: tryR_eq_Inr)
  qed
qed

lemma map_filter_list_all2:
  "list_all2 (\<lambda>t x. f x = g t) ts xs \<Longrightarrow> List.map_filter f xs = List.map_filter g ts"
  by (induction rule: list_all2_induct) (simp_all add: map_filter_simps split: option.split)

lemma set_map_filter: "set (List.map_filter f xs) = {y. \<exists>x \<in> set xs. f x = Some y}"
  by (force simp: map_filter_def)

lemma mset_map_filter: "mset xs = mset ys \<Longrightarrow> mset (List.map_filter f xs) = mset (List.map_filter f ys)"
  by (simp add: map_filter_def mset_filter)

text \<open>All blocks that a run can build.\<close>

definition known_blocks ::
  "index_outside \<Rightarrow> (string \<Rightarrow> repository option) \<Rightarrow> repository_config list \<Rightarrow> block_build_task set" where
  "known_blocks io repository_for repositories =
     {task. \<exists>mts. discover io repository_for repositories = Inr mts \<and> (\<exists>mt \<in> set mts. live_block io mt = Some task)}"

lemma live_block_inj:
  assumes "live_block io a = Some t" and "live_block io b = Some t"
  shows "a = b"
proof -
  have fields: "mk_repository x = bb_repository t \<and> mk_storage x = bb_storage t \<and> mk_block_path x = bb_block_path t
    \<and> mk_meta_path x = bb_meta_path t" if "live_block io x = Some t" for x
    using that by (auto simp: live_block_def split: if_splits option.splits sum.splits)
  show ?thesis using fields [OF assms(1)] fields [OF assms(2)] by (cases a; cases b) simp
qed

lemma live_distinct: "distinct mts \<Longrightarrow> distinct (List.map_filter (live_block io) mts)"
  by (induction mts) (auto simp: map_filter_simps set_map_filter split: option.split dest: live_block_inj)

section \<open>Publishing\<close>

lemma write_local_file_spec:
  assumes run: "write_local_file env path bs w = (r, w')"
  shows "p \<noteq> local_path path \<Longrightarrow> wd_files w' p = wd_files w p"
    and "r = Inr () \<Longrightarrow> wd_files w' (local_path path) = Some bs"
proof -
  let ?path = "local_path path"
  have "(\<forall>p. p \<noteq> ?path \<longrightarrow> wd_files w' p = wd_files w p) \<and> (r = Inr () \<longrightarrow> wd_files w' ?path = Some bs)"
  proof (cases "has_file_name ?path")
    case False
    with run show ?thesis by (auto simp: write_local_file_def failW_def)
  next
    case True
    with run have "doW (if parent_path ?path = '''' then retW () else fs_create_dir_all env (parent_path ?path)) (\<lambda>_.
        doW (outside env (retW ())) (\<lambda>_. fs_write env ?path bs)) w = (r, w')"
      by (simp add: write_local_file_def Let_def)
    then show ?thesis
    proof (cases rule: doW_cases)
      case (fails e)
      then show ?thesis using fs_create_dir_all_spec [of env "parent_path ?path" w _ w'] by (auto simp: retW_def split: if_splits)
    next
      case (goes u w1)
      then have w1: "wd_files w1 = wd_files w"
        using fs_create_dir_all_spec [of env "parent_path ?path" w _ w1] by (auto simp: retW_def split: if_splits)
      show ?thesis using goes(2)
      proof (cases rule: doW_cases)
        case (fails e)
        then show ?thesis using w1 outside_ret [OF fails(1)] by simp
      next
        case (goes v w2)
        then show ?thesis using w1 outside_ret [OF goes(1)] fs_write_spec [OF goes(2)] by auto
      qed
    qed
  qed
  then show "p \<noteq> ?path \<Longrightarrow> wd_files w' p = wd_files w p"
    and "r = Inr () \<Longrightarrow> wd_files w' ?path = Some bs" by simp_all
qed

lemma block_index_apart:
  assumes "plain_ulid ulid" and "p \<in> table_paths location ulid"
  shows "p \<noteq> block_index_file_path location"
  using assms(2)
  by (auto simp: table_paths_def index_paths [OF assms(1)] series_index_directory_path_def chunk_index_directory_path_def
      block_index_file_path_def join_path_def path_join_def starts_with_def strip_prefix_def)

lemma publish_spec:
  assumes run: "publish io location active built w = (r, w')" and loc: "plain_location location"
  shows "p \<noteq> block_index_file_path location \<Longrightarrow> wd_files w' p = wd_files w p \<or> wd_files w' p = None"
    and "p \<noteq> block_index_file_path location \<Longrightarrow> file_stem p \<in> set active \<Longrightarrow> wd_files w' p = wd_files w p"
    and "r = Inr schemas \<Longrightarrow>
      schemas = metric_schemas (fold (\<lambda>b m. merge_metric_labels m (bx_metric_labels b)) built [])
      \<and> wd_files w' (block_index_file_path location) = Some (io_parquet io block_schema
          [batch_of block_schema (block_columns (sort_key row_key (map bx_row built))) (length built)])"
proof -
  let ?index = "block_index_file_path location"
  let ?rows = "sort_key row_key (map bx_row built)"
  let ?bs = "io_parquet io block_schema [batch_of block_schema (block_columns ?rows) (length built)]"
  let ?schemas = "metric_schemas (fold (\<lambda>b m. merge_metric_labels m (bx_metric_labels b)) built [])"
  have bytes: "block_parquet_bytes (io_parquet io) ?rows = Inr ?bs"
    by (simp add: block_parquet_bytes_def block_record_batch_ok)
  have local: "local_path ?index = ?index"
    using loc file_scheme_join [of "local_path location" "''block_index.parquet''" "[]"]
    by (simp add: local_path_plain plain_location_def block_index_file_path_def)
  have run': "doW (cleanup_series_index_files io location active) (\<lambda>_.
      doW (cleanup_block_manifest_files io location active) (\<lambda>_.
      doW (write_local_file (io_env io) ?index ?bs) (\<lambda>_. retW ?schemas))) w = (r, w')"
    using run by (simp add: publish_def bytes Let_def)
  have "(\<forall>p. p \<noteq> ?index \<longrightarrow> (wd_files w' p = wd_files w p \<or> wd_files w' p = None)
      \<and> (file_stem p \<in> set active \<longrightarrow> wd_files w' p = wd_files w p))
    \<and> (\<forall>schemas. r = Inr schemas \<longrightarrow> schemas = ?schemas \<and> wd_files w' ?index = Some ?bs)"
    using run'
  proof (cases rule: doW_cases)
    case (fails e)
    then show ?thesis using cleanup_cases [OF fails(1) [unfolded cleanup_series_index_files_def]] by auto
  next
    case (goes u w1)
    note c1 = cleanup_cases [OF goes(1) [unfolded cleanup_series_index_files_def]]
    show ?thesis using goes(2)
    proof (cases rule: doW_cases)
      case (fails e)
      note c2 = cleanup_cases [OF fails(1) [unfolded cleanup_block_manifest_files_def]]
      have shrinks: "wd_files w' p = wd_files w p \<or> wd_files w' p = None"
        and keeps: "file_stem p \<in> set active \<Longrightarrow> wd_files w' p = wd_files w p" for p
        using c1 [of p] c2 [of p] by auto
      have failed: "r = Inr schemas \<Longrightarrow> P" for schemas P using fails(2) by simp
      show ?thesis
        by (intro conjI allI impI) (rule shrinks, erule keeps, erule failed, erule failed)
    next
      case (goes v w2)
      note c2 = cleanup_cases [OF goes(1) [unfolded cleanup_block_manifest_files_def]]
      obtain r3 where written: "write_local_file (io_env io) ?index ?bs w2 = (r3, w')"
        and r: "r = tryR r3 (\<lambda>_. Inr ?schemas)"
        using goes(2) by (auto simp: doW_def retW_def split: prod.splits sum.splits)
      note wl = write_local_file_spec [OF written, unfolded local]
      have shrinks: "wd_files w' p = wd_files w p \<or> wd_files w' p = None"
        and keeps: "file_stem p \<in> set active \<Longrightarrow> wd_files w' p = wd_files w p" if "p \<noteq> ?index" for p
        using c1 [of p] c2 [of p] wl(1) [OF that] by auto
      have r3: "r3 = Inr () \<and> schemas = ?schemas" if "r = Inr schemas" for schemas
        using that unfolding r tryR_eq_Inr by auto
      have files: "wd_files w' ?index = Some ?bs" if "r = Inr schemas" for schemas
        using r3 [OF that] wl(2) by blast
      show ?thesis
        by (intro conjI allI impI) (erule shrinks, erule keeps, assumption, erule r3 [THEN conjunct2], erule files)
    qed
  qed
  then show "p \<noteq> ?index \<Longrightarrow> wd_files w' p = wd_files w p \<or> wd_files w' p = None"
    and "p \<noteq> ?index \<Longrightarrow> file_stem p \<in> set active \<Longrightarrow> wd_files w' p = wd_files w p"
    and "r = Inr schemas \<Longrightarrow> schemas = ?schemas \<and> wd_files w' ?index = Some ?bs"
    by simp_all
qed

section \<open>The schemas\<close>

text \<open>The label columns of a metric over several blocks: none when no block has a series of it.\<close>

definition union_of :: "'a set list \<Rightarrow> 'a set option" where
  "union_of sets = (if sets = [] then None else Some (\<Union>(set sets)))"

lemma union_of_snoc: "opt_union (union_of sets) (Some a) = union_of (sets @ [a])"
  by (auto simp: union_of_def)

lemma merged_union:
  "fold (\<lambda>b g k. opt_union (g k) (ml_set (f b) k)) bs (\<lambda>_. None) name = union_of (List.map_filter (\<lambda>b. ml_set (f b) name) bs)"
proof (induction bs rule: rev_induct)
  case Nil
  then show ?case by (simp add: union_of_def map_filter_simps)
next
  case (snoc b bs)
  then show ?case
    by (cases "ml_set (f b) name") (simp_all add: union_of_snoc map_filter_def)
qed

definition published_columns :: "index_outside \<Rightarrow> block_build_task list \<Rightarrow> string \<Rightarrow> string set option" where
  "published_columns io live name =
     union_of (List.map_filter (\<lambda>task.
       case indexed_series io task of
         None \<Rightarrow> None
       | Some es \<Rightarrow> metric_columns (tm_labels (me_thanos (bb_meta task))) es name) live)"

definition schemas_right ::
  "index_outside \<Rightarrow> bool \<Rightarrow> block_build_task list \<Rightarrow> metric_table_schema list \<Rightarrow> bool" where
  "schemas_right io materialize live schemas \<longleftrightarrow>
     sorted_wrt (<) (map mt_name schemas) \<and> (\<forall>s \<in> set schemas. sorted_wrt (<) (mt_label_columns s))
     \<and> (\<forall>name. map_of (map (\<lambda>s. (mt_name s, set (mt_label_columns s))) schemas) name
          = (if materialize then published_columns io live name else None))"

lemma union_of_set: "set a = set b \<Longrightarrow> union_of a = union_of b"
  by (auto simp: union_of_def)

lemma metric_schemas_right:
  assumes ok: "ml_ok labels" and set: "ml_set labels = (\<lambda>name. if materialize then published_columns io live name else None)"
  shows "schemas_right io materialize live (metric_schemas labels)"
proof -
  have names: "map mt_name (metric_schemas labels) = map fst labels"
    by (simp add: metric_schemas_def case_prod_beta o_def)
  have "map_of (map (\<lambda>s. (mt_name s, set (mt_label_columns s))) (metric_schemas labels)) name = map_option set (map_of labels name)"
    for name
    by (induction labels) (auto simp: metric_schemas_def)
  then have columns: "map_of (map (\<lambda>s. (mt_name s, set (mt_label_columns s))) (metric_schemas labels)) name = ml_set labels name"
    for name by (simp add: ml_set_def bt_get_def)
  have sorted: "sorted_wrt (<) (map fst labels)" using ok by (simp add: ml_ok_def bt_ok_def)
  then have "distinct (map fst labels)" by (rule strict_sorted_iff [THEN iffD1, THEN conjunct2])
  then have "sorted_wrt (<) vs" if "(k, vs) \<in> set labels" for k vs
    using that ok by (auto simp: ml_ok_def bt_get_def)
  then have "\<forall>s \<in> set (metric_schemas labels). sorted_wrt (<) (mt_label_columns s)"
    by (auto simp: metric_schemas_def)
  with names columns sorted set show ?thesis by (simp add: schemas_right_def)
qed

section \<open>The whole build\<close>

text \<open>The outcome of one run: the worlds after the metadata, after dropping chunk tables, and after the blocks.\<close>

lemma build_block_index_cases:
  assumes run: "build_block_index io repository_for meta_schedule schedule repositories location materialize age w = Some (r, w')"
  obtains (unlisted) e where "discover io repository_for repositories = Inl e" "r = Inl e" "w' = w"
  | (unread) mts e where "discover io repository_for repositories = Inr mts"
      "run_all (\<lambda>t w. Some (read_block_meta io age t w)) mts w = Some (Inl e, w')" "r = Inl e"
  | (uncleaned) mts results w1 e where "discover io repository_for repositories = Inr mts"
      "run_all (\<lambda>t w. Some (read_block_meta io age t w)) mts w = Some (Inr results, w1)"
      "\<not> materialize" "remove_chunk_index_files io location w1 = (Inl e, w')" "r = Inl e"
  | (unbuilt) mts results w1 w2 u e where "discover io repository_for repositories = Inr mts"
      "run_all (\<lambda>t w. Some (read_block_meta io age t w)) mts w = Some (Inr results, w1)"
      "(if materialize then (Inr (), w1) else remove_chunk_index_files io location w1) = (Inr u, w2)"
      "run_all (build_or_reuse io location materialize) (schedule (build_tasks (meta_schedule results))) w2 = Some (Inl e, w')"
      "r = Inl e"
  | (built) mts results w1 w2 u built w3 where "discover io repository_for repositories = Inr mts"
      "run_all (\<lambda>t w. Some (read_block_meta io age t w)) mts w = Some (Inr results, w1)"
      "(if materialize then (Inr (), w1) else remove_chunk_index_files io location w1) = (Inr u, w2)"
      "run_all (build_or_reuse io location materialize) (schedule (build_tasks (meta_schedule results))) w2 = Some (Inr built, w3)"
      "publish io location (bs_of_list (map (\<lambda>t. me_ulid (bb_meta t)) (build_tasks (meta_schedule results)))) built w3 = (r, w')"
proof (cases "discover io repository_for repositories")
  case (Inl e)
  with run show thesis by (intro unlisted) (auto simp: build_block_index_def)
next
  case (Inr mts)
  note d = Inr
  let ?tasks = "\<lambda>results. build_tasks (meta_schedule results)"
  let ?rest = "\<lambda>(r1, w1). case r1 of Inl e \<Rightarrow> Some (Inl e, w1)
          | Inr results \<Rightarrow>
              (case (if materialize then (Inr (), w1) else remove_chunk_index_files io location w1) of
                 (Inl e, w2) \<Rightarrow> Some (Inl e, w2)
               | (Inr _, w2) \<Rightarrow>
                   map_option (\<lambda>(rs, w3).
                     case rs of Inl e \<Rightarrow> (Inl e, w3) | Inr built \<Rightarrow> publish io location (bs_of_list (map (\<lambda>t. me_ulid (bb_meta t)) (?tasks results))) built w3)
                     (run_all (build_or_reuse io location materialize) (schedule (?tasks results)) w2))"
  have bind: "Option.bind (run_all (\<lambda>t w. Some (read_block_meta io age t w)) mts w) ?rest = Some (r, w')"
    using run d unfolding build_block_index_def Let_def by (simp only: sum.case)
  obtain p where p: "run_all (\<lambda>t w. Some (read_block_meta io age t w)) mts w = Some p" "?rest p = Some (r, w')"
    using bind_eq_Some_conv [THEN iffD1, OF bind] by blast
  obtain r1 w1 where p': "p = (r1, w1)" by (cases p)
  have metas: "run_all (\<lambda>t w. Some (read_block_meta io age t w)) mts w = Some (r1, w1)"
    using p(1) p' by simp
  have rest: "(case r1 of Inl e \<Rightarrow> Some (Inl e, w1)
          | Inr results \<Rightarrow>
              (case (if materialize then (Inr (), w1) else remove_chunk_index_files io location w1) of
                 (Inl e, w2) \<Rightarrow> Some (Inl e, w2)
               | (Inr _, w2) \<Rightarrow>
                   map_option (\<lambda>(rs, w3).
                     case rs of Inl e \<Rightarrow> (Inl e, w3) | Inr built \<Rightarrow> publish io location (bs_of_list (map (\<lambda>t. me_ulid (bb_meta t)) (?tasks results))) built w3)
                     (run_all (build_or_reuse io location materialize) (schedule (?tasks results)) w2))) = Some (r, w')"
    using p(2) unfolding p' prod.case .
  show thesis
  proof (cases r1)
    case (Inl e)
    with rest have "r = Inl e" "w' = w1" by auto
    with metas Inl d show thesis by (intro unread) simp_all
  next
    case (Inr results)
    obtain c w2 where clean: "(if materialize then (Inr (), w1) else remove_chunk_index_files io location w1) = (c, w2)"
      by (cases "if materialize then (Inr (), w1) else remove_chunk_index_files io location w1")
    show thesis
    proof (cases c)
      case Inl2: (Inl e)
      with clean have "\<not> materialize" "remove_chunk_index_files io location w1 = (Inl e, w2)"
        by (auto split: if_splits)
      moreover from rest Inr clean Inl2 have "r = Inl e" "w' = w2" by auto
      ultimately show thesis using d metas Inr by (intro uncleaned [of mts results w1 e]) simp_all
    next
      case Inr2: (Inr u)
      with rest Inr clean obtain rs w3 where
        all: "run_all (build_or_reuse io location materialize) (schedule (?tasks results)) w2 = Some (rs, w3)"
        and fin: "(case rs of Inl e \<Rightarrow> (Inl e, w3) | Inr built \<Rightarrow> publish io location (bs_of_list (map (\<lambda>t. me_ulid (bb_meta t)) (?tasks results))) built w3) = (r, w')"
        by auto
      show thesis
      proof (cases rs)
        case Inl3: (Inl e)
        with fin have "r = Inl e" "w3 = w'" by auto
        with d metas Inr clean Inr2 all Inl3 show thesis by (intro unbuilt [of mts results w1 u w2 e]) simp_all
      next
        case Inr3: (Inr bs)
        with fin have "publish io location (bs_of_list (map (\<lambda>t. me_ulid (bb_meta t)) (?tasks results))) bs w3 = (r, w')" by simp
        with d metas Inr clean Inr2 all Inr3 show thesis by (intro built [of mts results w1 u w2 bs w3]) simp_all
      qed
    qed
  qed
qed

lemma reads_spec:
  assumes "run_all (\<lambda>t w. Some (read_block_meta io age t w)) mts w = Some (r, w')"
  shows "wd_files w' = wd_files w \<and> (\<forall>results. r = Inr results \<longrightarrow>
    list_all2 (\<lambda>mt x. built_task x = live_block io mt \<or> (age \<noteq> None \<and> built_task x = None)) mts results)"
  by (rule run_all_reads [OF _ assms]) (use read_block_meta_spec [of io age] in auto)

lemma found_known:
  assumes "discover io repository_for repositories = Inr mts"
    and "list_all2 (\<lambda>mt x. built_task x = live_block io mt \<or> (age \<noteq> None \<and> built_task x = None)) mts results"
    and "x \<in> set results" and "built_task x = Some task"
  shows "task \<in> known_blocks io repository_for repositories"
proof -
  obtain i where i: "i < length results" "x = results ! i" using assms(3) by (auto simp: in_set_conv_nth)
  then have "mts ! i \<in> set mts" "live_block io (mts ! i) = Some task"
    using assms(2,4) by (auto simp: list_all2_conv_all_nth)
  with assms(1) show ?thesis by (auto simp: known_blocks_def)
qed

lemma scheduled_known:
  assumes listed: "discover io repository_for repositories = Inr mts"
    and read: "run_all (\<lambda>t w. Some (read_block_meta io age t w)) mts w = Some (Inr results, w1)"
    and known: "known_blocks io repository_for repositories \<subseteq> blocks"
    and orders: "\<And>xs. mset (meta_schedule xs) = mset xs" "\<And>ts. mset (schedule ts) = mset ts"
  shows "set (schedule (build_tasks (meta_schedule results))) \<subseteq> blocks"
proof
  fix task assume "task \<in> set (schedule (build_tasks (meta_schedule results)))"
  then have "task \<in> set (build_tasks results)"
    using orders(2) [of "build_tasks (meta_schedule results)"] orders(1) [of results]
    by (auto simp: build_tasks_built set_map_filter dest!: mset_eq_setD)
  then obtain x where "x \<in> set results" "built_task x = Some task"
    by (auto simp: build_tasks_built set_map_filter)
  with found_known [OF listed] reads_spec [OF read] known show "task \<in> blocks" by blast
qed

lemma remove_chunk_shrinks:
  "(if materialize then (Inr (), w) else remove_chunk_index_files io location w) = (r, w') \<Longrightarrow>
    wd_files w' p = wd_files w p \<or> wd_files w' p = None"
  using clean_directory_cases(1) [of io "chunk_index_directory_path location" legacy_chunk_file w r w' p]
  by (auto simp: remove_chunk_index_files_def split: if_splits)

lemma truthful_shrinks:
  assumes "cache_truthful io location blocks w"
    and "\<And>task p. task \<in> blocks \<Longrightarrow> p \<in> table_paths location (task_ulid task) \<Longrightarrow> wd_files w' p = wd_files w p \<or> wd_files w' p = None"
  shows "cache_truthful io location blocks w'"
  unfolding cache_truthful_def
proof
  fix task assume task: "task \<in> blocks"
  with assms(1) have "block_truthful io location task (wd_files w)" by (simp add: cache_truthful_def)
  then show "block_truthful io location task (wd_files w')"
    by (rule truthful_shrink) (rule assms(2) [OF task])
qed

lemma builds_keep_truth:
  assumes run: "run_all (build_or_reuse io location materialize) ts w = Some (r, w')"
    and truthful: "cache_truthful io location blocks w"
    and usable: "blocks_ok blocks" "plain_location location" "manifest_json_ok io" "set ts \<subseteq> blocks"
  shows "cache_truthful io location blocks w'"
proof -
  have all: "usable_blocks io location blocks = blocks" using usable(1-3) by (auto simp: usable_blocks_def)
  show ?thesis
    using builder.run_all_truthful [OF run, where blocks = blocks] truthful usable(4) unfolding all cache_truthful_def by blast
qed

lemma build_keeps_truth:
  assumes run: "build_block_index io repository_for meta_schedule schedule repositories location materialize age w = Some (r, w')"
    and truthful: "cache_truthful io location blocks w"
    and usable: "blocks_ok blocks" "plain_location location" "manifest_json_ok io"
    and known: "known_blocks io repository_for repositories \<subseteq> blocks"
    and orders: "\<And>xs. mset (meta_schedule xs) = mset xs" "\<And>ts. mset (schedule ts) = mset ts"
  shows "cache_truthful io location blocks w'"
proof -
  have tasks: "set (schedule (build_tasks (meta_schedule results))) \<subseteq> blocks"
    if "discover io repository_for repositories = Inr mts"
      "run_all (\<lambda>t w. Some (read_block_meta io age t w)) mts w = Some (Inr results, w1)" for mts results w1
    by (rule scheduled_known [OF that known orders])
  have reads: "cache_truthful io location blocks w1" if "wd_files w1 = wd_files w" for w1
    using truthful that by (simp add: cache_truthful_def)
  show ?thesis using run
  proof (cases rule: build_block_index_cases)
    case (unlisted e)
    with truthful show ?thesis by simp
  next
    case (unread mts e)
    then show ?thesis using reads_spec reads by blast
  next
    case (uncleaned mts results w1 e)
    from reads_spec [OF uncleaned(2)] have "cache_truthful io location blocks w1" by (intro reads) simp
    then show ?thesis
      by (rule truthful_shrinks) (use remove_chunk_shrinks [of False] uncleaned(4) in simp)
  next
    case (unbuilt mts results w1 w2 u e)
    from reads_spec [OF unbuilt(2)] have "cache_truthful io location blocks w1" by (intro reads) simp
    then have "cache_truthful io location blocks w2"
      by (rule truthful_shrinks) (rule remove_chunk_shrinks [OF unbuilt(3)])
    from builds_keep_truth [OF unbuilt(4) this usable tasks [OF unbuilt(1,2)]] show ?thesis .
  next
    case (built mts results w1 w2 u bs w3)
    from reads_spec [OF built(2)] have "cache_truthful io location blocks w1" by (intro reads) simp
    then have "cache_truthful io location blocks w2"
      by (rule truthful_shrinks) (rule remove_chunk_shrinks [OF built(3)])
    from builds_keep_truth [OF built(4) this usable tasks [OF built(1,2)]]
    have "cache_truthful io location blocks w3" .
    then show ?thesis
    proof (rule truthful_shrinks)
      fix task p assume "task \<in> blocks" and p: "p \<in> table_paths location (task_ulid task)"
      then have "p \<noteq> block_index_file_path location"
        using usable(1) block_index_apart [of "task_ulid task" p location] by (auto simp: blocks_ok_def)
      then show "wd_files w' p = wd_files w3 p \<or> wd_files w' p = None"
        by (rule publish_spec(1) [OF built(5) usable(2)])
    qed
  qed
qed

text \<open>What a finished block says of its row and its labels.\<close>

definition row_of :: "index_outside \<Rightarrow> block_build_task \<Rightarrow> block_index_row" where
  "row_of io task =
     (case index_row (io_codec io) (bb_repository task) (bb_meta task) (bb_block_path task) (bb_meta_path task) of
        Inr row \<Rightarrow> row)"

definition block_columns_of :: "index_outside \<Rightarrow> string \<Rightarrow> block_build_task \<Rightarrow> string set option" where
  "block_columns_of io name task =
     (case indexed_series io task of
        None \<Rightarrow> None | Some es \<Rightarrow> metric_columns (tm_labels (me_thanos (bb_meta task))) es name)"

lemma finished_row:
  assumes "block_finished io location materialize task built files"
  shows "index_row (io_codec io) (bb_repository task) (bb_meta task) (bb_block_path task) (bb_meta_path task) = Inr (row_of io task)"
    and "bx_row built = row_of io task"
    and "br_block_ulid (row_of io task) = task_ulid task"
    and "ml_ok (bx_metric_labels built)"
    and "ml_set (bx_metric_labels built) name = (if materialize then block_columns_of io name task else None)"
  using assms
  by (auto simp: block_finished_def entry_right_def row_of_def built_of_def block_columns_of_def task_ulid_def
      dest: index_row_fields(1))

lemma finished_rows_published:
  assumes finished: "list_all2 (\<lambda>t b. block_finished io location materialize t b files) ts bs"
    and same: "mset ts = mset live" and ids: "inj_on task_ulid (set live)"
  shows "sort_key row_key (map bx_row bs) = sort_key row_key (map (row_of io) live)"
proof -
  have "map bx_row bs = map (row_of io) ts"
    using finished by (auto simp: list_all2_conv_all_nth finished_row(2) intro!: nth_equalityI)
  then have rows: "mset (map bx_row bs) = mset (map (row_of io) live)" using same by (simp add: mset_map)
  have "inj_on row_key (set (map (row_of io) live))"
  proof (rule inj_onI)
    fix x y assume "x \<in> set (map (row_of io) live)" "y \<in> set (map (row_of io) live)" and eq: "row_key x = row_key y"
    then obtain s t where st: "s \<in> set live" "x = row_of io s" "t \<in> set live" "y = row_of io t" by auto
    have ulid: "br_block_ulid (row_of io u) = task_ulid u" if "u \<in> set live" for u
    proof -
      from that same have "u \<in> set ts" by (auto dest!: mset_eq_setD)
      then obtain b where "block_finished io location materialize u b files"
        using finished by (auto simp: in_set_conv_nth list_all2_conv_all_nth)
      then show ?thesis by (rule finished_row(3))
    qed
    from eq st ulid have "task_ulid s = task_ulid t" by (simp add: row_key_def)
    with ids st show "x = y" by (auto dest: inj_onD)
  qed
  then have inj: "inj_on row_key (set (map bx_row bs))" unfolding mset_eq_setD [OF rows] .
  show ?thesis
    by (rule sort_key_inj_key_eq [OF _ inj]) (simp_all only: mset_sort rows sorted_sort_key)
qed

lemma finished_labels_published:
  assumes finished: "list_all2 (\<lambda>t b. block_finished io location materialize t b files) ts bs"
    and same: "set ts = set live"
  shows "schemas_right io materialize live (metric_schemas (fold (\<lambda>b m. merge_metric_labels m (bx_metric_labels b)) bs []))"
proof (rule metric_schemas_right)
  have "\<forall>b \<in> set bs. ml_ok (bx_metric_labels b)"
  proof
    fix b assume "b \<in> set bs"
    then obtain t where "block_finished io location materialize t b files"
      using finished by (auto simp: in_set_conv_nth list_all2_conv_all_nth)
    then show "ml_ok (bx_metric_labels b)" by (rule finished_row(4))
  qed
  note merged = merges_spec [OF this]
  then show "ml_ok (fold (\<lambda>b m. merge_metric_labels m (bx_metric_labels b)) bs [])" by simp
  show "ml_set (fold (\<lambda>b m. merge_metric_labels m (bx_metric_labels b)) bs [])
    = (\<lambda>name. if materialize then published_columns io live name else None)"
  proof
    fix name
    have "list_all2 (\<lambda>t b. ml_set (bx_metric_labels b) name = (if materialize then block_columns_of io name t else None)) ts bs"
      using finished by (rule list_all2_mono) (rule finished_row(5))
    then have eq: "List.map_filter (\<lambda>b. ml_set (bx_metric_labels b) name) bs
      = List.map_filter (\<lambda>t. if materialize then block_columns_of io name t else None) ts"
      by (rule map_filter_list_all2)
    have "ml_set (fold (\<lambda>b m. merge_metric_labels m (bx_metric_labels b)) bs []) name
      = union_of (List.map_filter (\<lambda>t. if materialize then block_columns_of io name t else None) ts)"
      using merged merged_union [of "bx_metric_labels" bs name] eq by simp
    also have "\<dots> = union_of (List.map_filter (\<lambda>t. if materialize then block_columns_of io name t else None) live)"
      by (rule union_of_set) (simp add: set_map_filter same)
    also have "\<dots> = (if materialize then published_columns io live name else None)"
      by (simp add: published_columns_def block_columns_of_def union_of_def map_filter_def)
    finally show "ml_set (fold (\<lambda>b m. merge_metric_labels m (bx_metric_labels b)) bs []) name
      = (if materialize then published_columns io live name else None)" .
  qed
qed

text \<open>What is published over finished blocks.\<close>

lemma published_over_finished:
  assumes run: "publish io location active bs w3 = (Inr schemas, w')"
    and finished: "list_all2 (\<lambda>t b. block_finished io location materialize t b (wd_files w3)) ts bs"
    and ts: "mset ts = mset live" and active: "set active = task_ulid ` set live"
    and usable: "blocks_ok blocks" "plain_location location" "set live \<subseteq> blocks"
  shows "wd_files w' (block_index_file_path location) = Some (io_parquet io block_schema
      [batch_of block_schema (block_columns (sort_key row_key (map (row_of io) live))) (length live)])"
    and "schemas_right io materialize live schemas"
    and "task \<in> set live \<Longrightarrow> \<exists>built. block_finished io location materialize task built (wd_files w')"
proof -
  note pub = publish_spec [OF run usable(2)]
  have len: "length bs = length live"
    using list_all2_lengthD [OF finished] mset_eq_length [OF ts] by simp
  have ids: "inj_on task_ulid (set live)"
    using usable(1,3) by (auto simp: blocks_ok_def intro: inj_on_subset)
  have rows: "sort_key row_key (map bx_row bs) = sort_key row_key (map (row_of io) live)"
    by (rule finished_rows_published [OF finished ts ids])
  show "\<exists>b. block_finished io location materialize task b (wd_files w')" if "task \<in> set live"
  proof -
    from that have task: "task \<in> set ts" "task \<in> blocks" using mset_eq_setD [OF ts] usable(3) by auto
    then obtain b where b: "block_finished io location materialize task b (wd_files w3)"
      using finished by (auto simp: in_set_conv_nth list_all2_conv_all_nth)
    have ulid: "plain_ulid (task_ulid task)" using usable(1) task(2) by (simp add: blocks_ok_def)
    have "task_ulid task \<in> set active" using that active by simp
    then have "wd_files w' p = wd_files w3 p" if "p \<in> table_paths location (task_ulid task)" for p
      using pub(2) [OF block_index_apart [OF ulid that]] table_path_stem [OF ulid that] by simp
    with b show ?thesis by (blast intro: finished_same_tables)
  qed
  show "schemas_right io materialize live schemas"
    using pub(3) [OF refl] finished_labels_published [OF finished mset_eq_setD [OF ts]] by simp
  show "wd_files w' (block_index_file_path location) = Some (io_parquet io block_schema
    [batch_of block_schema (block_columns (sort_key row_key (map (row_of io) live))) (length live)])"
    using pub(3) [OF refl] rows len by simp
qed

text \<open>A successful build gets to the publication with every live block finished.\<close>

lemma build_reaches_publish:
  assumes run: "build_block_index io repository_for meta_schedule schedule repositories location materialize None w
      = Some (Inr schemas, w')"
    and truthful: "cache_truthful io location blocks w"
    and usable: "blocks_ok blocks" "plain_location location" "manifest_json_ok io"
    and known: "known_blocks io repository_for repositories \<subseteq> blocks"
    and orders: "\<And>xs. mset (meta_schedule xs) = mset xs" "\<And>ts. mset (schedule ts) = mset ts"
    and listed: "discover io repository_for repositories = Inr mts" "distinct mts"
  defines "live \<equiv> List.map_filter (live_block io) mts"
  obtains ts bs w3 active where "publish io location active bs w3 = (Inr schemas, w')"
    "list_all2 (\<lambda>t b. block_finished io location materialize t b (wd_files w3)) ts bs"
    "mset ts = mset live" "set active = task_ulid ` set live" "set live \<subseteq> blocks"
  using run
proof (cases rule: build_block_index_cases)
  case (built mts' results w1 w2 u bs w3)
  have mts': "mts' = mts" using built(1) listed(1) by simp
  let ?ts = "schedule (build_tasks (meta_schedule results))"
  have "list_all2 (\<lambda>mt x. built_task x = live_block io mt) mts results"
    using reads_spec [OF built(2)] mts' by simp
  then have "build_tasks results = live"
    unfolding live_def build_tasks_built by (rule map_filter_list_all2)
  moreover have "mset (build_tasks (meta_schedule results)) = mset (build_tasks results)"
    unfolding build_tasks_built by (rule mset_map_filter) (rule orders)
  ultimately have active: "mset (build_tasks (meta_schedule results)) = mset live" by simp
  then have ts: "mset ?ts = mset live" using orders(2) by simp
  have live_known: "set live \<subseteq> blocks"
    using known listed(1) by (auto simp: live_def set_map_filter known_blocks_def)
  have "distinct live" unfolding live_def by (rule live_distinct [OF listed(2)])
  then have dist: "distinct ?ts" using mset_eq_imp_distinct_iff [OF ts] by simp
  have sub: "set ?ts \<subseteq> blocks" using live_known mset_eq_setD [OF ts] by simp
  have all: "usable_blocks io location blocks = blocks" using usable by (auto simp: usable_blocks_def)
  from reads_spec [OF built(2)] truthful have "cache_truthful io location blocks w1" by (simp add: cache_truthful_def)
  then have "cache_truthful io location blocks w2"
    by (rule truthful_shrinks) (rule remove_chunk_shrinks [OF built(3)])
  then have finished: "list_all2 (\<lambda>t b. block_finished io location materialize t b (wd_files w3)) ?ts bs"
    using builder.run_all_finished [OF built(4), where blocks = blocks] sub dist unfolding all cache_truthful_def by blast
  have "set (bs_of_list (map (\<lambda>t. me_ulid (bb_meta t)) (build_tasks (meta_schedule results)))) = task_ulid ` set live"
    using mset_eq_setD [OF active] by (auto simp: bs_of_list_spec task_ulid_def)
  with that [OF built(5) [simplified] finished ts] live_known show thesis by blast
qed simp_all

lemma build_publishes:
  assumes run: "build_block_index io repository_for meta_schedule schedule repositories location materialize None w
      = Some (Inr schemas, w')"
    and truthful: "cache_truthful io location blocks w"
    and usable: "blocks_ok blocks" "plain_location location" "manifest_json_ok io"
    and known: "known_blocks io repository_for repositories \<subseteq> blocks"
    and orders: "\<And>xs. mset (meta_schedule xs) = mset xs" "\<And>ts. mset (schedule ts) = mset ts"
    and listed: "discover io repository_for repositories = Inr mts" "distinct mts"
  defines "live \<equiv> List.map_filter (live_block io) mts"
  shows "wd_files w' (block_index_file_path location) = Some (io_parquet io block_schema
      [batch_of block_schema (block_columns (sort_key row_key (map (row_of io) live))) (length live)])"
    and "schemas_right io materialize live schemas"
    and "task \<in> set live \<Longrightarrow> \<exists>built. block_finished io location materialize task built (wd_files w')"
proof -
  obtain ts bs w3 active where
    published: "publish io location active bs w3 = (Inr schemas, w')"
      "list_all2 (\<lambda>t b. block_finished io location materialize t b (wd_files w3)) ts bs"
      "mset ts = mset live" "set active = task_ulid ` set live" and sub: "set live \<subseteq> blocks"
    by (rule build_reaches_publish [OF assms(1-10), folded live_def])
  note pub = published_over_finished [OF published usable(1,2) sub]
  then show "wd_files w' (block_index_file_path location) = Some (io_parquet io block_schema
      [batch_of block_schema (block_columns (sort_key row_key (map (row_of io) live))) (length live)])"
    and "schemas_right io materialize live schemas"
    and "task \<in> set live \<Longrightarrow> \<exists>built. block_finished io location materialize task built (wd_files w')"
    by blast+
qed

end
