(* ===== verification/Block_Example.thy ===== *)
theory Block_Example
  imports Block_Publish_Facts Tsdb_Index_Props Storage_Props
begin

text \<open>
  A small repository for the witnesses of the block index: one block \<open>U\<close> at path \<open>b\<close> whose index is the one
  of \<open>Tsdb_Index_Props\<close> with a single series of the metric \<open>m\<close>, to which the block adds the label a=b, JSON
  functions that know just its values, a Parquet function that writes the row counts of its batches, and no
  failing calls.
\<close>

definition demo_meta :: block_meta where
  "demo_meta = \<lparr>me_ulid = ''U'', me_min_time = 1, me_max_time = 4, me_version = 1,
     me_stats = \<lparr>bs_num_samples = 2, bs_num_float_samples = 2, bs_num_histogram_samples = 0, bs_num_series = 1,
       bs_num_chunks = 1\<rparr>,
     me_compaction = \<lparr>cp_level = 1, cp_sources = [''U'']\<rparr>,
     me_thanos = \<lparr>tm_labels = [(''a'', ''b'')], tm_resolution = 0, tm_source = ''receive'', tm_files = [],
       tm_series_max_size = None, tm_upload_time = None\<rparr>\<rparr>"

text \<open>The label maps as JSON.\<close>

definition quoted :: "string \<Rightarrow> string" where
  "quoted s = [CHR 0x22] @ s @ [CHR 0x22]"

definition demo_block_text :: string where
  "demo_block_text = [CHR 0x7B] @ quoted ''a'' @ '':'' @ quoted ''b'' @ [CHR 0x7D]"

definition demo_series_text :: string where
  "demo_series_text = [CHR 0x7B] @ quoted ''__name__'' @ '':'' @ quoted ''m'' @ '','' @ quoted ''a'' @ '':'' @ quoted ''b'' @ [CHR 0x7D]"

lemma demo_texts_differ [simp]: "demo_block_text \<noteq> demo_series_text" "demo_series_text \<noteq> demo_block_text"
  by (simp_all add: demo_block_text_def demo_series_text_def quoted_def)

definition demo_labels_from_json :: "string \<Rightarrow> string + labels" where
  "demo_labels_from_json t =
     (if t = demo_series_text then Inr [(''__name__'', ''m''), (''a'', ''b'')]
      else if t = demo_block_text then Inr [(''a'', ''b'')] else Inl ''syntax'')"

lemma demo_labels_read [simp]:
  "demo_labels_from_json demo_series_text = Inr [(''__name__'', ''m''), (''a'', ''b'')]"
  "demo_labels_from_json demo_block_text = Inr [(''a'', ''b'')]"
  by (simp_all add: demo_labels_from_json_def)

definition demo_index_codec :: index_codec where
  "demo_index_codec = \<lparr>
     ix_meta_from_json = (\<lambda>bs. if bs = [1] then Inr demo_meta else Inl ''syntax''),
     ix_labels_json = (\<lambda>labels. if labels = [(''a'', ''b'')] then Inr demo_block_text
       else if labels = [(''__name__'', ''m''), (''a'', ''b'')] then Inr demo_series_text
       else Inl ''unknown''),
     ix_files_json = (\<lambda>_. Inr ''[]''),
     ix_locations_json = (\<lambda>locations. if locations = map (chunk_location_of ''b'') (is_chunks one_series) then Inr ''c'' else Inl ''unknown'')\<rparr>"

definition demo_repository_config :: repository_config where
  "demo_repository_config = \<lparr>rc_name = ''r'', rc_uri = ''file:///r'', rc_s3 = None, rc_gcs = None\<rparr>"

definition demo_block_storage :: repository where
  "demo_block_storage = \<lparr>rp_name = ''r'',
     rp_operator = \<lparr>op_service = FsService ''/r'', op_max_times = 3, op_timeout = 30, op_concurrent = 64\<rparr>,
     rp_cache = None, rp_bulk_chunk_size = 8 * 1024 ^ 2, rp_bulk_concurrency = 4\<rparr>"

definition demo_meta_task :: meta_read_task where
  "demo_meta_task = \<lparr>mk_repository = demo_repository_config, mk_storage = demo_block_storage,
     mk_block_path = ''b'', mk_meta_path = ''b/meta.json''\<rparr>"

definition demo_task :: block_build_task where
  "demo_task = \<lparr>bb_repository = demo_repository_config, bb_storage = demo_block_storage, bb_meta = demo_meta,
     bb_block_path = ''b'', bb_meta_path = ''b/meta.json''\<rparr>"

definition demo_row :: block_index_row where
  "demo_row =
     (case index_row demo_index_codec demo_repository_config demo_meta ''b'' ''b/meta.json'' of Inr row \<Rightarrow> row)"

definition demo_labels :: "bool \<Rightarrow> metric_labels" where
  "demo_labels materialize = (if materialize then [(''m'', [''a''])] else [])"

definition demo_cached :: "bool \<Rightarrow> cached_block_index" where
  "demo_cached materialize = cached_of demo_row materialize 1 1 (demo_labels materialize)"

definition demo_series_row :: series_index_row where
  "demo_series_row = \<lparr>sr_repository_uri = ''file:///r'', sr_downsample_resolution = 0, sr_series_mint = 1,
     sr_series_maxt = 4, sr_labels_json = demo_series_text, sr_chunks_json = ''c''\<rparr>"

text \<open>The bytes of a table: the row counts of its batches, with a mark on a table of series that are not the demo's.\<close>

definition demo_parquet :: parquet where
  "demo_parquet schema batches =
     (if schema = series_schema \<and> batches \<noteq> [series_batch [demo_series_row]] then [2] else [])
     @ map (\<lambda>b. word_of_nat (ba_num_rows b)) batches"

lemma schemas_differ [simp]: "block_schema \<noteq> series_schema"
  by (simp add: block_schema_def series_schema_def plain_field_def)

text \<open>The directory of the series tables, in which a block \<open>V\<close> may have left one.\<close>

definition demo_read_dir :: "string \<Rightarrow> world \<Rightarrow> (string \<times> bool) list" where
  "demo_read_dir directory w =
     (if directory = ''d/series''
      then map (\<lambda>p. (p, True)) (filter (\<lambda>p. wd_files w p \<noteq> None) [''d/series/U.parquet'', ''d/series/V.parquet''])
      else [])"

definition demo_block_env :: env where
  "demo_block_env = \<lparr>
     ev_objects = (\<lambda>r p. if r = ''r'' \<and> p = ''b/meta.json'' then Some [1]
       else if r = ''r'' \<and> p = ''b/index'' then Some one_series_index else None),
     ev_fault = (\<lambda>_. None), ev_beyond = (\<lambda>_ _ _. Inl ''beyond''), ev_sha256 = pad32, ev_pid = 1\<rparr>"

definition demo_io :: index_outside where
  "demo_io = \<lparr>io_env = demo_block_env, io_crc = zero_crc,
     io_parquet = demo_parquet,
     io_codec = demo_index_codec,
     io_manifest_json = (\<lambda>c. if c = demo_cached False then Inr [7] else if c = demo_cached True then Inr [8] else Inl ''unknown''),
     io_manifest_from_json = (\<lambda>bs. if bs = [7] then Inr (demo_cached False) else if bs = [8] then Inr (demo_cached True) else Inl ''syntax''),
     io_list = (\<lambda>_. Inr [''b/index'', ''b/meta.json'']), io_now = (\<lambda>_. Inr 0),
     io_dir_exists = (\<lambda>_ _. True), io_read_dir = demo_read_dir\<rparr>"

definition demo_repository_for :: "string \<Rightarrow> repository option" where
  "demo_repository_for uri = (if uri = ''file:///r'' then Some demo_block_storage else None)"

lemma demo_healthy: "\<not> may_fail demo_block_env"
  by (simp add: may_fail_def demo_block_env_def)

lemma demo_manifest_json: "manifest_json_ok demo_io"
  by (simp add: manifest_json_ok_def demo_io_def split: if_splits)

lemma demo_location: "plain_location ''d''"
  by (simp add: plain_location_def local_path_def starts_with_def strip_prefix_def)

lemma demo_ulid: "plain_ulid ''U''"
  by (simp add: plain_ulid_def)

lemma demo_discover: "discover demo_io demo_repository_for [demo_repository_config] = Inr [demo_meta_task]"
  by (simp add: discover_def list_metas_def demo_repository_for_def demo_repository_config_def demo_io_def meta_task_def
      demo_meta_task_def ends_with_def strip_suffix_def strip_prefix_def map_filter_def)

lemma demo_live: "live_block demo_io demo_meta_task = Some demo_task"
  by (simp add: live_block_def demo_io_def demo_meta_task_def demo_task_def demo_block_env_def demo_block_storage_def
      deletion_mark_path_def DELETION_MARK_FILE_NAME_def demo_index_codec_def)

lemma demo_known: "known_blocks demo_io demo_repository_for [demo_repository_config] = {demo_task}"
  by (auto simp: known_blocks_def demo_discover demo_live)

lemma demo_blocks_ok: "blocks_ok {demo_task}"
  by (simp add: blocks_ok_def demo_task_def demo_meta_def task_ulid_def plain_ulid_def)

lemma demo_truthful: "cache_truthful demo_io ''d'' {demo_task} demo_world"
  by (rule empty_cache_truthful) (simp add: demo_world_def)

lemma demo_index_row:
  "index_row demo_index_codec demo_repository_config demo_meta ''b'' ''b/meta.json'' = Inr demo_row"
  by (simp add: demo_row_def index_row_def demo_index_codec_def demo_meta_def)

lemma demo_external: "with_external_labels demo_meta [(''__name__'', ''m'')] = [(''__name__'', ''m''), (''a'', ''b'')]"
  by (simp add: with_external_labels_def demo_meta_def bt_or_insert_def bt_get_def)

lemma demo_series_row_of:
  "series_row demo_index_codec ''file:///r'' demo_meta ''b'' one_series = Inr demo_series_row"
  by (simp add: series_row_def first_mint_def last_maxt_def one_series_def demo_external demo_index_codec_def demo_series_row_def)
     (simp add: demo_meta_def)

text \<open>The tables of the block are written.\<close>

lemma demo_collected: "collect_metric_labels (tm_labels (me_thanos demo_meta)) [one_series] [] = demo_labels True"
  by (simp add: collect_metric_labels_def demo_meta_def one_series_def demo_labels_def extend_entry_def
      insort_insert_key_def bt_get_def bt_keys_def)

lemmas demo_path_eval = has_file_name_def file_name_def local_path_def strip_prefix_def join_path_def path_join_def
  starts_with_def parent_path_def

lemma demo_paths:
  "series_index_file_path ''d'' ''U'' = ''d/series/U.parquet''" "chunk_index_file_path ''d'' ''U'' = ''d/indexes/U.parquet''"
  "block_manifest_file_path ''d'' ''U'' = ''d/manifests/U.json''" "block_index_file_path ''d'' = ''d/block_index.parquet''"
  by (simp_all add: series_index_file_path_def chunk_index_file_path_def block_manifest_file_path_def block_index_file_path_def
      demo_path_eval)

lemma demo_total: "chunk_total [one_series] = 1"
  by (simp add: chunk_total_def one_series_def)

lemma demo_written:
  "\<exists>w'. write_series_index_streaming demo_block_env zero_crc parquet demo_index_codec ''file:///r'' demo_meta ''b''
    one_series_index ''d/series/U.parquet'' w = Some (Inr (1, 1), w')"
  using series_writer_complete [OF demo_healthy _ one_series_parse, of "''d/series/U.parquet''" demo_index_codec "''file:///r''"
      demo_meta "''b''" parquet w]
  by (simp add: demo_series_row_of demo_path_eval demo_total)

lemma demo_both_rows: "both_rows_exist demo_index_codec demo_repository_config demo_meta ''b'' one_series"
proof -
  have "rc_uri demo_repository_config = ''file:///r''" by (simp add: demo_repository_config_def)
  then show ?thesis
    by (simp add: both_rows_exist_def demo_series_row_of) (simp add: one_series_def bt_get_def)
qed

lemma demo_both_written:
  "\<exists>w'. write_chunk_and_series_index_streaming demo_block_env zero_crc parquet demo_index_codec demo_repository_config
    demo_meta ''b'' one_series_index ''d/indexes/U.parquet'' ''d/series/U.parquet'' w = Some (Inr (1, 1, demo_labels True), w')"
proof -
  have apart: "paths_apart (local_path ''d/indexes/U.parquet'') (local_path ''d/series/U.parquet'')"
    by (simp add: paths_apart_def demo_path_eval partial_path_def)
  from both_writer_complete [OF demo_healthy _ _ apart one_series_parse, where codec = demo_index_codec and
      repository = demo_repository_config and meta = demo_meta and block_path = "''b''" and parquet = parquet and w = w]
    demo_both_rows
  show ?thesis by (simp add: demo_total demo_collected) (simp add: demo_path_eval)
qed

section \<open>A run of the build\<close>

definition demo_built :: "bool \<Rightarrow> built_block_index" where
  "demo_built materialize = built_of demo_task ''d'' (demo_cached materialize)"

lemma demo_env_of [simp]: "io_env demo_io = demo_block_env" "io_codec demo_io = demo_index_codec" "io_crc demo_io = zero_crc"
    "io_parquet demo_io = demo_parquet"
  by (simp_all add: demo_io_def)

lemma demo_outside: "outside demo_block_env call w = call (w\<lparr>wd_clock := wd_clock w + 1\<rparr>)"
  by (rule outside_healthy [OF demo_healthy])

lemma demo_reads: "\<exists>w'. read_block_meta demo_io None demo_meta_task w = (Inr (Build demo_task), w') \<and> wd_files w' = wd_files w"
proof -
  have objects: "ev_objects demo_block_env (rp_name demo_block_storage) ''b/meta.json'' = Some [1]"
    "ev_objects demo_block_env (rp_name demo_block_storage) ''b/deletion-mark.json'' = None"
    by (simp_all add: demo_block_env_def demo_block_storage_def)
  have parsed: "ix_meta_from_json demo_index_codec [1] = Inr demo_meta" by (simp add: demo_index_codec_def)
  have paths: "mk_storage demo_meta_task = demo_block_storage" "mk_block_path demo_meta_task = ''b''"
    "mk_meta_path demo_meta_task = ''b/meta.json''" "mk_repository demo_meta_task = demo_repository_config"
    by (simp_all add: demo_meta_task_def)
  show ?thesis
    by (simp add: read_block_meta_def block_has_deletion_mark_def operator_exists_def repository_read_found_def
        DELETION_MARK_FILE_NAME_def doW_def demo_outside retW_def paths objects parsed block_is_older_than_def demo_task_def)
qed

lemma demo_listing: "listing_ok demo_io d w (demo_read_dir d w)"
  by (auto simp: listing_ok_def demo_io_def demo_read_dir_def)

lemma demo_cleans: "\<exists>w'. cleanup_index_files demo_io d active w = (Inr (), w')"
  using clean_directory_healthy [where io = demo_io, OF _ demo_listing, of "stale_index_file active" d w]
  by (auto simp: demo_healthy cleanup_index_files_def stale_index_file_def)

lemma demo_no_chunk_tables: "\<exists>w'. remove_chunk_index_files demo_io ''d'' w = (Inr (), w') \<and> wd_files w' = wd_files w"
proof -
  have "demo_read_dir (chunk_index_directory_path ''d'') v = []" for v
    by (simp add: demo_read_dir_def chunk_index_directory_path_def join_path_def path_join_def starts_with_def strip_prefix_def
        local_path_def)
  then show ?thesis
    by (simp add: remove_chunk_index_files_def clean_directory_def demo_outside doW_def retW_def) (simp add: demo_io_def retW_def)
qed

lemma demo_of_task:
  "bb_repository demo_task = demo_repository_config" "rc_uri demo_repository_config = ''file:///r''"
  "bb_meta demo_task = demo_meta" "bb_block_path demo_task = ''b''" "bb_meta_path demo_task = ''b/meta.json''"
  "me_ulid demo_meta = ''U''"
  by (simp_all add: demo_task_def demo_repository_config_def demo_meta_def)

lemma demo_indexed: "indexed_series demo_io demo_task = Some [one_series]"
proof -
  have "ev_objects demo_block_env (rp_name (bb_storage demo_task)) ''b/index'' = Some one_series_index"
    by (simp add: demo_block_env_def demo_task_def demo_block_storage_def)
  then show ?thesis by (simp add: indexed_series_def demo_of_task one_series_parse)
qed

lemma demo_block_written:
  "\<exists>w'. write_block demo_io demo_task ''d'' materialize one_series_index w = Some (Inr (1, 1, demo_labels materialize), w')"
  using demo_written [of demo_parquet w] demo_both_written [of demo_parquet w]
  by (cases materialize)
     (auto simp: write_block_def demo_of_task demo_paths Let_def demo_labels_def [of False])

lemma demo_manifest: "io_manifest_json demo_io (demo_cached materialize) = Inr (if materialize then [8] else [7])"
  by (cases materialize) (simp_all add: demo_io_def demo_cached_def cached_of_def)

lemma demo_builds: "\<exists>w'. build_chunk_index demo_io demo_task ''d'' materialize w = Some (Inr (demo_built materialize), w')"
proof -
  let ?w1 = "w\<lparr>wd_clock := wd_clock w + 1\<rparr>" and ?counts = "(1, 1, demo_labels materialize)"
  have read: "repository_read demo_block_env (bb_storage demo_task) (bb_block_path demo_task @ ''/index'') w = (Inr one_series_index, ?w1)"
    by (simp add: repository_read_def operator_read_all_def demo_outside demo_task_def demo_block_storage_def) (simp add: demo_block_env_def retW_def)
  obtain w2 where written: "write_block demo_io demo_task ''d'' materialize one_series_index ?w1 = Some (Inr ?counts, w2)"
    using demo_block_written by blast
  have manifest: "\<exists>w3. write_block_manifest demo_io ''d'' ''U'' (demo_cached materialize) w2 = (Inr (), w3)"
    by (simp add: write_block_manifest_def demo_paths demo_manifest demo_path_eval demo_outside fs_create_dir_all_def fs_write_def
        fs_rename_def doW_def retW_def Let_def)
  obtain w3 where fin: "finish_block demo_io demo_task ''d'' materialize ?counts w2 = (Inr (demo_built materialize), w3)"
    using manifest
    by (auto simp: finish_block_def demo_of_task demo_index_row demo_cached_def demo_built_def doW_def retW_def Let_def)
  have unnamed: "build_chunk_index demo_io demo_task ''d'' materialize w
    = Some (map_prod (worker_result (bb_block_path demo_task @ ''/index'')) id (finish_block demo_io demo_task ''d'' materialize ?counts w2))"
    unfolding build_chunk_index_def Let_def demo_env_of read prod.case sum.case written by simp
  show ?thesis unfolding unnamed fin by (simp add: worker_result_def)
qed

definition demo_schemas :: "bool \<Rightarrow> metric_table_schema list" where
  "demo_schemas materialize = (if materialize then [\<lparr>mt_name = ''m'', mt_label_columns = [''a'']\<rparr>] else [])"

lemma demo_publishes: "\<exists>w'. publish demo_io ''d'' active [demo_built materialize] w = (Inr (demo_schemas materialize), w')"
proof -
  obtain w1 where c1: "cleanup_series_index_files demo_io ''d'' active w = (Inr (), w1)"
    using demo_cleans unfolding cleanup_series_index_files_def by blast
  obtain w2 where c2: "cleanup_block_manifest_files demo_io ''d'' active w1 = (Inr (), w2)"
    using demo_cleans unfolding cleanup_block_manifest_files_def by blast
  have labels: "fold (\<lambda>b m. merge_metric_labels m (bx_metric_labels b)) [demo_built materialize] [] = demo_labels materialize"
    by (simp add: demo_built_def built_of_def demo_cached_def cached_of_def merge_metric_labels_def demo_labels_def
        extend_entry_def insort_insert_key_def bt_get_def)
  have "\<exists>w3. write_local_file demo_block_env (block_index_file_path ''d'') bs w2 = (Inr (), w3)" for bs
    by (simp add: write_local_file_def demo_paths demo_path_eval demo_outside fs_create_dir_all_def fs_write_def doW_def retW_def
        Let_def)
  then obtain w3 where w3: "write_local_file demo_block_env (block_index_file_path ''d'')
      (demo_parquet block_schema [batch_of block_schema (block_columns [bx_row (demo_built materialize)]) 1]) w2 = (Inr (), w3)" by blast
  then show ?thesis
    unfolding publish_def Let_def labels
    by (simp add: doW_def c1 c2 block_parquet_bytes_def block_record_batch_ok metric_schemas_def retW_def demo_labels_def
        demo_schemas_def)
qed

lemma demo_run_from:
  assumes "wd_files w ''d/series/U.parquet'' = None"
  shows "\<exists>w'. build_block_index demo_io demo_repository_for id id [demo_repository_config] ''d'' materialize None w
    = Some (Inr (demo_schemas materialize), w')"
proof -
  obtain w1 where w1: "read_block_meta demo_io None demo_meta_task w = (Inr (Build demo_task), w1)"
    "wd_files w1 = wd_files w" using demo_reads by blast
  obtain w2 where w2: "(if materialize then (Inr (), w1) else remove_chunk_index_files demo_io ''d'' w1) = (Inr (), w2)"
      "wd_files w2 = wd_files w1"
    using demo_no_chunk_tables [of w1] by (cases materialize) auto
  have load: "load_cached_block_index demo_io demo_task ''d'' materialize w2 = (Inr None, w2)"
    using w1(2) w2(2) assms by (simp add: load_cached_block_index_def is_file_def demo_of_task demo_paths)
  obtain w3 where w3: "build_chunk_index demo_io demo_task ''d'' materialize w2 = Some (Inr (demo_built materialize), w3)"
    using demo_builds by blast
  have work: "build_or_reuse demo_io ''d'' materialize demo_task w2 = Some (Inr (demo_built materialize), w3)"
    using load w3 by (simp add: build_or_reuse_def)
  show ?thesis
    using demo_publishes [of _ materialize w3]
    by (simp add: build_block_index_def demo_discover w1(1) build_tasks_def map_filter_simps Let_def w2(1) work)
qed

lemma demo_run:
  "\<exists>w'. build_block_index demo_io demo_repository_for id id [demo_repository_config] ''d'' materialize None demo_world
    = Some (Inr (demo_schemas materialize), w')"
  by (rule demo_run_from) (simp add: demo_world_def)

end
