(* ===== verification/Block_Index_Props.thy ===== *)
theory Block_Index_Props
  imports Block_Example
begin

text \<open>
  The properties of the block index: the batches it writes, where its chunks are, the streaming writers and
  their failures, discovery, the clean-up, the reuse of finished blocks, and what a whole build publishes.
\<close>

section \<open>Rows and batches\<close>

definition fits_schema :: "field list \<Rightarrow> column list \<Rightarrow> nat \<Rightarrow> bool" where
  "fits_schema schema columns n \<longleftrightarrow>
     list_all2 (\<lambda>f c. column_type c = fd_type f \<and> (column_nulls c \<longrightarrow> fd_nullable f) \<and> column_length c = n) schema columns"

text \<open>
  C40: whatever the rows, the columns built from them have the types, the nullability and the common
  length their schema asks for, so building the record batch of blocks, of chunks and of series never fails.
\<close>

theorem index_batches_fit_schemas:
  "fits_schema block_schema (block_columns block_rows) (length block_rows)
   \<and> block_record_batch block_rows = Inr (batch_of block_schema (block_columns block_rows) (length block_rows))
   \<and> fits_schema chunk_schema (chunk_columns chunk_rows) (length chunk_rows)
   \<and> chunk_record_batch chunk_rows = Inr (batch_of chunk_schema (chunk_columns chunk_rows) (length chunk_rows))
   \<and> fits_schema series_schema (series_columns series_rows) (length series_rows)
   \<and> series_record_batch series_rows = Inr (batch_of series_schema (series_columns series_rows) (length series_rows))"
proof (intro conjI)
  show "fits_schema block_schema (block_columns block_rows) (length block_rows)"
    by (simp add: fits_schema_def block_schema_def block_columns_def plain_field_def)
  show "fits_schema chunk_schema (chunk_columns chunk_rows) (length chunk_rows)"
    by (simp add: fits_schema_def chunk_schema_def chunk_columns_def plain_field_def)
  show "fits_schema series_schema (series_columns series_rows) (length series_rows)"
    by (simp add: fits_schema_def series_schema_def series_columns_def plain_field_def)
qed (rule block_record_batch_ok chunk_record_batch_ok series_record_batch_ok)+

text \<open>
  C39: the file and the offset written for a chunk determine its reference, also when the file number wraps
  around, and the offset fits 32 bits.
\<close>

theorem chunk_place_is_the_reference:
  "(chunk_file_path block_path r = chunk_file_path block_path r' \<and> chunk_file_offset r = chunk_file_offset r') = (r = r')
   \<and> unat (chunk_file_offset r) < 2 ^ 32"
  using chunk_place_reference [of block_path r r'] chunk_file_offset_bound [of r] by auto

text \<open>
  C10: the batches of a block's series table, read by the StoreAPI service, are the series of the TSDB
  index in order, with the block's external labels added and every chunk with its file, offset and times.
\<close>

theorem indexed_series_are_searchable:
  assumes "json_agrees codec labels_from_json chunks_from_json"
    and "list_all2 (\<lambda>e row. series_row codec uri meta block_path e = Inr row) es (concat groups)"
  shows "\<exists>found. mapR (series_from_batch labels_from_json chunks_from_json) (map series_batch groups) = Inr found
    \<and> concat found = map (descriptor_of uri meta block_path) es"
  by (rule series_tables_read_back [OF assms])

theorem indexed_series_are_searchable_witness:
  "\<exists>found. mapR (series_from_batch demo_labels_from_json
      (\<lambda>t. Inr (map (location_read o chunk_location_of ''b'') (is_chunks one_series))))
      [series_batch [demo_series_row]] = Inr found
    \<and> concat found = [descriptor_of ''file:///r'' demo_meta ''b'' one_series]"
proof -
  have "json_agrees demo_index_codec demo_labels_from_json
      (\<lambda>t. Inr (map (location_read o chunk_location_of ''b'') (is_chunks one_series)))"
    by (auto simp: json_agrees_def demo_index_codec_def demo_labels_from_json_def split: if_splits)
  from indexed_series_are_searchable [OF this, of "''file:///r''" demo_meta "''b''" "[one_series]" "[[demo_series_row]]"]
  show ?thesis by (simp add: demo_series_row_of)
qed

section \<open>The writer of the series table\<close>

text \<open>
  C9: whatever calls fail, the series table of a block is either replaced by a complete one, with one row
  per series of the index in order, in non-empty batches of at most \<open>INDEX_BATCH_SIZE\<close> rows, or left as it
  was; no file but the table and its temporary file is touched.
\<close>

theorem series_table_complete_or_untouched:
  assumes "write_series_index_streaming env crc parquet codec uri meta block_path index location w = Some (r, w')"
  shows "(\<forall>p. p \<noteq> partial_path (local_path location) \<and> (p \<noteq> local_path location \<or> (\<exists>e. r = Inl e))
      \<longrightarrow> wd_files w' p = wd_files w p)
    \<and> (\<forall>n m. r = Inr (n, m) \<longrightarrow> (\<exists>es groups. parse crc index = Some (Inr es) \<and> n = length es \<and> m = chunk_total es
      \<and> list_all2 (\<lambda>e row. series_row codec uri meta block_path e = Inr row) es (concat groups) \<and> groups_ok groups
      \<and> wd_files w' (partial_path (local_path location)) = None
      \<and> wd_files w' (local_path location) = Some (parquet series_schema (map series_batch groups))))"
  using series_writer_sound [OF assms] by blast

theorem series_table_complete_or_untouched_witness:
  "\<exists>w'. write_series_index_streaming demo_block_env zero_crc demo_parquet
      demo_index_codec ''file:///r'' demo_meta ''b'' one_series_index ''d/series/U.parquet'' demo_world = Some (Inr (1, 1), w')
    \<and> wd_files w' ''d/series/U.parquet'' = Some [1] \<and> wd_files w' ''d/series/U.parquet.partial'' = None"
proof -
  obtain w' where run: "write_series_index_streaming demo_block_env zero_crc demo_parquet
      demo_index_codec ''file:///r'' demo_meta ''b'' one_series_index ''d/series/U.parquet'' demo_world = Some (Inr (1, 1), w')"
    using demo_written by blast
  have path: "local_path ''d/series/U.parquet'' = ''d/series/U.parquet''" by (simp add: local_path_def strip_prefix_def)
  from series_table_complete_or_untouched [OF run] obtain es groups where parsed: "parse zero_crc one_series_index = Some (Inr es)"
    and rows: "list_all2 (\<lambda>e row. series_row demo_index_codec ''file:///r'' demo_meta ''b'' e = Inr row) es (concat groups)"
    and groups: "groups_ok groups" and files: "wd_files w' (partial_path ''d/series/U.parquet'') = None"
      "wd_files w' ''d/series/U.parquet'' = Some (demo_parquet series_schema (map series_batch groups))"
    unfolding path by auto
  from parsed one_series_parse rows have one: "concat groups = [demo_series_row]"
    by (auto simp: list_all2_Cons1 demo_series_row_of)
  then have "groups = [[demo_series_row]]"
    using groups by (cases groups) (auto simp: groups_ok_def append_eq_Cons_conv concat_eq_Nil_conv)
  with run files show ?thesis by (auto simp: partial_path_def batch_of_def demo_parquet_def)
qed

text \<open>
  Without failing calls, and when every series has a row, the series table is written and the counts
  are those of the index; when every series also has a metric name, the writer of both tables writes both,
  with the same counts and the labels of all series.
\<close>

theorem index_tables_are_written:
  assumes "\<not> may_fail env" and "has_file_name (local_path location)" and "parse crc index = Some (Inr es)"
    and "\<forall>e \<in> set es. \<exists>row. series_row codec (rc_uri repository) meta block_path e = Inr row"
  shows "(\<exists>w'. write_series_index_streaming env crc parquet codec (rc_uri repository) meta block_path index location w
      = Some (Inr (length es, chunk_total es), w'))
    \<and> (has_file_name (local_path chunk_location) \<longrightarrow> paths_apart (local_path chunk_location) (local_path location)
      \<longrightarrow> (\<forall>e \<in> set es. bt_get (is_labels e) ''__name__'' \<noteq> None)
      \<longrightarrow> (\<exists>w'. write_chunk_and_series_index_streaming env crc parquet codec repository meta block_path index
            chunk_location location w
          = Some (Inr (length es, chunk_total es,
              fold (\<lambda>e. collect_metric_labels (tm_labels (me_thanos meta)) [e]) es []), w')))"
proof (intro conjI impI)
  show "\<exists>w'. write_series_index_streaming env crc parquet codec (rc_uri repository) meta block_path index location w
      = Some (Inr (length es, chunk_total es), w')" using assms by (rule series_writer_complete)
next
  assume c: "has_file_name (local_path chunk_location)" "paths_apart (local_path chunk_location) (local_path location)"
    and names: "\<forall>e \<in> set es. bt_get (is_labels e) ''__name__'' \<noteq> None"
  show "\<exists>w'. write_chunk_and_series_index_streaming env crc parquet codec repository meta block_path index
            chunk_location location w
          = Some (Inr (length es, chunk_total es,
              fold (\<lambda>e. collect_metric_labels (tm_labels (me_thanos meta)) [e]) es []), w')"
    by (rule both_writer_complete [OF assms(1) c(1) assms(2) c(2) assms(3)]) (use assms(4) names in \<open>simp add: both_rows_exist_def\<close>)
qed

theorem index_tables_are_written_witness:
  "(\<exists>w'. write_series_index_streaming demo_block_env zero_crc demo_parquet demo_index_codec ''file:///r'' demo_meta ''b''
      one_series_index ''d/series/U.parquet'' demo_world = Some (Inr (1, 1), w'))
    \<and> (\<exists>w'. write_chunk_and_series_index_streaming demo_block_env zero_crc demo_parquet demo_index_codec demo_repository_config
      demo_meta ''b'' one_series_index ''d/indexes/U.parquet'' ''d/series/U.parquet'' demo_world
      = Some (Inr (1, 1, [(''m'', [''a''])]), w'))"
proof -
  have paths: "has_file_name (local_path ''d/series/U.parquet'')" "has_file_name (local_path ''d/indexes/U.parquet'')"
    "paths_apart (local_path ''d/indexes/U.parquet'') (local_path ''d/series/U.parquet'')"
    by (simp_all add: paths_apart_def demo_path_eval partial_path_def)
  have rows: "\<forall>e \<in> set [one_series]. \<exists>row. series_row demo_index_codec (rc_uri demo_repository_config) demo_meta ''b'' e = Inr row"
    and names: "\<forall>e \<in> set [one_series]. bt_get (is_labels e) ''__name__'' \<noteq> None"
    using demo_both_rows by (simp_all add: both_rows_exist_def)
  from index_tables_are_written [OF demo_healthy paths(1) one_series_parse rows, of demo_parquet demo_world
      "''d/indexes/U.parquet''"] paths names
  show ?thesis by (simp add: demo_of_task demo_total demo_collected demo_labels_def)
qed

section \<open>Late failures\<close>

lemma fold_visit_small:
  "ss_error s = None \<Longrightarrow> length (tw_rows (ss_table s)) + length es < INDEX_BATCH_SIZE \<Longrightarrow>
    \<forall>e \<in> set es. \<exists>row. series_row codec uri meta path e = Inr row \<Longrightarrow>
    ss_error (fold (visit_series env codec uri meta path) es s) = None
    \<and> ss_world (fold (visit_series env codec uri meta path) es s) = ss_world s
    \<and> length (tw_rows (ss_table (fold (visit_series env codec uri meta path) es s))) = length (tw_rows (ss_table s)) + length es"
proof (induction es arbitrary: s)
  case Nil
  then show ?case by simp
next
  case (Cons e es)
  then obtain row where row: "series_row codec uri meta path e = Inr row" by auto
  let ?s' = "visit_series env codec uri meta path e s"
  have "ss_error ?s' = None" "ss_world ?s' = ss_world s" "length (tw_rows (ss_table ?s')) = length (tw_rows (ss_table s)) + 1"
    using Cons.prems row by (simp_all add: visit_series_def append_series_row_eq Let_def)
  with Cons.IH [of ?s'] Cons.prems show ?case by simp
qed

text \<open>The end of the writer when one of its four calls fails.\<close>

lemma finish_series_late:
  assumes rows: "tw_rows (ss_table s) \<noteq> []" and err: "ss_error s = None"
    and partial: "wd_files (ss_world s) (partial_path path) \<noteq> None"
    and only: "\<And>n. n \<noteq> k \<Longrightarrow> ev_fault env n = None" and fault: "ev_fault env k = Some e"
    and late: "k \<in> {wd_clock (ss_world s)..<wd_clock (ss_world s) + 4}"
  shows "\<exists>w'. finish_series env parquet path (Inr ()) s = (Inl (Err e), w') \<and> wd_files w' (partial_path path) \<noteq> None"
proof -
  let ?c = "wd_clock (ss_world s)"
  obtain old where old: "wd_files (ss_world s) (partial_path path) = Some old" using partial by auto
  have k: "k = ?c \<or> k = Suc ?c \<or> k = Suc (Suc ?c) \<or> k = Suc (Suc (Suc ?c))" using late by auto
  have faults: "ev_fault env n = (if n = k then Some e else None)" for n using only fault by auto
  have flush: "flush_rows env series_record_batch (ss_table s) = (\<lambda>w.
      doW (outside env (retW ())) (\<lambda>_. doW (outside env (retW ())) (\<lambda>_.
        retW \<lparr>tw_rows = [], tw_batches = tw_batches (ss_table s) @ [series_batch (tw_rows (ss_table s))]\<rparr>)) w)"
    using rows by (simp add: flush_rows_def series_batch_ok fun_eq_iff)
  show ?thesis
    using k old unfolding finish_series_def flush
    by (elim disjE; simp add: err faults doW_def outside_def retW_def close_table_def fs_write_def fs_rename_def Let_def)
qed

text \<open>
  C35: when writing the last batch, flushing it, closing the table or renaming it fails, the writer
  returns the error and leaves its temporary file behind; and no clean-up ever removes that file.
\<close>

theorem late_failure_leaks_temporary_file:
  assumes "parse crc index = Some (Inr es)" and "es \<noteq> []" and "length es < INDEX_BATCH_SIZE"
    and "\<forall>e \<in> set es. \<exists>row. series_row codec uri meta block_path e = Inr row"
    and "has_file_name (local_path location)" and "parent_path (local_path location) \<noteq> ''''"
    and "\<And>n. n \<noteq> k \<Longrightarrow> ev_fault env n = None" and "ev_fault env k = Some e"
    and "k \<in> {wd_clock w + 3..<wd_clock w + 7}"
  shows "(\<exists>w'. write_series_index_streaming env crc parquet codec uri meta block_path index location w = Some (Inl (Err e), w')
      \<and> wd_files w' (partial_path (local_path location)) \<noteq> None)
    \<and> \<not> stale_index_file active (partial_path (local_path location)) regular"
proof
  let ?path = "local_path location"
  let ?w1 = "w\<lparr>wd_clock := wd_clock w + 3, wd_files := (wd_files w)(partial_path ?path := Some [])\<rparr>"
  let ?s = "\<lparr>ss_table = new_table, ss_series_count = 0, ss_chunk_count = 0, ss_error = None, ss_world = ?w1\<rparr>"
  let ?f = "fold (visit_series env codec uri meta block_path) es ?s"
  have early: "ev_fault env n = None" if "n < wd_clock w + 3" for n
    using that assms(9) by (intro assms(7)) auto
  have opened: "open_table env ?path w = (Inr (), ?w1)"
    using assms(5,6) early [of "wd_clock w"] early [of "Suc (wd_clock w)"] early [of "Suc (Suc (wd_clock w))"]
    by (simp add: open_table_def doW_def fs_create_dir_all_def fs_write_def outside_def retW_def Let_def numeral_3_eq_3)
  have small: "ss_error ?f = None" "ss_world ?f = ?w1" "length (tw_rows (ss_table ?f)) = length es"
    using fold_visit_small [of ?s es codec uri meta block_path env] assms(3,4) by (simp_all add: new_table_def)
  have rows: "tw_rows (ss_table ?f) \<noteq> []" using small(3) assms(2) by auto
  have partial: "wd_files (ss_world ?f) (partial_path ?path) \<noteq> None" unfolding small(2) by simp
  have clock: "k \<in> {wd_clock (ss_world ?f)..<wd_clock (ss_world ?f) + 4}" unfolding small(2) using assms(9) by simp
  obtain w' where fin: "finish_series env parquet ?path (Inr ()) ?f = (Inl (Err e), w')" "wd_files w' (partial_path ?path) \<noteq> None"
    using finish_series_late [OF rows small(1) partial assms(7,8) clock] by blast
  then show "\<exists>w'. write_series_index_streaming env crc parquet codec uri meta block_path index location w = Some (Inl (Err e), w')
      \<and> wd_files w' (partial_path ?path) \<noteq> None"
    by (simp add: write_series_index_streaming_def opened parse_each_parsed [OF assms(1)])
  have "path_extension (partial_path ?path) \<notin> {Some ''parquet'', Some ''json''}"
  proof -
    have "takeWhile (\<lambda>c. c \<noteq> CHR ''/'') (rev (partial_path ?path)) = rev ''.partial'' @ takeWhile (\<lambda>c. c \<noteq> CHR ''/'') (rev ?path)"
      by (simp add: partial_path_def)
    then have "file_name (partial_path ?path) = file_name ?path @ ''.partial''" by (simp add: file_name_def)
    then show ?thesis by (auto simp: path_extension_def Let_def split: if_splits)
  qed
  then show "\<not> stale_index_file active (partial_path ?path) regular" by (auto simp: stale_index_file_def)
qed

theorem late_failure_leaks_temporary_file_witness:
  "(\<exists>w'. write_series_index_streaming (demo_block_env\<lparr>ev_fault := (\<lambda>n. if n = 5 then Some ''disk full'' else None)\<rparr>)
      zero_crc demo_parquet demo_index_codec ''file:///r'' demo_meta ''b'' one_series_index ''d/series/U.parquet'' demo_world
      = Some (Inl (Err ''disk full''), w')
    \<and> wd_files w' (partial_path (local_path ''d/series/U.parquet'')) \<noteq> None)
   \<and> \<not> stale_index_file [] (partial_path (local_path ''d/series/U.parquet'')) True"
  by (rule late_failure_leaks_temporary_file [OF one_series_parse, where k = 5])
     (simp_all add: INDEX_BATCH_SIZE_def demo_series_row_of has_file_name_def file_name_def local_path_def strip_prefix_def
       parent_path_def demo_world_def)

section \<open>Discovery and clean-up\<close>

lemma mapR_fails: "x \<in> set xs \<Longrightarrow> f x = Inl e \<Longrightarrow> \<exists>e'. mapR f xs = Inl e'"
proof (induction xs)
  case (Cons y xs)
  then show ?case by (cases "f y"; cases "mapR f xs") auto
qed simp

text \<open>
  One object of a repository whose path ends in \<open>meta.json\<close> without being the \<open>meta.json\<close> of a
  directory, such as one at the root, aborts the whole build before anything is read, although the path of
  a deletion mark is worked out for an empty block path too.
\<close>

theorem stray_metadata_aborts_the_build:
  assumes "config \<in> set repositories" and "repository_for (rc_uri config) = Some storage"
    and "io_list io storage = Inr paths" and "path \<in> set paths"
    and "ends_with ''meta.json'' path" and "\<not> ends_with ''/meta.json'' path"
  shows "\<exists>e. build_block_index io repository_for meta_schedule schedule repositories location materialize age w = Some (Inl e, w)"
proof -
  have "strip_suffix ''/meta.json'' path = None" using assms(6) by (simp add: ends_with_def)
  then have "meta_task config storage path = Inl (Err ''invalid metadata path'')"
    using assms(5) by (simp only: meta_task_def ok_or_def option.case tryR_Inl not_True_eq_False if_False)
  from mapR_fails [where f = "meta_task config storage", OF assms(4) this] obtain e where "mapR (meta_task config storage) paths = Inl e" by auto
  then have "list_metas io repository_for config = Inl e"
    using assms(2,3) by (simp add: list_metas_def ok_or_def)
  from mapR_fails [where f = "list_metas io repository_for", OF assms(1) this] obtain e' where "mapR (list_metas io repository_for) repositories = Inl e'" by auto
  then show ?thesis by (simp add: build_block_index_def discover_def)
qed

theorem stray_metadata_aborts_the_build_witness:
  "\<exists>e. build_block_index (demo_io\<lparr>io_list := (\<lambda>_. Inr [''meta.json'', ''b/meta.json''])\<rparr>) demo_repository_for id id
    [demo_repository_config] ''d'' False None demo_world = Some (Inl e, demo_world)"
  by (rule stray_metadata_aborts_the_build [where config = demo_repository_config and storage = demo_block_storage
        and paths = "[''meta.json'', ''b/meta.json'']" and path = "''meta.json''"])
     (simp_all add: demo_repository_for_def demo_repository_config_def ends_with_def strip_suffix_def strip_prefix_def)

text \<open>
  C38: without failing calls the clean-up of a directory removes exactly its regular files with the
  extension \<open>parquet\<close> or \<open>json\<close> whose stem is the id of no active block.
\<close>

theorem cleanup_removes_exactly_stale_files:
  assumes "\<not> may_fail (io_env io)" and "listing_ok io directory w entries"
  shows "\<exists>w'. cleanup_index_files io directory active w = (Inr (), w')
    \<and> (\<forall>p. wd_files w' p =
        (if (p, True) \<in> set entries \<and> path_extension p \<in> {Some ''parquet'', Some ''json''} \<and> file_stem p \<notin> set active
         then None else wd_files w p))"
proof -
  have "\<exists>w'. clean_directory io directory (stale_index_file active) w = (Inr (), w')
    \<and> (\<forall>p. wd_files w' p = (if (p, True) \<in> set entries \<and> stale_index_file active p True then None else wd_files w p))"
    by (rule clean_directory_healthy [OF assms]) (simp add: stale_index_file_def)
  then show ?thesis by (simp add: cleanup_index_files_def stale_index_file_def)
qed

definition stale_listing_io :: index_outside where
  "stale_listing_io = demo_io\<lparr>io_read_dir := (\<lambda>_ _. [(''d/series/U.parquet'', True), (''d/series/V.parquet'', True),
     (''d/series/W.parquet.partial'', True)])\<rparr>"

definition stale_world :: world where
  "stale_world = demo_world\<lparr>wd_files := (\<lambda>_. Some [])\<rparr>"

theorem cleanup_removes_exactly_stale_files_witness:
  "\<exists>w'. cleanup_index_files stale_listing_io ''d/series'' [''U''] stale_world = (Inr (), w')
    \<and> wd_files w' ''d/series/U.parquet'' = Some [] \<and> wd_files w' ''d/series/V.parquet'' = None
    \<and> wd_files w' ''d/series/W.parquet.partial'' = Some []"
proof -
  have healthy: "\<not> may_fail (io_env stale_listing_io)" using demo_healthy by (simp add: stale_listing_io_def demo_io_def)
  have listing: "listing_ok stale_listing_io ''d/series'' stale_world
      [(''d/series/U.parquet'', True), (''d/series/V.parquet'', True), (''d/series/W.parquet.partial'', True)]"
    by (simp add: listing_ok_def stale_listing_io_def stale_world_def demo_io_def)
  show ?thesis
    using cleanup_removes_exactly_stale_files [OF healthy listing, of "[''U'']"]
    by (auto simp: path_extension_def file_stem_def file_name_def stale_world_def Let_def)
qed

lemma unlisted_stays:
  assumes "clean_directory io directory stale w = (r, w')" and "\<And>v regular. (p, regular) \<notin> set (io_read_dir io directory v)"
  shows "wd_files w' p = wd_files w p"
proof (cases "io_dir_exists io directory w")
  case False
  with assms(1) show ?thesis by (simp add: clean_directory_def)
next
  case True
  with assms(1) have "doW (outside (io_env io) (\<lambda>w. retW (io_read_dir io directory w) w))
      (remove_entries (io_env io) stale) w = (r, w')" by (simp add: clean_directory_def)
  then show ?thesis
  proof (cases rule: doW_cases)
    case (fails e)
    then show ?thesis by (auto simp: outside_def retW_def Let_def split: option.splits)
  next
    case (goes entries w1)
    then have "wd_files w1 = wd_files w" "\<exists>v. entries = io_read_dir io directory v"
      by (auto simp: outside_def retW_def Let_def split: option.splits)
    then show ?thesis
      using remove_entries_safe [of p entries stale "io_env io" w1] assms(2) goes(2) by auto
  qed
qed

text \<open>The entries of a directory are its own files.\<close>

definition listings_local :: "index_outside \<Rightarrow> bool" where
  "listings_local io \<longleftrightarrow> (\<forall>d v p regular. (p, regular) \<in> set (io_read_dir io d v)
     \<longrightarrow> (\<exists>name. CHR ''/'' \<notin> set name \<and> p = d @ ''/'' @ name))"

lemma chunk_table_not_listed:
  assumes "listings_local io" and "plain_ulid ulid"
    and "d \<in> {series_index_directory_path location, join_path (local_path location) ''manifests''}"
  shows "(chunk_index_file_path location ulid, regular) \<notin> set (io_read_dir io d v)"
proof
  assume "(chunk_index_file_path location ulid, regular) \<in> set (io_read_dir io d v)"
  then obtain name where name: "CHR ''/'' \<notin> set name" "chunk_index_file_path location ulid = d @ ''/'' @ name"
    using assms(1) unfolding listings_local_def by blast
  have "CHR ''/'' \<notin> set (ulid @ ''.parquet'')" using assms(2) by (simp add: plain_ulid_def)
  then have "file_name (chunk_index_directory_path location @ ''/'' @ (ulid @ ''.parquet'')) = ulid @ ''.parquet''"
    by (rule file_name_append)
  moreover have "file_name (d @ ''/'' @ name) = name" using name(1) by (rule file_name_append)
  moreover have eq: "chunk_index_directory_path location @ ''/'' @ ulid @ ''.parquet'' = d @ ''/'' @ name"
    using name(2) by (simp add: index_paths [OF assms(2)])
  ultimately have "name = ulid @ ''.parquet''" by simp
  with eq have "chunk_index_directory_path location = d" by simp
  with assms(3) show False
    by (auto simp: chunk_index_directory_path_def series_index_directory_path_def join_path_def path_join_def
        starts_with_def strip_prefix_def split: if_splits)
qed

lemma publish_keeps:
  assumes run: "publish io location active built w = (r, w')"
    and series: "\<And>stale v q v'. clean_directory io (series_index_directory_path location) stale v = (q, v')
      \<Longrightarrow> wd_files v' p = wd_files v p"
    and manifests: "\<And>stale v q v'. clean_directory io (join_path (local_path location) ''manifests'') stale v = (q, v')
      \<Longrightarrow> wd_files v' p = wd_files v p"
    and index: "p \<noteq> local_path (block_index_file_path location)"
  shows "wd_files w' p = wd_files w p"
proof -
  have ret: "keeps_file p (retW x)" for x :: "metric_table_schema list" by (simp add: keeps_file_def retW_def)
  have clean: "keeps_file p (cleanup_series_index_files io location active)"
    "keeps_file p (cleanup_block_manifest_files io location active)"
    unfolding keeps_file_def cleanup_series_index_files_def cleanup_block_manifest_files_def cleanup_index_files_def
    using series manifests by (metis prod.collapse)+
  have local: "keeps_file p (write_local_file (io_env io) (block_index_file_path location) bs)" for bs
    unfolding keeps_file_def using write_local_file_spec(1) [OF _ index] by (metis prod.collapse)
  obtain bs where bytes: "block_parquet_bytes (io_parquet io) (sort_key row_key (map bx_row built)) = Inr bs"
    by (simp add: block_parquet_bytes_def block_record_batch_ok)
  have "keeps_file p (publish io location active built)"
    unfolding publish_def Let_def bytes sum.case by (intro keeps_doW clean local ret)
  then show ?thesis using run by (rule keeps_fileD)
qed

lemma builds_leave_others:
  assumes run: "run_all (build_or_reuse io location materialize) ts w = Some (r, w')"
    and truthful: "cache_truthful io location blocks w"
    and usable: "blocks_ok blocks" "plain_location location" "manifest_json_ok io" and ts: "set ts \<subseteq> blocks"
    and ulid: "plain_ulid ulid" "ulid \<notin> task_ulid ` blocks" and p: "p \<in> table_paths location ulid"
  shows "wd_files w' p = wd_files w p"
proof -
  have all: "usable_blocks io location blocks = blocks" using usable by (auto simp: usable_blocks_def)
  have "p \<notin> block_files location (task_ulid t)" if "t \<in> blocks" for t
    using other_block_files [OF ulid(1) _ _ p] usable(1) ulid(2) that by (auto simp: blocks_ok_def)
  then show ?thesis
    using builder.run_all_truthful [OF run, where blocks = blocks] truthful ts unfolding all cache_truthful_def by blast
qed

text \<open>
  C36: a build that materializes the chunk tables keeps the chunk table of a block that is no longer in any
  repository, and with it the rows of that block in the table \<open>chunks\<close>, which is the whole directory.
\<close>

theorem removed_blocks_keep_their_chunk_table:
  assumes "build_block_index io repository_for meta_schedule schedule repositories location True age w = Some (r, w')"
    and "cache_truthful io location blocks w" and "blocks_ok blocks" and "plain_location location" and "manifest_json_ok io"
    and "known_blocks io repository_for repositories \<subseteq> blocks"
    and "\<And>xs. mset (meta_schedule xs) = mset xs" and "\<And>ts. mset (schedule ts) = mset ts"
    and "listings_local io" and "plain_ulid ulid" and "ulid \<notin> task_ulid ` blocks"
  shows "wd_files w' (chunk_index_file_path location ulid) = wd_files w (chunk_index_file_path location ulid)"
proof -
  let ?p = "chunk_index_file_path location ulid"
  have p: "?p \<in> table_paths location ulid" by (simp add: table_paths_def)
  have tasks: "set (schedule (build_tasks (meta_schedule results))) \<subseteq> blocks"
    if "discover io repository_for repositories = Inr mts"
      "run_all (\<lambda>t w. Some (read_block_meta io age t w)) mts w = Some (Inr results, w1)" for results mts w1
    by (rule scheduled_known [OF that assms(6-8)])
  have blocks_built: "wd_files w3 ?p = wd_files w1 ?p"
    if "run_all (build_or_reuse io location True) (schedule (build_tasks (meta_schedule results))) w1 = Some (r', w3)"
      and "discover io repository_for repositories = Inr mts"
      and "run_all (\<lambda>t w. Some (read_block_meta io age t w)) mts w = Some (Inr results, w1)" for results mts w1 r' w3
  proof (rule builds_leave_others [OF that(1) _ assms(3-5) tasks [OF that(2,3)] assms(10,11) p])
    show "cache_truthful io location blocks w1" using assms(2) reads_spec [OF that(3)] by (simp add: cache_truthful_def)
  qed
  show ?thesis using assms(1)
  proof (cases rule: build_block_index_cases)
    case (unread mts e)
    then show ?thesis using reads_spec [OF unread(2)] by simp
  next
    case (unbuilt mts results w1 w2 u e)
    then have "w2 = w1" by simp
    then show ?thesis using blocks_built [OF _ unbuilt(1,2)] unbuilt(4) reads_spec [OF unbuilt(2)] by simp
  next
    case (built mts results w1 w2 u bs w3)
    then have "w2 = w1" by simp
    then have files: "wd_files w3 ?p = wd_files w ?p"
      using blocks_built [OF _ built(1,2)] built(4) reads_spec [OF built(2)] by simp
    have keep: "wd_files v' ?p = wd_files v ?p"
      if "clean_directory io d stale v = (q, v')" "d \<in> {series_index_directory_path location, join_path (local_path location) ''manifests''}"
      for d stale v q v'
      using unlisted_stays [OF that(1)] chunk_table_not_listed [OF assms(9,10) that(2)] by blast
    have index: "?p \<noteq> local_path (block_index_file_path location)"
      using block_index_apart [OF assms(10) p] assms(4) file_scheme_join [of "local_path location" "''block_index.parquet''" "[]"]
      by (simp add: local_path_plain plain_location_def block_index_file_path_def)
    show ?thesis
      unfolding files [symmetric] using built(5)
      by (rule publish_keeps [OF _ keep [OF _ insertI1] keep [OF _ insertI2 [OF singletonI]] index])
  qed simp_all
qed

definition emptied_io :: index_outside where
  "emptied_io = demo_io\<lparr>io_list := (\<lambda>_. Inr [])\<rparr>"

definition leftover_world :: world where
  "leftover_world = demo_world\<lparr>wd_files := (\<lambda>p. if p = ''d/indexes/V.parquet'' then Some [9] else None)\<rparr>"

lemma emptied_run:
  "\<exists>r w'. build_block_index emptied_io demo_repository_for id id [demo_repository_config] ''d'' True None leftover_world = Some (r, w')"
  by (simp add: build_block_index_def discover_def list_metas_def demo_repository_for_def demo_repository_config_def emptied_io_def
      map_filter_simps build_tasks_def)

lemma emptied_known: "known_blocks emptied_io demo_repository_for [demo_repository_config] = {}"
  by (simp add: known_blocks_def discover_def list_metas_def demo_repository_for_def demo_repository_config_def emptied_io_def
      map_filter_simps)

theorem removed_blocks_keep_their_chunk_table_witness:
  "\<exists>r w'. build_block_index emptied_io demo_repository_for id id [demo_repository_config] ''d'' True None leftover_world = Some (r, w')
    \<and> wd_files w' ''d/indexes/V.parquet'' = Some [9]"
proof -
  obtain r w' where run: "build_block_index emptied_io demo_repository_for id id [demo_repository_config] ''d'' True None leftover_world = Some (r, w')"
    using emptied_run by blast
  have "manifest_json_ok emptied_io" using demo_manifest_json by (simp add: emptied_io_def manifest_json_ok_def)
  moreover have "listings_local emptied_io" by (auto simp: listings_local_def emptied_io_def demo_io_def demo_read_dir_def)
  moreover have "cache_truthful emptied_io ''d'' {} leftover_world" "blocks_ok {}" by (simp_all add: cache_truthful_def blocks_ok_def)
  moreover have "plain_ulid ''V''" by (simp add: plain_ulid_def)
  ultimately have "wd_files w' (chunk_index_file_path ''d'' ''V'') = wd_files leftover_world (chunk_index_file_path ''d'' ''V'')"
    using emptied_known
    by (intro removed_blocks_keep_their_chunk_table [OF run _ _ demo_location, where blocks = "{}"]) simp_all
  then show ?thesis
    using run by (auto simp: chunk_index_file_path_def local_path_def join_path_def path_join_def starts_with_def
        strip_prefix_def leftover_world_def)
qed

section \<open>The cache directory and the published index\<close>

text \<open>
  C34: a block that was built or reused is reused by the next bootstrap from the same files, with the same
  row, counts and labels, and without touching any file.
\<close>

theorem finished_block_is_reused:
  assumes "\<not> may_fail (io_env io)" and "manifest_json_ok io" and "plain_location location" and "plain_ulid (task_ulid task)"
    and "block_truthful io location task (wd_files w)"
    and "build_or_reuse io location materialize task w = Some (Inr built, w')" and "wd_files v = wd_files w'"
  shows "\<exists>v'. build_or_reuse io location materialize task v = Some (Inr built, v') \<and> wd_files v' = wd_files v"
proof -
  have "block_finished io location materialize task built (wd_files v)"
    unfolding assms(7) by (rule build_or_reuse_spec(3) [OF assms(6,2-5) refl])
  from load_finished [OF assms(1) this] show ?thesis by (auto simp: build_or_reuse_def)
qed

lemma demo_first_build:
  "\<exists>w'. build_or_reuse demo_io ''d'' True demo_task demo_world = Some (Inr (demo_built True), w')"
proof -
  have "load_cached_block_index demo_io demo_task ''d'' True demo_world = (Inr None, demo_world)"
    by (simp add: load_cached_block_index_def is_file_def demo_world_def)
  then show ?thesis using demo_builds by (simp add: build_or_reuse_def)
qed

theorem finished_block_is_reused_witness:
  "\<exists>w' v'. build_or_reuse demo_io ''d'' True demo_task demo_world = Some (Inr (demo_built True), w')
    \<and> build_or_reuse demo_io ''d'' True demo_task w' = Some (Inr (demo_built True), v') \<and> wd_files v' = wd_files w'"
proof -
  obtain w' where run: "build_or_reuse demo_io ''d'' True demo_task demo_world = Some (Inr (demo_built True), w')"
    using demo_first_build by blast
  have "\<not> may_fail (io_env demo_io)" "plain_ulid (task_ulid demo_task)" "block_truthful demo_io ''d'' demo_task (wd_files demo_world)"
    using demo_healthy demo_blocks_ok demo_truthful by (simp_all add: blocks_ok_def cache_truthful_def)
  from finished_block_is_reused [OF this(1) demo_manifest_json demo_location this(2,3) run refl] run show ?thesis by blast
qed

text \<open>
  Every build, whichever calls fail and however it ends, keeps the cache directory truthful: a readable
  manifest that matches a block records the row, counts and labels of that block, and the tables beside it
  are complete and right, so a later bootstrap never serves a wrong or partial table.
\<close>

theorem cache_stays_truthful:
  assumes "build_block_index io repository_for meta_schedule schedule repositories location materialize age w = Some (r, w')"
    and "cache_truthful io location blocks w" and "blocks_ok blocks" and "plain_location location" and "manifest_json_ok io"
    and "known_blocks io repository_for repositories \<subseteq> blocks"
    and "\<And>xs. mset (meta_schedule xs) = mset xs" and "\<And>ts. mset (schedule ts) = mset ts"
  shows "cache_truthful io location blocks w'"
  using assms by (rule build_keeps_truth)

theorem cache_stays_truthful_witness:
  "\<exists>w'. build_block_index demo_io demo_repository_for id id [demo_repository_config] ''d'' True None demo_world = Some (Inr (demo_schemas True), w')
    \<and> cache_truthful demo_io ''d'' {demo_task} w'"
proof -
  obtain w' where run: "build_block_index demo_io demo_repository_for id id [demo_repository_config] ''d'' True None demo_world
    = Some (Inr (demo_schemas True), w')" using demo_run by blast
  from cache_stays_truthful [OF run demo_truthful demo_blocks_ok demo_location demo_manifest_json] run show ?thesis
    by (auto simp: demo_known)
qed



end
