(* ===== verification/Flight_Service.thy ===== *)
theory Flight_Service
  imports Rust_Text Range_Cache Arrow_Data
begin

text \<open>
  The Flight SQL service, \<open>src/flight_service.rs\<close>: a statement is checked and planned for its schema, its text
  is the handle of the ticket, and the ticket runs it.

  \<open>flight_outside\<close> gathers what is outside: the SQL engine, whose session \<open>'c\<close> a statement may change, the
  encodings of tickets and schemas, and the encoder of the result stream.
\<close>

datatype flight_status = InvalidStatement string | InternalFailure string

record ('c, 'p) flight_outside =
  fo_sql :: "string \<Rightarrow> 'c \<Rightarrow> (string + 'p) \<times> 'c"
  fo_plan_schema :: "'p \<Rightarrow> field list"
  fo_collect :: "'p \<Rightarrow> 'c \<Rightarrow> (string + batch list) \<times> 'c"
  fo_encode_ticket :: "bytes \<Rightarrow> bytes"
  fo_encode_schema :: "field list \<Rightarrow> string + bytes"
  fo_encode_batches :: "batch list \<Rightarrow> (string + bytes) list"

record flight_endpoint =
  fe_ticket :: bytes
  fe_locations :: "string list"

record flight_info =
  fi_schema :: bytes
  fi_descriptor :: bytes
  fi_endpoints :: "flight_endpoint list"

record handshake_response =
  hr_protocol_version :: nat
  hr_payload :: bytes

definition query_from_handle :: "bytes \<Rightarrow> flight_status + string" where
  "query_from_handle handle =
     (case from_utf8 handle of
        None \<Rightarrow> Inl (InvalidStatement ''statement handle must contain UTF-8 SQL'')
      | Some query \<Rightarrow>
          if trim query = '''' then Inl (InvalidStatement ''SQL query must not be empty'') else Inr query)"

definition do_handshake :: "handshake_response list" where
  "do_handshake = [\<lparr>hr_protocol_version = 0, hr_payload = []\<rparr>]"

text \<open>An outside call whose error becomes a status.\<close>

definition status_of :: "(string \<Rightarrow> flight_status) \<Rightarrow> ('c \<Rightarrow> (string + 'a) \<times> 'c) \<Rightarrow> 'c \<Rightarrow> (flight_status + 'a) \<times> 'c" where
  "status_of mk call c = map_prod (\<lambda>r. case r of Inl e \<Rightarrow> Inl (mk e) | Inr x \<Rightarrow> Inr x) id (call c)"

definition get_flight_info_statement ::
  "('c, 'p) flight_outside \<Rightarrow> string \<Rightarrow> string \<Rightarrow> bytes \<Rightarrow> 'c \<Rightarrow> (flight_status + flight_info) \<times> 'c" where
  "get_flight_info_statement fo location query descriptor c =
     (if trim query = '''' then (Inl (InvalidStatement ''SQL query must not be empty''), c)
      else
        doW (status_of InvalidStatement (fo_sql fo query)) (\<lambda>dataframe.
          let endpoint = \<lparr>fe_ticket = fo_encode_ticket fo (bytes_of_str query), fe_locations = [location]\<rparr> in
          doW (status_of InternalFailure (\<lambda>c. (fo_encode_schema fo (fo_plan_schema fo dataframe), c))) (\<lambda>schema.
            retW \<lparr>fi_schema = schema, fi_descriptor = descriptor, fi_endpoints = [endpoint]\<rparr>)) c)"

definition do_get_statement ::
  "('c, 'p) flight_outside \<Rightarrow> bytes \<Rightarrow> 'c \<Rightarrow> (flight_status + (flight_status + bytes) list) \<times> 'c" where
  "do_get_statement fo handle c =
     (case query_from_handle handle of
        Inl e \<Rightarrow> (Inl e, c)
      | Inr query \<Rightarrow>
          doW (status_of InvalidStatement (fo_sql fo query)) (\<lambda>dataframe.
          doW (status_of InternalFailure (fo_collect fo dataframe)) (\<lambda>batches.
            retW (map (\<lambda>r. case r of Inl e \<Rightarrow> Inl (InternalFailure e) | Inr d \<Rightarrow> Inr d)
              (fo_encode_batches fo batches)))) c)"

section \<open>Facts\<close>

lemma status_of_Inr: "status_of mk call c = (Inr x, c') \<longleftrightarrow> call c = (Inr x, c')"
  by (cases "call c") (auto simp: status_of_def split: sum.splits)

lemma info_issued:
  assumes "get_flight_info_statement fo location query descriptor c = (Inr info, c')"
  shows "trim query \<noteq> ''''"
    and "\<exists>plan schema. fo_sql fo query c = (Inr plan, c') \<and> fo_encode_schema fo (fo_plan_schema fo plan) = Inr schema
      \<and> info = \<lparr>fi_schema = schema, fi_descriptor = descriptor,
          fi_endpoints = [\<lparr>fe_ticket = fo_encode_ticket fo (bytes_of_str query), fe_locations = [location]\<rparr>]\<rparr>"
proof -
  have nonempty: "trim query \<noteq> ''''" using assms by (auto simp: get_flight_info_statement_def)
  then show "trim query \<noteq> ''''" .
  obtain r c1 where sql: "fo_sql fo query c = (r, c1)" by fastforce
  show "\<exists>plan schema. fo_sql fo query c = (Inr plan, c') \<and> fo_encode_schema fo (fo_plan_schema fo plan) = Inr schema
      \<and> info = \<lparr>fi_schema = schema, fi_descriptor = descriptor,
          fi_endpoints = [\<lparr>fe_ticket = fo_encode_ticket fo (bytes_of_str query), fe_locations = [location]\<rparr>]\<rparr>"
    using assms nonempty sql
    by (auto simp: get_flight_info_statement_def doW_def status_of_def retW_def Let_def split: sum.splits)
qed

lemma handle_accepted:
  "from_utf8 (bytes_of_str query) = Some query \<Longrightarrow> trim query \<noteq> '''' \<Longrightarrow> query_from_handle (bytes_of_str query) = Inr query"
  by (simp add: query_from_handle_def)

end
