(* ===== verification/Flight_Service_Props.thy ===== *)
theory Flight_Service_Props
  imports Flight_Service Config_Facts
begin

text \<open>
  The property of the Flight SQL service: the ticket it issues runs the statement it was issued for.
\<close>

text \<open>
  C31: the single endpoint of a flight info leads back to this service, its ticket decodes to a handle the
  service accepts, and running the handle plans exactly the statement asked for; when planning leaves the
  session as it is, the result is the stream of the very plan whose schema was announced.
\<close>

theorem ticket_runs_its_statement:
  assumes "get_flight_info_statement fo location query descriptor c = (Inr info, c')"
    and "from_utf8 (bytes_of_str query) = Some query" and "\<And>h. decode_ticket (fo_encode_ticket fo h) = Some h"
  shows "\<exists>handle plan. map fe_locations (fi_endpoints info) = [[location]]
    \<and> map (decode_ticket o fe_ticket) (fi_endpoints info) = [Some handle]
    \<and> query_from_handle handle = Inr query
    \<and> fo_sql fo query c = (Inr plan, c')
    \<and> fo_encode_schema fo (fo_plan_schema fo plan) = Inr (fi_schema info)
    \<and> (c' = c \<longrightarrow> do_get_statement fo handle c =
        (case fo_collect fo plan c of
           (Inl e, c'') \<Rightarrow> (Inl (InternalFailure e), c'')
         | (Inr batches, c'') \<Rightarrow>
             (Inr (map (\<lambda>r. case r of Inl e \<Rightarrow> Inl (InternalFailure e) | Inr d \<Rightarrow> Inr d) (fo_encode_batches fo batches)), c'')))"
proof -
  from info_issued(2) [OF assms(1)] obtain plan schema where
    plan: "fo_sql fo query c = (Inr plan, c')" "fo_encode_schema fo (fo_plan_schema fo plan) = Inr schema"
    and info: "info = \<lparr>fi_schema = schema, fi_descriptor = descriptor,
          fi_endpoints = [\<lparr>fe_ticket = fo_encode_ticket fo (bytes_of_str query), fe_locations = [location]\<rparr>]\<rparr>"
    by blast
  note accepted = handle_accepted [OF assms(2) info_issued(1) [OF assms(1)]]
  have "c' = c \<Longrightarrow> do_get_statement fo (bytes_of_str query) c =
        (case fo_collect fo plan c of
           (Inl e, c'') \<Rightarrow> (Inl (InternalFailure e), c'')
         | (Inr batches, c'') \<Rightarrow>
             (Inr (map (\<lambda>r. case r of Inl e \<Rightarrow> Inl (InternalFailure e) | Inr d \<Rightarrow> Inr d) (fo_encode_batches fo batches)), c''))"
    using plan(1) by (auto simp: do_get_statement_def accepted doW_def status_of_def retW_def split: prod.splits sum.splits)
  with plan info accepted assms(3) show ?thesis by (intro exI [of _ "bytes_of_str query"] exI [of _ plan]) simp
qed

definition demo_flight :: "(unit, string) flight_outside" where
  "demo_flight = \<lparr>fo_sql = (\<lambda>q c. (Inr q, c)), fo_plan_schema = (\<lambda>_. []), fo_collect = (\<lambda>_ c. (Inr [], c)),
     fo_encode_ticket = (\<lambda>h. 9 # h), fo_encode_schema = (\<lambda>_. Inr [1]), fo_encode_batches = (\<lambda>_. [Inr [2]])\<rparr>"

lemma demo_query_text: "trim ''SELECT'' \<noteq> '''' \<and> from_utf8 (bytes_of_str ''SELECT'') = Some ''SELECT''"
proof
  have "plain_ends ''SELECT''" by (rule plain_endsI) (auto simp: char_of_def)
  then show "trim ''SELECT'' \<noteq> ''''" by (simp add: trim_plain)
  show "from_utf8 (bytes_of_str ''SELECT'') = Some ''SELECT''"
    by (simp add: from_utf8_def) (simp add: bytes_of_str_def)
qed

theorem ticket_runs_its_statement_witness:
  "\<exists>info. get_flight_info_statement demo_flight ''grpc+tcp://a'' ''SELECT'' [7] () = (Inr info, ())
    \<and> (\<exists>handle. map (tl o fe_ticket) (fi_endpoints info) = [handle] \<and> do_get_statement demo_flight handle () = (Inr [Inr [2]], ()))"
proof -
  obtain info where info: "get_flight_info_statement demo_flight ''grpc+tcp://a'' ''SELECT'' [7] () = (Inr info, ())"
    using demo_query_text by (simp add: get_flight_info_statement_def demo_flight_def doW_def status_of_def retW_def)
  from ticket_runs_its_statement [OF info, of "\<lambda>t. Some (tl t)"] demo_query_text info show ?thesis
    by (auto simp: demo_flight_def o_def)
qed

end
