(* ===== verification/Bootstrap.thy ===== *)
theory Bootstrap
  imports Block_Index Store_Service
begin

text \<open>
  Starting the reader, \<open>src/lib.rs\<close>: the query session with its tables, inherited listeners, and the order in
  which \<open>run\<close> sets everything up.

  \<open>session_outside\<close> is what DataFusion does to a session \<open>'c\<close> with table providers \<open>'p\<close>; \<open>startup_outside\<close>
  is the process environment, the sockets and the other libraries.
\<close>

section \<open>The query session\<close>

text \<open>\<open>MetricTableProvider\<close>: the metric's name is the name of its schema.\<close>

record 'p metric_table_provider =
  mp_schema :: metric_table_schema
  mp_chunk_provider :: 'p
  mp_storage :: registry

definition metric_table_provider_new ::
  "metric_table_schema \<Rightarrow> 'p \<Rightarrow> registry \<Rightarrow> string + 'p metric_table_provider" where
  "metric_table_provider_new schema chunk_provider storage =
     Inr \<lparr>mp_schema = schema, mp_chunk_provider = chunk_provider, mp_storage = storage\<rparr>"

type_synonym ('c, 'a) session_action = "'c \<Rightarrow> (string + 'a) \<times> 'c"

record ('c, 'p) session_outside =
  sn_new :: 'c
  sn_register_parquet :: "string \<Rightarrow> string \<Rightarrow> ('c, unit) session_action"
  sn_has_catalog :: "string \<Rightarrow> 'c \<Rightarrow> bool"
  sn_register_schema :: "string \<Rightarrow> string \<Rightarrow> ('c, unit) session_action"
  sn_table_provider :: "string \<Rightarrow> ('c, 'p) session_action"
  sn_register_table :: "string \<times> string \<times> string \<Rightarrow> 'p metric_table_provider \<Rightarrow> ('c, unit) session_action"

fun register_tables ::
  "('c, 'p) session_outside \<Rightarrow> 'p \<Rightarrow> registry \<Rightarrow> metric_table_schema list \<Rightarrow> ('c, unit) session_action" where
  "register_tables sn chunk_provider storage [] = retW ()"
| "register_tables sn chunk_provider storage (schema # schemas) =
     doW (\<lambda>c. (metric_table_provider_new schema chunk_provider storage, c)) (\<lambda>table.
     doW (sn_register_table sn (''datafusion'', ''metrics'', mt_name schema) table) (\<lambda>_.
       register_tables sn chunk_provider storage schemas))"

definition register_metric_tables ::
  "('c, 'p) session_outside \<Rightarrow> metric_table_schema list \<Rightarrow> registry \<Rightarrow> ('c, unit) session_action" where
  "register_metric_tables sn schemas storage c =
     (if \<not> sn_has_catalog sn ''datafusion'' c then (Inl ''default catalog is missing'', c)
      else
        doW (sn_register_schema sn ''datafusion'' ''metrics'') (\<lambda>_.
        doW (sn_table_provider sn ''chunks'') (\<lambda>chunk_provider.
          register_tables sn chunk_provider storage schemas)) c)"

definition index_context ::
  "('c, 'p) session_outside \<Rightarrow> string \<Rightarrow> string \<Rightarrow> string \<Rightarrow> metric_table_schema list \<Rightarrow> registry \<Rightarrow> (string + unit) \<times> 'c" where
  "index_context sn block_index_path chunk_index_path series_index_path schemas storage =
     doW (sn_register_parquet sn ''blocks'' block_index_path) (\<lambda>_.
     doW (sn_register_parquet sn ''series'' series_index_path) (\<lambda>_.
       if schemas = [] then retW ()
       else
         doW (sn_register_parquet sn ''chunks'' chunk_index_path) (\<lambda>_.
           register_metric_tables sn schemas storage))) (sn_new sn)"

section \<open>Inherited listeners\<close>

text \<open>\<open>str::parse::<i32>\<close>; the text of its errors is not modelled.\<close>

definition parse_i32 :: "string \<Rightarrow> int option" where
  "parse_i32 s =
     (if s = '''' \<or> s = ''+'' \<or> s = ''-'' then None
      else case strip_prefix ''-'' s of
        Some digits \<Rightarrow>
          (case parse_digits 0 digits of Inr n \<Rightarrow> if n \<le> 2 ^ 31 then Some (- int n) else None | Inl _ \<Rightarrow> None)
      | None \<Rightarrow>
          (case parse_digits 0 (case strip_prefix ''+'' s of Some digits \<Rightarrow> digits | None \<Rightarrow> s) of
             Inr n \<Rightarrow> if n < 2 ^ 31 then Some (int n) else None
           | Inl _ \<Rightarrow> None))"

definition listener_from_env ::
  "(string \<Rightarrow> string option) \<Rightarrow> (int \<Rightarrow> string + 'l) \<Rightarrow> string \<Rightarrow> string + 'l option" where
  "listener_from_env var_os adopt name =
     (case var_os name of
        None \<Rightarrow> Inr None
      | Some raw \<Rightarrow>
          (case parse_i32 raw of
             None \<Rightarrow> Inl (name @ '' must be a file descriptor'')
           | Some fd \<Rightarrow>
               if fd < 0 then Inl (name @ '' must be non-negative'')
               else (case adopt fd of Inl e \<Rightarrow> Inl e | Inr listener \<Rightarrow> Inr (Some listener))))"

section \<open>Running\<close>

definition LISTEN_ADDR_ENV_VAR :: string where "LISTEN_ADDR_ENV_VAR = ''FLIGHT_LISTEN_ADDR''"
definition METRICS_LISTEN_ADDR_ENV_VAR :: string where "METRICS_LISTEN_ADDR_ENV_VAR = ''METRICS_LISTEN_ADDR''"
definition LISTEN_FD_ENV_VAR :: string where "LISTEN_FD_ENV_VAR = ''THANOS_READER_LISTEN_FD''"
definition METRICS_LISTEN_FD_ENV_VAR :: string where "METRICS_LISTEN_FD_ENV_VAR = ''THANOS_READER_METRICS_LISTEN_FD''"

datatype startup_error =
    OutsideFailed string
  | ConfigurationFailed config_error
  | RegistryFailed registry_error
  | IndexFailed "string fault"
  | StoreFailed "message fault"

record ('l, 'a, 'c, 'p) startup_outside =
  su_init_tracing :: "string + unit"
  su_install_recorder :: "string + unit"
  su_config_var :: "string option"
  su_read_config :: "string \<Rightarrow> string option"
  su_from_toml :: "string \<Rightarrow> string + reader_config"
  su_parse_duration :: duration_parser
  su_address_ok :: "string \<Rightarrow> bool"
  su_build_operator :: "service \<Rightarrow> string + unit"
  su_cache_tree :: "world \<Rightarrow> dir_entry list"
  su_var :: "string \<Rightarrow> string option"
  su_var_os :: "string \<Rightarrow> string option"
  su_adopt :: "int \<Rightarrow> string + 'l"
  su_parse_address :: "string \<Rightarrow> string + 'a"
  su_bind :: "string \<Rightarrow> string + 'l"
  su_index :: index_outside
  su_session :: "world \<Rightarrow> ('c, 'p) session_outside"
  su_store_codec :: "'c \<Rightarrow> world \<Rightarrow> store_codec"

text \<open>What the process serves once it has started.\<close>

record ('l, 'a, 'c) server =
  sv_endpoint :: "'l + 'a"
  sv_metrics_listener :: 'l
  sv_session :: 'c
  sv_blocks :: "block_metadata list"
  sv_storage :: registry
  sv_flight_location :: string

text \<open>The configuration, the storage, the addresses and the listeners, before any index is built.\<close>

definition startup_config :: "('l, 'a, 'c, 'p) startup_outside \<Rightarrow> startup_error + reader_config" where
  "startup_config su =
     tryR (map_err OutsideFailed (su_init_tracing su)) (\<lambda>_.
     tryR (map_err OutsideFailed (su_install_recorder su)) (\<lambda>_.
       map_err ConfigurationFailed
         (load (su_address_ok su) (su_parse_duration su) (su_from_toml su) (su_read_config su (config_path (su_config_var su))))))"

text \<open>The listener of the metrics endpoint; serving it does not end.\<close>

definition start_metrics_server :: "('l, 'a, 'c, 'p) startup_outside \<Rightarrow> string \<Rightarrow> 'l option \<Rightarrow> string + 'l" where
  "start_metrics_server su address listener =
     (case listener of Some l \<Rightarrow> Inr l | None \<Rightarrow> su_bind su address)"

definition startup_sockets ::
  "('l, 'a, 'c, 'p) startup_outside \<Rightarrow> reader_config \<Rightarrow> startup_error + (string \<times> 'l option \<times> 'a \<times> 'l)" where
  "startup_sockets su config =
     (let address = (case su_var su LISTEN_ADDR_ENV_VAR of Some a \<Rightarrow> a | None \<Rightarrow> cf_listen_addr config);
          metrics_address = (case su_var su METRICS_LISTEN_ADDR_ENV_VAR of Some a \<Rightarrow> a | None \<Rightarrow> cf_metrics_listen_addr config) in
      tryR (map_err OutsideFailed (listener_from_env (su_var_os su) (su_adopt su) LISTEN_FD_ENV_VAR)) (\<lambda>listener.
      tryR (map_err OutsideFailed (listener_from_env (su_var_os su) (su_adopt su) METRICS_LISTEN_FD_ENV_VAR)) (\<lambda>metrics_listener.
      tryR (map_err OutsideFailed (su_parse_address su address)) (\<lambda>socket_address.
      tryR (map_err OutsideFailed (start_metrics_server su metrics_address metrics_listener)) (\<lambda>metrics.
        Inr (address, listener, socket_address, metrics))))))"

text \<open>The session and the services over a finished index, whose files the session reads in \<open>w\<close>.\<close>

definition startup_services ::
  "('l, 'a, 'c, 'p) startup_outside \<Rightarrow> reader_config \<Rightarrow> registry \<Rightarrow> string \<times> 'l option \<times> 'a \<times> 'l
   \<Rightarrow> metric_table_schema list \<Rightarrow> world \<Rightarrow> startup_error + ('l, 'a, 'c) server" where
  "startup_services su config storage sockets schemas w =
     (case sockets of (address, listener, socket_address, metrics) \<Rightarrow>
      case index_context (su_session su w) (block_index_file_path (cf_index_cache_location config))
          (chunk_index_directory_path (cf_index_cache_location config))
          (series_index_directory_path (cf_index_cache_location config)) schemas storage of
        (Inl e, _) \<Rightarrow> Inl (OutsideFailed e)
      | (Inr _, context) \<Rightarrow>
          tryR (map_err StoreFailed (load_blocks (su_store_codec su context w))) (\<lambda>blocks.
            Inr \<lparr>sv_endpoint = (case listener of Some l \<Rightarrow> Inl l | None \<Rightarrow> Inr socket_address),
              sv_metrics_listener = metrics, sv_session = context, sv_blocks = blocks, sv_storage = storage,
              sv_flight_location = ''grpc+tcp://'' @ address\<rparr>))"

text \<open>\<open>run\<close> up to the point where it serves; the orders are those in which the tasks of the index end.\<close>

definition run ::
  "('l, 'a, 'c, 'p) startup_outside \<Rightarrow> (meta_read_result list \<Rightarrow> meta_read_result list)
   \<Rightarrow> (block_build_task list \<Rightarrow> block_build_task list) \<Rightarrow> world
   \<Rightarrow> ((startup_error + ('l, 'a, 'c) server) \<times> world) option" where
  "run su meta_schedule schedule w =
     (case startup_config su of
        Inl e \<Rightarrow> Some (Inl e, w)
      | Inr config \<Rightarrow>
          (case registry_new (su_build_operator su) (su_parse_duration su) (io_env (su_index su)) (su_cache_tree su) config w of
             (Inl e, w1) \<Rightarrow> Some (Inl (RegistryFailed e), w1)
           | (Inr storage, w1) \<Rightarrow>
               (case tryR (startup_sockets su config) (\<lambda>sockets.
                   tryR (map_err ConfigurationFailed (block_max_age_duration (su_parse_duration su) (cf_storage config)))
                     (\<lambda>block_max_age. Inr (sockets, block_max_age))) of
                  Inl e \<Rightarrow> Some (Inl e, w1)
                | Inr (sockets, block_max_age) \<Rightarrow>
                    map_option (\<lambda>(r, w2).
                        (tryR (map_err IndexFailed r) (\<lambda>schemas. startup_services su config storage sockets schemas w2), w2))
                      (build_block_index (su_index su) (registry_get storage) meta_schedule schedule
                        (cf_repositories config) (cf_index_cache_location config)
                        (st_materialize_chunk_index (cf_storage config)) block_max_age w1))))"

end
