(* ===== verification/Bootstrap_Facts.thy ===== *)
theory Bootstrap_Facts
  imports Bootstrap Block_Publish_Facts Block_Rows_Facts Repository_Facts
begin

text \<open>
  Facts on the start: what the catalog of a session holds after the registration, that opening the storage
  only removes files, the parts of a successful run, and the blocks the services load.
\<close>

section \<open>The catalog\<close>

text \<open>
  What the catalog promises about the tables of type \<open>MetricTableProvider\<close> it holds: a new session has none,
  Parquet tables and schemas are none, a registered table can be found under its name.
\<close>

definition catalog_laws ::
  "('c, 'p) session_outside \<Rightarrow> ('c \<Rightarrow> string \<times> string \<times> string \<Rightarrow> 'p metric_table_provider option) \<Rightarrow> bool" where
  "catalog_laws sn tables \<longleftrightarrow>
     (\<forall>r. tables (sn_new sn) r = None)
     \<and> (\<forall>name path c. tables (snd (sn_register_parquet sn name path c)) = tables c)
     \<and> (\<forall>catalog schema c. tables (snd (sn_register_schema sn catalog schema c)) = tables c)
     \<and> (\<forall>name c. tables (snd (sn_table_provider sn name c)) = tables c)
     \<and> (\<forall>r t c u c'. sn_register_table sn r t c = (Inr u, c') \<longrightarrow> tables c' = (tables c)(r \<mapsto> t))"

definition metric_reference :: "string \<Rightarrow> string \<times> string \<times> string" where
  "metric_reference name = (''datafusion'', ''metrics'', name)"

definition metric_entries :: "'p \<Rightarrow> registry \<Rightarrow> metric_table_schema list \<Rightarrow> ((string \<times> string \<times> string) \<times> 'p metric_table_provider) list" where
  "metric_entries chunk_provider storage schemas =
     map (\<lambda>s. (metric_reference (mt_name s), \<lparr>mp_schema = s, mp_chunk_provider = chunk_provider, mp_storage = storage\<rparr>)) schemas"

lemma metric_entries_Cons:
  "metric_entries chunk_provider storage (s # schemas)
    = (metric_reference (mt_name s), \<lparr>mp_schema = s, mp_chunk_provider = chunk_provider, mp_storage = storage\<rparr>)
      # metric_entries chunk_provider storage schemas"
  by (simp add: metric_entries_def)

lemma register_tables_spec:
  assumes "catalog_laws sn tables"
  shows "register_tables sn chunk_provider storage schemas c = (Inr u, c') \<Longrightarrow> distinct (map mt_name schemas)
    \<Longrightarrow> tables c' = tables c ++ map_of (metric_entries chunk_provider storage schemas)"
proof (induction schemas arbitrary: c)
  case Nil
  then show ?case by (simp add: retW_def metric_entries_def)
next
  case (Cons s schemas)
  let ?t = "\<lparr>mp_schema = s, mp_chunk_provider = chunk_provider, mp_storage = storage\<rparr>"
  have "doW (sn_register_table sn (metric_reference (mt_name s)) ?t)
      (\<lambda>_. register_tables sn chunk_provider storage schemas) c = (Inr u, c')"
    using Cons.prems(1) by (simp add: metric_table_provider_new_def metric_reference_def doW_def)
  then obtain v c1 where one: "sn_register_table sn (metric_reference (mt_name s)) ?t c = (Inr v, c1)"
    and rest: "register_tables sn chunk_provider storage schemas c1 = (Inr u, c')"
    by (elim doW_Inr_cases)
  have "tables c1 = (tables c)(metric_reference (mt_name s) \<mapsto> ?t)"
    using assms one unfolding catalog_laws_def by blast
  moreover have "metric_reference (mt_name s) \<notin> dom (map_of (metric_entries chunk_provider storage schemas))"
    using Cons.prems(2) by (auto simp: dom_map_of_conv_image_fst metric_entries_def metric_reference_def)
  ultimately have "tables c1 ++ map_of (metric_entries chunk_provider storage schemas)
      = (tables c ++ map_of (metric_entries chunk_provider storage schemas))(metric_reference (mt_name s) \<mapsto> ?t)"
    by (simp only: map_add_upd_left not_False_eq_True)
  moreover have "tables c' = tables c1 ++ map_of (metric_entries chunk_provider storage schemas)"
    using Cons.IH [OF rest] Cons.prems(2) by simp
  ultimately show ?case by (simp only: metric_entries_Cons map_of.simps fst_conv snd_conv map_add_upd)
qed

lemma index_context_spec:
  assumes laws: "catalog_laws sn tables" and names: "distinct (map mt_name schemas)"
    and run: "index_context sn block_path chunk_path series_path schemas storage = (Inr u, c)"
  obtains chunk_provider where "tables c = map_of (metric_entries chunk_provider storage schemas)"
proof -
  have keeps: "tables c2 = tables c1" if "sn_register_parquet sn name path c1 = (r, c2)" for name path c1 c2 r
    using laws that unfolding catalog_laws_def by (metis snd_conv)
  have empty: "tables (sn_new sn) = Map.empty" using laws by (auto simp: catalog_laws_def)
  from run obtain v1 c1 v2 c2 where blocks: "sn_register_parquet sn ''blocks'' block_path (sn_new sn) = (Inr v1, c1)"
    and series: "sn_register_parquet sn ''series'' series_path c1 = (Inr v2, c2)"
    and rest: "(if schemas = [] then retW () else doW (sn_register_parquet sn ''chunks'' chunk_path)
      (\<lambda>_. register_metric_tables sn schemas storage)) c2 = (Inr u, c)"
    unfolding index_context_def by (elim doW_Inr_cases)
  have c2: "tables c2 = Map.empty" using keeps [OF blocks] keeps [OF series] empty by simp
  show thesis
  proof (cases "schemas = []")
    case True
    with rest c2 have "tables c = map_of (metric_entries undefined storage schemas)"
      by (simp add: retW_def metric_entries_def)
    then show thesis by (rule that)
  next
    case False
    with rest have "doW (sn_register_parquet sn ''chunks'' chunk_path) (\<lambda>_. register_metric_tables sn schemas storage) c2 = (Inr u, c)"
      by simp
    then obtain v3 c3 where chunks: "sn_register_parquet sn ''chunks'' chunk_path c2 = (Inr v3, c3)"
      and metric: "register_metric_tables sn schemas storage c3 = (Inr u, c)" by (elim doW_Inr_cases)
    from metric have "doW (sn_register_schema sn ''datafusion'' ''metrics'') (\<lambda>_. doW (sn_table_provider sn ''chunks'')
        (\<lambda>chunk_provider. register_tables sn chunk_provider storage schemas)) c3 = (Inr u, c)"
      by (simp add: register_metric_tables_def split: if_splits)
    then obtain v4 c4 chunk_provider c5 where schema: "sn_register_schema sn ''datafusion'' ''metrics'' c3 = (Inr v4, c4)"
      and prov: "sn_table_provider sn ''chunks'' c4 = (Inr chunk_provider, c5)"
      and reg: "register_tables sn chunk_provider storage schemas c5 = (Inr u, c)" by (elim doW_Inr_cases)
    have "tables c4 = tables c3" "tables c5 = tables c4"
      using laws schema prov unfolding catalog_laws_def by (metis snd_conv)+
    with keeps [OF chunks] c2 have "tables c5 = Map.empty" by simp
    with register_tables_spec [OF laws reg names]
    have "tables c = map_of (metric_entries chunk_provider storage schemas)" by simp
    then show thesis by (rule that)
  qed
qed

lemma map_of_entries:
  "map_of (metric_entries chunk_provider storage schemas) (metric_reference name)
    = map_option (\<lambda>s. \<lparr>mp_schema = s, mp_chunk_provider = chunk_provider, mp_storage = storage\<rparr>)
        (map_of (map (\<lambda>s. (mt_name s, s)) schemas) name)"
  by (induction schemas) (auto simp: metric_entries_def metric_reference_def)

lemma map_of_named: "map_of (map (\<lambda>s. (k s, g s)) xs) name = map_option g (map_of (map (\<lambda>s. (k s, s)) xs) name)"
  by (induction xs) auto

text \<open>The label names of the table registered for a metric.\<close>

definition served_columns ::
  "(string \<times> string \<times> string \<Rightarrow> 'p metric_table_provider option) \<Rightarrow> string \<Rightarrow> (string set \<times> registry) option" where
  "served_columns tables name =
     map_option (\<lambda>t. (set (mt_label_columns (mp_schema t)), mp_storage t)) (tables (metric_reference name))"

lemma served_schemas:
  assumes "tables c = map_of (metric_entries chunk_provider storage schemas)"
  shows "served_columns (tables c) name
      = map_option (\<lambda>columns. (columns, storage)) (map_of (map (\<lambda>s. (mt_name s, set (mt_label_columns s))) schemas) name)"
    and "tables c r \<noteq> None \<Longrightarrow> \<exists>s \<in> set schemas. r = metric_reference (mt_name s)"
proof -
  have "map_of (map (\<lambda>s. (mt_name s, set (mt_label_columns s))) schemas) name
    = map_option (\<lambda>s. set (mt_label_columns s)) (map_of (map (\<lambda>s. (mt_name s, s)) schemas) name)"
    by (rule map_of_named)
  then show "served_columns (tables c) name
      = map_option (\<lambda>columns. (columns, storage)) (map_of (map (\<lambda>s. (mt_name s, set (mt_label_columns s))) schemas) name)"
    by (simp add: served_columns_def assms map_of_entries option.map_comp o_def)
  assume "tables c r \<noteq> None"
  then have "r \<in> dom (map_of (metric_entries chunk_provider storage schemas))" using assms by auto
  then show "\<exists>s \<in> set schemas. r = metric_reference (mt_name s)"
    by (auto simp: dom_map_of_conv_image_fst metric_entries_def)
qed

section \<open>Opening the storage\<close>

lemma remove_temporary_shrinks:
  "wd_files (remove_temporary env entries w) p = wd_files w p \<or> wd_files (remove_temporary env entries w) p = None"
proof (induction entries arbitrary: w)
  case (Cons e entries)
  have "wd_files (snd (fs_remove_file env e w)) p = wd_files w p \<or> wd_files (snd (fs_remove_file env e w)) p = None"
    using fs_remove_file_shrinks [of env e w] by (metis prod.collapse)
  with Cons.IH [of "snd (fs_remove_file env e w)"] Cons.IH [of w] show ?case by auto
qed simp

lemma open_cache_shrinks:
  assumes "open_cache env tree config w = (r, w')"
  shows "wd_files w' p = wd_files w p \<or> wd_files w' p = None"
proof -
  let ?m = "doW (fs_create_dir_all env (cc_directory config)) (\<lambda>_.
           doW (outside env (retW ())) (\<lambda>_. outside env (retW ())))"
  obtain r1 w1 where m: "?m w = (r1, w1)" by fastforce
  have w1: "wd_files w1 = wd_files w"
    using m by (auto simp: fs_create_dir_all_def outside_def retW_def doW_def Let_def split: option.splits)
  let ?v = "w1\<lparr>wd_state := empty_cache_state\<rparr>"
  have "wd_files (snd (remove_temporary_files env (tree w1) ?v)) p = wd_files w p
    \<or> wd_files (snd (remove_temporary_files env (tree w1) ?v)) p = None"
  proof (cases rule: remove_temporary_files_cases [of env "tree w1" ?v])
    case (walked paths n)
    then show ?thesis using remove_temporary_shrinks [of env paths "?v\<lparr>wd_clock := n\<rparr>" p] w1 by simp
  qed (simp add: w1)
  moreover have "w' = w1 \<or> w' = snd (remove_temporary_files env (tree w1) ?v)"
    using assms m by (auto simp: open_cache_def split: sum.splits prod.splits)
  ultimately show ?thesis using w1 by auto
qed

lemma registry_new_shrinks:
  assumes "registry_new build parse_duration env tree config w = (r, w')"
  shows "wd_files w' p = wd_files w p \<or> wd_files w' p = None"
proof (cases "st_chunk_cache (cf_storage config)")
  case None
  with assms show ?thesis by (simp add: registry_new_def Let_def)
next
  case (Some cache)
  obtain r1 w1 where o: "open_cache env tree cache w = (r1, w1)" by fastforce
  with Some assms have "w' = w1" by (auto simp: registry_new_def Let_def split: sum.splits)
  with open_cache_shrinks [OF o] show ?thesis by simp
qed

section \<open>A successful run\<close>

lemma run_cases:
  assumes "run su meta_schedule schedule w = Some (Inr sv, w')"
  obtains config storage w1 sockets block_max_age schemas u where
    "startup_config su = Inr config"
    "registry_new (su_build_operator su) (su_parse_duration su) (io_env (su_index su)) (su_cache_tree su) config w = (Inr storage, w1)"
    "startup_sockets su config = Inr sockets"
    "block_max_age_duration (su_parse_duration su) (cf_storage config) = Inr block_max_age"
    "build_block_index (su_index su) (registry_get storage) meta_schedule schedule (cf_repositories config)
       (cf_index_cache_location config) (st_materialize_chunk_index (cf_storage config)) block_max_age w1 = Some (Inr schemas, w')"
    "index_context (su_session su w') (block_index_file_path (cf_index_cache_location config))
       (chunk_index_directory_path (cf_index_cache_location config))
       (series_index_directory_path (cf_index_cache_location config)) schemas storage = (Inr u, sv_session sv)"
    "sv_storage sv = storage"
    "load_blocks (su_store_codec su (sv_session sv) w') = Inr (sv_blocks sv)"
proof -
  from assms obtain config storage w1 where config: "startup_config su = Inr config"
    and storage: "registry_new (su_build_operator su) (su_parse_duration su) (io_env (su_index su)) (su_cache_tree su) config w
      = (Inr storage, w1)"
    by (auto simp: run_def split: sum.splits prod.splits)
  let ?ready = "tryR (startup_sockets su config) (\<lambda>sockets.
      tryR (map_err ConfigurationFailed (block_max_age_duration (su_parse_duration su) (cf_storage config)))
        (\<lambda>block_max_age. Inr (sockets, block_max_age)))"
  from assms config storage obtain sockets block_max_age where ready: "?ready = Inr (sockets, block_max_age)"
    by (cases ?ready) (auto simp: run_def)
  then have parts: "startup_sockets su config = Inr sockets"
    "block_max_age_duration (su_parse_duration su) (cf_storage config) = Inr block_max_age"
    by (auto simp: tryR_eq_Inr map_err_eq_Inr)
  from assms config storage ready obtain r where
    built: "build_block_index (su_index su) (registry_get storage) meta_schedule schedule (cf_repositories config)
       (cf_index_cache_location config) (st_materialize_chunk_index (cf_storage config)) block_max_age w1 = Some (r, w')"
    and served: "tryR (map_err IndexFailed r) (\<lambda>schemas. startup_services su config storage sockets schemas w') = Inr sv"
    by (auto simp: run_def)
  then obtain schemas where r: "r = Inr schemas" and served: "startup_services su config storage sockets schemas w' = Inr sv"
    by (auto simp: tryR_eq_Inr map_err_eq_Inr)
  obtain x c where registered: "index_context (su_session su w') (block_index_file_path (cf_index_cache_location config))
       (chunk_index_directory_path (cf_index_cache_location config))
       (series_index_directory_path (cf_index_cache_location config)) schemas storage = (x, c)" by fastforce
  obtain u where x: "x = Inr u" using served registered by (cases x) (auto simp: startup_services_def split: prod.splits)
  have "sv_session sv = c" "sv_storage sv = storage" "load_blocks (su_store_codec su c w') = Inr (sv_blocks sv)"
    using served registered x by (auto simp: startup_services_def tryR_eq_Inr map_err_eq_Inr split: prod.splits)
  with that config storage parts built r registered x show thesis by blast
qed

text \<open>What a server has started over, when no block is too old.\<close>

lemma run_over_index:
  assumes run: "run su meta_schedule schedule w = Some (Inr sv, w')"
    and config: "startup_config su = Inr config" "st_block_max_age (cf_storage config) = None"
    and parts: "io = su_index su" "location = cf_index_cache_location config"
    and storage: "registry_new (su_build_operator su) (su_parse_duration su) (io_env io) (su_cache_tree su) config w = (Inr storage, w1)"
    and truthful: "cache_truthful io location blocks w"
  obtains schemas u where
    "build_block_index io (registry_get storage) meta_schedule schedule (cf_repositories config) location
       (st_materialize_chunk_index (cf_storage config)) None w1 = Some (Inr schemas, w')"
    "cache_truthful io location blocks w1"
    "index_context (su_session su w') (block_index_file_path location) (chunk_index_directory_path location)
       (series_index_directory_path location) schemas storage = (Inr u, sv_session sv)"
    "load_blocks (su_store_codec su (sv_session sv) w') = Inr (sv_blocks sv)"
  using run
proof (cases rule: run_cases)
  case (1 config' storage' v1 sockets age schemas u)
  have same: "config' = config" "storage' = storage" "v1 = w1" using 1(1,2) config(1) parts(1) storage by simp_all
  have "age = None" using 1(4) config(2) same by (simp add: block_max_age_duration_def)
  moreover have "cache_truthful io location blocks w1"
    by (rule truthful_shrinks [OF truthful]) (rule registry_new_shrinks [OF storage])
  ultimately show thesis using that [of schemas u] 1(5,6,8) same parts by simp
qed

section \<open>The blocks the services load\<close>

definition block_of_row :: "block_index_row \<Rightarrow> block_metadata" where
  "block_of_row row =
     \<lparr>bm_min_time = br_min_time row, bm_max_time = br_max_time row, bm_external_labels = br_external_labels_map row\<rparr>"

lemma block_columns_named:
  "column_by_name (batch_of block_schema (block_columns rows) n) ''min_time'' = Some (Int64Column (map br_min_time rows))"
  "column_by_name (batch_of block_schema (block_columns rows) n) ''max_time'' = Some (Int64Column (map br_max_time rows))"
  "column_by_name (batch_of block_schema (block_columns rows) n) ''external_labels'' = Some (StringColumn (map br_external_labels rows))"
  by (simp_all add: column_by_name_def batch_of_def block_schema_def block_columns_def plain_field_def)

lemma block_rows_read_back:
  assumes "\<forall>row \<in> set rows. labels_from_json (br_external_labels row) = Inr (br_external_labels_map row)"
  shows "blocks_from_batch labels_from_json (batch_of block_schema (block_columns rows) (length rows)) = Inr (map block_of_row rows)"
proof -
  have num: "ba_num_rows (batch_of block_schema (block_columns rows) (length rows)) = length rows" by (simp add: batch_of_def)
  have labels: "labels_from_json (br_external_labels (rows ! i)) = Inr (br_external_labels_map (rows ! i))" if "i < length rows" for i
    using assms that by simp
  have "mapR (\<lambda>index.
         tryR (elem_index (map br_min_time rows) index) (\<lambda>mint.
         tryR (elem_index (map br_max_time rows) index) (\<lambda>maxt.
         tryR (column_string (StringColumn (map br_external_labels rows)) index) (\<lambda>text.
         tryR (map_err (\<lambda>e. Err (JsonFailed e)) (labels_from_json text)) (\<lambda>labels.
           Inr \<lparr>bm_min_time = mint, bm_max_time = maxt, bm_external_labels = labels\<rparr>)))))
         [0..<length rows] = Inr (map (\<lambda>i. block_of_row (rows ! i)) [0..<length rows])"
    by (rule mapR_all_Inr) (simp add: elem_index_def column_string_def labels block_of_row_def)
  then show ?thesis
    by (simp add: blocks_from_batch_def batch_int64s_def batch_strings_def block_columns_named num map_nth
        flip: map_map [unfolded o_def])
qed

lemma finished_rows_json:
  assumes "\<And>task. task \<in> set live \<Longrightarrow> \<exists>built. block_finished io location materialize task built files"
    and "row \<in> row_of io ` set live"
  shows "ix_labels_json (io_codec io) (br_external_labels_map row) = Inr (br_external_labels row)"
proof -
  obtain task where task: "task \<in> set live" "row = row_of io task" using assms(2) by blast
  then obtain built where "block_finished io location materialize task built files" using assms(1) by blast
  then obtain r where r: "index_row (io_codec io) (bb_repository task) (bb_meta task) (bb_block_path task) (bb_meta_path task) = Inr r"
    by (auto simp: block_finished_def entry_right_def)
  with task(2) have "row = r" by (simp add: row_of_def)
  with r show ?thesis by (auto simp: index_row_def Let_def tryR_eq_Inr map_err_eq_Inr)
qed

end
