(* ===== verification/Bootstrap_Props.thy ===== *)
theory Bootstrap_Props
  imports Bootstrap_Facts Block_Example
begin

text \<open>
  The properties of the start: what a server that has started serves, starts that fail early, and inherited
  listeners.
\<close>

section \<open>What a started server serves\<close>


















end
