(* ===== verification/Cache_Flights.thy ===== *)
theory Cache_Flights
  imports Range_Cache
begin

text \<open>
  Concurrent readers of one page cache, \<open>get_page\<close>, \<open>load_cached\<close> and \<open>store_cached\<close> of
  \<open>src/storage/mod.rs\<close> as a state machine: one step of a task or of a shared fetch is what happens between
  two points where another task can run, that is one outside call or one hold of the state lock.

  A file name leads to an inode, and an open file keeps its inode when it is renamed or removed, as in a
  POSIX file system.  \<open>std::fs::write\<close> opens and truncates, then writes; \<open>std::fs::read\<close> is one step.
\<close>

section \<open>States\<close>

text \<open>Where a task in \<open>get_page\<close> is; \<open>Dropped\<close> is a request that was cancelled.\<close>

datatype getter_stage =
    Looking
  | ReadingFile
  | Forgetting
  | Joining
  | Waiting nat
  | Leaving "string + bytes"
  | Answered "string + bytes"
  | Dropped

record getter =
  gt_key :: page_key
  gt_stage :: getter_stage

text \<open>Where the shared future of a miss is; it is \<open>Landed\<close> when its result is there for all who share it.\<close>

datatype flight_stage =
    Statting
  | Fetching nat
  | MakingDirectory bytes
  | Opening bytes
  | Writing bytes nat
  | Renaming bytes
  | Inserting bytes
  | Evicting bytes "page_key list"
  | Landed "string + bytes"

record flight =
  fl_key :: page_key
  fl_stage :: flight_stage

record shared_cache =
  sh_getters :: "getter list"
  sh_flights :: "page_key \<Rightarrow> nat option"
  sh_futures :: "flight list"
  sh_state :: cache_state
  sh_names :: "string \<Rightarrow> nat option"
  sh_inodes :: "bytes list"
  sh_clock :: nat

definition set_getter :: "nat \<Rightarrow> getter_stage \<Rightarrow> shared_cache \<Rightarrow> shared_cache" where
  "set_getter i stage s = s\<lparr>sh_getters := (sh_getters s)[i := (sh_getters s ! i)\<lparr>gt_stage := stage\<rparr>]\<rparr>"

definition set_flight :: "nat \<Rightarrow> flight_stage \<Rightarrow> shared_cache \<Rightarrow> shared_cache" where
  "set_flight f stage s = s\<lparr>sh_futures := (sh_futures s)[f := (sh_futures s ! f)\<lparr>fl_stage := stage\<rparr>]\<rparr>"

text \<open>An outside call: the clock goes on, and the call fails or does its work.\<close>

definition calling :: "env \<Rightarrow> (string \<Rightarrow> shared_cache \<Rightarrow> 'a) \<Rightarrow> (shared_cache \<Rightarrow> 'a) \<Rightarrow> shared_cache \<Rightarrow> 'a" where
  "calling env failed call s =
     (let s' = s\<lparr>sh_clock := sh_clock s + 1\<rparr> in
      case ev_fault env (sh_clock s) of Some e \<Rightarrow> failed e s' | None \<Rightarrow> call s')"

section \<open>One step of a reader\<close>

fun getter_step :: "env \<Rightarrow> range_cache \<Rightarrow> nat \<Rightarrow> page_key \<Rightarrow> getter_stage \<Rightarrow> shared_cache \<Rightarrow> shared_cache" where
  "getter_step env cache i key Looking s =
     (if cs_entries (sh_state s) key = None then set_getter i Joining s
      else set_getter i ReadingFile (s\<lparr>sh_state :=
        touch key (rg_policy cache) (rg_protected_fraction cache) (rg_max_size cache) (sh_state s)\<rparr>))"
| "getter_step env cache i key ReadingFile s =
     calling env (\<lambda>e. set_getter i (Answered (Inl e))) (\<lambda>s.
       case sh_names s (page_path env cache key) of
         None \<Rightarrow> set_getter i Forgetting s
       | Some inode \<Rightarrow> set_getter i (Answered (Inr (sh_inodes s ! inode))) s) s"
| "getter_step env cache i key Forgetting s =
     set_getter i Joining (s\<lparr>sh_state := (sh_state s)\<lparr>cs_entries := (cs_entries (sh_state s))(key := None)\<rparr>\<rparr>)"
| "getter_step env cache i key Joining s =
     (case sh_flights s key of
        Some f \<Rightarrow> set_getter i (Waiting f) s
      | None \<Rightarrow> set_getter i (Waiting (length (sh_futures s)))
          (s\<lparr>sh_flights := (sh_flights s)(key \<mapsto> length (sh_futures s)),
             sh_futures := sh_futures s @ [\<lparr>fl_key = key, fl_stage = Statting\<rparr>]\<rparr>))"
| "getter_step env cache i key (Waiting f) s =
     (case fl_stage (sh_futures s ! f) of Landed r \<Rightarrow> set_getter i (Leaving r) s | _ \<Rightarrow> s)"
| "getter_step env cache i key (Leaving r) s =
     set_getter i (Answered r) (s\<lparr>sh_flights := (sh_flights s)(key := None)\<rparr>)"
| "getter_step env cache i key (Answered r) s = s"
| "getter_step env cache i key Dropped s = s"

section \<open>One step of a shared fetch\<close>

definition landing :: "nat \<Rightarrow> string \<Rightarrow> shared_cache \<Rightarrow> shared_cache" where
  "landing f e = set_flight f (Landed (Inl e))"

fun flight_step :: "env \<Rightarrow> range_cache \<Rightarrow> nat \<Rightarrow> page_key \<Rightarrow> flight_stage \<Rightarrow> shared_cache \<Rightarrow> shared_cache" where
  "flight_step env cache f key Statting s =
     calling env (landing f) (\<lambda>s.
       case ev_objects env (pk_repository key) (pk_path key) of
         None \<Rightarrow> landing f ''not found'' s
       | Some content \<Rightarrow>
           let end_pos = min (u64_wrap (pk_offset key + rg_page_size cache)) (length content) in
           if end_pos \<le> pk_offset key then landing f ''requested cache page starts after object end'' s
           else set_flight f (Fetching end_pos) s) s"
| "flight_step env cache f key (Fetching end_pos) s =
     calling env (landing f) (\<lambda>s.
       case ev_objects env (pk_repository key) (pk_path key) of
         None \<Rightarrow> landing f ''not found'' s
       | Some content \<Rightarrow>
           (case (if end_pos \<le> length content then Inr (slice content (pk_offset key) end_pos)
                  else ev_beyond env content (pk_offset key) end_pos) of
              Inl e \<Rightarrow> landing f e s
            | Inr bs \<Rightarrow>
                if rg_max_size cache < length bs then set_flight f (Landed (Inr bs)) s
                else set_flight f (MakingDirectory bs) s)) s"
| "flight_step env cache f key (MakingDirectory bs) s = calling env (landing f) (set_flight f (Opening bs)) s"
| "flight_step env cache f key (Opening bs) s =
     calling env (landing f) (\<lambda>s.
       case sh_names s (temporary_path env cache key) of
         Some inode \<Rightarrow> set_flight f (Writing bs inode) (s\<lparr>sh_inodes := (sh_inodes s)[inode := []]\<rparr>)
       | None \<Rightarrow> set_flight f (Writing bs (length (sh_inodes s)))
           (s\<lparr>sh_names := (sh_names s)(temporary_path env cache key \<mapsto> length (sh_inodes s)),
              sh_inodes := sh_inodes s @ [[]]\<rparr>)) s"
| "flight_step env cache f key (Writing bs inode) s =
     calling env (landing f) (\<lambda>s. set_flight f (Renaming bs)
       (s\<lparr>sh_inodes := (sh_inodes s)[inode := bs @ drop (length bs) (sh_inodes s ! inode)]\<rparr>)) s"
| "flight_step env cache f key (Renaming bs) s =
     calling env (landing f) (\<lambda>s.
       case sh_names s (temporary_path env cache key) of
         None \<Rightarrow> landing f ''not found'' s
       | Some inode \<Rightarrow> set_flight f (Inserting bs)
           (s\<lparr>sh_names := (sh_names s)(temporary_path env cache key := None, page_path env cache key \<mapsto> inode)\<rparr>)) s"
| "flight_step env cache f key (Inserting bs) s =
     (let (st, evicted) = evict (rg_max_size cache) (insert_page key (length bs) (sh_state s)) in
      set_flight f (Evicting bs evicted) (s\<lparr>sh_state := st\<rparr>))"
| "flight_step env cache f key (Evicting bs []) s = set_flight f (Landed (Inr bs)) s"
| "flight_step env cache f key (Evicting bs (k # ks)) s =
     calling env (\<lambda>_. set_flight f (Evicting bs ks)) (\<lambda>s. set_flight f (Evicting bs ks)
       (s\<lparr>sh_names := (sh_names s)(page_path env cache k := None)\<rparr>)) s"
| "flight_step env cache f key (Landed r) s = s"

section \<open>Runs\<close>

text \<open>A request arrives or is cancelled, a task runs, or a task that waits for a fetch drives it.\<close>

datatype event = Arrive page_key | Cancel nat | Poll nat | Drive nat

definition waits_for :: "nat \<Rightarrow> getter \<Rightarrow> bool" where
  "waits_for f g \<longleftrightarrow> gt_stage g = Waiting f"

fun happen :: "env \<Rightarrow> range_cache \<Rightarrow> event \<Rightarrow> shared_cache \<Rightarrow> shared_cache" where
  "happen env cache (Arrive key) s = s\<lparr>sh_getters := sh_getters s @ [\<lparr>gt_key = key, gt_stage = Looking\<rparr>]\<rparr>"
| "happen env cache (Cancel i) s = (if i < length (sh_getters s) then set_getter i Dropped s else s)"
| "happen env cache (Poll i) s =
     (if i < length (sh_getters s)
      then getter_step env cache i (gt_key (sh_getters s ! i)) (gt_stage (sh_getters s ! i)) s else s)"
| "happen env cache (Drive f) s =
     (if list_ex (waits_for f) (sh_getters s)
      then flight_step env cache f (fl_key (sh_futures s ! f)) (fl_stage (sh_futures s ! f)) s else s)"

text \<open>
  A cache that was just opened: no reader, no fetch, no entry, none of the process's temporary files; page
  files of earlier runs may be there.
\<close>

definition just_opened :: "env \<Rightarrow> range_cache \<Rightarrow> shared_cache \<Rightarrow> bool" where
  "just_opened env cache s \<longleftrightarrow>
     sh_getters s = [] \<and> (\<forall>key. sh_flights s key = None) \<and> sh_futures s = [] \<and> sh_state s = empty_cache_state
     \<and> (\<forall>key. sh_names s (temporary_path env cache key) = None)
     \<and> (\<forall>name inode. sh_names s name = Some inode \<longrightarrow> inode < length (sh_inodes s))"

inductive reachable :: "env \<Rightarrow> range_cache \<Rightarrow> shared_cache \<Rightarrow> bool" for env cache where
  opened: "just_opened env cache s \<Longrightarrow> reachable env cache s"
| happened: "reachable env cache s \<Longrightarrow> reachable env cache (happen env cache ev s)"

end
