(* ===== verification/Cache_Flights_Facts.thy ===== *)
theory Cache_Flights_Facts
  imports Cache_Flights Range_Cache_Facts
begin

text \<open>
  The invariant of concurrent readers: every inode of the cache belongs to one page and holds a beginning of
  it, the names of a page lead to its inodes, and whatever a fetch or a reader holds is its page.
\<close>

section \<open>Entries under concurrency\<close>

lemma demote_dom: "dom (cs_entries (demote limit st)) = dom (cs_entries st)"
proof (induction limit st rule: demote.induct)
  case (1 limit st)
  have set: "dom (cs_entries (set_protected p k st)) = dom (cs_entries st)" for p k
    by (auto simp: set_protected_def split: option.splits)
  show ?case
  proof (cases "limit < protected_bytes st \<and> cs_protected st \<noteq> []")
    case True
    then obtain k rest where "cs_protected st = k # rest" by (cases "cs_protected st") auto
    with 1 True set show ?thesis by (subst demote.simps) simp
  next
    case False
    then show ?thesis by (subst demote.simps) (auto split: list.split)
  qed
qed

lemma touch_dom: "dom (cs_entries (touch key policy fraction max_size st)) = dom (cs_entries st)"
proof -
  have set: "dom (cs_entries (set_protected p k st')) = dom (cs_entries st')" for p k st'
    by (auto simp: set_protected_def split: option.splits)
  show ?thesis by (simp add: touch_def Let_def demote_dom set split: option.split)
qed

lemma evict_dom: "dom (cs_entries (fst (evict max_size st))) \<subseteq> dom (cs_entries st)"
proof (induction max_size st rule: evict.induct)
  case (1 max_size st)
  have pop: "cs_entries st1 = cs_entries st" if "pop_candidate st = Some (k, st1)" for k st1
    using that by (auto simp: pop_candidate_def split: list.splits)
  show ?case
  proof (cases "max_size < cs_bytes st")
    case True
    show ?thesis
    proof (cases "pop_candidate st")
      case None
      then show ?thesis by (subst evict.simps) simp
    next
      case (Some p)
      obtain k st1 where p: "p = (k, st1)" by (cases p)
      note same = pop [OF Some [unfolded p]]
      show ?thesis
      proof (cases "cs_entries st1 k")
        case None
        then show ?thesis
          using "1.IH"(1) [OF True Some p [symmetric] None] same Some p True by (subst evict.simps) simp
      next
        case (Some entry)
        let ?st2 = "st1\<lparr>cs_entries := (cs_entries st1)(k := None), cs_bytes := cs_bytes st1 - pe_size entry\<rparr>"
        have "dom (cs_entries (fst (evict max_size ?st2))) \<subseteq> dom (cs_entries st1)"
          by (rule order_trans [OF "1.IH"(2) [OF True \<open>pop_candidate st = Some p\<close> p [symmetric] Some]]) (auto split: if_splits)
        moreover have "fst (evict max_size st) = fst (evict max_size ?st2)"
          using True \<open>pop_candidate st = Some p\<close> p Some by (subst evict.simps) (simp add: case_prod_beta Let_def)
        ultimately show ?thesis using same by auto
      qed
    qed
  next
    case False
    then show ?thesis by (subst evict.simps) simp
  qed
qed

section \<open>The invariant\<close>

text \<open>\<open>own\<close> says which page an inode was made for; the inodes of earlier runs were made for none.\<close>

definition page_part_of :: "env \<Rightarrow> range_cache \<Rightarrow> page_key \<Rightarrow> bytes \<Rightarrow> bool" where
  "page_part_of env cache key bs \<longleftrightarrow> (\<exists>page n. page_of env cache key = Some page \<and> bs = take n page)"

definition fresh :: "env \<Rightarrow> range_cache \<Rightarrow> (nat \<Rightarrow> page_key option) \<Rightarrow> (string \<Rightarrow> nat option) \<Rightarrow> page_key \<Rightarrow> bool" where
  "fresh env cache own names key \<longleftrightarrow>
     page_of env cache key \<noteq> None \<and> (\<forall>i. names (page_path env cache key) = Some i \<longrightarrow> own i = Some key)"

fun flight_ok :: "env \<Rightarrow> range_cache \<Rightarrow> (nat \<Rightarrow> page_key option) \<Rightarrow> (string \<Rightarrow> nat option) \<Rightarrow> page_key \<Rightarrow> flight_stage \<Rightarrow> bool" where
  "flight_ok env cache own names key Statting = True"
| "flight_ok env cache own names key (Fetching end_pos) =
     (\<exists>content. ev_objects env (pk_repository key) (pk_path key) = Some content \<and> pk_offset key < end_pos
        \<and> end_pos = min (u64_wrap (pk_offset key + rg_page_size cache)) (length content))"
| "flight_ok env cache own names key (MakingDirectory bs) = (page_of env cache key = Some bs)"
| "flight_ok env cache own names key (Opening bs) = (page_of env cache key = Some bs)"
| "flight_ok env cache own names key (Writing bs inode) = (page_of env cache key = Some bs \<and> own inode = Some key)"
| "flight_ok env cache own names key (Renaming bs) = (page_of env cache key = Some bs)"
| "flight_ok env cache own names key (Inserting bs) = (page_of env cache key = Some bs \<and> fresh env cache own names key)"
| "flight_ok env cache own names key (Evicting bs ks) = (page_of env cache key = Some bs)"
| "flight_ok env cache own names key (Landed r) = (\<forall>bs. r = Inr bs \<longrightarrow> page_of env cache key = Some bs)"

fun getter_ok :: "env \<Rightarrow> range_cache \<Rightarrow> (nat \<Rightarrow> page_key option) \<Rightarrow> (string \<Rightarrow> nat option) \<Rightarrow> flight list \<Rightarrow> page_key \<Rightarrow> getter_stage \<Rightarrow> bool" where
  "getter_ok env cache own names futures key ReadingFile = fresh env cache own names key"
| "getter_ok env cache own names futures key (Waiting f) = (f < length futures \<and> fl_key (futures ! f) = key)"
| "getter_ok env cache own names futures key (Leaving r) = (\<forall>bs. r = Inr bs \<longrightarrow> page_part_of env cache key bs)"
| "getter_ok env cache own names futures key (Answered r) = (\<forall>bs. r = Inr bs \<longrightarrow> page_part_of env cache key bs)"
| "getter_ok env cache own names futures key _ = True"

definition shared_ok :: "env \<Rightarrow> range_cache \<Rightarrow> (nat \<Rightarrow> page_key option) \<Rightarrow> shared_cache \<Rightarrow> bool" where
  "shared_ok env cache own s \<longleftrightarrow>
     (\<forall>i key. own i = Some key \<longrightarrow> i < length (sh_inodes s) \<and> page_part_of env cache key (sh_inodes s ! i))
     \<and> (\<forall>key i. page_of env cache key \<noteq> None \<longrightarrow> sh_names s (temporary_path env cache key) = Some i \<longrightarrow> own i = Some key)
     \<and> (\<forall>key. cs_entries (sh_state s) key \<noteq> None \<longrightarrow> fresh env cache own (sh_names s) key)
     \<and> (\<forall>key f. sh_flights s key = Some f \<longrightarrow> f < length (sh_futures s) \<and> fl_key (sh_futures s ! f) = key)
     \<and> (\<forall>f < length (sh_futures s). flight_ok env cache own (sh_names s) (fl_key (sh_futures s ! f)) (fl_stage (sh_futures s ! f)))
     \<and> (\<forall>g \<in> set (sh_getters s). getter_ok env cache own (sh_names s) (sh_futures s) (gt_key g) (gt_stage g))"

section \<open>Keeping it\<close>

lemma shared_ok_clock [simp]: "shared_ok env cache own (s\<lparr>sh_clock := n\<rparr>) = shared_ok env cache own s"
  by (simp add: shared_ok_def)

lemma set_getter_ok:
  assumes "shared_ok env cache own s"
    and "getter_ok env cache own (sh_names s) (sh_futures s) (gt_key (sh_getters s ! i)) stage"
  shows "shared_ok env cache own (set_getter i stage s)"
proof -
  have "set ((sh_getters s)[i := (sh_getters s ! i)\<lparr>gt_stage := stage\<rparr>])
    \<subseteq> insert ((sh_getters s ! i)\<lparr>gt_stage := stage\<rparr>) (set (sh_getters s))" by (rule set_update_subset_insert)
  with assms show ?thesis by (auto simp: shared_ok_def set_getter_def)
qed

lemma getter_ok_futures:
  assumes "getter_ok env cache own names futures key stage" and "length futures \<le> length futures'"
    and "\<And>f. f < length futures \<Longrightarrow> fl_key (futures' ! f) = fl_key (futures ! f)"
  shows "getter_ok env cache own names futures' key stage"
  using assms by (cases stage) auto

lemma set_flight_ok:
  assumes "shared_ok env cache own s" and "f < length (sh_futures s)"
    and "flight_ok env cache own (sh_names s) (fl_key (sh_futures s ! f)) stage"
  shows "shared_ok env cache own (set_flight f stage s)"
proof -
  let ?futures = "(sh_futures s)[f := (sh_futures s ! f)\<lparr>fl_stage := stage\<rparr>]"
  have keys: "fl_key (?futures ! g) = fl_key (sh_futures s ! g)" if "g < length (sh_futures s)" for g
    using that by (cases "g = f") simp_all
  have "getter_ok env cache own (sh_names s) ?futures (gt_key g) (gt_stage g)" if "g \<in> set (sh_getters s)" for g
    by (rule getter_ok_futures [of _ _ _ _ "sh_futures s"]) (use assms(1) that keys in \<open>auto simp: shared_ok_def\<close>)
  moreover have "flight_ok env cache own (sh_names s) (fl_key (?futures ! g)) (fl_stage (?futures ! g))"
    if "g < length (sh_futures s)" for g
    using that assms keys [OF that] by (cases "g = f") (simp_all add: shared_ok_def)
  ultimately show ?thesis using assms(1,2) keys by (simp add: shared_ok_def set_flight_def)
qed

lemma set_state_ok:
  assumes "shared_ok env cache own s"
    and "\<And>key. cs_entries st key \<noteq> None \<Longrightarrow> cs_entries (sh_state s) key \<noteq> None \<or> fresh env cache own (sh_names s) key"
  shows "shared_ok env cache own (s\<lparr>sh_state := st\<rparr>)"
  using assms by (simp add: shared_ok_def) blast

lemma set_files_ok:
  assumes ok: "shared_ok env cache own s"
    and inodes: "\<And>i key. own' i = Some key \<Longrightarrow> i < length inodes \<and> page_part_of env cache key (inodes ! i)"
    and temporaries: "\<And>key i. page_of env cache key \<noteq> None \<Longrightarrow> names (temporary_path env cache key) = Some i \<Longrightarrow> own' i = Some key"
    and kept: "\<And>key. fresh env cache own (sh_names s) key \<Longrightarrow> fresh env cache own' names key"
    and grows: "\<And>i key. own i = Some key \<Longrightarrow> own' i = Some key"
  shows "shared_ok env cache own' (s\<lparr>sh_names := names, sh_inodes := inodes\<rparr>)"
proof -
  have flight: "flight_ok env cache own' names key stage" if "flight_ok env cache own (sh_names s) key stage" for key stage
    using that kept grows by (cases stage) auto
  have getter: "getter_ok env cache own' names futures key stage" if "getter_ok env cache own (sh_names s) futures key stage"
    for futures key stage using that kept by (cases stage) auto
  show ?thesis using ok inodes temporaries kept flight getter by (simp add: shared_ok_def)
qed

lemma page_part_whole: "page_of env cache key = Some bs \<Longrightarrow> page_part_of env cache key bs"
  unfolding page_part_of_def by (intro exI [of _ bs] exI [of _ "length bs"]) simp

lemma calling_cases:
  assumes "\<And>e. P (failed e (s\<lparr>sh_clock := Suc (sh_clock s)\<rparr>))" and "P (call (s\<lparr>sh_clock := Suc (sh_clock s)\<rparr>))"
  shows "P (calling env failed call s)"
  using assms by (simp add: calling_def Let_def split: option.split)

lemma land_flights_ok:
  "shared_ok env cache own s \<Longrightarrow> shared_ok env cache own (s\<lparr>sh_flights := (sh_flights s)(key := None)\<rparr>)"
  by (simp add: shared_ok_def)

lemma start_flight_ok:
  assumes ok: "shared_ok env cache own s"
  shows "shared_ok env cache own (s\<lparr>sh_flights := (sh_flights s)(key \<mapsto> length (sh_futures s)),
    sh_futures := sh_futures s @ [\<lparr>fl_key = key, fl_stage = Statting\<rparr>]\<rparr>)"
proof -
  let ?futures = "sh_futures s @ [\<lparr>fl_key = key, fl_stage = Statting\<rparr>]"
  have "getter_ok env cache own (sh_names s) ?futures (gt_key g) (gt_stage g)" if "g \<in> set (sh_getters s)" for g
    by (rule getter_ok_futures [of _ _ _ _ "sh_futures s"]) (use ok that in \<open>auto simp: shared_ok_def nth_append\<close>)
  then show ?thesis using ok by (auto simp: shared_ok_def nth_append less_Suc_eq)
qed

section \<open>Every step of a reader\<close>

lemma getter_step_ok:
  assumes ok: "shared_ok env cache own s" and i: "i < length (sh_getters s)"
    and g: "sh_getters s ! i = \<lparr>gt_key = key, gt_stage = stage\<rparr>"
  shows "shared_ok env cache own (getter_step env cache i key stage s)"
proof -
  have at: "getter_ok env cache own (sh_names s) (sh_futures s) key stage"
    using ok nth_mem [OF i] g by (auto simp: shared_ok_def)
  show ?thesis
  proof (cases stage)
    case Looking
    show ?thesis
    proof (cases "cs_entries (sh_state s) key")
      case None
      with ok Looking show ?thesis by (simp add: set_getter_ok)
    next
      case (Some entry)
      then have fresh: "fresh env cache own (sh_names s) key" using ok by (simp add: shared_ok_def)
      let ?s = "s\<lparr>sh_state := touch key (rg_policy cache) (rg_protected_fraction cache) (rg_max_size cache) (sh_state s)\<rparr>"
      have "shared_ok env cache own ?s"
        by (rule set_state_ok [OF ok]) (use touch_dom in \<open>fastforce simp: dom_def set_eq_iff\<close>)
      then have "shared_ok env cache own (set_getter i ReadingFile ?s)"
        by (rule set_getter_ok) (simp add: fresh g)
      with Looking Some show ?thesis by simp
    qed
  next
    case ReadingFile
    have page: "page_part_of env cache key (sh_inodes s ! inode)" if "sh_names s (page_path env cache key) = Some inode" for inode
      using at ReadingFile that ok by (auto simp: fresh_def shared_ok_def)
    show ?thesis unfolding ReadingFile getter_step.simps
      by (rule calling_cases) (auto intro!: set_getter_ok simp: ok g page split: option.split)
  next
    case Forgetting
    have "shared_ok env cache own (s\<lparr>sh_state := (sh_state s)\<lparr>cs_entries := (cs_entries (sh_state s))(key := None)\<rparr>\<rparr>)"
      by (rule set_state_ok [OF ok]) (simp split: if_splits)
    with Forgetting show ?thesis by (simp add: set_getter_ok)
  next
    case Joining
    have "f < length (sh_futures s) \<and> fl_key (sh_futures s ! f) = key" if "sh_flights s key = Some f" for f
      using ok that by (simp add: shared_ok_def)
    with Joining start_flight_ok [OF ok, of key] show ?thesis
      by (auto intro!: set_getter_ok simp: ok g split: option.split)
  next
    case (Waiting f)
    have "flight_ok env cache own (sh_names s) key (fl_stage (sh_futures s ! f))"
      using at Waiting ok by (auto simp: shared_ok_def)
    with Waiting show ?thesis
      by (auto intro!: set_getter_ok simp: ok g page_part_whole split: flight_stage.split)
  next
    case (Leaving r)
    with at g show ?thesis by (auto intro!: set_getter_ok land_flights_ok simp: ok)
  qed (simp_all add: ok)
qed

section \<open>Every step of a fetch\<close>

lemma temporary_path_inj:
  assumes "env_ok env cache" and "page_of env cache k \<noteq> None" and "page_of env cache k' \<noteq> None"
    and "temporary_path env cache k = temporary_path env cache k'"
  shows "k = k'"
  using assms page_path_inj by (auto simp: temporary_path_def)

lemma fetched_page:
  assumes "env_ok env cache" and "ev_objects env (pk_repository key) (pk_path key) = Some content"
    and "end_pos = min (u64_wrap (pk_offset key + rg_page_size cache)) (length content)" and "pk_offset key < end_pos"
  shows "page_of env cache key = Some (slice content (pk_offset key) end_pos)" and "end_pos \<le> length content"
proof -
  have len: "length content + rg_page_size cache < 2 ^ 63" using assms(1,2) by (auto simp: env_ok_def)
  have off: "pk_offset key < length content" using assms(3,4) by simp
  with len have "u64_wrap (pk_offset key + rg_page_size cache) = pk_offset key + rg_page_size cache"
    by (simp add: u64_wrap_def)
  with assms off show "page_of env cache key = Some (slice content (pk_offset key) end_pos)"
    by (simp add: page_of_def page_end_def)
  show "end_pos \<le> length content" using assms(3) by simp
qed

lemma flight_step_ok:
  assumes env: "env_ok env cache" and ok: "shared_ok env cache own s" and f: "f < length (sh_futures s)"
    and fl: "sh_futures s ! f = \<lparr>fl_key = key, fl_stage = stage\<rparr>"
  shows "\<exists>own'. shared_ok env cache own' (flight_step env cache f key stage s)"
proof -
  have at: "flight_ok env cache own (sh_names s) key stage" using ok f fl by (auto simp: shared_ok_def)
  let ?s = "s\<lparr>sh_clock := Suc (sh_clock s)\<rparr>"
  have okc: "shared_ok env cache own ?s" using ok by simp
  have set: "shared_ok env cache own (set_flight f stage' ?s)" if "flight_ok env cache own (sh_names s) key stage'" for stage'
    by (rule set_flight_ok [OF okc]) (use f fl that in simp_all)
  have land: "shared_ok env cache own (landing f e ?s)" for e
    unfolding landing_def by (rule set) simp
  show ?thesis
  proof (cases stage)
    case Statting
    show ?thesis unfolding Statting flight_step.simps
      by (rule exI [of _ own], rule calling_cases [where P = "shared_ok env cache own"]) (auto intro!: land set simp: Let_def split: option.split)
  next
    case (Fetching end_pos)
    then obtain content where content: "ev_objects env (pk_repository key) (pk_path key) = Some content"
      and e: "pk_offset key < end_pos" "end_pos = min (u64_wrap (pk_offset key + rg_page_size cache)) (length content)"
      using at by auto
    note page = fetched_page [OF env content e(2,1)]
    show ?thesis unfolding Fetching flight_step.simps
      by (rule exI [of _ own], rule calling_cases [where P = "shared_ok env cache own"]) (auto intro!: land set simp: content page)
  next
    case (MakingDirectory bs)
    with at have "shared_ok env cache own (set_flight f (Opening bs) ?s)" by (intro set) simp
    with land show ?thesis unfolding MakingDirectory flight_step.simps
      by (intro exI [of _ own] calling_cases [where P = "shared_ok env cache own"]) simp_all
  next
    case (Evicting bs ks)
    show ?thesis
    proof (cases ks)
      case Nil
      have "shared_ok env cache own (set_flight f (Landed (Inr bs)) s)"
        by (rule set_flight_ok [OF ok f]) (use at Evicting fl in simp)
      with Evicting Nil show ?thesis by auto
    next
      case (Cons k ks')
      have files: "shared_ok env cache own (?s\<lparr>sh_names := (sh_names s)(page_path env cache k := None), sh_inodes := sh_inodes s\<rparr>)"
        by (rule set_files_ok [OF okc]) (use ok in \<open>auto simp: shared_ok_def fresh_def split: if_splits\<close>)
      have "shared_ok env cache own (set_flight f (Evicting bs ks')
          (?s\<lparr>sh_names := (sh_names s)(page_path env cache k := None), sh_inodes := sh_inodes s\<rparr>))"
        by (rule set_flight_ok [OF files]) (use f fl at Evicting in simp_all)
      moreover have "?s\<lparr>sh_names := n, sh_inodes := sh_inodes s\<rparr> = ?s\<lparr>sh_names := n\<rparr>" for n by simp
      moreover have "shared_ok env cache own (set_flight f (Evicting bs ks') ?s)"
        by (rule set) (use at Evicting in simp)
      ultimately show ?thesis
        unfolding Evicting Cons flight_step.simps
        by (intro exI [of _ own] calling_cases [where P = "shared_ok env cache own"]) simp_all
    qed
  next
    case (Inserting bs)
    obtain st ev where ev: "evict (rg_max_size cache) (insert_page key (length bs) (sh_state s)) = (st, ev)" by fastforce
    have "dom (cs_entries st) \<subseteq> insert key (dom (cs_entries (sh_state s)))"
      using evict_dom [of "rg_max_size cache" "insert_page key (length bs) (sh_state s)"] ev
      by (auto simp: insert_page_def)
    then have "shared_ok env cache own (s\<lparr>sh_state := st\<rparr>)"
      by (intro set_state_ok [OF ok]) (use at Inserting in auto)
    then have "shared_ok env cache own (set_flight f (Evicting bs ev) (s\<lparr>sh_state := st\<rparr>))"
      by (rule set_flight_ok) (use f fl at Inserting in simp_all)
    with Inserting ev show ?thesis by auto
  next
    case (Landed r)
    with ok show ?thesis by auto
  next
    case (Renaming bs)
    have page: "page_of env cache key = Some bs" using at Renaming by simp
    have renamed: "shared_ok env cache own (set_flight f (Inserting bs) (?s\<lparr>sh_names := (sh_names s)
        (temporary_path env cache key := None, page_path env cache key \<mapsto> inode), sh_inodes := sh_inodes s\<rparr>))"
      if named: "sh_names s (temporary_path env cache key) = Some inode" for inode
    proof -
      let ?names = "(sh_names s)(temporary_path env cache key := None, page_path env cache key \<mapsto> inode)"
      have own: "own inode = Some key" using ok page named by (simp add: shared_ok_def)
      have kept: "fresh env cache own ?names k" if "k = key \<or> fresh env cache own (sh_names s) k" for k
        using that own page page_path_inj [OF env, of k key] by (auto simp: fresh_def)
      have "shared_ok env cache own (?s\<lparr>sh_names := ?names, sh_inodes := sh_inodes s\<rparr>)"
        by (rule set_files_ok [OF okc])
           (use ok kept temporary_path_fresh [OF env] in \<open>auto simp: shared_ok_def split: if_splits\<close>)
      then show ?thesis by (rule set_flight_ok) (use f fl page kept in simp_all)
    qed
    show ?thesis unfolding Renaming flight_step.simps
      by (rule exI [of _ own], rule calling_cases [where P = "shared_ok env cache own"]) (use land renamed in \<open>auto split: option.split\<close>)
  next
    case (Opening bs)
    have page: "page_of env cache key = Some bs" using at Opening by simp
    have empty: "page_part_of env cache key []" unfolding page_part_of_def using page by (intro exI [of _ bs] exI [of _ 0]) simp
    have old: "shared_ok env cache own (set_flight f (Writing bs inode)
        (?s\<lparr>sh_names := sh_names s, sh_inodes := (sh_inodes s)[inode := []]\<rparr>))"
      if named: "sh_names s (temporary_path env cache key) = Some inode" for inode
    proof -
      have own: "own inode = Some key" using ok page named by (simp add: shared_ok_def)
      have "shared_ok env cache own (?s\<lparr>sh_names := sh_names s, sh_inodes := (sh_inodes s)[inode := []]\<rparr>)"
        by (rule set_files_ok [OF okc]) (use ok own empty in \<open>auto simp: shared_ok_def nth_list_update\<close>)
      then show ?thesis by (rule set_flight_ok) (use f fl page own in simp_all)
    qed
    let ?n = "length (sh_inodes s)"
    let ?own = "own(?n \<mapsto> key)"
    have unowned: "own ?n = None"
    proof (cases "own ?n")
      case (Some k)
      then have "?n < length (sh_inodes s)" using ok unfolding shared_ok_def by blast
      then show ?thesis by simp
    qed simp
    have new: "shared_ok env cache ?own (set_flight f (Writing bs ?n) (?s\<lparr>
        sh_names := (sh_names s)(temporary_path env cache key \<mapsto> ?n), sh_inodes := sh_inodes s @ [[]]\<rparr>))"
    proof -
      have "shared_ok env cache ?own (?s\<lparr>sh_names := (sh_names s)(temporary_path env cache key \<mapsto> ?n), sh_inodes := sh_inodes s @ [[]]\<rparr>)"
      proof (rule set_files_ok [OF okc])
        show grows: "?own i = Some k" if "own i = Some k" for i k using that unowned by auto
        show "i < length (sh_inodes s @ [[]]) \<and> page_part_of env cache k ((sh_inodes s @ [[]]) ! i)" if "?own i = Some k" for i k
          using that ok empty by (cases "i = ?n") (auto simp: shared_ok_def nth_append less_Suc_eq)
        show "?own i = Some k" if "page_of env cache k \<noteq> None"
          and "((sh_names s)(temporary_path env cache key \<mapsto> ?n)) (temporary_path env cache k) = Some i" for k i
        proof (cases "temporary_path env cache k = temporary_path env cache key")
          case True
          with temporary_path_inj [OF env that(1)] page that(2) show ?thesis by auto
        next
          case False
          with that ok have "own i = Some k" by (simp add: shared_ok_def)
          then show ?thesis by (rule grows)
        qed
        show "fresh env cache ?own ((sh_names s)(temporary_path env cache key \<mapsto> ?n)) k"
          if "fresh env cache own (sh_names ?s) k" for k
          using that temporary_path_fresh [OF env, of key k] grows by (auto simp: fresh_def)
      qed
      then show ?thesis by (rule set_flight_ok) (use f fl page in simp_all)
    qed
    show ?thesis
    proof (cases "sh_names s (temporary_path env cache key)")
      case None
      with new land show ?thesis unfolding Opening flight_step.simps
        by (intro calling_cases [where P = "\<lambda>s. \<exists>own'. shared_ok env cache own' s"]) auto
    next
      case (Some inode)
      with old land show ?thesis unfolding Opening flight_step.simps
        by (intro exI [of _ own] calling_cases [where P = "shared_ok env cache own"]) auto
    qed
  next
    case (Writing bs inode)
    have page: "page_of env cache key = Some bs" and own: "own inode = Some key" using at Writing by simp_all
    have "\<forall>i key. own i = Some key \<longrightarrow> page_part_of env cache key (sh_inodes s ! i)" using ok by (simp add: shared_ok_def)
    then obtain n where "sh_inodes s ! inode = take n bs" using page own by (fastforce simp: page_part_of_def)
    then have whole: "bs @ drop (length bs) (sh_inodes s ! inode) = bs" by simp
    have "shared_ok env cache own (?s\<lparr>sh_names := sh_names s, sh_inodes := (sh_inodes s)[inode := bs]\<rparr>)"
      by (rule set_files_ok [OF okc]) (use ok own page_part_whole [OF page] in \<open>auto simp: shared_ok_def nth_list_update\<close>)
    then have "shared_ok env cache own (set_flight f (Renaming bs)
        (?s\<lparr>sh_names := sh_names s, sh_inodes := (sh_inodes s)[inode := bs]\<rparr>))"
      by (rule set_flight_ok) (use f fl page in simp_all)
    with land whole show ?thesis unfolding Writing flight_step.simps
      by (intro exI [of _ own] calling_cases [where P = "shared_ok env cache own"]) simp_all
  qed
qed

section \<open>Every reachable state\<close>

lemma happen_ok:
  assumes env: "env_ok env cache" and ok: "shared_ok env cache own s"
  shows "\<exists>own'. shared_ok env cache own' (happen env cache ev s)"
proof (cases ev)
  case (Arrive key)
  with ok show ?thesis by (intro exI [of _ own]) (auto simp: shared_ok_def)
next
  case (Cancel i)
  with ok show ?thesis by (intro exI [of _ own]) (simp add: set_getter_ok)
next
  case (Poll i)
  with getter_step_ok [OF ok, of i] ok show ?thesis by (intro exI [of _ own]) simp
next
  case (Drive f)
  show ?thesis
  proof (cases "list_ex (waits_for f) (sh_getters s)")
    case True
    then obtain g where "g \<in> set (sh_getters s)" "gt_stage g = Waiting f" by (auto simp: list_ex_iff waits_for_def)
    then have "f < length (sh_futures s)" using ok by (fastforce simp: shared_ok_def)
    with flight_step_ok [OF env ok this] True Drive show ?thesis by simp
  next
    case False
    with Drive ok show ?thesis by auto
  qed
qed

lemma reachable_ok: "reachable env cache s \<Longrightarrow> env_ok env cache \<Longrightarrow> \<exists>own. shared_ok env cache own s"
proof (induction rule: reachable.induct)
  case (opened s)
  then have "shared_ok env cache (\<lambda>_. None) s"
    by (simp add: just_opened_def shared_ok_def empty_cache_state_def)
  then show ?case by blast
next
  case (happened s ev)
  then show ?case using happen_ok by blast
qed

section \<open>Progress\<close>

text \<open>How far a fetch is from landing: its phase, and the files it still has to remove.\<close>

fun flight_rank :: "flight_stage \<Rightarrow> nat \<times> nat" where
  "flight_rank Statting = (8, 0)"
| "flight_rank (Fetching _) = (7, 0)"
| "flight_rank (MakingDirectory _) = (6, 0)"
| "flight_rank (Opening _) = (5, 0)"
| "flight_rank (Writing _ _) = (4, 0)"
| "flight_rank (Renaming _) = (3, 0)"
| "flight_rank (Inserting _) = (2, 0)"
| "flight_rank (Evicting _ ks) = (1, length ks)"
| "flight_rank (Landed _) = (0, 0)"

definition landed :: "flight_stage \<Rightarrow> bool" where
  "landed stage \<longleftrightarrow> (\<exists>r. stage = Landed r)"

text \<open>What a step of fetch \<open>f\<close> leaves: the readers, the other fetches, a smaller rank.\<close>

definition flies :: "nat \<Rightarrow> flight_stage \<Rightarrow> shared_cache \<Rightarrow> shared_cache \<Rightarrow> bool" where
  "flies f stage s s' \<longleftrightarrow> sh_getters s' = sh_getters s \<and> length (sh_futures s') = length (sh_futures s)
     \<and> (flight_rank (fl_stage (sh_futures s' ! f)), flight_rank stage) \<in> less_than <*lex*> less_than"

lemma flies_set:
  assumes "f < length (sh_futures s)" and "sh_getters s1 = sh_getters s" and "sh_futures s1 = sh_futures s"
    and "(flight_rank stage', flight_rank stage) \<in> less_than <*lex*> less_than"
  shows "flies f stage s (set_flight f stage' s1)"
  using assms by (simp add: flies_def set_flight_def)

lemma flight_step_flies:
  assumes f: "f < length (sh_futures s)" and "\<not> landed stage"
  shows "flies f stage s (flight_step env cache f key stage s)"
proof -
  note fly = flies_set [OF f]
  have land: "flies f stage s (landing f e (s\<lparr>sh_clock := sh_clock s + 1\<rparr>))" for e
    unfolding landing_def by (rule fly) (use assms(2) in \<open>cases stage; simp add: landed_def\<close>)+
  show ?thesis
  proof (cases stage)
    case Statting
    show ?thesis using land unfolding Statting flight_step.simps
      by (intro calling_cases [where P = "flies f Statting s"]) (auto intro!: fly simp: Let_def split: option.split)
  next
    case (Fetching e)
    show ?thesis using land unfolding Fetching flight_step.simps
      by (intro calling_cases [where P = "flies f (Fetching e) s"]) (auto intro!: fly split: option.split sum.split)
  next
    case (MakingDirectory bs)
    show ?thesis using land unfolding MakingDirectory flight_step.simps
      by (intro calling_cases [where P = "flies f (MakingDirectory bs) s"]) (auto intro!: fly)
  next
    case (Opening bs)
    show ?thesis using land unfolding Opening flight_step.simps
      by (intro calling_cases [where P = "flies f (Opening bs) s"]) (auto intro!: fly split: option.split)
  next
    case (Writing bs i)
    show ?thesis using land unfolding Writing flight_step.simps
      by (intro calling_cases [where P = "flies f (Writing bs i) s"]) (auto intro!: fly)
  next
    case (Renaming bs)
    show ?thesis using land unfolding Renaming flight_step.simps
      by (intro calling_cases [where P = "flies f (Renaming bs) s"]) (auto intro!: fly split: option.split)
  next
    case (Inserting bs)
    show ?thesis unfolding Inserting flight_step.simps Let_def by (auto intro!: fly split: prod.split)
  next
    case (Evicting bs ks)
    show ?thesis
    proof (cases ks)
      case Nil
      then show ?thesis unfolding Evicting by (auto intro!: fly)
    next
      case (Cons k ks')
      show ?thesis unfolding Evicting Cons flight_step.simps
        by (rule calling_cases [where P = "flies f (Evicting bs (k # ks')) s"]) (auto intro!: fly)
    qed
  next
    case (Landed r)
    with assms(2) show ?thesis by (simp add: landed_def)
  qed
qed

lemma flight_lands:
  assumes "list_ex (waits_for f) (sh_getters s)" and "f < length (sh_futures s)"
  shows "\<exists>n. let s' = fold (happen env cache) (replicate n (Drive f)) s in
    sh_getters s' = sh_getters s \<and> landed (fl_stage (sh_futures s' ! f))"
  using assms
proof (induction "flight_rank (fl_stage (sh_futures s ! f))" arbitrary: s
    rule: wf_induct_rule [OF wf_lex_prod [OF wf_less_than wf_less_than]])
  case (1 s)
  show ?case
  proof (cases "landed (fl_stage (sh_futures s ! f))")
    case True
    then show ?thesis by (intro exI [of _ 0]) simp
  next
    case False
    let ?s = "happen env cache (Drive f) s"
    have "flies f (fl_stage (sh_futures s ! f)) s ?s"
      using flight_step_flies [OF 1(3) False, of env cache "fl_key (sh_futures s ! f)"] 1(2) by simp
    then have same: "sh_getters ?s = sh_getters s" "f < length (sh_futures ?s)"
      and less: "(flight_rank (fl_stage (sh_futures ?s ! f)), flight_rank (fl_stage (sh_futures s ! f))) \<in> less_than <*lex*> less_than"
      using 1(3) unfolding flies_def by auto
    from 1(1) [OF less] same 1(2) obtain n where
      "let s' = fold (happen env cache) (replicate n (Drive f)) ?s in
        sh_getters s' = sh_getters ?s \<and> landed (fl_stage (sh_futures s' ! f))" by auto
    with same(1) show ?thesis by (intro exI [of _ "Suc n"]) simp
  qed
qed

text \<open>Where a reader is after it has run and the fetch it waits for was driven.\<close>

definition own_event :: "nat \<Rightarrow> event \<Rightarrow> bool" where
  "own_event i ev \<longleftrightarrow> ev = Poll i \<or> (\<exists>f. ev = Drive f)"

definition settled :: "getter_stage \<Rightarrow> bool" where
  "settled stage \<longleftrightarrow> stage = Dropped \<or> (\<exists>r. stage = Answered r)"

definition settles :: "env \<Rightarrow> range_cache \<Rightarrow> nat \<Rightarrow> shared_cache \<Rightarrow> bool" where
  "settles env cache i s \<longleftrightarrow> (\<exists>evs. list_all (own_event i) evs
     \<and> settled (gt_stage (sh_getters (fold (happen env cache) evs s) ! i)))"

lemma settles_now: "settled (gt_stage (sh_getters s ! i)) \<Longrightarrow> settles env cache i s"
  unfolding settles_def by (intro exI [of _ "[]"]) simp

lemma settles_later:
  assumes "settles env cache i (fold (happen env cache) evs s)" and "list_all (own_event i) evs"
  shows "settles env cache i s"
proof -
  obtain evs' where "list_all (own_event i) evs'"
    "settled (gt_stage (sh_getters (fold (happen env cache) evs' (fold (happen env cache) evs s)) ! i))"
    using assms(1) by (auto simp: settles_def)
  with assms(2) show ?thesis unfolding settles_def by (intro exI [of _ "evs @ evs'"]) simp
qed

lemma settles_polled:
  assumes "settles env cache i (getter_step env cache i (gt_key (sh_getters s ! i)) (gt_stage (sh_getters s ! i)) s)"
    and "i < length (sh_getters s)"
  shows "settles env cache i s"
  by (rule settles_later [of _ _ _ "[Poll i]"]) (use assms in \<open>simp_all add: own_event_def\<close>)

lemma set_getter_at [simp]:
  "length (sh_getters (set_getter i stage s)) = length (sh_getters s)"
  "i < length (sh_getters s) \<Longrightarrow> gt_stage (sh_getters (set_getter i stage s) ! i) = stage"
  "i < length (sh_getters s) \<Longrightarrow> gt_key (sh_getters (set_getter i stage s) ! i) = gt_key (sh_getters s ! i)"
  "sh_futures (set_getter i stage s) = sh_futures s"
  "sh_flights (set_getter i stage s) = sh_flights s"
  by (simp_all add: set_getter_def)

lemma leaving_settles:
  assumes "i < length (sh_getters s)" and "gt_stage (sh_getters s ! i) = Leaving r"
  shows "settles env cache i s"
  by (rule settles_polled [OF settles_now]) (use assms in \<open>simp_all add: settled_def\<close>)

lemma waiting_settles:
  assumes i: "i < length (sh_getters s)" and stage: "gt_stage (sh_getters s ! i) = Waiting f" and f: "f < length (sh_futures s)"
  shows "settles env cache i s"
proof -
  have "list_ex (waits_for f) (sh_getters s)"
    using nth_mem [OF i] stage by (auto simp: list_ex_iff waits_for_def)
  from flight_lands [OF this f, of env cache] obtain n where
    run: "let s' = fold (happen env cache) (replicate n (Drive f)) s in
      sh_getters s' = sh_getters s \<and> landed (fl_stage (sh_futures s' ! f))" by blast
  define s' where "s' = fold (happen env cache) (replicate n (Drive f)) s"
  have same: "sh_getters s' = sh_getters s" "landed (fl_stage (sh_futures s' ! f))"
    using run by (simp_all add: s'_def Let_def)
  then obtain r where landed: "fl_stage (sh_futures s' ! f) = Landed r" by (auto simp: landed_def)
  have "settles env cache i s'"
    by (rule settles_polled, simp add: same stage landed, rule leaving_settles) (use i same in simp_all)
  then show ?thesis unfolding s'_def
    by (rule settles_later) (simp add: list_all_iff own_event_def)
qed

lemma joining_settles:
  assumes i: "i < length (sh_getters s)" and stage: "gt_stage (sh_getters s ! i) = Joining"
    and flights: "\<And>f. sh_flights s (gt_key (sh_getters s ! i)) = Some f \<Longrightarrow> f < length (sh_futures s)"
  shows "settles env cache i s"
proof (rule settles_polled [OF _ i])
  show "settles env cache i (getter_step env cache i (gt_key (sh_getters s ! i)) (gt_stage (sh_getters s ! i)) s)"
    unfolding stage getter_step.simps
    by (auto split: option.split intro!: waiting_settles simp: i flights)
qed

lemma reader_settles:
  assumes ok: "shared_ok env cache own s" and i: "i < length (sh_getters s)"
  shows "settles env cache i s"
proof -
  have flights: "f < length (sh_futures s)" if "sh_flights s key = Some f" for key f
    using ok that unfolding shared_ok_def by blast
  have at: "getter_ok env cache own (sh_names s) (sh_futures s) (gt_key (sh_getters s ! i)) (gt_stage (sh_getters s ! i))"
    using ok nth_mem [OF i] by (auto simp: shared_ok_def)
  have forget: "settles env cache i v" if "gt_stage (sh_getters v ! i) = Forgetting" "i < length (sh_getters v)"
    "sh_flights v = sh_flights s" "sh_futures v = sh_futures s" for v
    by (rule settles_polled [OF _ that(2)], unfold that(1) getter_step.simps, rule joining_settles)
       (use that flights in \<open>simp_all add: set_getter_def\<close>)
  have reading: "settles env cache i v" if "gt_stage (sh_getters v ! i) = ReadingFile" "i < length (sh_getters v)"
    "sh_flights v = sh_flights s" "sh_futures v = sh_futures s" for v
  proof (rule settles_polled [OF _ that(2)], unfold that(1) getter_step.simps, rule calling_cases [where P = "settles env cache i"])
    let ?v = "v\<lparr>sh_clock := Suc (sh_clock v)\<rparr>"
    show "settles env cache i (set_getter i (Answered (Inl e)) ?v)" for e
      by (rule settles_now) (simp add: that settled_def)
    have "settles env cache i (set_getter i (Answered r) ?v)" for r
      by (rule settles_now) (simp add: that settled_def)
    moreover have "settles env cache i (set_getter i Forgetting ?v)"
      by (rule forget) (simp_all add: that set_getter_def)
    ultimately show "settles env cache i (case sh_names ?v (page_path env cache (gt_key (sh_getters v ! i))) of
        None \<Rightarrow> set_getter i Forgetting ?v
      | Some inode \<Rightarrow> set_getter i (Answered (Inr (sh_inodes ?v ! inode))) ?v)" by (simp split: option.split)
  qed
  show ?thesis
  proof (cases "gt_stage (sh_getters s ! i)")
    case Looking
    show ?thesis
    proof (rule settles_polled [OF _ i], unfold Looking getter_step.simps if_split, intro conjI impI)
      show "settles env cache i (set_getter i Joining s)"
        by (rule joining_settles) (use i flights in simp_all)
      show "settles env cache i (set_getter i ReadingFile (s\<lparr>sh_state := st\<rparr>))" for st
        by (rule reading) (use i in \<open>simp_all add: set_getter_def\<close>)
    qed
  next
    case (Waiting f)
    with at show ?thesis by (intro waiting_settles [OF i Waiting]) simp
  next
    case Joining
    then show ?thesis using flights by (rule joining_settles [OF i])
  next
    case (Leaving r)
    then show ?thesis by (rule leaving_settles [OF i])
  next
    case ReadingFile
    then show ?thesis using i by (rule reading) simp_all
  next
    case Forgetting
    then show ?thesis using i by (rule forget) simp_all
  next
    case (Answered r)
    then show ?thesis by (intro settles_now) (simp add: settled_def)
  next
    case Dropped
    then show ?thesis by (intro settles_now) (simp add: settled_def)
  qed
qed

end
