(* ===== verification/Cache_Lone_Facts.thy ===== *)
theory Cache_Lone_Facts
  imports Cache_Flights_Facts
begin

text \<open>
  The state machine of the page cache simulates the operations that run to their end: a reader that runs
  alone through the steps of \<open>Cache_Flights\<close> does what \<open>get_page\<close> of \<open>Range_Cache\<close> does.  The machine
  opens and writes a file in two calls, so a failure of a later call comes one call later (\<open>late_faults\<close>).
\<close>

section \<open>The files of a state\<close>

definition files_of :: "shared_cache \<Rightarrow> string \<Rightarrow> bytes option" where
  "files_of s name = map_option ((!) (sh_inodes s)) (sh_names s name)"

text \<open>No two names lead to one inode.\<close>

definition tidy :: "shared_cache \<Rightarrow> bool" where
  "tidy s \<longleftrightarrow> inj_on (sh_names s) (dom (sh_names s)) \<and> (\<forall>name inode. sh_names s name = Some inode \<longrightarrow> inode < length (sh_inodes s))"

definition sim :: "world \<Rightarrow> shared_cache \<Rightarrow> bool" where
  "sim w s \<longleftrightarrow> wd_state w = sh_state s \<and> wd_files w = files_of s \<and> tidy s"

definition late_faults :: "nat \<Rightarrow> env \<Rightarrow> env" where
  "late_faults k env = env\<lparr>ev_fault := (\<lambda>n. if n \<le> k then ev_fault env n else if n = k + 1 then None else ev_fault env (n - 1))\<rparr>"

lemma late_faults_simps [simp]:
  "ev_objects (late_faults k env) = ev_objects env"
  "ev_beyond (late_faults k env) = ev_beyond env"
  "page_path (late_faults k env) = page_path env"
  "temporary_path (late_faults k env) = temporary_path env"
  "n \<le> k \<Longrightarrow> ev_fault (late_faults k env) n = ev_fault env n"
  "ev_fault (late_faults k env) (Suc k) = None"
  "k < n \<Longrightarrow> ev_fault (late_faults k env) (Suc n) = ev_fault env n"
  by (simp_all add: late_faults_def page_path_def temporary_path_def page_digest_def fun_eq_iff)

lemma tidy_fresh:
  assumes "tidy s" and "sh_names s name = None"
  shows "tidy (s\<lparr>sh_names := (sh_names s)(name \<mapsto> length (sh_inodes s)), sh_inodes := sh_inodes s @ [bs]\<rparr>)"
  using assms unfolding tidy_def inj_on_def by (auto simp: dom_def less_SucI split: if_splits) (metis less_irrefl)

lemma tidy_removed: "tidy s \<Longrightarrow> tidy (s\<lparr>sh_names := (sh_names s)(name := None)\<rparr>)"
  unfolding tidy_def inj_on_def by (auto simp: dom_def)

lemma tidy_renamed:
  assumes "tidy s" and "sh_names s a = Some inode"
  shows "tidy (s\<lparr>sh_names := (sh_names s)(a := None, b \<mapsto> inode)\<rparr>)"
  using assms unfolding tidy_def inj_on_def by (auto simp: dom_def split: if_splits)

lemma tidy_same [simp]:
  "tidy (s\<lparr>sh_clock := n\<rparr>) = tidy s" "tidy (s\<lparr>sh_state := st\<rparr>) = tidy s" "tidy (s\<lparr>sh_inodes := (sh_inodes s)[i := bs]\<rparr>) = tidy s"
  by (simp_all add: tidy_def)

lemma tidy_written:
  assumes "tidy s" and "sh_names s name = Some inode"
  shows "files_of (s\<lparr>sh_inodes := (sh_inodes s)[inode := bs]\<rparr>) = (files_of s)(name \<mapsto> bs)"
proof
  fix x show "files_of (s\<lparr>sh_inodes := (sh_inodes s)[inode := bs]\<rparr>) x = ((files_of s)(name \<mapsto> bs)) x"
  proof (cases "sh_names s x = Some inode")
    case True
    then have "x = name" using assms by (auto simp: tidy_def inj_on_def dom_def)
    with True assms show ?thesis by (auto simp: files_of_def tidy_def)
  next
    case False
    then show ?thesis using assms(2) by (cases "sh_names s x") (auto simp: files_of_def)
  qed
qed

section \<open>A fetch that runs alone\<close>

text \<open>The state in which only the reader of \<open>key\<close> and its fetch move: they are the last ones.\<close>

definition mid :: "getter list \<Rightarrow> flight list \<Rightarrow> page_key \<Rightarrow> flight_stage \<Rightarrow> shared_cache \<Rightarrow> shared_cache" where
  "mid gs fs key stage s = s\<lparr>sh_getters := gs @ [\<lparr>gt_key = key, gt_stage = Waiting (length fs)\<rparr>],
     sh_futures := fs @ [\<lparr>fl_key = key, fl_stage = stage\<rparr>]\<rparr>"

lemma mid_simps [simp]:
  "sh_names (mid gs fs key stage s) = sh_names s" "sh_inodes (mid gs fs key stage s) = sh_inodes s"
  "sh_clock (mid gs fs key stage s) = sh_clock s" "sh_state (mid gs fs key stage s) = sh_state s"
  "(mid gs fs key stage s)\<lparr>sh_names := names\<rparr> = mid gs fs key stage (s\<lparr>sh_names := names\<rparr>)"
  "(mid gs fs key stage s)\<lparr>sh_inodes := inodes\<rparr> = mid gs fs key stage (s\<lparr>sh_inodes := inodes\<rparr>)"
  "(mid gs fs key stage s)\<lparr>sh_clock := n\<rparr> = mid gs fs key stage (s\<lparr>sh_clock := n\<rparr>)"
  "(mid gs fs key stage s)\<lparr>sh_state := st\<rparr> = mid gs fs key stage (s\<lparr>sh_state := st\<rparr>)"
  "set_flight (length fs) stage' (mid gs fs key stage s) = mid gs fs key stage' s"
  by (cases s; simp add: mid_def set_flight_def)+

lemma drive_mid:
  "happen env cache (Drive (length fs)) (mid gs fs key stage s) =
    flight_step env cache (length fs) key stage (mid gs fs key stage s)"
  by (simp add: mid_def waits_for_def)

text \<open>The fetch at \<open>stage\<close> comes to the outcome of an operation that runs to its end.\<close>

definition goes ::
  "env \<Rightarrow> range_cache \<Rightarrow> getter list \<Rightarrow> flight list \<Rightarrow> page_key \<Rightarrow> flight_stage \<Rightarrow> shared_cache
    \<Rightarrow> (string fault + bytes) \<times> world \<Rightarrow> bool" where
  "goes env cache gs fs key stage s out \<longleftrightarrow>
     (\<exists>n s' r. mid gs fs key (Landed r) s' = fold (happen env cache) (replicate n (Drive (length fs))) (mid gs fs key stage s)
       \<and> sim (snd out) s' \<and> fst out = map_err Err r \<and> sh_flights s' = sh_flights s)"

lemma goes_landed: "sim w s \<Longrightarrow> r = map_err Err r' \<Longrightarrow> goes env cache gs fs key (Landed r') s (r, w)"
  unfolding goes_def by (intro exI [of _ 0] exI [of _ s] exI [of _ r']) simp

lemma goes_step:
  assumes "flight_step env cache (length fs) key stage (mid gs fs key stage s) = mid gs fs key stage' s1"
    and "sh_flights s1 = sh_flights s" and "goes env cache gs fs key stage' s1 out"
  shows "goes env cache gs fs key stage s out"
proof -
  obtain n s' r where "mid gs fs key (Landed r) s' = fold (happen env cache) (replicate n (Drive (length fs))) (mid gs fs key stage' s1)"
    "sim (snd out) s'" "fst out = map_err Err r" "sh_flights s' = sh_flights s1" using assms(3) unfolding goes_def by blast
  then show ?thesis unfolding goes_def using assms(1,2)
    by (intro exI [of _ "Suc n"] exI [of _ s'] exI [of _ r]) (simp add: drive_mid del: happen.simps)
qed

text \<open>An outside call of both: it fails in both, or both go on.\<close>

lemma goes_outside:
  assumes step: "flight_step env' cache (length fs) key stage (mid gs fs key stage s) =
      calling env' (landing (length fs)) call (mid gs fs key stage s)"
    and sim: "sim w s" and fault: "ev_fault env' (sh_clock s) = ev_fault env (wd_clock w)"
    and go: "\<And>s1 w1. s1 = s\<lparr>sh_clock := Suc (sh_clock s)\<rparr> \<Longrightarrow> w1 = w\<lparr>wd_clock := Suc (wd_clock w)\<rparr> \<Longrightarrow> sim w1 s1 \<Longrightarrow>
      \<exists>stage' s2. call (mid gs fs key stage s1) = mid gs fs key stage' s2 \<and> sh_flights s2 = sh_flights s1
        \<and> goes env' cache gs fs key stage' s2 (doW seq rest w1)"
  shows "goes env' cache gs fs key stage s (doW (outside env seq) rest w)"
proof -
  let ?s1 = "s\<lparr>sh_clock := Suc (sh_clock s)\<rparr>"
  let ?w1 = "w\<lparr>wd_clock := Suc (wd_clock w)\<rparr>"
  have sim1: "sim ?w1 ?s1" using sim by (simp add: sim_def files_of_def [abs_def])
  show ?thesis
  proof (cases "ev_fault env (wd_clock w)")
    case None
    from go [OF refl refl sim1] obtain stage' s2 where "call (mid gs fs key stage ?s1) = mid gs fs key stage' s2"
      "sh_flights s2 = sh_flights s" "goes env' cache gs fs key stage' s2 (doW seq rest ?w1)" by auto
    moreover have "flight_step env' cache (length fs) key stage (mid gs fs key stage s) = call (mid gs fs key stage ?s1)"
      unfolding step calling_def using None fault by simp
    moreover have "doW (outside env seq) rest w = doW seq rest ?w1"
      using None by (simp add: doW_def outside_def)
    ultimately show ?thesis using goes_step [of env' cache fs key stage gs s stage' s2] by simp
  next
    case (Some e)
    have "flight_step env' cache (length fs) key stage (mid gs fs key stage s) = mid gs fs key (Landed (Inl e)) ?s1"
      unfolding step calling_def landing_def using Some fault by simp
    moreover have "doW (outside env seq) rest w = (Inl (Err e), ?w1)"
      using Some by (simp add: doW_def outside_def)
    ultimately show ?thesis
      using goes_step [of env' cache fs key stage gs s "Landed (Inl e)" ?s1] goes_landed [OF sim1, of "Inl (Err e)" "Inl e"] by simp
  qed
qed

lemma evicting_goes:
  assumes "sim w s" and "sh_clock s = Suc (wd_clock w)" and "k < wd_clock w"
  shows "goes (late_faults k env) cache gs fs key (Evicting bs ks) s (Inr bs, remove_files env cache ks w)"
  using assms
proof (induction ks arbitrary: s w)
  case Nil
  show ?case
    by (rule goes_step [where stage' = "Landed (Inr bs)" and ?s1.0 = s]) (simp_all add: goes_landed Nil)
next
  case (Cons key' ks)
  let ?s1 = "s\<lparr>sh_clock := Suc (sh_clock s)\<rparr>"
  let ?s2 = "?s1\<lparr>sh_names := (sh_names s)(page_path env cache key' := None)\<rparr>"
  let ?w1 = "snd (fs_remove_file env (page_path env cache key') w)"
  have clock: "wd_clock ?w1 = Suc (wd_clock w)"
    by (simp add: fs_remove_file_def outside_def failW_def Let_def split: option.split)
  have sims: "sim ?w1 ?s1" if "ev_fault env (wd_clock w) = Some e" for e
    using Cons.prems(1) that by (simp add: fs_remove_file_def outside_def Let_def sim_def files_of_def [abs_def])
  have "sim ?w1 ?s2" if "ev_fault env (wd_clock w) = None"
    using Cons.prems(1) that tidy_removed [of ?s1 "page_path env cache key'"]
    by (auto simp: fs_remove_file_def outside_def failW_def Let_def sim_def files_of_def [abs_def] fun_eq_iff split: option.split)
  with sims have go: "goes (late_faults k env) cache gs fs key (Evicting bs ks)
      (if ev_fault env (wd_clock w) = None then ?s2 else ?s1) (Inr bs, remove_files env cache ks ?w1)"
    by (intro Cons.IH) (auto simp: clock Cons.prems less_SucI)
  show ?case
    by (rule goes_step [OF _ _ go [folded remove_files.simps]])
       (use Cons.prems in \<open>simp_all add: calling_def Let_def split: option.split\<close>)
qed

text \<open>The last part of \<open>store_cached\<close>, once the temporary file is written.\<close>

definition rename_page :: "env \<Rightarrow> range_cache \<Rightarrow> page_key \<Rightarrow> bytes \<Rightarrow> unit action" where
  "rename_page env cache key bs =
     doW (fs_rename env (temporary_path env cache key) (page_path env cache key)) (\<lambda>_ w.
       let (st, evicted) = evict (rg_max_size cache) (insert_page key (length bs) (wd_state w)) in
       (Inr (), remove_files env cache evicted (w\<lparr>wd_state := st\<rparr>)))"

lemma store_cached_parts:
  "store_cached env cache key bs = (if rg_max_size cache < length bs then retW ()
     else doW (fs_create_dir_all env (page_parent env cache key)) (\<lambda>_.
       doW (fs_write env (temporary_path env cache key) bs) (\<lambda>_. rename_page env cache key bs)))"
  by (simp add: store_cached_def rename_page_def)

lemma doW_assoc: "doW (doW m f) g = doW m (\<lambda>x. doW (f x) g)"
  by (auto simp: doW_def fun_eq_iff split: prod.split sum.split)

lemma renaming_goes:
  assumes "sim w s" and "sh_clock s = Suc (wd_clock w)" and "k < wd_clock w"
  shows "goes (late_faults k env) cache gs fs key (Renaming bs) s
    (doW (rename_page env cache key bs) (\<lambda>_. retW bs) w)"
proof -
  let ?tmp = "temporary_path env cache key" and ?page = "page_path env cache key"
  let ?store = "\<lambda>_ :: unit. \<lambda>w. let (st, evicted) = evict (rg_max_size cache) (insert_page key (length bs) (wd_state w)) in
       (Inr () :: string fault + unit, remove_files env cache evicted (w\<lparr>wd_state := st\<rparr>))"
  show ?thesis unfolding rename_page_def doW_assoc fs_rename_def
  proof (rule goes_outside [OF _ assms(1)])
    fix s1 w1 assume s1: "s1 = s\<lparr>sh_clock := Suc (sh_clock s)\<rparr>" and w1: "w1 = w\<lparr>wd_clock := Suc (wd_clock w)\<rparr>" and sim: "sim w1 s1"
    let ?out = "doW (\<lambda>w. case wd_files w ?tmp of None \<Rightarrow> failW ''not found'' w
       | Some bs \<Rightarrow> (Inr (), w\<lparr>wd_files := (wd_files w)(?tmp := None, ?page := Some bs)\<rparr>)) (\<lambda>x. doW (?store x) (\<lambda>_. retW bs)) w1"
    show "\<exists>stage' s2. (case sh_names (mid gs fs key (Renaming bs) s1) (temporary_path (late_faults k env) cache key) of
         None \<Rightarrow> landing (length fs) ''not found'' (mid gs fs key (Renaming bs) s1)
       | Some inode \<Rightarrow> set_flight (length fs) (Inserting bs) ((mid gs fs key (Renaming bs) s1)\<lparr>sh_names := (sh_names (mid gs fs key (Renaming bs) s1))
           (temporary_path (late_faults k env) cache key := None, page_path (late_faults k env) cache key \<mapsto> inode)\<rparr>))
         = mid gs fs key stage' s2 \<and> sh_flights s2 = sh_flights s1 \<and> goes (late_faults k env) cache gs fs key stage' s2 ?out"
    proof (cases "sh_names s1 ?tmp")
      case None
      then have "wd_files w1 ?tmp = None" using sim by (simp add: sim_def files_of_def)
      then have "?out = (Inl (Err ''not found''), w1)" by (simp add: doW_def failW_def)
      with None show ?thesis
        by (intro exI [of _ "Landed (Inl ''not found'')"] exI [of _ s1]) (simp add: landing_def goes_landed [OF sim])
    next
      case (Some inode)
      let ?s2 = "s1\<lparr>sh_names := (sh_names s1)(?tmp := None, ?page \<mapsto> inode)\<rparr>"
      let ?w2 = "w1\<lparr>wd_files := (wd_files w1)(?tmp := None, ?page := Some (sh_inodes s1 ! inode))\<rparr>"
      obtain st evicted where ev: "evict (rg_max_size cache) (insert_page key (length bs) (sh_state s1)) = (st, evicted)" by fastforce
      have "wd_files w1 ?tmp = Some (sh_inodes s1 ! inode)" "sh_state s1 = wd_state w1"
        using sim Some by (simp_all add: sim_def files_of_def)
      with ev have out: "?out = (Inr bs, remove_files env cache evicted (?w2\<lparr>wd_state := st\<rparr>))"
        by (simp add: doW_def retW_def)
      have "sim (?w2\<lparr>wd_state := st\<rparr>) (?s2\<lparr>sh_state := st\<rparr>)"
        using sim tidy_renamed [OF _ Some] by (auto simp: sim_def files_of_def [abs_def] fun_eq_iff)
      then have "goes (late_faults k env) cache gs fs key (Evicting bs evicted) (?s2\<lparr>sh_state := st\<rparr>) ?out"
        unfolding out by (rule evicting_goes) (use assms(2,3) s1 w1 in simp_all)
      then have "goes (late_faults k env) cache gs fs key (Inserting bs) ?s2 ?out"
        by (rule goes_step [rotated 2]) (use ev in simp_all)
      with Some show ?thesis by (intro exI [of _ "Inserting bs"] exI [of _ ?s2]) simp
    qed
  qed (use assms in \<open>simp_all\<close>)
qed

lemma opening_goes:
  assumes "sim w s" and "sh_clock s = wd_clock w" and "k = wd_clock w"
  shows "goes (late_faults k env) cache gs fs key (Opening bs) s
    (doW (doW (fs_write env (temporary_path env cache key) bs) (\<lambda>_. rename_page env cache key bs)) (\<lambda>_. retW bs) w)"
  unfolding fs_write_def doW_assoc
proof (rule goes_outside [OF _ assms(1)], rule flight_step.simps(4))
  let ?env = "late_faults k env" and ?tmp = "temporary_path env cache key"
  fix s1 w1 assume s1: "s1 = s\<lparr>sh_clock := Suc (sh_clock s)\<rparr>" and w1: "w1 = w\<lparr>wd_clock := Suc (wd_clock w)\<rparr>" and sim: "sim w1 s1"
  let ?w2 = "w1\<lparr>wd_files := (wd_files w1)(?tmp := Some bs)\<rparr>"
  let ?out = "doW (\<lambda>w. (Inr (), w\<lparr>wd_files := (wd_files w)(?tmp := Some bs)\<rparr>)) (\<lambda>_ :: unit. doW (rename_page env cache key bs) (\<lambda>_. retW bs)) w1"
  have out: "?out = doW (rename_page env cache key bs) (\<lambda>_. retW bs) ?w2" by (simp add: doW_def)
  have writing: "goes ?env cache gs fs key (Writing bs inode) s2 ?out"
    if names: "sh_names s2 ?tmp = Some inode" and "tidy s2" and files: "files_of s2 = (files_of s1)(?tmp \<mapsto> [])"
      and s2: "sh_clock s2 = sh_clock s1" "sh_state s2 = sh_state s1" for s2 inode
  proof -
    let ?s3 = "s2\<lparr>sh_clock := Suc (sh_clock s2), sh_inodes := (sh_inodes s2)[inode := bs]\<rparr>"
    have "sh_inodes s2 ! inode = []" using arg_cong [OF files, of "\<lambda>f. f ?tmp"] names by (simp add: files_of_def)
    moreover have "ev_fault ?env (sh_clock s2) = None" using assms s1 s2(1) by simp
    ultimately have step: "flight_step ?env cache (length fs) key (Writing bs inode) (mid gs fs key (Writing bs inode) s2) = mid gs fs key (Renaming bs) ?s3"
      by (simp add: calling_def)
    have "files_of ?s3 = (files_of s2)(?tmp \<mapsto> bs)"
      using tidy_written [of "s2\<lparr>sh_clock := Suc (sh_clock s2)\<rparr>" ?tmp inode bs] names that(2) by (simp add: files_of_def [abs_def])
    moreover have "tidy ?s3" using that(2) by (simp add: tidy_def)
    ultimately have "sim ?w2 ?s3" using sim files s2 by (simp add: sim_def)
    then have "goes ?env cache gs fs key (Renaming bs) ?s3 ?out"
      unfolding out by (rule renaming_goes) (use assms s1 w1 s2 in simp_all)
    then show ?thesis by (rule goes_step [OF step, rotated]) simp
  qed
  show "\<exists>stage' s2. (case sh_names (mid gs fs key (Opening bs) s1) (temporary_path ?env cache key) of
      Some inode \<Rightarrow> set_flight (length fs) (Writing bs inode) ((mid gs fs key (Opening bs) s1)
        \<lparr>sh_inodes := (sh_inodes (mid gs fs key (Opening bs) s1))[inode := []]\<rparr>)
    | None \<Rightarrow> set_flight (length fs) (Writing bs (length (sh_inodes (mid gs fs key (Opening bs) s1))))
       ((mid gs fs key (Opening bs) s1)\<lparr>sh_names := (sh_names (mid gs fs key (Opening bs) s1))
          (temporary_path ?env cache key \<mapsto> length (sh_inodes (mid gs fs key (Opening bs) s1))),
        sh_inodes := sh_inodes (mid gs fs key (Opening bs) s1) @ [[]]\<rparr>))
    = mid gs fs key stage' s2 \<and> sh_flights s2 = sh_flights s1 \<and> goes ?env cache gs fs key stage' s2 ?out"
  proof (cases "sh_names s1 ?tmp")
    case None
    let ?s2 = "s1\<lparr>sh_names := (sh_names s1)(?tmp \<mapsto> length (sh_inodes s1)), sh_inodes := sh_inodes s1 @ [[]]\<rparr>"
    have "tidy ?s2" using tidy_fresh [OF _ None] sim by (simp add: sim_def)
    moreover have "files_of ?s2 = (files_of s1)(?tmp \<mapsto> [])"
      using sim by (auto simp: sim_def tidy_def files_of_def fun_eq_iff nth_append intro!: option.map_cong)
    ultimately have "goes ?env cache gs fs key (Writing bs (length (sh_inodes s1))) ?s2 ?out"
      by (intro writing) simp_all
    with None show ?thesis by (intro exI [of _ "Writing bs (length (sh_inodes s1))"] exI [of _ ?s2]) simp
  next
    case (Some inode)
    let ?s2 = "s1\<lparr>sh_inodes := (sh_inodes s1)[inode := []]\<rparr>"
    have "goes ?env cache gs fs key (Writing bs inode) ?s2 ?out"
      using tidy_written [OF _ Some] sim by (intro writing) (simp_all add: Some sim_def)
    with Some show ?thesis by (intro exI [of _ "Writing bs inode"] exI [of _ ?s2]) simp
  qed
qed (use assms in \<open>simp_all\<close>)

lemma storing_goes:
  assumes "sim w s" and "sh_clock s = wd_clock w" and "k = Suc (wd_clock w)" and "length bs \<le> rg_max_size cache"
  shows "goes (late_faults k env) cache gs fs key (MakingDirectory bs) s (doW (store_cached env cache key bs) (\<lambda>_. retW bs) w)"
proof -
  have fits: "\<not> rg_max_size cache < length bs" using assms(4) by simp
  show ?thesis unfolding store_cached_parts if_not_P [OF fits] fs_create_dir_all_def
  proof (subst doW_assoc, rule goes_outside [OF _ assms(1)])
    fix s1 w1 assume "s1 = s\<lparr>sh_clock := Suc (sh_clock s)\<rparr>" "w1 = w\<lparr>wd_clock := Suc (wd_clock w)\<rparr>" "sim w1 s1"
    then have "goes (late_faults k env) cache gs fs key (Opening bs) s1
      (doW (doW (fs_write env (temporary_path env cache key) bs) (\<lambda>_. rename_page env cache key bs)) (\<lambda>_. retW bs) w1)"
      using assms by (intro opening_goes) simp_all
    then show "\<exists>stage' s2. set_flight (length fs) (Opening bs) (mid gs fs key (MakingDirectory bs) s1) = mid gs fs key stage' s2
      \<and> sh_flights s2 = sh_flights s1 \<and> goes (late_faults k env) cache gs fs key stage' s2
        (doW (retW ()) (\<lambda>_. doW (doW (fs_write env (temporary_path env cache key) bs) (\<lambda>_. rename_page env cache key bs)) (\<lambda>_. retW bs)) w1)"
      by (intro exI [of _ "Opening bs"] exI [of _ s1]) (simp add: doW_def [of "retW ()"] retW_def)
  qed (use assms in \<open>simp_all\<close>)
qed

text \<open>The shared future as a whole.\<close>

lemma too_large_goes:
  assumes "sim w s" and "rg_max_size cache < length bs"
  shows "goes env' cache gs fs key (Landed (Inr bs)) s (doW (store_cached env cache key bs) (\<lambda>_. retW bs) w)"
  using assms by (simp add: store_cached_def doW_def retW_def goes_landed)

lemma fetching_goes:
  assumes "sim w s" and "sh_clock s = wd_clock w" and "k = wd_clock w + 2"
  shows "goes (late_faults k env) cache gs fs key (Fetching end_pos) s
    (doW (operator_read env (pk_repository key) (pk_path key) (pk_offset key) end_pos) (\<lambda>bs.
       doW (store_cached env cache key bs) (\<lambda>_. retW bs)) w)"
  unfolding operator_read_def
proof (rule goes_outside [OF _ assms(1)], rule flight_step.simps(2))
  let ?env = "late_faults k env"
  fix s1 w1 assume s1: "s1 = s\<lparr>sh_clock := Suc (sh_clock s)\<rparr>" and w1: "w1 = w\<lparr>wd_clock := Suc (wd_clock w)\<rparr>" and sim: "sim w1 s1"
  let ?rest = "\<lambda>bs. doW (store_cached env cache key bs) (\<lambda>_. retW bs)"
  define stage' where "stage' = (case ev_objects env (pk_repository key) (pk_path key) of
      None \<Rightarrow> Landed (Inl ''not found'')
    | Some content \<Rightarrow> (case (if end_pos \<le> length content then Inr (slice content (pk_offset key) end_pos)
        else ev_beyond env content (pk_offset key) end_pos) of
          Inl e \<Rightarrow> Landed (Inl e)
        | Inr bs \<Rightarrow> if rg_max_size cache < length bs then Landed (Inr bs) else MakingDirectory bs))"
  have stored: "goes ?env cache gs fs key (if rg_max_size cache < length bs then Landed (Inr bs) else MakingDirectory bs) s1 (?rest bs w1)" for bs
    using too_large_goes [OF sim] storing_goes [OF sim] assms s1 w1 by simp
  have "goes ?env cache gs fs key stage' s1 (doW (\<lambda>w. case ev_objects env (pk_repository key) (pk_path key) of
      None \<Rightarrow> failW ''not found'' w
    | Some content \<Rightarrow> if end_pos \<le> length content then retW (slice content (pk_offset key) end_pos) w
        else (map_err Err (ev_beyond env content (pk_offset key) end_pos), w)) ?rest w1)"
  proof (cases "ev_objects env (pk_repository key) (pk_path key)")
    case None
    then show ?thesis unfolding stage'_def by (simp add: doW_def failW_def goes_landed [OF sim])
  next
    case (Some content)
    define got where "got = (if end_pos \<le> length content then Inr (slice content (pk_offset key) end_pos)
        else ev_beyond env content (pk_offset key) end_pos)"
    have "doW (\<lambda>w. case ev_objects env (pk_repository key) (pk_path key) of
        None \<Rightarrow> failW ''not found'' w
      | Some content \<Rightarrow> if end_pos \<le> length content then retW (slice content (pk_offset key) end_pos) w
          else (map_err Err (ev_beyond env content (pk_offset key) end_pos), w)) ?rest w1
      = (case got of Inl e \<Rightarrow> (Inl (Err e), w1) | Inr bs \<Rightarrow> ?rest bs w1)"
      by (simp add: Some got_def doW_def [of "\<lambda>w. if _ then _ w else _ w"] retW_def split: sum.split)
    moreover have "stage' = (case got of Inl e \<Rightarrow> Landed (Inl e)
        | Inr bs \<Rightarrow> if rg_max_size cache < length bs then Landed (Inr bs) else MakingDirectory bs)"
      by (simp add: stage'_def Some got_def)
    moreover have "goes ?env cache gs fs key (Landed (Inl e)) s1 (Inl (Err e), w1)" for e
      by (rule goes_landed [OF sim]) simp
    ultimately show ?thesis
      using stored by (cases got) simp_all
  qed
  then show "\<exists>stage' s2. (case ev_objects ?env (pk_repository key) (pk_path key) of
         None \<Rightarrow> landing (length fs) ''not found'' (mid gs fs key (Fetching end_pos) s1)
       | Some content \<Rightarrow>
           (case (if end_pos \<le> length content then Inr (slice content (pk_offset key) end_pos)
                  else ev_beyond ?env content (pk_offset key) end_pos) of
              Inl e \<Rightarrow> landing (length fs) e (mid gs fs key (Fetching end_pos) s1)
            | Inr bs \<Rightarrow>
                if rg_max_size cache < length bs then set_flight (length fs) (Landed (Inr bs)) (mid gs fs key (Fetching end_pos) s1)
                else set_flight (length fs) (MakingDirectory bs) (mid gs fs key (Fetching end_pos) s1)))
      = mid gs fs key stage' s2 \<and> sh_flights s2 = sh_flights s1 \<and> goes ?env cache gs fs key stage' s2
        (doW (\<lambda>w. case ev_objects env (pk_repository key) (pk_path key) of
      None \<Rightarrow> failW ''not found'' w
    | Some content \<Rightarrow> if end_pos \<le> length content then retW (slice content (pk_offset key) end_pos) w
        else (map_err Err (ev_beyond env content (pk_offset key) end_pos), w)) ?rest w1)"
    by (intro exI [of _ stage'] exI [of _ s1]) (simp add: stage'_def landing_def split: option.split sum.split)
qed (use assms in \<open>simp_all\<close>)

lemma fetch_page_goes:
  assumes "sim w s" and "sh_clock s = wd_clock w" and "k = wd_clock w + 3"
  shows "goes (late_faults k env) cache gs fs key Statting s (fetch_page env cache key w)"
  unfolding fetch_page_def operator_stat_def
proof (rule goes_outside [OF _ assms(1)], rule flight_step.simps(1))
  let ?env = "late_faults k env" and ?stop = "\<lambda>n. min (u64_wrap (pk_offset key + rg_page_size cache)) n"
  fix s1 w1 assume s1: "s1 = s\<lparr>sh_clock := Suc (sh_clock s)\<rparr>" and w1: "w1 = w\<lparr>wd_clock := Suc (wd_clock w)\<rparr>" and sim: "sim w1 s1"
  let ?rest = "\<lambda>content_length. let end_pos = ?stop content_length in
       if end_pos \<le> pk_offset key then failW ''requested cache page starts after object end''
       else doW (operator_read env (pk_repository key) (pk_path key) (pk_offset key) end_pos) (\<lambda>bs.
         doW (store_cached env cache key bs) (\<lambda>_. retW bs))"
  let ?out = "doW (\<lambda>w. case ev_objects env (pk_repository key) (pk_path key) of
      None \<Rightarrow> failW ''not found'' w | Some content \<Rightarrow> retW (length content) w) ?rest w1"
  define stage' where "stage' = (case ev_objects env (pk_repository key) (pk_path key) of
      None \<Rightarrow> Landed (Inl ''not found'')
    | Some content \<Rightarrow> if ?stop (length content) \<le> pk_offset key then Landed (Inl ''requested cache page starts after object end'')
        else Fetching (?stop (length content)))"
  have fetched: "goes ?env cache gs fs key (Fetching e) s1 (doW (operator_read env (pk_repository key) (pk_path key) (pk_offset key) e) (\<lambda>bs.
         doW (store_cached env cache key bs) (\<lambda>_. retW bs)) w1)" for e
    by (rule fetching_goes [OF sim]) (use assms s1 w1 in simp_all)
  have "goes ?env cache gs fs key stage' s1 ?out"
  proof (cases "ev_objects env (pk_repository key) (pk_path key)")
    case None
    then show ?thesis unfolding stage'_def by (simp add: doW_def failW_def goes_landed [OF sim])
  next
    case (Some content)
    then have "?out = ?rest (length content) w1" by (simp add: doW_def retW_def)
    then show ?thesis using fetched Some unfolding stage'_def Let_def
      by (simp add: failW_def goes_landed [OF sim])
  qed
  then show "\<exists>stage' s2. (case ev_objects ?env (pk_repository key) (pk_path key) of
         None \<Rightarrow> landing (length fs) ''not found'' (mid gs fs key Statting s1)
       | Some content \<Rightarrow>
           let end_pos = min (u64_wrap (pk_offset key + rg_page_size cache)) (length content) in
           if end_pos \<le> pk_offset key then landing (length fs) ''requested cache page starts after object end'' (mid gs fs key Statting s1)
           else set_flight (length fs) (Fetching end_pos) (mid gs fs key Statting s1))
      = mid gs fs key stage' s2 \<and> sh_flights s2 = sh_flights s1 \<and> goes ?env cache gs fs key stage' s2 ?out"
    by (intro exI [of _ stage'] exI [of _ s1]) (simp add: stage'_def landing_def Let_def split: option.split)
qed (use assms in \<open>simp_all\<close>)

section \<open>A reader that runs alone\<close>

definition last_reader :: "getter list \<Rightarrow> page_key \<Rightarrow> getter_stage \<Rightarrow> shared_cache \<Rightarrow> shared_cache" where
  "last_reader gs key stage s = s\<lparr>sh_getters := gs @ [\<lparr>gt_key = key, gt_stage = stage\<rparr>]\<rparr>"

lemma last_reader_simps [simp]:
  "sh_names (last_reader gs key stage s) = sh_names s" "sh_inodes (last_reader gs key stage s) = sh_inodes s"
  "sh_clock (last_reader gs key stage s) = sh_clock s" "sh_state (last_reader gs key stage s) = sh_state s"
  "sh_flights (last_reader gs key stage s) = sh_flights s" "sh_futures (last_reader gs key stage s) = sh_futures s"
  "sh_getters (last_reader gs key stage s) = gs @ [\<lparr>gt_key = key, gt_stage = stage\<rparr>]"
  "(last_reader gs key stage s)\<lparr>sh_flights := fl\<rparr> = last_reader gs key stage (s\<lparr>sh_flights := fl\<rparr>)"
  "(last_reader gs key stage s)\<lparr>sh_clock := n\<rparr> = last_reader gs key stage (s\<lparr>sh_clock := n\<rparr>)"
  "(last_reader gs key stage s)\<lparr>sh_state := st\<rparr> = last_reader gs key stage (s\<lparr>sh_state := st\<rparr>)"
  "set_getter (length gs) stage' (last_reader gs key stage s) = last_reader gs key stage' s"
  by (cases s; simp add: last_reader_def set_getter_def)+

lemma poll_last:
  "happen env cache (Poll (length gs)) (last_reader gs key stage s) = getter_step env cache (length gs) key stage (last_reader gs key stage s)"
  by simp

text \<open>The reader at \<open>stage\<close> comes to the answer of an operation that runs to its end.\<close>

definition reads :: "env \<Rightarrow> range_cache \<Rightarrow> getter list \<Rightarrow> page_key \<Rightarrow> getter_stage \<Rightarrow> shared_cache \<Rightarrow> (string fault + bytes) \<times> world \<Rightarrow> bool" where
  "reads env cache gs key stage s out \<longleftrightarrow>
     (\<exists>evs s' r. last_reader gs key (Answered r) s' = fold (happen env cache) evs (last_reader gs key stage s)
       \<and> sim (snd out) s' \<and> fst out = map_err Err r \<and> sh_flights s' = sh_flights s)"

lemma reads_answered: "sim w s \<Longrightarrow> r = map_err Err r' \<Longrightarrow> reads env cache gs key (Answered r') s (r, w)"
  unfolding reads_def by (intro exI [of _ "[]"] exI [of _ s] exI [of _ r']) simp

lemma reads_step:
  assumes "getter_step env cache (length gs) key stage (last_reader gs key stage s) = last_reader gs key stage' s1"
    and "reads env cache gs key stage' s1 out" and "sh_flights s1 = sh_flights s"
  shows "reads env cache gs key stage s out"
proof -
  obtain evs s' r where "last_reader gs key (Answered r) s' = fold (happen env cache) evs (last_reader gs key stage' s1)"
    "sim (snd out) s'" "fst out = map_err Err r" "sh_flights s' = sh_flights s1" using assms(2) unfolding reads_def by blast
  then show ?thesis unfolding reads_def using assms(1,3)
    by (intro exI [of _ "Poll (length gs) # evs"] exI [of _ s'] exI [of _ r]) (simp add: poll_last del: happen.simps)
qed

lemma joining_reads:
  assumes "sim w s" and "sh_clock s = wd_clock w" and "k = wd_clock w + 3" and none: "sh_flights s key = None"
  shows "reads (late_faults k env) cache gs key Joining s (fetch_page env cache key w)"
proof -
  let ?env = "late_faults k env" and ?fs = "sh_futures s"
  let ?s1 = "s\<lparr>sh_flights := (sh_flights s)(key \<mapsto> length ?fs)\<rparr>"
  have "sim w ?s1" using assms(1) by (simp add: sim_def tidy_def files_of_def [abs_def])
  from fetch_page_goes [OF this, of k env cache gs ?fs key] assms obtain n s' r where
    run: "mid gs ?fs key (Landed r) s' = fold (happen ?env cache) (replicate n (Drive (length ?fs))) (mid gs ?fs key Statting ?s1)"
    and out: "sim (snd (fetch_page env cache key w)) s'" "fst (fetch_page env cache key w) = map_err Err r" "sh_flights s' = sh_flights ?s1"
    unfolding goes_def by auto
  let ?done = "s'\<lparr>sh_futures := ?fs @ [\<lparr>fl_key = key, fl_stage = Landed r\<rparr>], sh_flights := sh_flights s\<rparr>"
  have "fold (happen ?env cache) [Poll (length gs)] (last_reader gs key Joining s) = mid gs ?fs key Statting ?s1"
    using none by (simp add: set_getter_def last_reader_def mid_def)
  moreover have "(sh_flights s)(key := None) = sh_flights s" using none by auto
  then have "fold (happen ?env cache) [Poll (length gs), Poll (length gs)] (mid gs ?fs key (Landed r) s') = last_reader gs key (Answered r) ?done"
    using out(3) by (simp add: set_getter_def last_reader_def mid_def)
  ultimately have "fold (happen ?env cache) ([Poll (length gs)] @ replicate n (Drive (length ?fs)) @ [Poll (length gs), Poll (length gs)])
      (last_reader gs key Joining s) = last_reader gs key (Answered r) ?done"
    unfolding fold_append o_def by (simp only: run [symmetric])
  moreover have "sim (snd (fetch_page env cache key w)) ?done" using out(1) by (simp add: sim_def tidy_def files_of_def [abs_def])
  ultimately show ?thesis unfolding reads_def using out(2)
    by (intro exI [of _ "[Poll (length gs)] @ replicate n (Drive (length ?fs)) @ [Poll (length gs), Poll (length gs)]"]
        exI [of _ ?done] exI [of _ r]) (simp del: fold_append fold.simps append.simps)
qed

lemma hit_reads:
  assumes sim: "sim w s" and clock: "sh_clock s = wd_clock w" and none: "sh_flights s key = None" and k: "k = wd_clock w + 4"
  shows "reads (late_faults k env) cache gs key ReadingFile s
    (case fs_read env (page_path env cache key) w of
       (Inr None, w2) \<Rightarrow> fetch_page env cache key
         (w2\<lparr>wd_state := (wd_state w2)\<lparr>cs_entries := (cs_entries (wd_state w2))(key := None)\<rparr>\<rparr>)
     | (Inr (Some bs), w2) \<Rightarrow> (Inr bs, w2)
     | (Inl e, w2) \<Rightarrow> (Inl e, w2))"
    (is "reads ?env _ _ _ _ _ ?out")
proof -
  let ?s1 = "s\<lparr>sh_clock := Suc (sh_clock s)\<rparr>" and ?w1 = "w\<lparr>wd_clock := Suc (wd_clock w)\<rparr>"
  have sim1: "sim ?w1 ?s1" using sim by (simp add: sim_def files_of_def [abs_def])
  have fault: "ev_fault ?env (sh_clock s) = ev_fault env (wd_clock w)" using clock k by simp
  show ?thesis
  proof (cases "ev_fault env (wd_clock w)")
    case (Some e)
    then have "?out = (Inl (Err e), ?w1)" by (simp add: fs_read_def outside_def)
    moreover have "reads ?env cache gs key (Answered (Inl e)) ?s1 (Inl (Err e), ?w1)" by (rule reads_answered [OF sim1]) simp
    ultimately have "reads ?env cache gs key (Answered (Inl e)) ?s1 ?out" by simp
    then show ?thesis by (rule reads_step [rotated]) (use Some fault in \<open>simp_all add: calling_def\<close>)
  next
    case None
    then have read: "fs_read env (page_path env cache key) w = (Inr (wd_files w (page_path env cache key)), ?w1)"
      by (simp add: fs_read_def outside_def retW_def)
    have files: "wd_files w (page_path env cache key) = map_option ((!) (sh_inodes s)) (sh_names s (page_path env cache key))"
      using sim by (simp add: sim_def files_of_def)
    show ?thesis
    proof (cases "sh_names s (page_path env cache key)")
      case (Some inode)
      then have "?out = (Inr (sh_inodes s ! inode), ?w1)" using read files by simp
      moreover have "reads ?env cache gs key (Answered (Inr (sh_inodes s ! inode))) ?s1 (Inr (sh_inodes s ! inode), ?w1)"
        by (rule reads_answered [OF sim1]) simp
      ultimately have "reads ?env cache gs key (Answered (Inr (sh_inodes s ! inode))) ?s1 ?out" by simp
      then show ?thesis by (rule reads_step [rotated]) (use Some None fault in \<open>simp_all add: calling_def\<close>)
    next
      case none': None
      let ?forget = "\<lambda>st. st\<lparr>cs_entries := (cs_entries st)(key := None)\<rparr>"
      let ?s2 = "?s1\<lparr>sh_state := ?forget (sh_state s)\<rparr>" and ?w2 = "?w1\<lparr>wd_state := ?forget (wd_state w)\<rparr>"
      have out: "?out = fetch_page env cache key ?w2" using read files none' by simp
      have "sim ?w2 ?s2" using sim1 by (simp add: sim_def files_of_def [abs_def])
      then have "reads ?env cache gs key Joining ?s2 ?out"
        unfolding out by (rule joining_reads) (use clock none k in simp_all)
      then have "reads ?env cache gs key Forgetting ?s1 ?out" by (rule reads_step [rotated]) simp_all
      then show ?thesis by (rule reads_step [rotated]) (use none' None fault in \<open>simp_all add: calling_def\<close>)
    qed
  qed
qed

lemma reader_reads:
  assumes sim: "sim w s" and clock: "sh_clock s = wd_clock w" and none: "sh_flights s key = None"
  shows "\<exists>k. reads (late_faults k env) cache gs key Looking s (get_page env cache (pk_repository key) (pk_path key) (pk_offset key) w)"
proof -
  have page: "get_page env cache (pk_repository key) (pk_path key) (pk_offset key) =
      doW (load_cached env cache key) (\<lambda>page. case page of Some bs \<Rightarrow> retW bs | None \<Rightarrow> fetch_page env cache key)"
    by (cases key) (simp only: get_page_def Let_def page_key.simps)
  have state: "sh_state s = wd_state w" using sim by (simp add: sim_def)
  show ?thesis
  proof (cases "cs_entries (wd_state w) key")
    case None
    then have "get_page env cache (pk_repository key) (pk_path key) (pk_offset key) w = fetch_page env cache key w"
      by (simp add: page load_cached_def doW_def)
    with joining_reads [OF sim clock refl none, of env cache gs] None state show ?thesis
      by (intro exI [of _ "wd_clock w + 3"]) (auto intro!: reads_step [where stage' = Joining and ?s1.0 = s])
  next
    case (Some entry)
    let ?touch = "touch key (rg_policy cache) (rg_protected_fraction cache) (rg_max_size cache) (wd_state w)"
    let ?s1 = "s\<lparr>sh_state := ?touch\<rparr>" and ?w1 = "w\<lparr>wd_state := ?touch\<rparr>"
    have "sim ?w1 ?s1" using sim by (simp add: sim_def files_of_def [abs_def])
    from hit_reads [OF this _ _ refl, of key env cache gs] clock none
    have "reads (late_faults (wd_clock w + 4) env) cache gs key ReadingFile ?s1
        (get_page env cache (pk_repository key) (pk_path key) (pk_offset key) w)"
      using Some by (simp add: page load_cached_def doW_def retW_def Let_def split: prod.splits sum.splits option.splits)
    with Some state show ?thesis
      by (intro exI [of _ "wd_clock w + 4"]) (auto intro!: reads_step [where stage' = ReadingFile and ?s1.0 = ?s1])
  qed
qed

end
