(* ===== verification/Cache_Flights_Props.thy ===== *)
theory Cache_Flights_Props
  imports Cache_Lone_Facts Storage_Props
begin

text \<open>
  The properties of concurrent readers of the page cache: what they are answered is right in every run, but a
  fetch is not always shared, and then a reader can fail although no call does.
\<close>

section \<open>Answers are right\<close>

lemma slice_get_take: "slice_get (take n xs) i j = Some ys \<Longrightarrow> slice_get xs i j = Some ys"
  by (auto simp: slice_def drop_take min_absorb1 diff_le_mono)

lemma page_part_take: "page_part cache a b offset (take n page) = Some part \<Longrightarrow> page_part cache a b offset page = Some part"
  unfolding page_part_def Let_def by (rule slice_get_take)

text \<open>
  C18: whatever calls fail and however tasks and fetches interleave, a reader that is answered a page is
  answered a beginning of the page as stored, and every part of a range that is taken from it is the part of
  the stored page: a torn page makes a read fail, never return other bytes.
\<close>

theorem concurrent_answers_are_exact:
  assumes "reachable env cache s" and "env_ok env cache"
    and "g \<in> set (sh_getters s)" and "gt_stage g = Answered (Inr bs)"
  shows "\<exists>page. page_of env cache (gt_key g) = Some page \<and> (\<exists>n. bs = take n page)
    \<and> (\<forall>a b part. page_part cache a b (pk_offset (gt_key g)) bs = Some part
        \<longrightarrow> page_part cache a b (pk_offset (gt_key g)) page = Some part)"
proof -
  obtain own where "shared_ok env cache own s" using reachable_ok [OF assms(1,2)] by blast
  then have "getter_ok env cache own (sh_names s) (sh_futures s) (gt_key g) (gt_stage g)"
    using assms(3) by (simp add: shared_ok_def)
  then obtain page n where "page_of env cache (gt_key g) = Some page" "bs = take n page"
    using assms(4) by (auto simp: page_part_of_def)
  then show ?thesis using page_part_take by blast
qed

section \<open>A late removal\<close>

text \<open>
  Four readers miss the page before any of them joins a fetch.  The first two share fetch 0; after it has
  landed the first leaves and removes it.  The third starts fetch 1, the second leaves late and removes
  fetch 1, so the fourth starts fetch 2 of the same page.
\<close>

definition late_join :: "page_key \<Rightarrow> event list" where
  "late_join key =
     replicate 4 (Arrive key) @ [Poll 0, Poll 1, Poll 2, Poll 3, Poll 0, Poll 1] @ replicate 8 (Drive 0)
     @ [Poll 0, Poll 0, Poll 2, Poll 1, Poll 1, Poll 3]"

text \<open>
  Both write to the one temporary file of the page; fetch 1 renames it, a fifth reader hits the page while
  fetch 2 has truncated it, and the renaming of fetch 2 fails.
\<close>

definition torn_write :: "page_key \<Rightarrow> event list" where
  "torn_write key =
     replicate 5 (Drive 1) @ replicate 4 (Drive 2)
     @ [Drive 1, Arrive key, Poll 4, Poll 4, Drive 2, Drive 2, Poll 3, Poll 3]"

lemma evict_fits: "cs_bytes st \<le> max_size \<Longrightarrow> evict max_size st = (st, [])"
  by (subst evict.simps) simp

lemma late_removal_run:
  assumes "env_ok env cache" and "\<not> may_fail env" and page: "page_of env cache key = Some page"
    and "length page \<le> rg_max_size cache" and opened: "just_opened env cache s"
  defines "s1 \<equiv> fold (happen env cache) (late_join key) s"
  defines "s2 \<equiv> fold (happen env cache) (torn_write key) s1"
  shows "sh_futures s1 = map (\<lambda>st. \<lparr>fl_key = key, fl_stage = st\<rparr>) [Landed (Inr page), Statting, Statting]"
    and "map gt_stage (sh_getters s1) = [Answered (Inr page), Answered (Inr page), Waiting 1, Waiting 2]"
    and "map gt_stage (sh_getters s2) =
      [Answered (Inr page), Answered (Inr page), Waiting 1, Answered (Inl ''not found''), Answered (Inr [])]"
    and "map gt_key (sh_getters s2) = replicate 5 key" and "page \<noteq> []"
proof -
  obtain content where content: "ev_objects env (pk_repository key) (pk_path key) = Some content"
    and off: "pk_offset key < length content"
    and slice: "page = slice content (pk_offset key) (page_end (rg_page_size cache) content (pk_offset key))"
    using page by (auto simp: page_of_def split: option.splits if_splits)
  have pos: "0 < rg_page_size cache" and small: "rg_max_size cache < 2 ^ 63"
    and len: "length content + rg_page_size cache < 2 ^ 63" using assms(1) content by (auto simp: env_ok_def)
  define e where "e = min (u64_wrap (pk_offset key + rg_page_size cache)) (length content)"
  have wrap: "u64_wrap (pk_offset key + rg_page_size cache) = pk_offset key + rg_page_size cache"
    using len off by (simp add: u64_wrap_def)
  have e: "\<not> e \<le> pk_offset key" "e \<le> length content" "slice content (pk_offset key) e = page"
    using off pos wrap slice by (auto simp: e_def page_end_def)
  have fits: "\<not> rg_max_size cache < length page" using assms(4) by simp
  have healthy: "calling env failed call s = call (s\<lparr>sh_clock := sh_clock s + 1\<rparr>)" for failed call and s :: shared_cache
    using assms(2) by (simp add: calling_def may_fail_def Let_def)
  have bytes: "evict (rg_max_size cache) (insert_page key (length page) empty_cache_state) = (insert_page key (length page) empty_cache_state, [])"
    by (rule evict_fits) (use assms(4) small in \<open>simp add: insert_page_def empty_cache_state_def entry_size_def u64_wrap_def\<close>)
  have entries: "cs_entries empty_cache_state key = None" "cs_entries (insert_page key n st) key = Some \<lparr>pe_size = n, pe_protected = False\<rparr>"
    for n st by (simp_all add: empty_cache_state_def insert_page_def)
  have paths: "temporary_path env cache key \<noteq> page_path env cache key" "page_path env cache key \<noteq> temporary_path env cache key"
    using temporary_path_fresh [OF assms(1), of key key] by auto
  have start: "sh_getters s = []" "sh_flights s key = None" "sh_futures s = []" "sh_state s = empty_cache_state"
    "sh_names s (temporary_path env cache key) = None" using opened by (auto simp: just_opened_def)
  note run = s1_def numeral_eq_Suc set_getter_def set_flight_def landing_def waits_for_def healthy content
    e_def [symmetric] e fits bytes entries paths start Let_def
  show "sh_futures s1 = map (\<lambda>st. \<lparr>fl_key = key, fl_stage = st\<rparr>) [Landed (Inr page), Statting, Statting]"
    by (simp add: run late_join_def)
  show "map gt_stage (sh_getters s1) = [Answered (Inr page), Answered (Inr page), Waiting 1, Waiting 2]"
    by (simp add: run late_join_def)
  show "map gt_stage (sh_getters s2) =
    [Answered (Inr page), Answered (Inr page), Waiting 1, Answered (Inl ''not found''), Answered (Inr [])]"
    by (simp add: s2_def run late_join_def torn_write_def)
  show "map gt_key (sh_getters s2) = replicate 5 key" by (simp add: s2_def run late_join_def torn_write_def)
  show "page \<noteq> []" using slice off pos by (auto simp: slice_def page_end_def)
qed

lemma reachable_fold: "reachable env cache s \<Longrightarrow> reachable env cache (fold (happen env cache) evs s)"
  by (induction evs arbitrary: s) (simp_all add: happened)

text \<open>
  C20: although no outside call fails and the page is there and fits the cache, readers of one page can start
  two fetches of it at the same time, and then one of them is answered an error and another a torn, empty
  page: every reader that leaves removes whatever fetch of the page is in the map.
\<close>

theorem late_removal_breaks_sharing:
  assumes "env_ok env cache" and "\<not> may_fail env" and "page_of env cache key = Some page"
    and "length page \<le> rg_max_size cache" and "just_opened env cache s"
  shows "\<exists>s1 s2. reachable env cache s1 \<and> reachable env cache s2 \<and> page \<noteq> []
    \<and> (\<exists>f f'. f < f' \<and> f' < length (sh_futures s1) \<and> sh_futures s1 ! f = \<lparr>fl_key = key, fl_stage = Statting\<rparr>
        \<and> sh_futures s1 ! f' = \<lparr>fl_key = key, fl_stage = Statting\<rparr>
        \<and> Waiting f \<in> gt_stage ` set (sh_getters s1) \<and> Waiting f' \<in> gt_stage ` set (sh_getters s1))
    \<and> (\<exists>g \<in> set (sh_getters s2). gt_key g = key \<and> gt_stage g = Answered (Inl ''not found''))
    \<and> (\<exists>g \<in> set (sh_getters s2). gt_key g = key \<and> gt_stage g = Answered (Inr []))"
proof -
  note run = late_removal_run [OF assms]
  let ?s1 = "fold (happen env cache) (late_join key) s"
  let ?s2 = "fold (happen env cache) (torn_write key) ?s1"
  have reach: "reachable env cache ?s1" "reachable env cache ?s2"
    by (intro reachable_fold opened assms(5))+
  have waiting: "Waiting 1 \<in> gt_stage ` set (sh_getters ?s1)" "Waiting 2 \<in> gt_stage ` set (sh_getters ?s1)"
    using arg_cong [OF run(2), of set] by auto
  have len: "length (sh_getters ?s2) = 5" using arg_cong [OF run(4), of length] by simp
  have at: "sh_getters ?s2 ! i \<in> set (sh_getters ?s2) \<and> gt_key (sh_getters ?s2 ! i) = key
      \<and> gt_stage (sh_getters ?s2 ! i) = map gt_stage (sh_getters ?s2) ! i" if "i < 5" for i
    using that len arg_cong [OF run(4), of "\<lambda>xs. xs ! i"] by simp
  from at [of 3] at [of 4] run(3) have "(\<exists>g \<in> set (sh_getters ?s2). gt_key g = key \<and> gt_stage g = Answered (Inl ''not found''))
    \<and> (\<exists>g \<in> set (sh_getters ?s2). gt_key g = key \<and> gt_stage g = Answered (Inr []))" by auto
  moreover have "\<exists>f f'. f < f' \<and> f' < length (sh_futures ?s1) \<and> sh_futures ?s1 ! f = \<lparr>fl_key = key, fl_stage = Statting\<rparr>
        \<and> sh_futures ?s1 ! f' = \<lparr>fl_key = key, fl_stage = Statting\<rparr>
        \<and> Waiting f \<in> gt_stage ` set (sh_getters ?s1) \<and> Waiting f' \<in> gt_stage ` set (sh_getters ?s1)"
    by (rule exI [of _ 1], rule exI [of _ 2]) (use waiting run(1) in simp)
  ultimately show ?thesis using reach run(5) by blast
qed

section \<open>No reader is stuck\<close>

text \<open>
  C19: in every state that concurrent readers can reach, whatever calls will fail, a reader comes to its answer
  by its own steps and steps of the fetches that somebody waits for: no other task has to run, and neither a
  cancelled request nor a fetch that was removed from the map early leaves it waiting.
\<close>

theorem readers_are_never_stuck:
  assumes "reachable env cache s" and "env_ok env cache" and "i < length (sh_getters s)"
  shows "\<exists>evs. (\<forall>ev \<in> set evs. ev = Poll i \<or> (\<exists>f. ev = Drive f))
    \<and> (let stage = gt_stage (sh_getters (fold (happen env cache) evs s) ! i) in
        stage = Dropped \<or> (\<exists>r. stage = Answered r))"
proof -
  obtain own where "shared_ok env cache own s" using reachable_ok [OF assms(1,2)] by blast
  from reader_settles [OF this assms(3)] show ?thesis
    by (simp add: settles_def settled_def own_event_def list_all_iff Let_def)
qed

section \<open>A reader that is alone\<close>

text \<open>
  C21: when no fetch of its page is under way and nobody else runs, a reader does what the operation
  \<open>get_page\<close> does when it runs to its end: for every failure of outside calls there, some run of the state
  machine has the same answer and leaves the same cache state, the same files and the same map of fetches.
\<close>

theorem lone_reader_refines_get_page:
  assumes "tidy s" and "sh_flights s key = None"
  shows "\<exists>faults evs. let s' = fold (happen (env\<lparr>ev_fault := faults\<rparr>) cache) (Arrive key # evs) s in
    case get_page env cache (pk_repository key) (pk_path key) (pk_offset key)
        \<lparr>wd_state = sh_state s, wd_files = files_of s, wd_clock = sh_clock s\<rparr> of
      (r, w) \<Rightarrow> (\<exists>answer. sh_getters s' = sh_getters s @ [\<lparr>gt_key = key, gt_stage = Answered answer\<rparr>] \<and> map_err Err answer = r)
        \<and> sh_state s' = wd_state w \<and> files_of s' = wd_files w \<and> sh_flights s' = sh_flights s \<and> tidy s'"
proof -
  let ?w = "\<lparr>wd_state = sh_state s, wd_files = files_of s, wd_clock = sh_clock s\<rparr>"
  have "sim ?w s" using assms(1) by (simp add: sim_def)
  from reader_reads [OF this _ assms(2), of env cache "sh_getters s"] obtain k evs s' r where
    run: "last_reader (sh_getters s) key (Answered r) s' = fold (happen (late_faults k env) cache) evs (last_reader (sh_getters s) key Looking s)"
    and out: "sim (snd (get_page env cache (pk_repository key) (pk_path key) (pk_offset key) ?w)) s'"
      "fst (get_page env cache (pk_repository key) (pk_path key) (pk_offset key) ?w) = map_err Err r" "sh_flights s' = sh_flights s"
    unfolding reads_def by auto
  have "env\<lparr>ev_fault := ev_fault (late_faults k env)\<rparr> = late_faults k env" by (simp add: late_faults_def)
  moreover have "fold (happen (late_faults k env) cache) (Arrive key # evs) s = last_reader (sh_getters s) key (Answered r) s'"
    unfolding run by (simp add: last_reader_def)
  moreover have "files_of (last_reader gs key stage s') = files_of s'" "tidy (last_reader gs key stage s') = tidy s'" for gs stage
    by (simp_all add: files_of_def [abs_def] tidy_def)
  ultimately show ?thesis using out
    by (intro exI [of _ "ev_fault (late_faults k env)"] exI [of _ evs])
      (simp add: sim_def case_prod_beta Let_def del: fold.simps)
qed

text \<open>A cache that was just opened, and the first page of a stored object.\<close>

definition demo_opened :: shared_cache where
  "demo_opened = \<lparr>sh_getters = [], sh_flights = Map.empty, sh_futures = [], sh_state = empty_cache_state,
     sh_names = Map.empty, sh_inodes = [], sh_clock = 0\<rparr>"

lemma demo_opens: "just_opened env cache demo_opened"
  by (simp add: just_opened_def demo_opened_def)

lemma demo_page: "page_of (demo_env [1, 2, 3, 4, 5]) demo_cache (demo_key 0) = Some [1, 2, 3, 4]"
  by (simp add: page_of_def demo_env_def demo_cache_def demo_key_def page_end_def slice_def)

lemma demo_shared_ok: "env_ok (demo_env [1, 2, 3, 4, 5]) demo_cache"
  using demo_ok [of "[1, 2, 3, 4, 5]"] by (simp add: world_ok_def)

theorem late_removal_breaks_sharing_witness:
  "\<exists>s. reachable (demo_env [1, 2, 3, 4, 5]) demo_cache s
    \<and> (\<exists>g \<in> set (sh_getters s). gt_key g = demo_key 0 \<and> gt_stage g = Answered (Inl ''not found''))"
  using late_removal_breaks_sharing [OF demo_shared_ok demo_no_fault demo_page _ demo_opens]
  by (simp add: demo_cache_def) blast

theorem concurrent_answers_are_exact_witness:
  "\<exists>s g bs. reachable (demo_env [1, 2, 3, 4, 5]) demo_cache s \<and> g \<in> set (sh_getters s)
    \<and> gt_stage g = Answered (Inr bs) \<and> (\<exists>page n. page_of (demo_env [1, 2, 3, 4, 5]) demo_cache (gt_key g) = Some page \<and> bs = take n page)"
proof -
  have fits: "length [1, 2, 3, 4 :: u8] \<le> rg_max_size demo_cache" by (simp add: demo_cache_def)
  let ?s = "fold (happen (demo_env [1, 2, 3, 4, 5]) demo_cache) (torn_write (demo_key 0))
      (fold (happen (demo_env [1, 2, 3, 4, 5]) demo_cache) (late_join (demo_key 0)) demo_opened)"
  have reach: "reachable (demo_env [1, 2, 3, 4, 5]) demo_cache ?s"
    by (intro reachable_fold opened demo_opens)
  have "Answered (Inr [1, 2, 3, 4]) \<in> gt_stage ` set (sh_getters ?s)"
    using arg_cong [OF late_removal_run(3) [OF demo_shared_ok demo_no_fault demo_page fits demo_opens], of set] by auto
  then obtain g where g: "g \<in> set (sh_getters ?s)" "gt_stage g = Answered (Inr [1, 2, 3, 4])" by auto
  with concurrent_answers_are_exact [OF reach demo_shared_ok g] reach show ?thesis by blast
qed

theorem readers_are_never_stuck_witness:
  "\<exists>s evs. reachable (demo_env [1, 2, 3, 4, 5]) demo_cache s \<and> gt_stage (sh_getters s ! 2) = Waiting 1
    \<and> settled (gt_stage (sh_getters (fold (happen (demo_env [1, 2, 3, 4, 5]) demo_cache) evs s) ! 2))"
proof -
  have fits: "length [1, 2, 3, 4 :: u8] \<le> rg_max_size demo_cache" by (simp add: demo_cache_def)
  let ?s = "fold (happen (demo_env [1, 2, 3, 4, 5]) demo_cache) (late_join (demo_key 0)) demo_opened"
  have reach: "reachable (demo_env [1, 2, 3, 4, 5]) demo_cache ?s"
    by (intro reachable_fold opened demo_opens)
  have stages: "map gt_stage (sh_getters ?s) =
      [Answered (Inr [1, 2, 3, 4]), Answered (Inr [1, 2, 3, 4]), Waiting 1, Waiting 2]"
    by (rule late_removal_run(2) [OF demo_shared_ok demo_no_fault demo_page fits demo_opens])
  have two: "2 < length (sh_getters ?s)" using arg_cong [OF stages, of length] by simp
  then have "gt_stage (sh_getters ?s ! 2) = Waiting 1" using arg_cong [OF stages, of "\<lambda>xs. xs ! 2"] by simp
  with readers_are_never_stuck [OF reach demo_shared_ok two] reach show ?thesis
    by (auto simp: settled_def Let_def)
qed

theorem lone_reader_refines_get_page_witness:
  "\<exists>faults evs s'. s' = fold (happen ((demo_env [1, 2, 3, 4, 5])\<lparr>ev_fault := faults\<rparr>) demo_cache) (Arrive (demo_key 0) # evs) demo_opened
    \<and> (\<exists>answer. sh_getters s' = [\<lparr>gt_key = demo_key 0, gt_stage = Answered answer\<rparr>])"
proof -
  have "tidy demo_opened" "sh_flights demo_opened (demo_key 0) = None" by (simp_all add: tidy_def demo_opened_def)
  from lone_reader_refines_get_page [OF this, of "demo_env [1, 2, 3, 4, 5]" demo_cache]
  show ?thesis unfolding Let_def case_prod_beta by (auto simp: demo_opened_def simp del: fold.simps happen.simps)
qed

end
