(* ===== verification/Metric_Plan.thy ===== *)
theory Metric_Plan
  imports Metric_Table
begin

text \<open>
  The execution plan of a metric scan, \<open>MetricScanExec\<close> of \<open>src/metric_table.rs\<close>: how \<open>scan\<close> makes it,
  how the optimizer puts another child under it, and what it returns for one partition of its child.

  The child plan is DataFusion's: \<open>partition_count\<close> is the number of its partitions, \<open>child_execute\<close> what
  one of them returns, \<open>child_scan\<close> the scan of the chunk table with a filter.
\<close>

datatype plan_error = MetricFailed metric_error | RequiresOneChild

type_synonym plan_fault = "plan_error fault"

record ('p, 'r) metric_scan_exec =
  me_child :: 'p
  me_schema :: "field list"
  me_projection :: "nat list option"
  me_metric_name :: string
  me_filters :: "metric_filter list"
  me_counter_metric :: bool
  me_storage :: "string \<Rightarrow> 'r option"
  me_output_schema :: "field list"
  me_partitions :: nat

definition metric_scan_exec_new ::
  "('p \<Rightarrow> nat) \<Rightarrow> 'p \<Rightarrow> field list \<Rightarrow> nat list option \<Rightarrow> string \<Rightarrow> metric_filter list \<Rightarrow> bool
   \<Rightarrow> (string \<Rightarrow> 'r option) \<Rightarrow> plan_fault + ('p, 'r) metric_scan_exec" where
  "metric_scan_exec_new partition_count child schema projection metric_name filters counter_metric storage =
     tryR (map_err (map_fault MetricFailed) (projected_schema schema projection)) (\<lambda>output_schema.
       Inr \<lparr>me_child = child, me_schema = schema, me_projection = projection, me_metric_name = metric_name,
            me_filters = filters, me_counter_metric = counter_metric, me_storage = storage,
            me_output_schema = output_schema, me_partitions = partition_count child\<rparr>)"

text \<open>\<open>MetricTableProvider::scan\<close>: all filters must parse, and the chunk table is asked for the metric.\<close>

definition metric_name_filter :: "string \<Rightarrow> expr" where
  "metric_name_filter metric_name =
     BinaryExpr (ColumnExpr ''metric_name'') OpEq (LiteralExpr (ScUtf8 (Some metric_name)))"

definition table_scan ::
  "regex_parser \<Rightarrow> (expr list \<Rightarrow> string + 'p) \<Rightarrow> ('p \<Rightarrow> nat) \<Rightarrow> (string \<Rightarrow> 'r option)
   \<Rightarrow> metric_table_schema \<Rightarrow> nat list option \<Rightarrow> expr list \<Rightarrow> plan_fault + ('p, 'r) metric_scan_exec" where
  "table_scan regex child_scan partition_count storage schema projection filters =
     tryR (ok_or (MetricFailed UnsupportedFilter) (option_list (map (parse_filter regex) filters))) (\<lambda>parsed.
     tryR (map_err (\<lambda>e. Err (MetricFailed (ChildPlanFailed e))) (child_scan [metric_name_filter (mt_name schema)])) (\<lambda>child.
       metric_scan_exec_new partition_count child (arrow_schema schema) projection (mt_name schema) parsed
         (ends_with ''_total'' (mt_name schema)) storage))"

definition children :: "('p, 'r) metric_scan_exec \<Rightarrow> 'p list" where
  "children exec = [me_child exec]"

definition with_new_children ::
  "('p \<Rightarrow> nat) \<Rightarrow> 'p list \<Rightarrow> ('p, 'r) metric_scan_exec \<Rightarrow> plan_fault + ('p, 'r) metric_scan_exec" where
  "with_new_children partition_count new exec =
     (if length new \<noteq> 1 then Inl (Err RequiresOneChild)
      else metric_scan_exec_new partition_count (hd new) (me_schema exec) (me_projection exec) (me_metric_name exec)
        (me_filters exec) (me_counter_metric exec) (me_storage exec))"

definition execute ::
  "(string \<Rightarrow> string + labels) \<Rightarrow> ('p \<Rightarrow> nat \<Rightarrow> string + batch list) \<Rightarrow> ('r, 'w) sample_reader
   \<Rightarrow> ('p, 'r) metric_scan_exec \<Rightarrow> nat \<Rightarrow> 'w \<Rightarrow> (metric_fault + (field list \<times> out_column list)) \<times> 'w" where
  "execute from_json child_execute reader exec part w =
     (case child_execute (me_child exec) part of
        Inl e \<Rightarrow> (Inl (Err (ChildPlanFailed e)), w)
      | Inr descriptors \<Rightarrow>
          build_metric_batch from_json (me_storage exec) reader (me_schema exec) (me_projection exec)
            (me_metric_name exec) (me_filters exec) (me_counter_metric exec) descriptors w)"

end
