(* ===== verification/Metric_Plan_Props.thy ===== *)
theory Metric_Plan_Props
  imports Metric_Plan Metric_Table_Props "HOL-Library.Multiset"
begin

text \<open>
  The properties of metric plans: a plan answers the same rows however its chunks are spread over
  partitions, so that DataFusion may put any repartitioning child under it.
\<close>

section \<open>One partition\<close>

lemma metric_scan_exec_new_Inr:
  "metric_scan_exec_new partition_count child schema projection metric_name filters counter_metric storage = Inr exec \<longleftrightarrow>
    (\<exists>fields. projected_schema schema projection = Inr fields \<and> exec =
      \<lparr>me_child = child, me_schema = schema, me_projection = projection, me_metric_name = metric_name,
       me_filters = filters, me_counter_metric = counter_metric, me_storage = storage,
       me_output_schema = fields, me_partitions = partition_count child\<rparr>)"
  by (auto simp: metric_scan_exec_new_def res_simps)

text \<open>The scan of \<open>Metric_Table\<close> is the execution of a plan over a child with one partition.\<close>

lemma metric_scan_is_execution:
  assumes "table_scan regex (\<lambda>_. Inr name) (\<lambda>_. 1) storage schema projection exprs = Inr exec" and "name = mt_name schema"
  shows "metric_scan regex from_json child storage reader schema projection exprs w
    = execute from_json (\<lambda>name _. child name) reader exec 0 w"
  using assms
  by (auto simp: table_scan_def metric_scan_def execute_def metric_scan_exec_new_Inr res_simps split: sum.split)

text \<open>The chunks the partitions of a child hold, when every row can be decoded and every chunk read.\<close>

definition partitions_hold ::
  "(string \<Rightarrow> string + labels) \<Rightarrow> ('p \<Rightarrow> nat \<Rightarrow> string + batch list) \<Rightarrow> ('r, 'w) sample_reader
   \<Rightarrow> ('r \<Rightarrow> chunk_ref \<Rightarrow> sample list) \<Rightarrow> ('w \<Rightarrow> bool) \<Rightarrow> (string \<Rightarrow> 'r option) \<Rightarrow> string \<Rightarrow> 'p
   \<Rightarrow> ('r \<times> chunk_ref) list list \<Rightarrow> bool" where
  "partitions_hold from_json child_execute reader contents ok storage metric_name child chunks \<longleftrightarrow>
     (\<forall>p < length chunks. \<exists>batches parts. child_execute child p = Inr batches
        \<and> mapR (batch_chunks from_json storage metric_name) batches = Inr parts \<and> concat parts = chunks ! p
        \<and> list_all (reads_contents reader contents (ends_with ''_total'' metric_name) ok) (chunks ! p))"

lemma execute_exact:
  assumes "partitions_hold from_json child_execute reader contents ok (me_storage exec) (me_metric_name exec) (me_child exec) chunks"
    and "me_counter_metric exec = ends_with ''_total'' (me_metric_name exec)"
    and "list_all prunes_soundly (me_filters exec)" and "p < length chunks" and "ok w"
  shows "\<exists>w'. execute from_json child_execute reader exec p w =
    (record_batch (me_schema exec) (me_projection exec) (concat (map (chunk_rows_spec contents (me_filters exec)) (chunks ! p))), w') \<and> ok w'"
proof -
  obtain batches parts where child: "child_execute (me_child exec) p = Inr batches"
    and parts: "mapR (batch_chunks from_json (me_storage exec) (me_metric_name exec)) batches = Inr parts" "concat parts = chunks ! p"
    and reads: "list_all (reads_contents reader contents (me_counter_metric exec) ok) (chunks ! p)"
    using assms(1,2,4) unfolding partitions_hold_def by metis
  from reads have "list_all (list_all (reads_contents reader contents (me_counter_metric exec) ok)) parts"
    unfolding parts(2) [symmetric] by (simp add: list_all_iff)
  from batches_rows_exact [OF assms(3) parts(1) this assms(5)] show ?thesis
    using child parts(2) by (auto simp: execute_def build_metric_batch_def doW_def)
qed

lemma concat_rows: "concat (map (\<lambda>cs. concat (map f cs)) css) = concat (map f (concat css))"
  by (induction css) simp_all

lemma mset_rows: "mset (concat (map f cs)) = \<Sum>\<^sub># (image_mset (\<lambda>c. mset (f c)) (mset cs))"
  by (induction cs) simp_all

section \<open>Repartitioning\<close>

text \<open>
  C30: the plan of a scan with any filters but \<open>timestamp != v\<close>, and the plan the optimizer makes of it with
  another child, return the same rows up to their order when the two children hold the same chunks, in
  whatever partitions and order: each partition returns the batch of its rows, and together they are the
  samples that pass the filters.
\<close>

theorem repartitioning_keeps_the_rows:
  assumes "table_scan regex child_scan partition_count storage schema projection exprs = Inr exec"
    and "option_list (map (parse_filter regex) exprs) = Some filters" and "list_all prunes_soundly filters"
    and "with_new_children partition_count [child] exec = Inr exec'"
    and "partitions_hold from_json child_execute reader contents ok storage (mt_name schema) (me_child exec) chunks"
    and "partitions_hold from_json child_execute reader contents ok storage (mt_name schema) child chunks'"
    and "mset (concat chunks) = mset (concat chunks')"
  shows "\<exists>rows rows'.
      (\<forall>p w. p < length chunks \<longrightarrow> ok w \<longrightarrow> (\<exists>w'. execute from_json child_execute reader exec p w
          = (record_batch (arrow_schema schema) projection (rows ! p), w') \<and> ok w'))
    \<and> (\<forall>p w. p < length chunks' \<longrightarrow> ok w \<longrightarrow> (\<exists>w'. execute from_json child_execute reader exec' p w
          = (record_batch (arrow_schema schema) projection (rows' ! p), w') \<and> ok w'))
    \<and> length rows = length chunks \<and> length rows' = length chunks' \<and> mset (concat rows) = mset (concat rows')
    \<and> mset (concat rows) = mset (concat (map (chunk_rows_spec contents filters) (concat chunks)))"
proof -
  let ?rows = "map (\<lambda>cs. concat (map (chunk_rows_spec contents filters) cs))"
  have exec: "me_schema exec = arrow_schema schema" "me_projection exec = projection" "me_filters exec = filters"
    "me_metric_name exec = mt_name schema" "me_storage exec = storage" "me_counter_metric exec = ends_with ''_total'' (mt_name schema)"
    using assms(1,2) by (auto simp: table_scan_def res_simps metric_scan_exec_new_Inr)
  have exec': "me_schema exec' = arrow_schema schema" "me_projection exec' = projection" "me_filters exec' = filters"
    "me_metric_name exec' = mt_name schema" "me_storage exec' = storage" "me_counter_metric exec' = ends_with ''_total'' (mt_name schema)"
    "me_child exec' = child"
    using assms(4) exec by (auto simp: with_new_children_def metric_scan_exec_new_Inr)
  have "mset (concat (?rows chunks)) = mset (concat (?rows chunks'))" by (simp only: concat_rows mset_rows assms(7))
  moreover have "concat (?rows chunks) = concat (map (chunk_rows_spec contents filters) (concat chunks))" by (rule concat_rows)
  ultimately show ?thesis
    using execute_exact [of from_json child_execute reader contents ok exec chunks]
      execute_exact [of from_json child_execute reader contents ok exec' chunks'] assms(3,5,6)
    by (intro exI [of _ "?rows chunks"] exI [of _ "?rows chunks'"]) (simp add: exec exec')
qed

text \<open>A child with two partitions of one batch each, and one with both batches in one partition.\<close>

definition demo_plan :: "(batch list list, unit) metric_scan_exec" where
  "demo_plan = \<lparr>me_child = [[demo_batch], [demo_batch]], me_schema = arrow_schema \<lparr>mt_name = ''up'', mt_label_columns = [''pod'']\<rparr>,
     me_projection = Some [0], me_metric_name = ''up'', me_filters = [TimestampFilter OpGt 150], me_counter_metric = False,
     me_storage = (\<lambda>_. Some ()), me_output_schema = [\<lparr>fd_name = ''timestamp'', fd_type = TimestampMillisecondType, fd_nullable = False\<rparr>],
     me_partitions = 2\<rparr>"

definition demo_merged :: "(batch list list, unit) metric_scan_exec" where
  "demo_merged = demo_plan\<lparr>me_child := [[demo_batch, demo_batch]], me_partitions := 1\<rparr>"

definition demo_reader :: "(unit, unit) sample_reader" where
  "demo_reader = (\<lambda>r p off c w. (Inr demo_samples, w))"

lemma demo_table_scan:
  "table_scan (\<lambda>_. None) (\<lambda>_. Inr [[demo_batch], [demo_batch]]) length (\<lambda>_. Some ()) \<lparr>mt_name = ''up'', mt_label_columns = [''pod'']\<rparr>
     (Some [0]) [BinaryExpr (ColumnExpr ''timestamp'') OpGt (LiteralExpr (ScInt64 (Some 150)))] = Inr demo_plan"
  by (simp add: table_scan_def parse_filter_def column_filter_def scalar_i64_def metric_scan_exec_new_def projected_schema_def
      arrow_schema_def elem_index_def demo_plan_def ends_with_def strip_suffix_def strip_prefix_def)

lemma demo_new_child: "with_new_children length [[[demo_batch, demo_batch]]] demo_plan = Inr demo_merged"
  by (simp add: with_new_children_def metric_scan_exec_new_def projected_schema_def arrow_schema_def elem_index_def
      demo_plan_def demo_merged_def)

lemma demo_hold:
  assumes "list_all (\<lambda>(batches, cs). batches = replicate (length cs) demo_batch \<and> cs = replicate (length cs) ((), demo_ref)) (zip child chunks)"
    and "length child = length chunks"
  shows "partitions_hold (\<lambda>_. Inr [(''pod'', ''a'')]) (\<lambda>child i. Inr (child ! i)) demo_reader (\<lambda>_ _. demo_samples) (\<lambda>_. True)
    (\<lambda>_. Some ()) ''up'' child chunks"
  unfolding partitions_hold_def
proof (intro allI impI)
  fix p assume p: "p < length chunks"
  let ?n = "length (chunks ! p)"
  have at: "child ! p = replicate ?n demo_batch" "chunks ! p = replicate ?n ((), demo_ref)"
    using assms p by (auto simp: list_all_length)
  have "mapR (batch_chunks (\<lambda>_. Inr [(''pod'', ''a'')]) (\<lambda>_. Some ()) ''up'') (replicate n demo_batch)
      = Inr (replicate n [((), demo_ref)])" for n
    by (induction n) (simp_all add: demo_chunks)
  moreover have "concat (replicate n [((), demo_ref)]) = replicate n ((), demo_ref)" for n by (induction n) simp_all
  moreover have "list_all (reads_contents demo_reader (\<lambda>_ _. demo_samples) c (\<lambda>_. True)) (replicate n ((), demo_ref))" for n c
    by (simp add: list_all_iff reads_contents_def demo_reader_def demo_ref_def demo_descriptor_def demo_samples_def sample_in_chunk_def)
  ultimately show "\<exists>batches parts. Inr (child ! p) = Inr batches
      \<and> mapR (batch_chunks (\<lambda>_. Inr [(''pod'', ''a'')]) (\<lambda>_. Some ()) ''up'') batches = Inr parts \<and> concat parts = chunks ! p
      \<and> list_all (reads_contents demo_reader (\<lambda>_ _. demo_samples) (ends_with ''_total'' ''up'') (\<lambda>_. True)) (chunks ! p)"
    using at by metis
qed

theorem repartitioning_keeps_the_rows_witness:
  "\<exists>rows rows'.
      (\<forall>p < 2. fst (execute (\<lambda>_. Inr [(''pod'', ''a'')]) (\<lambda>child i. Inr (child ! i)) demo_reader demo_plan p ())
          = record_batch (me_schema demo_plan) (Some [0]) (rows ! p))
    \<and> fst (execute (\<lambda>_. Inr [(''pod'', ''a'')]) (\<lambda>child i. Inr (child ! i)) demo_reader demo_merged 0 ())
          = record_batch (me_schema demo_plan) (Some [0]) (rows' ! 0)
    \<and> length rows = 2 \<and> length rows' = 1 \<and> mset (concat rows) = mset (concat rows') \<and> size (mset (concat rows)) = 2"
proof -
  let ?c = "((), demo_ref)"
  have parsed: "option_list (map (parse_filter (\<lambda>_. None))
      [BinaryExpr (ColumnExpr ''timestamp'') OpGt (LiteralExpr (ScInt64 (Some 150)))]) = Some [TimestampFilter OpGt 150]"
    by (simp add: parse_filter_def column_filter_def scalar_i64_def)
  have sound: "list_all prunes_soundly [TimestampFilter OpGt 150]" by (simp add: prunes_soundly_def)
  let ?schema = "\<lparr>mt_name = ''up'', mt_label_columns = [''pod'']\<rparr>"
  have hold: "partitions_hold (\<lambda>_. Inr [(''pod'', ''a'')]) (\<lambda>child i. Inr (child ! i)) demo_reader (\<lambda>_ _. demo_samples) (\<lambda>_. True)
      (\<lambda>_. Some ()) (mt_name ?schema) (me_child demo_plan) [[?c], [?c]]"
    using demo_hold [of "[[demo_batch], [demo_batch]]" "[[?c], [?c]]"] by (simp add: demo_plan_def)
  have hold': "partitions_hold (\<lambda>_. Inr [(''pod'', ''a'')]) (\<lambda>child i. Inr (child ! i)) demo_reader (\<lambda>_ _. demo_samples) (\<lambda>_. True)
      (\<lambda>_. Some ()) (mt_name ?schema) [[demo_batch, demo_batch]] [[?c, ?c]]"
    using demo_hold [of "[[demo_batch, demo_batch]]" "[[?c, ?c]]"] by simp
  have rows: "length (concat (map (chunk_rows_spec (\<lambda>_ _. demo_samples) [TimestampFilter OpGt 150]) (concat [[?c], [?c]]))) = 2"
    by (simp add: chunk_rows_spec_def demo_samples_def keep_sample_def demo_ref_def)
  have schema: "me_schema demo_plan = arrow_schema ?schema" by (simp add: demo_plan_def)
  have same: "mset (concat [[?c], [?c]]) = mset (concat [[?c, ?c]])" by simp
  from repartitioning_keeps_the_rows [OF demo_table_scan parsed sound demo_new_child hold hold' same]
  obtain rows rows' where ex: "\<forall>p w. p < length [[?c], [?c]] \<longrightarrow> True \<longrightarrow> (\<exists>w'. execute (\<lambda>_. Inr [(''pod'', ''a'')]) (\<lambda>child i. Inr (child ! i)) demo_reader demo_plan p w
        = (record_batch (arrow_schema ?schema) (Some [0]) (rows ! p), w') \<and> True)"
    and ex': "\<forall>p w. p < length [[?c, ?c]] \<longrightarrow> True \<longrightarrow> (\<exists>w'. execute (\<lambda>_. Inr [(''pod'', ''a'')]) (\<lambda>child i. Inr (child ! i)) demo_reader demo_merged p w
        = (record_batch (arrow_schema ?schema) (Some [0]) (rows' ! p), w') \<and> True)"
    and len: "length rows = length [[?c], [?c]]" "length rows' = length [[?c, ?c]]" and sets: "mset (concat rows) = mset (concat rows')"
      "mset (concat rows) = mset (concat (map (chunk_rows_spec (\<lambda>_ _. demo_samples) [TimestampFilter OpGt 150]) (concat [[?c], [?c]])))" by blast
  have "size (mset (concat rows)) = 2" unfolding sets(2) size_mset by (rule rows)
  moreover have "fst (execute (\<lambda>_. Inr [(''pod'', ''a'')]) (\<lambda>child i. Inr (child ! i)) demo_reader demo_plan p ())
      = record_batch (arrow_schema ?schema) (Some [0]) (rows ! p)" if "p < 2" for p
    using ex [rule_format, of p "()"] that by auto
  moreover have "fst (execute (\<lambda>_. Inr [(''pod'', ''a'')]) (\<lambda>child i. Inr (child ! i)) demo_reader demo_merged 0 ())
      = record_batch (arrow_schema ?schema) (Some [0]) (rows' ! 0)"
    using ex' [rule_format, of 0 "()"] by auto
  ultimately show ?thesis using len sets(1) unfolding schema
    by (intro exI [of _ rows] exI [of _ rows'] conjI allI impI) simp_all
qed

end
