(* ===== verification/Block_Twin_Props.thy ===== *)
theory Block_Twin_Props
  imports Block_Index_Props
begin

text \<open>
  Two blocks with one id, such as the copies of a block in two buckets: their tables and manifests have the
  same file names, so the second overwrites the first.
\<close>

definition task_identity :: "block_build_task \<Rightarrow> string \<times> string \<times> string \<times> string" where
  "task_identity task = (rc_name (bb_repository task), rc_uri (bb_repository task), bb_block_path task, bb_meta_path task)"

lemma matches_identity:
  "manifest_matches t m cached \<Longrightarrow> manifest_matches u m' cached \<Longrightarrow> task_identity t = task_identity u"
  by (simp add: manifest_matches_def task_identity_def)

lemma finished_manifest:
  assumes "block_finished io location materialize t a files"
  shows "\<exists>bs cached. files (block_manifest_file_path location (task_ulid t)) = Some bs \<and> io_manifest_from_json io bs = Inr cached
    \<and> manifest_matches t materialize cached \<and> a = built_of t location cached
    \<and> files (series_index_file_path location (task_ulid t)) \<noteq> None"
  using assms entry_matches [of io t] unfolding block_finished_def by blast

lemma finished_other_truthful:
  assumes "block_finished io location materialize t a files" and "task_ulid t = task_ulid u" and "task_identity t \<noteq> task_identity u"
  shows "block_truthful io location u files"
proof -
  have "\<not> manifest_matches u m cached" if "manifest_matches t materialize cached" for m cached
    using that assms(3) matches_identity by blast
  with finished_manifest [OF assms(1)] assms(2) show ?thesis unfolding block_truthful_def by auto
qed

text \<open>
  C37: when a block has been built and then another block with the same id, from another repository or path,
  the table the first block was published with holds the series of the second block, and the next bootstrap
  does not find the first block in the cache: it is built again, over the second.
\<close>

theorem blocks_with_one_id_overwrite:
  assumes "task_ulid t = task_ulid u" and "task_identity t \<noteq> task_identity u"
    and "plain_ulid (task_ulid u)" and "plain_location location" and "manifest_json_ok io"
    and "block_finished io location materialize t a (wd_files w)"
    and "build_or_reuse io location materialize u w = Some (Inr b, w')"
  shows "bx_series_index_path b = bx_series_index_path a
    \<and> (\<exists>c. wd_files w' (bx_series_index_path a) = Some c \<and> series_table_right io u c)
    \<and> (\<forall>v r v'. wd_files v = wd_files w' \<longrightarrow> load_cached_block_index io t location materialize v = (r, v')
        \<longrightarrow> (\<forall>x. r \<noteq> Inr (Some x)))"
proof -
  have u: "block_finished io location materialize u b (wd_files w')"
    by (rule build_or_reuse_spec(3) [OF assms(7,5,4,3) finished_other_truthful [OF assms(6,1,2)] refl])
  from finished_manifest [OF u] obtain bs cached where
    manifest: "wd_files w' (block_manifest_file_path location (task_ulid u)) = Some bs" "io_manifest_from_json io bs = Inr cached"
      "manifest_matches u materialize cached" and b: "b = built_of u location cached" by blast
  from finished_manifest [OF assms(6)] obtain cached' where a: "a = built_of t location cached'" by blast
  have paths: "bx_series_index_path b = bx_series_index_path a" "bx_series_index_path a = series_index_file_path location (task_ulid u)"
    using assms(1) by (simp_all add: a b built_of_def task_ulid_def)
  have "r \<noteq> Inr (Some x)" if "wd_files v = wd_files w'" "load_cached_block_index io t location materialize v = (r, v')" for v r v' x
  proof
    assume "r = Inr (Some x)"
    from load_spec(2) [OF that(2) this] have "manifest_matches t materialize cached" using manifest that(1) assms(1) by auto
    with manifest(3) assms(2) matches_identity show False by blast
  qed
  moreover have "\<exists>c. wd_files w' (series_index_file_path location (task_ulid u)) = Some c \<and> series_table_right io u c"
    using u by (auto simp: block_finished_def)
  ultimately show ?thesis using paths by auto
qed

text \<open>The block of \<open>Block_Example\<close> in the repositories \<open>r\<close> and \<open>s\<close>.\<close>

definition twin :: "string \<Rightarrow> block_build_task" where
  "twin n = \<lparr>bb_repository = \<lparr>rc_name = n, rc_uri = ''file:///'' @ n, rc_s3 = None, rc_gcs = None\<rparr>,
     bb_storage = demo_block_storage\<lparr>rp_name := n\<rparr>, bb_meta = demo_meta, bb_block_path = ''b'', bb_meta_path = ''b/meta.json''\<rparr>"

definition twin_row :: "string \<Rightarrow> block_index_row" where
  "twin_row n = (case index_row demo_index_codec (bb_repository (twin n)) demo_meta ''b'' ''b/meta.json'' of Inr row \<Rightarrow> row)"

definition twin_cached :: "string \<Rightarrow> cached_block_index" where
  "twin_cached n = cached_of (twin_row n) False 1 1 []"

definition twin_io :: index_outside where
  "twin_io = demo_io\<lparr>
     io_env := demo_block_env\<lparr>ev_objects := (\<lambda>r p. if p = ''b/index'' then Some one_series_index else None)\<rparr>,
     io_manifest_json := (\<lambda>c. if c = twin_cached ''r'' then Inr [7] else if c = twin_cached ''s'' then Inr [8] else Inl ''unknown''),
     io_manifest_from_json := (\<lambda>bs. if bs = [7] then Inr (twin_cached ''r'') else if bs = [8] then Inr (twin_cached ''s'') else Inl ''syntax'')\<rparr>"

lemma twin_healthy: "\<not> may_fail (io_env twin_io)"
  by (simp add: twin_io_def may_fail_def demo_block_env_def)

lemma twin_outside: "outside (io_env twin_io) call w = call (w\<lparr>wd_clock := wd_clock w + 1\<rparr>)"
  by (rule outside_healthy [OF twin_healthy])

lemma twin_json: "manifest_json_ok twin_io"
  by (simp add: manifest_json_ok_def twin_io_def split: if_splits)

lemma twin_index_row: "index_row demo_index_codec (bb_repository (twin n)) demo_meta ''b'' ''b/meta.json'' = Inr (twin_row n)"
  by (simp add: twin_row_def index_row_def demo_index_codec_def demo_meta_def)

lemma twin_of [simp]: "bb_meta (twin n) = demo_meta" "bb_block_path (twin n) = ''b''" "bb_meta_path (twin n) = ''b/meta.json''"
  "rc_uri (bb_repository (twin n)) = ''file:///'' @ n" "io_codec twin_io = demo_index_codec" "io_crc twin_io = zero_crc"
  "task_ulid (twin n) = ''U''"
  by (simp_all add: twin_def twin_io_def task_ulid_def demo_meta_def)

lemma twin_builds:
  assumes "n \<in> {''r'', ''s''}"
  shows "\<exists>w'. build_chunk_index twin_io (twin n) ''d'' False w = Some (Inr (built_of (twin n) ''d'' (twin_cached n)), w')"
proof -
  let ?w1 = "w\<lparr>wd_clock := wd_clock w + 1\<rparr>" and ?counts = "(1, 1, [] :: metric_labels)"
  have read: "repository_read (io_env twin_io) (bb_storage (twin n)) (bb_block_path (twin n) @ ''/index'') w = (Inr one_series_index, ?w1)"
    by (simp add: repository_read_def operator_read_all_def twin_outside) (simp add: twin_io_def twin_def demo_block_storage_def retW_def)
  have row: "\<forall>e \<in> set [one_series]. \<exists>row. series_row demo_index_codec uri demo_meta ''b'' e = Inr row" for uri
    using demo_series_row_of by (auto simp: series_row_def tryR_eq_Inr)
  obtain w2 where "write_series_index_streaming (io_env twin_io) zero_crc (io_parquet twin_io) demo_index_codec (''file:///'' @ n) demo_meta ''b''
      one_series_index ''d/series/U.parquet'' ?w1 = Some (Inr (1, 1), w2)"
    using series_writer_complete [OF twin_healthy _ one_series_parse row, of "''d/series/U.parquet''" "io_parquet twin_io" "''file:///'' @ n" ?w1]
    by (auto simp: demo_path_eval demo_total)
  then have written: "write_block twin_io (twin n) ''d'' False one_series_index ?w1 = Some (Inr ?counts, w2)"
    by (simp add: write_block_def demo_of_task demo_paths Let_def)
  have json: "\<exists>bs. io_manifest_json twin_io (twin_cached n) = Inr bs" using assms by (auto simp: twin_io_def)
  have "\<exists>w3. write_block_manifest twin_io ''d'' ''U'' (twin_cached n) w2 = (Inr (), w3)"
    using json by (auto simp: write_block_manifest_def demo_paths demo_path_eval twin_outside fs_create_dir_all_def fs_write_def
        fs_rename_def doW_def retW_def Let_def)
  then obtain w3 where fin: "finish_block twin_io (twin n) ''d'' False ?counts w2 = (Inr (built_of (twin n) ''d'' (twin_cached n)), w3)"
    by (auto simp: finish_block_def demo_of_task twin_index_row twin_cached_def doW_def retW_def Let_def)
  have unnamed: "build_chunk_index twin_io (twin n) ''d'' False w
    = Some (map_prod (worker_result (bb_block_path (twin n) @ ''/index'')) id (finish_block twin_io (twin n) ''d'' False ?counts w2))"
    unfolding build_chunk_index_def Let_def read prod.case sum.case written by simp
  show ?thesis unfolding unnamed fin by (simp add: worker_result_def)
qed

lemma twin_not_loaded:
  assumes "block_finished twin_io ''d'' False (twin n) a (wd_files w)" and "task_identity (twin n) \<noteq> task_identity (twin m)"
  shows "\<exists>w'. load_cached_block_index twin_io (twin m) ''d'' False w = (Inr None, w')"
proof -
  from finished_manifest [OF assms(1)] obtain bs cached where
    "wd_files w (block_manifest_file_path ''d'' ''U'') = Some bs" "io_manifest_from_json twin_io bs = Inr cached"
    "manifest_matches (twin n) False cached" "wd_files w (series_index_file_path ''d'' ''U'') \<noteq> None" by auto
  moreover from this(3) have "\<not> manifest_matches (twin m) False cached" using assms(2) matches_identity by blast
  ultimately show ?thesis
    by (auto simp: load_cached_block_index_def Let_def is_file_def demo_of_task fs_read_def twin_outside doW_def retW_def)
qed

theorem blocks_with_one_id_overwrite_witness:
  "\<exists>w w'. build_or_reuse twin_io ''d'' False (twin ''r'') demo_world = Some (Inr (built_of (twin ''r'') ''d'' (twin_cached ''r'')), w)
    \<and> build_or_reuse twin_io ''d'' False (twin ''s'') w = Some (Inr (built_of (twin ''s'') ''d'' (twin_cached ''s'')), w')
    \<and> (\<exists>c. wd_files w' ''d/series/U.parquet'' = Some c \<and> series_table_right twin_io (twin ''s'') c)"
proof -
  have differ: "task_identity (twin ''r'') \<noteq> task_identity (twin ''s'')" by (simp add: task_identity_def twin_def)
  have ulid: "plain_ulid (task_ulid (twin n))" for n by (simp add: plain_ulid_def)
  have "load_cached_block_index twin_io (twin ''r'') ''d'' False demo_world = (Inr None, demo_world)"
    by (simp add: load_cached_block_index_def is_file_def demo_world_def)
  then obtain w where first: "build_or_reuse twin_io ''d'' False (twin ''r'') demo_world = Some (Inr (built_of (twin ''r'') ''d'' (twin_cached ''r'')), w)"
    using twin_builds [of "''r''" demo_world] by (auto simp: build_or_reuse_def)
  have "block_truthful twin_io ''d'' (twin ''r'') (wd_files demo_world)" by (simp add: block_truthful_def demo_world_def)
  from build_or_reuse_spec(3) [OF first twin_json demo_location ulid this refl]
  have finished: "block_finished twin_io ''d'' False (twin ''r'') (built_of (twin ''r'') ''d'' (twin_cached ''r'')) (wd_files w)" .
  from twin_not_loaded [OF finished differ] obtain w1 where "load_cached_block_index twin_io (twin ''s'') ''d'' False w = (Inr None, w1)" by blast
  then obtain w' where second: "build_or_reuse twin_io ''d'' False (twin ''s'') w = Some (Inr (built_of (twin ''s'') ''d'' (twin_cached ''s'')), w')"
    using twin_builds [of "''s''" w1] by (auto simp: build_or_reuse_def)
  have "task_ulid (twin ''r'') = task_ulid (twin ''s'')" by simp
  from blocks_with_one_id_overwrite [OF this differ ulid demo_location twin_json finished second] first second
  show ?thesis by (auto simp: built_of_def demo_of_task demo_paths)
qed

end
