(* ===== verification/Block_Calls.thy ===== *)
theory Block_Calls
  imports Block_Index
begin

text \<open>
  The tasks of \<open>src/block_index.rs\<close> call by call: what \<open>Block_Index\<close> runs to its end, as a process that stops
  at every call it makes outside, so that several tasks can take turns.

  A \<open>process\<close> has returned, spins (the parser's loop may not end), or makes a call and goes on with the answer.
  The operations are those of \<open>Block_Files\<close> and \<open>Block_Index\<close>, under their names with the suffix \<open>_calls\<close>;
  \<open>Block_Calls_Facts\<close> shows that run alone they do the same.
\<close>

section \<open>Processes\<close>

datatype outside_call =
    IsFile string
  | ReadFile string
  | CreateDir string
  | WriteFile string bytes
  | RenameFile string string
  | RemoveFile string
  | UseOpenFile
  | ObjectExists string string
  | ReadObject string string
  | ReadClock

datatype answer =
    Failed "string fault"
  | Done
  | Exists bool
  | Contents "bytes option"
  | Time "string + nat"

datatype 'a process = Return 'a | Spin | Call outside_call "answer \<Rightarrow> 'a process"

definition answer_of :: "('a \<Rightarrow> answer) \<Rightarrow> (string fault + 'a) \<times> world \<Rightarrow> answer \<times> world" where
  "answer_of f x = map_prod (case_sum Failed f) id x"

fun perform :: "index_outside \<Rightarrow> outside_call \<Rightarrow> world \<Rightarrow> answer \<times> world" where
  "perform io (IsFile path) w = (Exists (is_file w path), w)"
| "perform io (ReadFile path) w = answer_of Contents (fs_read (io_env io) path w)"
| "perform io (CreateDir path) w = answer_of (\<lambda>_. Done) (fs_create_dir_all (io_env io) path w)"
| "perform io (WriteFile path bs) w = answer_of (\<lambda>_. Done) (fs_write (io_env io) path bs w)"
| "perform io (RenameFile from_path to_path) w = answer_of (\<lambda>_. Done) (fs_rename (io_env io) from_path to_path w)"
| "perform io (RemoveFile path) w = answer_of (\<lambda>_. Done) (fs_remove_file (io_env io) path w)"
| "perform io UseOpenFile w = answer_of (\<lambda>_. Done) (outside (io_env io) (retW ()) w)"
| "perform io (ObjectExists repository path) w =
     answer_of Exists (outside (io_env io) (\<lambda>w. retW (ev_objects (io_env io) repository path \<noteq> None) w) w)"
| "perform io (ReadObject repository path) w =
     answer_of Contents (outside (io_env io) (\<lambda>w. retW (ev_objects (io_env io) repository path) w) w)"
| "perform io ReadClock w = (Time (io_now io w), w)"

text \<open>Running a process alone to its end; none when it spins.\<close>

primrec run_process :: "index_outside \<Rightarrow> 'a process \<Rightarrow> world \<Rightarrow> ('a \<times> world) option" where
  "run_process io (Return x) = (\<lambda>w. Some (x, w))"
| "run_process io Spin = (\<lambda>w. None)"
| "run_process io (Call c k) = (\<lambda>w. case perform io c w of (a, w') \<Rightarrow> run_process io (k a) w')"

primrec bindP :: "'a process \<Rightarrow> ('a \<Rightarrow> 'b process) \<Rightarrow> 'b process" where
  "bindP (Return x) f = f x"
| "bindP Spin f = Spin"
| "bindP (Call c k) f = Call c (\<lambda>a. bindP (k a) f)"

definition doP :: "('e + 'a) process \<Rightarrow> ('a \<Rightarrow> ('e + 'b) process) \<Rightarrow> ('e + 'b) process" where
  "doP p f = bindP p (\<lambda>r. case r of Inl e \<Rightarrow> Return (Inl e) | Inr x \<Rightarrow> f x)"

fun unit_reply :: "answer \<Rightarrow> string fault + unit" where
  "unit_reply (Failed e) = Inl e"
| "unit_reply _ = Inr ()"

fun contents_reply :: "answer \<Rightarrow> string fault + bytes option" where
  "contents_reply (Failed e) = Inl e"
| "contents_reply (Contents c) = Inr c"
| "contents_reply _ = Inr None"

fun exists_reply :: "answer \<Rightarrow> string fault + bool" where
  "exists_reply (Failed e) = Inl e"
| "exists_reply (Exists b) = Inr b"
| "exists_reply _ = Inr False"

fun time_reply :: "answer \<Rightarrow> string + nat" where
  "time_reply (Time t) = t"
| "time_reply _ = Inl ''''"

definition ask :: "outside_call \<Rightarrow> (answer \<Rightarrow> 'a) \<Rightarrow> 'a process" where
  "ask c reply = Call c (\<lambda>a. Return (reply a))"

section \<open>The writers\<close>

definition flush_rows_calls ::
  "('r list \<Rightarrow> string fault + batch) \<Rightarrow> 'r table_writer \<Rightarrow> (string fault + 'r table_writer) process" where
  "flush_rows_calls record_batch table =
     (if tw_rows table = [] then Return (Inr table)
      else
        case record_batch (tw_rows table) of
          Inl e \<Rightarrow> Return (Inl e)
        | Inr batch \<Rightarrow>
            doP (ask UseOpenFile unit_reply) (\<lambda>_. doP (ask UseOpenFile unit_reply) (\<lambda>_.
              Return (Inr \<lparr>tw_rows = [], tw_batches = tw_batches table @ [batch]\<rparr>))))"

definition open_table_calls :: "string \<Rightarrow> (string fault + unit) process" where
  "open_table_calls path =
     (if \<not> has_file_name path then Return (Inl (Err ''invalid index path''))
      else
        doP (if parent_path path = '''' then Return (Inr ()) else ask (CreateDir (parent_path path)) unit_reply) (\<lambda>_.
        doP (ask (WriteFile (partial_path path) []) unit_reply) (\<lambda>_. ask UseOpenFile unit_reply)))"

definition close_table_calls :: "parquet \<Rightarrow> field list \<Rightarrow> string \<Rightarrow> batch list \<Rightarrow> (string fault + unit) process" where
  "close_table_calls parquet schema path batches =
     ask (WriteFile (partial_path path) (parquet schema batches)) unit_reply"

definition visit_series_calls ::
  "index_codec \<Rightarrow> string \<Rightarrow> block_meta \<Rightarrow> string \<Rightarrow> index_series \<Rightarrow> series_progress \<Rightarrow> series_progress process" where
  "visit_series_calls codec repository_uri meta block_path series s =
     (if ss_error s \<noteq> None then Return s
      else
        let s1 = s\<lparr>ss_series_count := ss_series_count s + 1\<rparr>;
            (r, rows) = append_series_row codec repository_uri meta block_path series (tw_rows (ss_table s)) in
        case r of
          Inl e \<Rightarrow> Return (s1\<lparr>ss_error := Some e\<rparr>)
        | Inr count \<Rightarrow>
            (let table = (ss_table s)\<lparr>tw_rows := rows\<rparr>;
                 s2 = s1\<lparr>ss_chunk_count := ss_chunk_count s + count, ss_table := table\<rparr> in
             if length rows < INDEX_BATCH_SIZE then Return s2
             else
               bindP (flush_rows_calls series_record_batch table) (\<lambda>r. Return
                 (case r of Inl e \<Rightarrow> s2\<lparr>ss_error := Some e\<rparr> | Inr table' \<Rightarrow> s2\<lparr>ss_table := table'\<rparr>))))"

definition finish_series_calls ::
  "parquet \<Rightarrow> string \<Rightarrow> string fault + unit \<Rightarrow> series_progress \<Rightarrow> (string fault + (nat \<times> nat)) process" where
  "finish_series_calls parquet path parsed s =
     (case tryR parsed (\<lambda>_. case ss_error s of Some e \<Rightarrow> Inl e | None \<Rightarrow> Inr ()) of
        Inl Panic \<Rightarrow> Return (Inl Panic)
      | Inl (Err e) \<Rightarrow> ask (RemoveFile (partial_path path)) (\<lambda>_. Inl (Err e))
      | Inr _ \<Rightarrow>
          doP (flush_rows_calls series_record_batch (ss_table s)) (\<lambda>table.
          doP (close_table_calls parquet series_schema path (tw_batches table)) (\<lambda>_.
          doP (ask (RenameFile (partial_path path) path) unit_reply) (\<lambda>_.
            Return (Inr (ss_series_count s, ss_chunk_count s))))))"

text \<open>The visitor's state is the process of the visits so far; a parser that does not end spins.\<close>

definition write_series_calls ::
  "(bytes \<Rightarrow> u32) \<Rightarrow> parquet \<Rightarrow> index_codec \<Rightarrow> string \<Rightarrow> block_meta \<Rightarrow> string \<Rightarrow> bytes \<Rightarrow> string
   \<Rightarrow> (string fault + (nat \<times> nat)) process" where
  "write_series_calls crc parquet codec repository_uri meta block_path index series_index_path =
     (let path = local_path series_index_path in
      doP (open_table_calls path) (\<lambda>_.
        case parse_each crc index
            (\<lambda>series visits. bindP visits (visit_series_calls codec repository_uri meta block_path series))
            (Return \<lparr>ss_table = new_table, ss_series_count = 0, ss_chunk_count = 0, ss_error = None\<rparr>) of
          None \<Rightarrow> Spin
        | Some (parsed, visits) \<Rightarrow> bindP visits (finish_series_calls parquet path parsed)))"

definition flush_full_calls ::
  "('r list \<Rightarrow> string fault + batch) \<Rightarrow> 'r table_writer \<Rightarrow> string fault option
   \<Rightarrow> ('r table_writer \<times> string fault option) process" where
  "flush_full_calls record_batch table error =
     (if length (tw_rows table) < INDEX_BATCH_SIZE then Return (table, error)
      else
        bindP (flush_rows_calls record_batch table) (\<lambda>r. Return
          (case r of Inl e \<Rightarrow> (table, Some e) | Inr table' \<Rightarrow> (table', error))))"

definition visit_both_calls ::
  "index_codec \<Rightarrow> repository_config \<Rightarrow> block_meta \<Rightarrow> string \<Rightarrow> index_series \<Rightarrow> both_progress \<Rightarrow> both_progress process" where
  "visit_both_calls codec repository meta block_path series s =
     (if bo_error s \<noteq> None then Return s
      else
        let s1 = s\<lparr>bo_series_count := bo_series_count s + 1,
                   bo_metric_labels := collect_metric_labels (tm_labels (me_thanos meta)) [series] (bo_metric_labels s)\<rparr>;
            (r, rows, series_rows) = append_chunk_rows codec repository meta block_path series
              (tw_rows (bo_chunks s)) (tw_rows (bo_series s));
            chunks = (bo_chunks s)\<lparr>tw_rows := rows\<rparr>;
            series_table = (bo_series s)\<lparr>tw_rows := series_rows\<rparr> in
        case r of
          Inl e \<Rightarrow> Return (s1\<lparr>bo_chunks := chunks, bo_series := series_table, bo_error := Some e\<rparr>)
        | Inr count \<Rightarrow>
            bindP (flush_full_calls chunk_record_batch chunks None) (\<lambda>(chunks', error).
            bindP (flush_full_calls series_record_batch series_table error) (\<lambda>(series_table', error').
              Return (s1\<lparr>bo_chunk_count := bo_chunk_count s + count, bo_chunks := chunks', bo_series := series_table',
                bo_error := error'\<rparr>))))"

definition finish_both_calls ::
  "parquet \<Rightarrow> string \<Rightarrow> string \<Rightarrow> string fault + unit \<Rightarrow> both_progress
   \<Rightarrow> (string fault + (nat \<times> nat \<times> metric_labels)) process" where
  "finish_both_calls parquet path series_path parsed s =
     (case tryR parsed (\<lambda>_. case bo_error s of Some e \<Rightarrow> Inl e | None \<Rightarrow> Inr ()) of
        Inl Panic \<Rightarrow> Return (Inl Panic)
      | Inl (Err e) \<Rightarrow>
          bindP (ask (RemoveFile (partial_path path)) id) (\<lambda>_.
            ask (RemoveFile (partial_path series_path)) (\<lambda>_. Inl (Err e)))
      | Inr _ \<Rightarrow>
          doP (flush_rows_calls chunk_record_batch (bo_chunks s)) (\<lambda>chunks.
          doP (flush_rows_calls series_record_batch (bo_series s)) (\<lambda>series_table.
          doP (close_table_calls parquet chunk_schema path (tw_batches chunks)) (\<lambda>_.
          doP (close_table_calls parquet series_schema series_path (tw_batches series_table)) (\<lambda>_.
          doP (ask (RenameFile (partial_path path) path) unit_reply) (\<lambda>_.
          doP (ask (RenameFile (partial_path series_path) series_path) unit_reply) (\<lambda>_.
            Return (Inr (bo_series_count s, bo_chunk_count s, bo_metric_labels s)))))))))"

definition write_both_calls ::
  "(bytes \<Rightarrow> u32) \<Rightarrow> parquet \<Rightarrow> index_codec \<Rightarrow> repository_config \<Rightarrow> block_meta \<Rightarrow> string \<Rightarrow> bytes
   \<Rightarrow> string \<Rightarrow> string \<Rightarrow> (string fault + (nat \<times> nat \<times> metric_labels)) process" where
  "write_both_calls crc parquet codec repository meta block_path index chunk_index_path series_index_path =
     (let path = local_path chunk_index_path; series_path = local_path series_index_path in
      doP (doP (open_table_calls path) (\<lambda>_. open_table_calls series_path)) (\<lambda>_.
        case parse_each crc index
            (\<lambda>series visits. bindP visits (visit_both_calls codec repository meta block_path series))
            (Return \<lparr>bo_chunks = new_table, bo_series = new_table, bo_metric_labels = [], bo_series_count = 0,
               bo_chunk_count = 0, bo_error = None\<rparr>) of
          None \<Rightarrow> Spin
        | Some (parsed, visits) \<Rightarrow> bindP visits (finish_both_calls parquet path series_path parsed)))"

section \<open>One block\<close>

definition write_block_calls ::
  "index_outside \<Rightarrow> block_build_task \<Rightarrow> string \<Rightarrow> bool \<Rightarrow> bytes
   \<Rightarrow> (string fault + (nat \<times> nat \<times> metric_labels)) process" where
  "write_block_calls io task location materialize index =
     (let ulid = me_ulid (bb_meta task); series_index_path = series_index_file_path location ulid in
      if materialize then
        write_both_calls (io_crc io) (io_parquet io) (io_codec io) (bb_repository task) (bb_meta task)
          (bb_block_path task) index (chunk_index_file_path location ulid) series_index_path
      else
        doP (write_series_calls (io_crc io) (io_parquet io) (io_codec io) (rc_uri (bb_repository task))
               (bb_meta task) (bb_block_path task) index series_index_path)
          (\<lambda>(series_count, chunk_count). Return (Inr (series_count, chunk_count, []))))"

definition write_block_manifest_calls ::
  "index_outside \<Rightarrow> string \<Rightarrow> string \<Rightarrow> cached_block_index \<Rightarrow> (string fault + unit) process" where
  "write_block_manifest_calls io location block_ulid cached =
     (let path = block_manifest_file_path location block_ulid;
          temporary_path = with_extension path ''json.partial'' in
      if parent_path path = '''' then Return (Inl (Err ''invalid block manifest path''))
      else
        doP (ask (CreateDir (parent_path path)) unit_reply) (\<lambda>_.
          case io_manifest_json io cached of
            Inl e \<Rightarrow> Return (Inl (Err e))
          | Inr bs \<Rightarrow>
              doP (ask (WriteFile temporary_path bs) unit_reply) (\<lambda>_.
                ask (RenameFile temporary_path path) unit_reply)))"

definition finish_block_calls ::
  "index_outside \<Rightarrow> block_build_task \<Rightarrow> string \<Rightarrow> bool \<Rightarrow> nat \<times> nat \<times> metric_labels
   \<Rightarrow> (string fault + built_block_index) process" where
  "finish_block_calls io task location materialize counts =
     (case counts of (series_count, chunk_count, labels) \<Rightarrow>
        (case index_row (io_codec io) (bb_repository task) (bb_meta task) (bb_block_path task) (bb_meta_path task) of
           Inl e \<Rightarrow> Return (Inl e)
         | Inr row \<Rightarrow>
             (let cached = cached_of row materialize series_count chunk_count labels in
              doP (write_block_manifest_calls io location (me_ulid (bb_meta task)) cached) (\<lambda>_.
                Return (Inr (built_of task location cached))))))"

definition build_chunk_index_calls ::
  "index_outside \<Rightarrow> block_build_task \<Rightarrow> string \<Rightarrow> bool \<Rightarrow> (string fault + built_block_index) process" where
  "build_chunk_index_calls io task location materialize =
     (let index_path = bb_block_path task @ ''/index'' in
      doP (ask (ReadObject (rp_name (bb_storage task)) index_path) contents_reply) (\<lambda>contents.
        case contents of
          None \<Rightarrow> Return (Inl (Err ''not found''))
        | Some index \<Rightarrow>
            bindP (doP (write_block_calls io task location materialize index)
                (finish_block_calls io task location materialize))
              (\<lambda>r. Return (worker_result index_path r))))"

definition load_cached_calls ::
  "index_outside \<Rightarrow> block_build_task \<Rightarrow> string \<Rightarrow> bool \<Rightarrow> (string fault + built_block_index option) process" where
  "load_cached_calls io task location materialize =
     (let ulid = me_ulid (bb_meta task);
          series_index_path = series_index_file_path location ulid in
      doP (ask (IsFile series_index_path) exists_reply) (\<lambda>series_there.
        if \<not> series_there then Return (Inr None)
        else
          doP (if materialize then ask (IsFile (chunk_index_file_path location ulid)) exists_reply else Return (Inr True))
            (\<lambda>chunks_there.
              if \<not> chunks_there then Return (Inr None)
              else
                doP (ask (ReadFile (block_manifest_file_path location ulid)) contents_reply) (\<lambda>contents.
                  case contents of
                    None \<Rightarrow> Return (Inr None)
                  | Some bs \<Rightarrow>
                      (case io_manifest_from_json io bs of
                         Inl _ \<Rightarrow> Return (Inr None)
                       | Inr cached \<Rightarrow>
                           if \<not> manifest_matches task materialize cached then Return (Inr None)
                           else Return (Inr (Some \<lparr>bx_row = cb_row cached, bx_block_ulid = br_block_ulid (cb_row cached),
                             bx_block_path = bb_block_path task, bx_index_path = bb_block_path task @ ''/index'',
                             bx_series_index_path = series_index_path, bx_series_count = cb_series_count cached,
                             bx_chunk_count = cb_chunk_count cached, bx_metric_labels = cb_metric_labels cached\<rparr>)))))))"

definition build_or_reuse_calls ::
  "index_outside \<Rightarrow> string \<Rightarrow> bool \<Rightarrow> block_build_task \<Rightarrow> (string fault + built_block_index) process" where
  "build_or_reuse_calls io location materialize task =
     doP (load_cached_calls io task location materialize) (\<lambda>found.
       case found of
         Some built \<Rightarrow> Return (Inr built)
       | None \<Rightarrow> build_chunk_index_calls io task location materialize)"

section \<open>Block metadata\<close>

definition read_block_meta_calls ::
  "index_outside \<Rightarrow> nat option \<Rightarrow> meta_read_task \<Rightarrow> (string fault + meta_read_result) process" where
  "read_block_meta_calls io block_max_age task =
     doP (ask (ObjectExists (rp_name (mk_storage task))
         (if mk_block_path task = '''' then DELETION_MARK_FILE_NAME
          else mk_block_path task @ ''/'' @ DELETION_MARK_FILE_NAME)) exists_reply) (\<lambda>marked.
       if marked then Return (Inr SkippedDeleted)
       else
         doP (ask (ReadObject (rp_name (mk_storage task)) (mk_meta_path task)) contents_reply) (\<lambda>contents.
           case contents of
             None \<Rightarrow> Return (Inr SkippedDeleted)
           | Some bs \<Rightarrow>
               (case ix_meta_from_json (io_codec io) bs of
                  Inl e \<Rightarrow> Return (Inl (Err e))
                | Inr meta \<Rightarrow>
                    bindP (if block_max_age = None then Return (Inr 0) else ask ReadClock time_reply) (\<lambda>now. Return
                      (tryR (block_is_older_than now meta block_max_age) (\<lambda>old.
                        Inr (if old then SkippedOld
                             else Build \<lparr>bb_repository = mk_repository task, bb_storage = mk_storage task,
                               bb_meta = meta, bb_block_path = mk_block_path task,
                               bb_meta_path = mk_meta_path task\<rparr>)))))))"

end
