(* ===== verification/Block_Pool.thy ===== *)
theory Block_Pool
  imports Block_Calls
begin

text \<open>
  The concurrent tasks of \<open>build_block_index\<close>: \<open>stream::iter(..).map(..).buffer_unordered(n).try_collect()\<close>,
  for the metadata reads and for the block builds.

  A pool starts its tasks in the order they come, runs at most \<open>n\<close> at a time, and gathers their results in
  the order they end.  The first error ends the gathering: no further task starts, but work already on a
  blocking thread goes on, so tasks that run may still take turns.  A list of events says what happens: the
  next task begins, or the i-th running task makes its next call or hands over what it returned.  Events that
  cannot happen change nothing, so every list of events is one interleaving, and every prefix of it a moment
  at which the process may be killed.
\<close>

section \<open>A pool of tasks\<close>

record ('t, 'a) pool =
  pl_waiting :: "'t list"
  pl_running :: "('t \<times> (string fault + 'a) process) list"
  pl_done :: "('t \<times> 'a) list"
  pl_error :: "string fault option"

datatype pool_event = Begin | Turn nat

definition pool_start :: "'t list \<Rightarrow> ('t, 'a) pool" where
  "pool_start tasks = \<lparr>pl_waiting = tasks, pl_running = [], pl_done = [], pl_error = None\<rparr>"

definition remove_at :: "nat \<Rightarrow> 'a list \<Rightarrow> 'a list" where
  "remove_at i xs = take i xs @ drop (Suc i) xs"

definition pool_begin ::
  "nat \<Rightarrow> ('t \<Rightarrow> (string fault + 'a) process) \<Rightarrow> ('t, 'a) pool \<Rightarrow> ('t, 'a) pool" where
  "pool_begin limit work pool =
     (case pl_waiting pool of
        [] \<Rightarrow> pool
      | t # ts \<Rightarrow>
          if pl_error pool \<noteq> None \<or> limit \<le> length (pl_running pool) then pool
          else pool\<lparr>pl_waiting := ts, pl_running := pl_running pool @ [(t, work t)]\<rparr>)"

definition hand_over :: "'t \<Rightarrow> string fault + 'a \<Rightarrow> ('t, 'a) pool \<Rightarrow> ('t, 'a) pool" where
  "hand_over t r pool =
     (if pl_error pool \<noteq> None then pool
      else case r of Inl e \<Rightarrow> pool\<lparr>pl_error := Some e\<rparr> | Inr x \<Rightarrow> pool\<lparr>pl_done := pl_done pool @ [(t, x)]\<rparr>)"

definition pool_turn :: "index_outside \<Rightarrow> nat \<Rightarrow> ('t, 'a) pool \<times> world \<Rightarrow> ('t, 'a) pool \<times> world" where
  "pool_turn io i s =
     (case s of (pool, w) \<Rightarrow>
      if length (pl_running pool) \<le> i then (pool, w)
      else
        case pl_running pool ! i of
          (t, Return r) \<Rightarrow> (hand_over t r (pool\<lparr>pl_running := remove_at i (pl_running pool)\<rparr>), w)
        | (t, Spin) \<Rightarrow> (pool, w)
        | (t, Call c k) \<Rightarrow>
            (case perform io c w of (a, w') \<Rightarrow>
              (pool\<lparr>pl_running := (pl_running pool)[i := (t, k a)]\<rparr>, w')))"

fun pool_step ::
  "index_outside \<Rightarrow> nat \<Rightarrow> ('t \<Rightarrow> (string fault + 'a) process) \<Rightarrow> pool_event
   \<Rightarrow> ('t, 'a) pool \<times> world \<Rightarrow> ('t, 'a) pool \<times> world" where
  "pool_step io limit work Begin s = map_prod (pool_begin limit work) id s"
| "pool_step io limit work (Turn i) s = pool_turn io i s"

definition run_pool ::
  "index_outside \<Rightarrow> nat \<Rightarrow> ('t \<Rightarrow> (string fault + 'a) process) \<Rightarrow> 't list \<Rightarrow> pool_event list
   \<Rightarrow> world \<Rightarrow> ('t, 'a) pool \<times> world" where
  "run_pool io limit work tasks events w = fold (pool_step io limit work) events (pool_start tasks, w)"

text \<open>What \<open>try_collect\<close> has: an error, all results, or nothing yet.\<close>

definition pool_outcome :: "('t, 'a) pool \<Rightarrow> (string fault + 'a list) option" where
  "pool_outcome pool =
     (case pl_error pool of
        Some e \<Rightarrow> Some (Inl e)
      | None \<Rightarrow>
          if pl_waiting pool = [] \<and> pl_running pool = [] then Some (Inr (map snd (pl_done pool))) else None)"

section \<open>The index, with concurrent tasks\<close>

text \<open>The outcome is none as long as a pool has none; the world is the one reached so far.\<close>

definition build_block_index_concurrently ::
  "index_outside \<Rightarrow> (string \<Rightarrow> repository option) \<Rightarrow> nat \<Rightarrow> nat \<Rightarrow> pool_event list \<Rightarrow> pool_event list
   \<Rightarrow> repository_config list \<Rightarrow> string \<Rightarrow> bool \<Rightarrow> nat option
   \<Rightarrow> world \<Rightarrow> (string fault + metric_table_schema list) option \<times> world" where
  "build_block_index_concurrently io repository_for metadata_concurrency build_concurrency meta_events build_events
     repositories location materialize block_max_age w =
     (case discover io repository_for repositories of
        Inl e \<Rightarrow> (Some (Inl e), w)
      | Inr meta_tasks \<Rightarrow>
          (case run_pool io metadata_concurrency (read_block_meta_calls io block_max_age) meta_tasks meta_events w of
             (metas, w1) \<Rightarrow>
           case pool_outcome metas of
             None \<Rightarrow> (None, w1)
           | Some (Inl e) \<Rightarrow> (Some (Inl e), w1)
           | Some (Inr results) \<Rightarrow>
               (let tasks = build_tasks results;
                    active = bs_of_list (map (\<lambda>t. me_ulid (bb_meta t)) tasks) in
                case (if materialize then (Inr (), w1) else remove_chunk_index_files io location w1) of
                  (Inl e, w2) \<Rightarrow> (Some (Inl e), w2)
                | (Inr _, w2) \<Rightarrow>
                    (case run_pool io build_concurrency (build_or_reuse_calls io location materialize) tasks build_events w2 of
                       (builds, w3) \<Rightarrow>
                     case pool_outcome builds of
                       None \<Rightarrow> (None, w3)
                     | Some (Inl e) \<Rightarrow> (Some (Inl e), w3)
                     | Some (Inr built) \<Rightarrow> map_prod Some id (publish io location active built w3)))))"

end
