(* ===== verification/Block_Calls_Facts.thy ===== *)
theory Block_Calls_Facts
  imports Block_Calls Block_Publish_Facts
begin

text \<open>
  Facts on the processes of the block index: run alone they do what the operations of \<open>Block_Index\<close> do; they
  touch their own files only; and a run among others is, for its own files, a run alone against some other
  pattern of failing calls.
\<close>

section \<open>Running a process alone\<close>

lemma run_bindP:
  "run_process io (bindP p f) w = Option.bind (run_process io p w) (\<lambda>(x, w'). run_process io (f x) w')"
  by (induction p arbitrary: w) (auto split: prod.split)

lemma run_doP:
  "run_process io (doP p f) w
   = Option.bind (run_process io p w) (\<lambda>(r, w'). case r of Inl e \<Rightarrow> Some (Inl e, w') | Inr x \<Rightarrow> run_process io (f x) w')"
  by (simp add: doP_def run_bindP) (auto intro!: bind_option_cong split: sum.split)

lemma run_ask: "run_process io (ask c reply) w = Some (map_prod reply id (perform io c w))"
  by (simp add: ask_def split: prod.split)

lemma unit_reply_answer: "map_prod unit_reply id (answer_of (\<lambda>_. Done) x) = x"
  by (cases x) (auto simp: answer_of_def split: sum.split)

lemma contents_reply_answer: "map_prod contents_reply id (answer_of Contents x) = x"
  by (cases x) (auto simp: answer_of_def split: sum.split)

lemma exists_reply_answer: "map_prod exists_reply id (answer_of Exists x) = x"
  by (cases x) (auto simp: answer_of_def split: sum.split)

lemmas run_calls = run_ask unit_reply_answer contents_reply_answer exists_reply_answer

lemma run_doW:
  "run_process io p w = Some (m w) \<Longrightarrow> (\<And>x w'. run_process io (f x) w' = Some (g x w'))
    \<Longrightarrow> run_process io (doP p f) w = Some (doW m g w)"
  by (auto simp: run_doP doW_def split: prod.split sum.split)

lemma run_retW: "run_process io (Return (Inr x)) w = Some (retW x w)"
  by (simp add: retW_def)

lemma run_failW: "run_process io (Return (Inl (Err e))) w = Some (failW e w)"
  by (simp add: failW_def)

lemma fault_result_cases:
  obtains (panics) "r = Inl Panic" | (errs) e where "r = Inl (Err e)" | (passes) x where "r = Inr x"
  by (metis fault.exhaust obj_sumE)

section \<open>The writers alone\<close>

lemma run_flush_rows:
  "run_process io (flush_rows_calls record_batch table) w = Some (flush_rows (io_env io) record_batch table w)"
  by (auto simp: flush_rows_calls_def flush_rows_def run_calls retW_def split: sum.split intro!: run_doW)

lemma run_open_table: "run_process io (open_table_calls path) w = Some (open_table (io_env io) path w)"
  unfolding open_table_calls_def open_table_def
  by (auto simp: run_calls retW_def failW_def intro!: run_doW)

lemma run_close_table:
  "run_process io (close_table_calls parquet schema path batches) w
   = Some (close_table (io_env io) parquet schema path batches w)"
  by (simp add: close_table_calls_def close_table_def run_calls)

text \<open>The progress of a writer with the world it runs in is the stream of \<open>Block_Files\<close>.\<close>

definition series_in :: "world \<Rightarrow> series_progress \<Rightarrow> series_stream" where
  "series_in w s = \<lparr>ss_table = ss_table s, ss_series_count = ss_series_count s, ss_chunk_count = ss_chunk_count s,
     ss_error = ss_error s, ss_world = w\<rparr>"

lemma series_in_simps [simp]:
  "ss_table (series_in w s) = ss_table s" "ss_series_count (series_in w s) = ss_series_count s"
  "ss_chunk_count (series_in w s) = ss_chunk_count s" "ss_error (series_in w s) = ss_error s"
  "ss_world (series_in w s) = w"
  by (simp_all add: series_in_def)

lemma run_visit_series:
  "\<exists>s' w'. run_process io (visit_series_calls codec uri meta block_path e s) w = Some (s', w')
    \<and> visit_series (io_env io) codec uri meta block_path e (series_in w s) = series_in w' s'"
proof -
  obtain r rows where row: "append_series_row codec uri meta block_path e (tw_rows (ss_table s)) = (r, rows)"
    by fastforce
  show ?thesis
    by (cases "ss_error s"; cases r)
      (auto simp: visit_series_calls_def visit_series_def row Let_def run_bindP run_flush_rows series_in_def
        split: prod.split sum.split)
qed

lemma run_visits:
  assumes "\<And>e s w. \<exists>s' w'. run_process io (visit_calls e s) w = Some (s', w') \<and> visit e (inside w s) = inside w' s'"
  shows "run_process io start w = Some (s, w1) \<Longrightarrow>
    \<exists>s' w'. run_process io (fold (\<lambda>e visits. bindP visits (visit_calls e)) es start) w = Some (s', w')
      \<and> fold visit es (inside w1 s) = inside w' s'"
proof (induction es arbitrary: start s w1)
  case Nil
  then show ?case by simp
next
  case (Cons e es)
  obtain s2 w2 where step: "run_process io (visit_calls e s) w1 = Some (s2, w2)" "visit e (inside w1 s) = inside w2 s2"
    using assms by blast
  then have "run_process io (bindP start (visit_calls e)) w = Some (s2, w2)"
    using Cons.prems by (simp add: run_bindP)
  from Cons.IH [OF this] step(2) show ?case by simp
qed

lemma run_finish_series:
  "run_process io (finish_series_calls parquet path parsed s) w
   = Some (finish_series (io_env io) parquet path parsed (series_in w s))"
proof -
  have rest: "run_process io (doP (flush_rows_calls series_record_batch (ss_table s)) (\<lambda>table.
      doP (close_table_calls parquet series_schema path (tw_batches table)) (\<lambda>_.
      doP (ask (RenameFile (partial_path path) path) unit_reply) (\<lambda>_.
        Return (Inr (ss_series_count s, ss_chunk_count s)))))) w
    = Some (doW (flush_rows (io_env io) series_record_batch (ss_table s)) (\<lambda>table.
        doW (close_table (io_env io) parquet series_schema path (tw_batches table)) (\<lambda>_.
        doW (fs_rename (io_env io) (partial_path path) path) (\<lambda>_.
          retW (ss_series_count s, ss_chunk_count s)))) w)"
    by (intro run_doW run_flush_rows run_close_table run_retW) (simp add: run_calls)
  obtain outcome where outcome: "outcome = tryR parsed (\<lambda>_. case ss_error s of Some e \<Rightarrow> Inl e | None \<Rightarrow> Inr ())" by simp
  show ?thesis
    unfolding finish_series_calls_def finish_series_def series_in_simps rest outcome [symmetric]
    by (cases outcome rule: fault_result_cases)
      (simp_all add: rest remove_quietly_def run_bindP run_ask answer_of_def map_prod_def split_beta)
qed

lemma run_parse:
  assumes "\<And>e s w. \<exists>s' w'. run_process io (visit_calls e s) w = Some (s', w') \<and> visit e (inside w s) = inside w' s'"
    and "\<And>parsed s w. run_process io (finish_calls parsed s) w = Some (finish parsed (inside w s))"
  shows "run_process io (case parse_each crc index (\<lambda>e visits. bindP visits (visit_calls e)) (Return s) of
      None \<Rightarrow> Spin | Some (parsed, visits) \<Rightarrow> bindP visits (finish_calls parsed)) w
    = map_option (\<lambda>(parsed, s). finish parsed s) (parse_each crc index visit (inside w s))"
proof -
  obtain parse where parse: "parse = parse_each crc index (\<lambda>e es. es @ [e]) []" by simp
  have calls: "parse_each crc index f start = map_option (\<lambda>(r, es). (r, fold f es start)) parse"
    for f :: "index_series \<Rightarrow> 'z \<Rightarrow> 'z" and start
    unfolding parse by (rule parse_each_fold)
  show ?thesis
  proof (cases parse)
    case None
    then show ?thesis by (simp add: parse_each_fold [of crc index "\<lambda>e visits. bindP visits (visit_calls e)"]
        parse_each_fold [of crc index visit] parse [symmetric])
  next
    case (Some p)
    obtain r es where p: "p = (r, es)" by (cases p)
    obtain s' w' where run: "run_process io (fold (\<lambda>e visits. bindP visits (visit_calls e)) es (Return s)) w = Some (s', w')"
      and same: "fold visit es (inside w s) = inside w' s'"
      using run_visits [where visit_calls = visit_calls and visit = visit and inside = inside and start = "Return s"
          and es = es and s = s and ?w1.0 = w and w = w and io = io, OF assms(1)] by auto
    show ?thesis
      by (simp add: parse_each_fold [of crc index "\<lambda>e visits. bindP visits (visit_calls e)"]
          parse_each_fold [of crc index visit] parse [symmetric] Some p run_bindP run same assms(2))
  qed
qed

lemma run_doP_action:
  "run_process io p w = Some (m w) \<Longrightarrow> run_process io (doP p f) w
    = (case m w of (Inl e, w') \<Rightarrow> Some (Inl e, w') | (Inr x, w') \<Rightarrow> run_process io (f x) w')"
  by (auto simp: run_doP split: prod.split sum.split)

lemma run_write_series:
  "run_process io (write_series_calls crc parquet codec uri meta block_path index path) w
   = write_series_index_streaming (io_env io) crc parquet codec uri meta block_path index path w"
proof -
  have start: "series_in w1 \<lparr>ss_table = new_table, ss_series_count = 0, ss_chunk_count = 0, ss_error = None\<rparr>
    = \<lparr>ss_table = new_table, ss_series_count = 0, ss_chunk_count = 0, ss_error = None, ss_world = w1\<rparr>" for w1
    by (simp add: series_in_def)
  note parse = run_parse [where inside = series_in and visit_calls = "visit_series_calls codec uri meta block_path"
      and visit = "visit_series (io_env io) codec uri meta block_path",
      OF run_visit_series run_finish_series]
  show ?thesis
    by (simp only: write_series_calls_def write_series_index_streaming_def Let_def
        run_doP_action [where m = "open_table (io_env io) _", OF run_open_table] parse start)
qed

definition both_in :: "world \<Rightarrow> both_progress \<Rightarrow> both_stream" where
  "both_in w s = \<lparr>bo_chunks = bo_chunks s, bo_series = bo_series s, bo_metric_labels = bo_metric_labels s,
     bo_series_count = bo_series_count s, bo_chunk_count = bo_chunk_count s, bo_error = bo_error s, bo_world = w\<rparr>"

lemma both_in_simps [simp]:
  "bo_chunks (both_in w s) = bo_chunks s" "bo_series (both_in w s) = bo_series s"
  "bo_metric_labels (both_in w s) = bo_metric_labels s" "bo_series_count (both_in w s) = bo_series_count s"
  "bo_chunk_count (both_in w s) = bo_chunk_count s" "bo_error (both_in w s) = bo_error s"
  "bo_world (both_in w s) = w"
  by (simp_all add: both_in_def)

lemma run_flush_full:
  "run_process io (flush_full_calls record_batch table error) w
   = (case flush_full (io_env io) record_batch table error w of (table', error', w') \<Rightarrow> Some ((table', error'), w'))"
  by (auto simp: flush_full_calls_def flush_full_def run_bindP run_flush_rows split: prod.split sum.split)

lemma run_visit_both:
  "\<exists>s' w'. run_process io (visit_both_calls codec repository meta block_path e s) w = Some (s', w')
    \<and> visit_both (io_env io) codec repository meta block_path e (both_in w s) = both_in w' s'"
proof -
  obtain r rows series_rows where row: "append_chunk_rows codec repository meta block_path e
      (tw_rows (bo_chunks s)) (tw_rows (bo_series s)) = (r, rows, series_rows)" by (metis surj_pair)
  show ?thesis
    by (cases "bo_error s"; cases r)
      (auto simp: visit_both_calls_def visit_both_def row Let_def run_bindP run_flush_full both_in_def
        split: prod.split sum.split)
qed

lemma run_finish_both:
  "run_process io (finish_both_calls parquet path series_path parsed s) w
   = Some (finish_both (io_env io) parquet path series_path parsed (both_in w s))"
proof -
  have rest: "run_process io (doP (flush_rows_calls chunk_record_batch (bo_chunks s)) (\<lambda>chunks.
      doP (flush_rows_calls series_record_batch (bo_series s)) (\<lambda>series_table.
      doP (close_table_calls parquet chunk_schema path (tw_batches chunks)) (\<lambda>_.
      doP (close_table_calls parquet series_schema series_path (tw_batches series_table)) (\<lambda>_.
      doP (ask (RenameFile (partial_path path) path) unit_reply) (\<lambda>_.
      doP (ask (RenameFile (partial_path series_path) series_path) unit_reply) (\<lambda>_.
        Return (Inr (bo_series_count s, bo_chunk_count s, bo_metric_labels s))))))))) w
    = Some (doW (flush_rows (io_env io) chunk_record_batch (bo_chunks s)) (\<lambda>chunks.
        doW (flush_rows (io_env io) series_record_batch (bo_series s)) (\<lambda>series_table.
        doW (close_table (io_env io) parquet chunk_schema path (tw_batches chunks)) (\<lambda>_.
        doW (close_table (io_env io) parquet series_schema series_path (tw_batches series_table)) (\<lambda>_.
        doW (fs_rename (io_env io) (partial_path path) path) (\<lambda>_.
        doW (fs_rename (io_env io) (partial_path series_path) series_path) (\<lambda>_.
          retW (bo_series_count s, bo_chunk_count s, bo_metric_labels s))))))) w)"
    by (intro run_doW run_flush_rows run_close_table run_retW) (simp_all add: run_calls)
  obtain outcome where outcome: "outcome = tryR parsed (\<lambda>_. case bo_error s of Some e \<Rightarrow> Inl e | None \<Rightarrow> Inr ())" by simp
  show ?thesis
    unfolding finish_both_calls_def finish_both_def both_in_simps rest outcome [symmetric]
    by (cases outcome rule: fault_result_cases)
      (simp_all add: rest remove_quietly_def run_bindP run_ask answer_of_def map_prod_def split_beta)
qed

lemma run_write_both:
  "run_process io (write_both_calls crc parquet codec repository meta block_path index chunk_path path) w
   = write_chunk_and_series_index_streaming (io_env io) crc parquet codec repository meta block_path index chunk_path path w"
proof -
  have start: "both_in w1 \<lparr>bo_chunks = new_table, bo_series = new_table, bo_metric_labels = [], bo_series_count = 0,
      bo_chunk_count = 0, bo_error = None\<rparr>
    = \<lparr>bo_chunks = new_table, bo_series = new_table, bo_metric_labels = [], bo_series_count = 0,
      bo_chunk_count = 0, bo_error = None, bo_world = w1\<rparr>" for w1
    by (simp add: both_in_def)
  note parse = run_parse [where inside = both_in and visit_calls = "visit_both_calls codec repository meta block_path"
      and visit = "visit_both (io_env io) codec repository meta block_path",
      OF run_visit_both run_finish_both]
  have opens: "run_process io (doP (open_table_calls p) (\<lambda>_. open_table_calls q)) w
    = Some (doW (open_table (io_env io) p) (\<lambda>_. open_table (io_env io) q) w)" for p q w
    by (intro run_doW run_open_table)
  show ?thesis
    by (simp only: write_both_calls_def write_chunk_and_series_index_streaming_def Let_def
        run_doP_action [where m = "doW (open_table (io_env io) _) (\<lambda>_. open_table (io_env io) _)", OF opens] parse start)
qed

section \<open>One block alone\<close>

lemma run_write_block:
  "run_process io (write_block_calls io task location materialize index) w = write_block io task location materialize index w"
proof -
  have counts: "Option.bind x (\<lambda>(r, w'). case r of Inl e \<Rightarrow> Some (Inl e, w')
      | Inr c \<Rightarrow> run_process io (case c of (n, m) \<Rightarrow> Return (Inr (n, m, []))) w')
    = map_option (\<lambda>(r, w'). (tryR r (\<lambda>(n, m). Inr (n, m, [])), w')) x" for x
    by (cases x) (auto split: sum.split)
  show ?thesis
    by (simp add: write_block_calls_def write_block_def Let_def run_write_both run_doP run_write_series counts)
qed

lemma run_write_block_manifest:
  "run_process io (write_block_manifest_calls io location ulid cached) w
   = Some (write_block_manifest io location ulid cached w)"
proof -
  let ?path = "block_manifest_file_path location ulid"
  have rest: "run_process io (case io_manifest_json io cached of
        Inl e \<Rightarrow> Return (Inl (Err e))
      | Inr bs \<Rightarrow> doP (ask (WriteFile t bs) unit_reply) (\<lambda>_. ask (RenameFile t ?path) unit_reply)) w
    = Some (case io_manifest_json io cached of
        Inl e \<Rightarrow> (Inl (Err e), w)
      | Inr bs \<Rightarrow> doW (fs_write (io_env io) t bs) (\<lambda>_. fs_rename (io_env io) t ?path) w)" for t w
    by (cases "io_manifest_json io cached") (auto simp: run_calls intro!: run_doW)
  show ?thesis
    unfolding write_block_manifest_calls_def write_block_manifest_def Let_def
    by (cases "parent_path ?path = ''''") (simp_all add: failW_def, intro run_doW rest, simp add: run_calls)
qed

lemma run_finish_block:
  "run_process io (finish_block_calls io task location materialize counts) w
   = Some (finish_block io task location materialize counts w)"
proof -
  obtain n m labels where counts: "counts = (n, m, labels)" by (cases counts)
  show ?thesis
    by (cases "index_row (io_codec io) (bb_repository task) (bb_meta task) (bb_block_path task) (bb_meta_path task)")
      (simp_all add: finish_block_calls_def finish_block_def counts Let_def,
        intro run_doW run_write_block_manifest run_retW)
qed

lemma run_read_object:
  "run_process io (doP (ask (ReadObject (rp_name repository) path) contents_reply) (\<lambda>contents.
      case contents of None \<Rightarrow> Return (Inl (Err ''not found'')) | Some bs \<Rightarrow> f bs)) w
   = (case repository_read (io_env io) repository path w of
        (Inl e, w') \<Rightarrow> Some (Inl e, w') | (Inr bs, w') \<Rightarrow> run_process io (f bs) w')"
  by (cases "ev_fault (io_env io) (wd_clock w)"; cases "ev_objects (io_env io) (rp_name repository) path")
    (simp_all add: run_doP run_ask answer_of_def repository_read_def operator_read_all_def outside_def retW_def failW_def)

lemma run_build_chunk_index:
  "run_process io (build_chunk_index_calls io task location materialize) w
   = build_chunk_index io task location materialize w"
proof -
  have rest: "run_process io (bindP (doP (write_block_calls io task location materialize index)
        (finish_block_calls io task location materialize)) (\<lambda>r. Return (worker_result path r))) w
    = map_option (\<lambda>(r, w2). map_prod (worker_result path) id
        (case r of Inl e \<Rightarrow> (Inl e, w2) | Inr counts \<Rightarrow> finish_block io task location materialize counts w2))
      (write_block io task location materialize index w)" for index path w
    by (cases "write_block io task location materialize index w")
      (auto simp: run_bindP run_doP run_write_block run_finish_block map_prod_def split_beta split: sum.split)
  show ?thesis
    by (auto simp: build_chunk_index_calls_def build_chunk_index_def Let_def run_read_object rest
        split: prod.split sum.split)
qed

lemma run_is_file: "run_process io (ask (IsFile path) exists_reply) w = Some (Inr (is_file w path), w)"
  by (simp add: run_ask)

lemma run_load_cached:
  "run_process io (load_cached_calls io task location materialize) w
   = Some (load_cached_block_index io task location materialize w)"
proof -
  let ?manifest = "block_manifest_file_path location (me_ulid (bb_meta task))"
  have read: "run_process io (doP (ask (ReadFile ?manifest) contents_reply) f) w
    = Some (doW (fs_read (io_env io) ?manifest) g w)"
    if "\<And>x w'. run_process io (f x) w' = Some (g x w')" for f g w
    by (intro run_doW that) (simp add: run_calls)
  show ?thesis
    unfolding load_cached_calls_def load_cached_block_index_def Let_def
    by (auto simp: run_doP [of _ "ask (IsFile _) _"] run_doP [of _ "if _ then _ else _"] run_doP [of _ "Return _"]
        run_is_file retW_def intro!: read split: option.split sum.split)
qed

theorem run_build_or_reuse:
  "run_process io (build_or_reuse_calls io location materialize task) w = build_or_reuse io location materialize task w"
proof -
  obtain r w1 where load: "load_cached_block_index io task location materialize w = (r, w1)" by fastforce
  show ?thesis
    by (cases r) (auto simp: build_or_reuse_calls_def build_or_reuse_def run_doP run_load_cached load
        run_build_chunk_index split: option.split)
qed

theorem run_read_block_meta:
  "run_process io (read_block_meta_calls io age task) w = Some (read_block_meta io age task w)"
proof -
  have found: "run_process io (ask (ReadObject (rp_name (mk_storage task)) (mk_meta_path task)) contents_reply) w
    = Some (repository_read_found (io_env io) (mk_storage task) (mk_meta_path task) w)" for w
    by (simp add: run_calls repository_read_found_def)
  have marked: "run_process io (ask (ObjectExists (rp_name (mk_storage task))
         (if mk_block_path task = '''' then DELETION_MARK_FILE_NAME
          else mk_block_path task @ ''/'' @ DELETION_MARK_FILE_NAME)) exists_reply) w
    = Some (block_has_deletion_mark (io_env io) (mk_storage task) (mk_block_path task) w)" for w
    by (simp add: run_calls block_has_deletion_mark_def operator_exists_def)
  have clock: "run_process io (bindP (ask ReadClock time_reply) (\<lambda>now. Return (f now))) w = Some (f (io_now io w), w)" for f w
    by (simp add: run_bindP run_ask)
  have young: "block_is_older_than now meta None = Inr False" for now meta
    by (simp add: block_is_older_than_def)
  show ?thesis
    unfolding read_block_meta_calls_def read_block_meta_def
    by (intro run_doW marked) (auto simp: retW_def clock young split: sum.split option.split intro!: run_doW found)
qed

end
