(* ===== verification/Block_Alone_Facts.thy ===== *)
theory Block_Alone_Facts
  imports Block_Calls_Facts
begin

text \<open>
  A process among others, seen alone: which files its calls touch, what it has done so far as steps on those
  files, and that these steps are a prefix of a run alone against some pattern of failing calls.  A kill is
  the pattern in which every later call fails, since a failed call changes nothing.
\<close>

section \<open>Where a process stays\<close>

fun call_paths :: "outside_call \<Rightarrow> string set" where
  "call_paths (IsFile path) = {path}"
| "call_paths (ReadFile path) = {path}"
| "call_paths (WriteFile path bs) = {path}"
| "call_paths (RenameFile from_path to_path) = {from_path, to_path}"
| "call_paths (RemoveFile path) = {path}"
| "call_paths _ = {}"

text \<open>All calls of a process are on the paths, none asks the time; the process never spins.\<close>

primrec calm :: "string set \<Rightarrow> 'a process \<Rightarrow> bool" where
  "calm P (Return x) = True"
| "calm P Spin = False"
| "calm P (Call c k) = (call_paths c \<subseteq> P \<and> c \<noteq> ReadClock \<and> (\<forall>a. calm P (k a)))"

text \<open>The same, but the process may spin after the use of an open file went well.\<close>

primrec stays :: "string set \<Rightarrow> 'a process \<Rightarrow> bool" where
  "stays P (Return x) = True"
| "stays P Spin = True"
| "stays P (Call c k) = (call_paths c \<subseteq> P \<and> c \<noteq> ReadClock
     \<and> (\<forall>a. (k a = Spin \<longrightarrow> c = UseOpenFile \<and> (\<forall>e. a \<noteq> Failed e)) \<and> stays P (k a)))"

named_theorems calm_intros \<open>processes that touch their own files only and do not spin\<close>

lemma calm_not_Spin: "calm P p \<Longrightarrow> p \<noteq> Spin"
  by auto

lemma calm_no_Spin: "\<forall>a. calm P (k a) \<Longrightarrow> k a = Spin \<Longrightarrow> False"
  by (drule spec [of _ a]) simp

lemma calm_stays: "calm P p \<Longrightarrow> stays P p"
  by (induction p) (auto dest: calm_no_Spin)

lemma calm_Return [calm_intros]: "calm P (Return x)"
  by simp

lemma calm_bindP [calm_intros]: "calm P p \<Longrightarrow> (\<And>x. calm P (f x)) \<Longrightarrow> calm P (bindP p f)"
  by (induction p) auto

lemma calm_doP [calm_intros]: "calm P p \<Longrightarrow> (\<And>x. calm P (f x)) \<Longrightarrow> calm P (doP p f)"
  by (auto simp: doP_def split: sum.split intro!: calm_bindP)

lemma calm_ask [calm_intros]: "call_paths c \<subseteq> P \<Longrightarrow> c \<noteq> ReadClock \<Longrightarrow> calm P (ask c reply)"
  by (simp add: ask_def)

lemma bindP_Spin: "bindP p f = Spin \<longleftrightarrow> p = Spin \<or> (\<exists>x. p = Return x \<and> f x = Spin)"
  by (cases p) auto

lemma ask_not_Spin [simp]: "ask c reply \<noteq> Spin" "bindP (ask c reply) f \<noteq> Spin" "doP (ask c reply) g \<noteq> Spin"
  by (simp_all add: ask_def doP_def)

lemma stays_bindP: "stays P p \<Longrightarrow> (\<And>x. calm P (f x)) \<Longrightarrow> stays P (bindP p f)"
proof (induction p)
  case (Call c k)
  have "f x \<noteq> Spin" for x using Call.prems(2) [of x] by (rule calm_not_Spin)
  with Call show ?case by (auto simp: bindP_Spin)
qed (simp_all add: calm_stays)

lemma stays_doP: "stays P p \<Longrightarrow> (\<And>x. calm P (f x)) \<Longrightarrow> stays P (doP p f)"
  by (auto simp: doP_def split: sum.split intro!: stays_bindP)

lemma stays_after: "calm P p \<Longrightarrow> (\<And>x. stays P (f x)) \<Longrightarrow> (\<And>x. f x \<noteq> Spin) \<Longrightarrow> stays P (bindP p f)"
  by (induction p) (auto simp: bindP_Spin dest: calm_no_Spin)

lemma no_Spin_case: "(\<And>x. f x \<noteq> Spin) \<Longrightarrow> (case r of Inl e \<Rightarrow> Return (Inl e) | Inr x \<Rightarrow> f x) \<noteq> Spin"
  by (cases r) auto

lemma stays_doP_after:
  "calm P p \<Longrightarrow> (\<And>x. stays P (f x)) \<Longrightarrow> (\<And>x. f x \<noteq> Spin) \<Longrightarrow> stays P (doP p f)"
  unfolding doP_def by (rule stays_after) (auto simp: no_Spin_case split: sum.split)

lemma doP_not_Spin: "p \<noteq> Spin \<Longrightarrow> (\<And>x. f x \<noteq> Spin) \<Longrightarrow> doP p f \<noteq> Spin"
  by (auto simp: doP_def bindP_Spin split: sum.split)

lemma bindP_assoc: "bindP (bindP p f) g = bindP p (\<lambda>x. bindP (f x) g)"
  by (induction p) auto

lemma doP_assoc: "doP (doP p f) g = doP p (\<lambda>x. doP (f x) g)"
proof -
  have "bindP (case r of Inl e \<Rightarrow> Return (Inl e) | Inr x \<Rightarrow> f x) (\<lambda>r. case r of Inl e \<Rightarrow> Return (Inl e) | Inr x \<Rightarrow> g x)
    = (case r of Inl e \<Rightarrow> Return (Inl e) | Inr x \<Rightarrow> bindP (f x) (\<lambda>r. case r of Inl e \<Rightarrow> Return (Inl e) | Inr x \<Rightarrow> g x))" for r
    by (cases r) simp_all
  then show ?thesis by (simp add: doP_def bindP_assoc)
qed

lemma doP_Return: "doP (Return (Inl e)) f = Return (Inl e)" "doP (Return (Inr x)) f = f x"
  by (simp_all add: doP_def)

lemma unit_reply_Inr: "unit_reply a = Inr x \<Longrightarrow> a \<noteq> Failed e"
  by auto

lemma stays_open_table:
  assumes "partial_path path \<in> P" and "\<And>x. stays P (f x)"
  shows "stays P (doP (open_table_calls path) f)" and "doP (open_table_calls path) f \<noteq> Spin"
proof -
  have last: "stays P (doP (ask UseOpenFile unit_reply) f)" "doP (ask UseOpenFile unit_reply) f \<noteq> Spin"
    using assms(2) by (auto simp: doP_def ask_def dest: unit_reply_Inr split: sum.split)
  have written: "stays P (doP (ask (WriteFile (partial_path path) []) unit_reply) (\<lambda>_. doP (ask UseOpenFile unit_reply) f))"
    "doP (ask (WriteFile (partial_path path) []) unit_reply) (\<lambda>_. doP (ask UseOpenFile unit_reply) f) \<noteq> Spin"
    using assms(1) last by (auto intro!: stays_doP_after calm_intros)
  show "stays P (doP (open_table_calls path) f)"
    unfolding open_table_calls_def using written
    by (auto simp: doP_assoc doP_Return intro!: stays_doP_after calm_intros)
  show "doP (open_table_calls path) f \<noteq> Spin"
    unfolding open_table_calls_def using written by (auto simp: doP_assoc doP_Return)
qed

section \<open>The processes of a block\<close>

lemma calm_flush_rows [calm_intros]: "calm P (flush_rows_calls record_batch table)"
  by (auto simp: flush_rows_calls_def split: sum.split intro!: calm_intros)

lemma calm_visit_series [calm_intros]: "calm P (visit_series_calls codec uri meta block_path e s)"
  by (auto simp: visit_series_calls_def Let_def split: prod.split sum.split intro!: calm_intros)

lemma calm_visit_both [calm_intros]: "calm P (visit_both_calls codec repository meta block_path e s)"
  by (auto simp: visit_both_calls_def flush_full_calls_def Let_def split: prod.split sum.split intro!: calm_intros)

lemma calm_visits: "calm P start \<Longrightarrow> (\<And>e s. calm P (visit_calls e s))
    \<Longrightarrow> calm P (fold (\<lambda>e visits. bindP visits (visit_calls e)) es start)"
  by (induction es arbitrary: start) (auto intro: calm_bindP)

lemma stays_parse:
  assumes "\<And>e s. calm P (visit_calls e s)" and "\<And>parsed s. calm P (finish_calls parsed s)"
  shows "stays P (case parse_each crc index (\<lambda>e visits. bindP visits (visit_calls e)) (Return s) of
      None \<Rightarrow> Spin | Some (parsed, visits) \<Rightarrow> bindP visits (finish_calls parsed))"
proof (cases "parse_each crc index (\<lambda>e visits. bindP visits (visit_calls e)) (Return s)")
  case (Some x)
  then obtain parsed es where x: "x = (parsed, fold (\<lambda>e visits. bindP visits (visit_calls e)) es (Return s))"
    by (cases x) (auto dest: parse_each_visited)
  have "calm P (bindP (fold (\<lambda>e visits. bindP visits (visit_calls e)) es (Return s)) (finish_calls parsed))"
    by (intro calm_bindP calm_visits calm_Return assms)
  with Some x show ?thesis by (simp add: calm_stays)
qed simp

lemma calm_finish_series: "path \<in> P \<Longrightarrow> partial_path path \<in> P \<Longrightarrow> calm P (finish_series_calls parquet path parsed s)"
  by (auto simp: finish_series_calls_def close_table_calls_def split: sum.split fault.split intro!: calm_intros)

lemma calm_finish_both:
  "path \<in> P \<Longrightarrow> partial_path path \<in> P \<Longrightarrow> series_path \<in> P \<Longrightarrow> partial_path series_path \<in> P
    \<Longrightarrow> calm P (finish_both_calls parquet path series_path parsed s)"
  by (auto simp: finish_both_calls_def close_table_calls_def split: sum.split fault.split intro!: calm_intros)

lemma stays_write_block:
  assumes loc: "plain_location location" and ulid: "plain_ulid (me_ulid (bb_meta task))"
    and P: "table_files location (me_ulid (bb_meta task)) \<subseteq> P"
  shows "stays P (write_block_calls io task location materialize index)"
    and "write_block_calls io task location materialize index \<noteq> Spin"
proof -
  note local = local_index_paths [OF loc ulid]
  let ?series = "series_index_file_path location (me_ulid (bb_meta task))"
  let ?chunks = "chunk_index_file_path location (me_ulid (bb_meta task))"
  have paths: "?series \<in> P" "partial_path ?series \<in> P" "?chunks \<in> P" "partial_path ?chunks \<in> P"
    using P by (auto simp: table_files_def)
  have series: "stays P (write_series_calls crc parquet codec uri meta block_path index ?series)"
    "write_series_calls crc parquet codec uri meta block_path index ?series \<noteq> Spin" for crc parquet codec uri meta block_path
    unfolding write_series_calls_def Let_def local
    by (intro stays_open_table [where P = P] paths stays_parse calm_visit_series calm_finish_series)+
  have both: "stays P (write_both_calls crc parquet codec repository meta block_path index ?chunks ?series)"
    "write_both_calls crc parquet codec repository meta block_path index ?chunks ?series \<noteq> Spin"
    for crc parquet codec repository meta block_path
    unfolding write_both_calls_def Let_def local doP_assoc
    by (intro stays_open_table [where P = P] paths stays_parse calm_visit_both calm_finish_both)+
  show "stays P (write_block_calls io task location materialize index)"
    unfolding write_block_calls_def Let_def using series(1) both(1)
    by (auto intro!: stays_doP split: prod.split)
  show "write_block_calls io task location materialize index \<noteq> Spin"
    unfolding write_block_calls_def Let_def using series(2) both(2)
    by (auto simp: doP_def bindP_Spin split: sum.splits prod.splits)
qed

lemma calm_write_manifest:
  assumes "block_manifest_file_path location ulid \<in> P" and "manifest_temporary_path location ulid \<in> P"
  shows "calm P (write_block_manifest_calls io location ulid cached)"
  using assms unfolding write_block_manifest_calls_def Let_def manifest_temporary_path_def
  by (auto split: sum.split intro!: calm_intros)

lemma stays_build_or_reuse:
  assumes loc: "plain_location location" and ulid: "plain_ulid (task_ulid task)"
  shows "stays (block_files location (task_ulid task)) (build_or_reuse_calls io location materialize task)"
    and "build_or_reuse_calls io location materialize task \<noteq> Spin"
proof -
  let ?P = "block_files location (task_ulid task)"
  have files: "table_files location (me_ulid (bb_meta task)) \<subseteq> ?P"
    "block_manifest_file_path location (me_ulid (bb_meta task)) \<in> ?P"
    "manifest_temporary_path location (me_ulid (bb_meta task)) \<in> ?P"
    "series_index_file_path location (me_ulid (bb_meta task)) \<in> ?P"
    "chunk_index_file_path location (me_ulid (bb_meta task)) \<in> ?P"
    by (auto simp: block_files_def table_files_def task_ulid_def)
  have finish: "calm ?P (finish_block_calls io task location materialize counts)" for counts
    using files(2,3)
    by (auto simp: finish_block_calls_def Let_def split: prod.split sum.split intro!: calm_intros calm_write_manifest)
  have writes: "stays ?P (write_block_calls io task location materialize index)"
    "write_block_calls io task location materialize index \<noteq> Spin" for index
    using stays_write_block [OF loc _ files(1)] ulid by (simp_all add: task_ulid_def)
  have rest: "stays ?P (bindP (doP (write_block_calls io task location materialize index)
        (finish_block_calls io task location materialize)) (\<lambda>r. Return (worker_result path r)))"
    "bindP (doP (write_block_calls io task location materialize index)
        (finish_block_calls io task location materialize)) (\<lambda>r. Return (worker_result path r)) \<noteq> Spin" for index path
    by (intro stays_bindP stays_doP writes finish calm_Return)
      (simp add: bindP_Spin doP_not_Spin [OF writes(2) calm_not_Spin [OF finish]])
  have build: "stays ?P (build_chunk_index_calls io task location materialize)"
    "build_chunk_index_calls io task location materialize \<noteq> Spin"
    unfolding build_chunk_index_calls_def Let_def using rest
    by (auto intro!: stays_doP_after calm_intros split: option.splits)
  have load: "calm ?P (load_cached_calls io task location materialize)"
    using files(2,4,5) unfolding load_cached_calls_def Let_def
    by (auto split: option.split sum.split intro!: calm_intros)
  show "stays ?P (build_or_reuse_calls io location materialize task)"
    unfolding build_or_reuse_calls_def by (rule stays_doP_after [OF load]) (use build in \<open>auto split: option.splits\<close>)
  show "build_or_reuse_calls io location materialize task \<noteq> Spin"
    unfolding build_or_reuse_calls_def
    by (rule doP_not_Spin [OF calm_not_Spin [OF load]]) (use build in \<open>auto split: option.splits\<close>)
qed

section \<open>Steps on files\<close>

text \<open>One call of a process on some files, whichever calls fail.\<close>

definition with_faults :: "index_outside \<Rightarrow> (nat \<Rightarrow> string option) \<Rightarrow> index_outside" where
  "with_faults io fault = io\<lparr>io_env := (io_env io)\<lparr>ev_fault := fault\<rparr>\<rparr>"

type_synonym files = "string \<Rightarrow> bytes option"

inductive process_step :: "index_outside \<Rightarrow> 'a process \<times> files \<Rightarrow> 'a process \<times> files \<Rightarrow> bool" for io where
  process_step: "c \<noteq> ReadClock \<Longrightarrow> perform (with_faults io fault) c w = (a, w')
    \<Longrightarrow> process_step io (Call c k, wd_files w) (k a, wd_files w')"

inductive_cases process_step_Call: "process_step io (p, files) (p', files')"

lemma perform_replays:
  assumes "perform (with_faults io fault) c w = (a, w')" and "c \<noteq> ReadClock"
    and "(\<exists>p. c = IsFile p) \<or> fault' (wd_clock v) = fault (wd_clock w)" and "wd_files v = wd_files w"
  shows "perform (with_faults io fault') c v
      = (a, v\<lparr>wd_files := wd_files w', wd_clock := (if \<exists>p. c = IsFile p then wd_clock v else Suc (wd_clock v))\<rparr>)"
  using assms
  by (cases c) (auto simp: with_faults_def is_file_def answer_of_def fs_read_def fs_create_dir_all_def fs_write_def fs_rename_def
      fs_remove_file_def outside_def retW_def failW_def Let_def split: option.splits)

text \<open>What a process does in several steps, it does alone against some failing calls, up to the same point.\<close>

lemma steps_replay:
  assumes "(process_step io)\<^sup>*\<^sup>* (p, files) (p', files')"
  shows "\<exists>fault m. m \<ge> n \<and> (\<forall>fault' v. (\<forall>i. n \<le> i \<and> i < m \<longrightarrow> fault' i = fault i) \<longrightarrow>
    wd_files v = files \<longrightarrow> wd_clock v = n \<longrightarrow> run_process (with_faults io fault') p v
    = run_process (with_faults io fault') p' (v\<lparr>wd_files := files', wd_clock := m\<rparr>))"
  using assms
proof (induction "(p, files)" arbitrary: p files n rule: converse_rtranclp_induct)
  case base
  show ?case by (intro exI [of _ "\<lambda>_. None"] exI [of _ n]) auto
next
  case (step q)
  obtain p1 files1 where q: "q = (p1, files1)" by (cases q)
  from step.hyps(1) obtain c k fault0 w a w' where p: "p = Call c k" "files = wd_files w" and q1: "p1 = k a" "files1 = wd_files w'"
    and call: "perform (with_faults io fault0) c w = (a, w')" "c \<noteq> ReadClock"
    by (auto simp: q elim: process_step.cases)
  let ?n = "if \<exists>p. c = IsFile p then n else Suc n"
  obtain fault m where m: "m \<ge> ?n" and same: "\<And>fault' v. (\<forall>i. ?n \<le> i \<and> i < m \<longrightarrow> fault' i = fault i) \<Longrightarrow>
    wd_files v = files1 \<Longrightarrow> wd_clock v = ?n \<Longrightarrow> run_process (with_faults io fault') p1 v
    = run_process (with_faults io fault') p' (v\<lparr>wd_files := files', wd_clock := m\<rparr>)"
    using step.hyps(3) [OF q, of ?n] by blast
  let ?fault = "if \<exists>p. c = IsFile p then fault else fault(n := fault0 (wd_clock w))"
  show ?case
  proof (intro exI conjI allI impI)
    show "n \<le> m" using m by (auto split: if_splits)
    fix fault' and v :: world
    assume faults: "\<forall>i. n \<le> i \<and> i < m \<longrightarrow> fault' i = ?fault i" and v: "wd_files v = files" "wd_clock v = n"
    then have "(\<exists>p. c = IsFile p) \<or> fault' (wd_clock v) = fault0 (wd_clock w)" using m by (auto split: if_splits)
    from perform_replays [where fault' = fault' and v = v, OF call this] v
    have "run_process (with_faults io fault') p v
      = run_process (with_faults io fault') p1 (v\<lparr>wd_files := files1, wd_clock := ?n\<rparr>)"
      by (simp add: p q1)
    also have "\<dots> = run_process (with_faults io fault') p' (v\<lparr>wd_files := files1, wd_clock := ?n\<rparr>\<lparr>wd_files := files', wd_clock := m\<rparr>)"
      using faults m by (intro same) (auto split: if_splits)
    finally show "run_process (with_faults io fault') p v
      = run_process (with_faults io fault') p' (v\<lparr>wd_files := files', wd_clock := m\<rparr>)" by simp
  qed
qed

text \<open>So what it returns, it returns alone; and when all later calls fail, it ends with the files as they are.\<close>

lemma steps_return:
  assumes "(process_step io)\<^sup>*\<^sup>* (p, wd_files w) (Return x, files')"
  shows "\<exists>fault w'. run_process (with_faults io fault) p w = Some (x, w') \<and> wd_files w' = files'"
proof -
  obtain fault m where "\<And>fault' v. (\<forall>i. wd_clock w \<le> i \<and> i < m \<longrightarrow> fault' i = fault i) \<Longrightarrow>
    wd_files v = wd_files w \<Longrightarrow> wd_clock v = wd_clock w \<Longrightarrow> run_process (with_faults io fault') p v
    = run_process (with_faults io fault') (Return x) (v\<lparr>wd_files := files', wd_clock := m\<rparr>)"
    using steps_replay [OF assms, of "wd_clock w"] by blast
  from this [of fault w] show ?thesis
    by (intro exI [of _ fault]) simp
qed

lemma perform_fails:
  assumes "\<forall>i \<ge> wd_clock w. fault i \<noteq> None"
  obtains a where "perform (with_faults io fault) c w = (a, w\<lparr>wd_clock := wd_clock w\<rparr>)" "c \<noteq> UseOpenFile"
  | e where "perform (with_faults io fault) c w = (Failed e, w\<lparr>wd_clock := Suc (wd_clock w)\<rparr>)"
proof -
  obtain e where "fault (wd_clock w) = Some e" using assms by (auto simp: not_None_eq)
  then show thesis
    using that by (cases c) (auto simp: with_faults_def answer_of_def fs_read_def fs_create_dir_all_def fs_write_def fs_rename_def
      fs_remove_file_def outside_def)
qed

lemma killed_run:
  "stays P p \<Longrightarrow> p \<noteq> Spin \<Longrightarrow> \<forall>i \<ge> wd_clock w. fault i \<noteq> None \<Longrightarrow>
    \<exists>x w'. run_process (with_faults io fault) p w = Some (x, w') \<and> wd_files w' = wd_files w"
proof (induction p arbitrary: w)
  case (Call c k)
  from Call.prems(3) show ?case
  proof (cases rule: perform_fails [where io = io and c = c])
    case (1 a)
    then have "stays P (k a)" "k a \<noteq> Spin" using Call.prems(1) unfolding stays.simps by blast+
    with 1 show ?thesis using Call.IH [of "k a" w] Call.prems(3) by simp
  next
    case (2 e)
    then have "stays P (k (Failed e))" "k (Failed e) \<noteq> Spin" using Call.prems(1) unfolding stays.simps by blast+
    with 2 show ?thesis using Call.IH [of "k (Failed e)" "w\<lparr>wd_clock := Suc (wd_clock w)\<rparr>"] Call.prems(3) by simp
  qed
qed simp_all

lemma steps_killed:
  assumes steps: "(process_step io)\<^sup>*\<^sup>* (p, wd_files w) (p', files')" and p': "stays P p'" "p' \<noteq> Spin"
  shows "\<exists>fault x w'. run_process (with_faults io fault) p w = Some (x, w') \<and> wd_files w' = files'"
proof -
  obtain fault m where same: "\<And>fault' v. (\<forall>i. wd_clock w \<le> i \<and> i < m \<longrightarrow> fault' i = fault i) \<Longrightarrow>
    wd_files v = wd_files w \<Longrightarrow> wd_clock v = wd_clock w \<Longrightarrow> run_process (with_faults io fault') p v
    = run_process (with_faults io fault') p' (v\<lparr>wd_files := files', wd_clock := m\<rparr>)"
    using steps_replay [OF steps, of "wd_clock w"] by blast
  let ?fault = "\<lambda>i. if i < m then fault i else Some ''killed''"
  have "\<exists>x w'. run_process (with_faults io ?fault) p' (w\<lparr>wd_files := files', wd_clock := m\<rparr>) = Some (x, w')
      \<and> wd_files w' = files'"
    using killed_run [OF p', of "w\<lparr>wd_files := files', wd_clock := m\<rparr>" ?fault io] by simp
  with same [of ?fault w] show ?thesis by (intro exI [of _ ?fault]) simp
qed

lemma stays_steps: "(process_step io)\<^sup>*\<^sup>* q q' \<Longrightarrow> stays P (fst q) \<Longrightarrow> stays P (fst q')"
  by (induction rule: rtranclp_induct) (auto elim: process_step.cases)

lemma steps_killed_anywhere:
  assumes steps: "(process_step io)\<^sup>*\<^sup>* (p, wd_files w) (p', files')" and p: "stays P p" "p \<noteq> Spin"
  shows "\<exists>fault x w'. run_process (with_faults io fault) p w = Some (x, w') \<and> wd_files w' = files'"
proof (cases "p' = Spin")
  case False
  with stays_steps [OF steps, of P] p(1) show ?thesis by (intro steps_killed [OF steps, of P]) simp_all
next
  case True
  then have "(p, wd_files w) \<noteq> (p', files')" using p(2) by auto
  with rtranclpD [OF steps] have "(process_step io)\<^sup>+\<^sup>+ (p, wd_files w) (p', files')" by auto
  then obtain q where q: "(process_step io)\<^sup>*\<^sup>* (p, wd_files w) q" "process_step io q (p', files')"
    by (blast dest: tranclpD [to_pred] tranclp_rtranclp_tranclp elim: tranclp.cases intro: tranclp_into_rtranclp)
  from q(2) obtain c k fault w0 a w' where last: "q = (Call c k, wd_files w0)" "p' = k a" "files' = wd_files w'"
    "perform (with_faults io fault) c w0 = (a, w')"
    by (cases rule: process_step.cases) auto
  have stays: "stays P (Call c k)" using stays_steps [OF q(1), of P] p(1) last(1) by simp
  then have "k a = Spin \<longrightarrow> c = UseOpenFile" unfolding stays.simps by blast
  then have "c = UseOpenFile" using True last(2) by simp
  then have "files' = wd_files w0"
    using last(3,4) by (auto simp: answer_of_def outside_def retW_def Let_def split: option.splits)
  with steps_killed [OF q(1) [unfolded last(1)] stays] show ?thesis by simp
qed

section \<open>Other tasks\<close>

text \<open>A call does on the files it names what it does when the other files are different.\<close>

lemma perform_local:
  assumes "perform io c w = (a, w')" and "call_paths c \<subseteq> P" and "c \<noteq> ReadClock" and "\<And>q. q \<in> P \<Longrightarrow> files q = wd_files w q"
  shows "\<exists>w2. perform io c (w\<lparr>wd_files := files\<rparr>) = (a, w2) \<and> (\<forall>q \<in> P. wd_files w2 q = wd_files w' q)
    \<and> (\<forall>q. q \<notin> P \<longrightarrow> wd_files w' q = wd_files w q)"
  using assms
  by (cases c) (auto simp: is_file_def answer_of_def fs_read_def fs_create_dir_all_def fs_write_def fs_rename_def
      fs_remove_file_def outside_def retW_def failW_def Let_def split: option.splits)

definition alone :: "index_outside \<Rightarrow> string set \<Rightarrow> 'a process \<Rightarrow> files \<Rightarrow> 'a process \<Rightarrow> files \<Rightarrow> bool" where
  "alone io P start files0 p files \<longleftrightarrow>
     (\<exists>files1. (process_step io)\<^sup>*\<^sup>* (start, files0) (p, files1) \<and> (\<forall>q \<in> P. files q = files1 q)) \<and> stays P p"

lemma alone_start: "stays P start \<Longrightarrow> (\<And>q. q \<in> P \<Longrightarrow> files q = files0 q) \<Longrightarrow> alone io P start files0 start files"
  by (auto simp: alone_def)

lemma alone_own_call:
  assumes "alone io P start files0 (Call c k) (wd_files w)" and "perform io c w = (a, w')"
  shows "alone io P start files0 (k a) (wd_files w')" and "q \<notin> P \<Longrightarrow> wd_files w' q = wd_files w q"
proof -
  from assms(1) obtain files1 where steps: "(process_step io)\<^sup>*\<^sup>* (start, files0) (Call c k, files1)"
    and agree: "\<forall>q \<in> P. wd_files w q = files1 q" and stays: "stays P (Call c k)"
    by (auto simp: alone_def)
  have c: "call_paths c \<subseteq> P" "c \<noteq> ReadClock" "stays P (k a)" using stays by auto
  obtain w2 where w2: "perform io c (w\<lparr>wd_files := files1\<rparr>) = (a, w2)" "\<forall>q \<in> P. wd_files w2 q = wd_files w' q"
    and others: "\<forall>q. q \<notin> P \<longrightarrow> wd_files w' q = wd_files w q"
    using perform_local [OF assms(2) c(1,2), of files1] agree by auto
  have "with_faults io (ev_fault (io_env io)) = io" by (simp add: with_faults_def)
  then have "process_step io (Call c k, files1) (k a, wd_files w2)"
    using process_step [of c io "ev_fault (io_env io)" "w\<lparr>wd_files := files1\<rparr>" a w2 k] c(2) w2(1) by simp
  with steps w2(2) c(3) show "alone io P start files0 (k a) (wd_files w')"
    by (auto simp: alone_def intro: rtranclp.rtrancl_into_rtrancl)
  show "q \<notin> P \<Longrightarrow> wd_files w' q = wd_files w q" using others by simp
qed

lemma alone_other_call:
  "alone io P start files0 p files \<Longrightarrow> (\<And>q. q \<in> P \<Longrightarrow> files' q = files q) \<Longrightarrow> alone io P start files0 p files'"
  by (auto simp: alone_def)

end
