(* ===== verification/Block_Pool_Facts.thy ===== *)
theory Block_Pool_Facts
  imports Block_Pool Block_Alone_Facts
begin

text \<open>
  Facts on the concurrent tasks of the block index: what a pool keeps in every interleaving, as the locale
  \<open>task_pool\<close>, interpreted with the metadata reads and with the block builds; and the two results on a whole
  concurrent build, what it publishes and what it leaves when it is killed.
\<close>

section \<open>What every pool keeps\<close>

definition pool_names :: "('t, 'a) pool \<Rightarrow> 't list" where
  "pool_names pool = pl_waiting pool @ map fst (pl_running pool) @ map fst (pl_done pool)"

lemma remove_at_map: "map f (remove_at i xs) = remove_at i (map f xs)"
  by (simp add: remove_at_def take_map drop_map)

lemma mset_remove_at: "i < length xs \<Longrightarrow> add_mset (xs ! i) (mset (remove_at i xs)) = mset xs"
  by (subst (3) id_take_nth_drop [of i xs]) (simp_all add: remove_at_def)

lemma set_remove_at: "set (remove_at i xs) \<subseteq> set xs"
  by (auto simp: remove_at_def dest: in_set_takeD in_set_dropD)

lemma pool_turn_cases:
  assumes "pool_turn io i (pool, w) = (pool', w')"
  obtains (idle) "pool' = pool" "w' = w"
  | (ends) t r where "i < length (pl_running pool)" "pl_running pool ! i = (t, Return r)"
      "pool' = hand_over t r (pool\<lparr>pl_running := remove_at i (pl_running pool)\<rparr>)" "w' = w"
  | (calls) t c k a where "i < length (pl_running pool)" "pl_running pool ! i = (t, Call c k)"
      "perform io c w = (a, w')" "pool' = pool\<lparr>pl_running := (pl_running pool)[i := (t, k a)]\<rparr>"
proof (cases "length (pl_running pool) \<le> i")
  case True
  with assms show thesis by (intro idle) (simp_all add: pool_turn_def)
next
  case False
  obtain t p where tp: "pl_running pool ! i = (t, p)" by fastforce
  show thesis
  proof (cases p)
    case (Return r)
    with assms False tp show thesis by (intro ends [of t r]) (simp_all add: pool_turn_def)
  next
    case Spin
    with assms False tp show thesis by (intro idle) (simp_all add: pool_turn_def)
  next
    case (Call c k)
    with assms False tp show thesis
      by (cases "perform io c w") (auto intro!: calls [of t c k] simp: pool_turn_def)
  qed
qed

lemma pool_begin_cases:
  obtains (idle) "pool_begin limit work pool = pool"
  | (begins) t ts where "pl_waiting pool = t # ts" "pl_error pool = None" "length (pl_running pool) < limit"
      "pool_begin limit work pool = pool\<lparr>pl_waiting := ts, pl_running := pl_running pool @ [(t, work t)]\<rparr>"
  by (cases "pl_waiting pool"; cases "pl_error pool"; cases "limit \<le> length (pl_running pool)")
    (auto simp: pool_begin_def)

lemma hand_over_cases:
  obtains (dropped) "pl_error pool \<noteq> None" "hand_over t r pool = pool"
  | (failed) e where "pl_error pool = None" "r = Inl e" "hand_over t r pool = pool\<lparr>pl_error := Some e\<rparr>"
  | (gathered) x where "pl_error pool = None" "r = Inr x" "hand_over t r pool = pool\<lparr>pl_done := pl_done pool @ [(t, x)]\<rparr>"
  by (cases "pl_error pool"; cases r) (auto simp: hand_over_def)

lemma pool_names_remove:
  assumes "i < length (pl_running pool)" and "pl_running pool ! i = (t, p)"
  shows "mset (pool_names pool) = add_mset t (mset (pool_names (pool\<lparr>pl_running := remove_at i (pl_running pool)\<rparr>)))"
proof -
  have "add_mset t (mset (remove_at i (map fst (pl_running pool)))) = mset (map fst (pl_running pool))"
    using mset_remove_at [of i "map fst (pl_running pool)"] assms by simp
  from this [symmetric] show ?thesis by (simp add: pool_names_def remove_at_map del: mset_map)
qed

lemma pool_names_hand_over:
  assumes "pl_error pool = None"
  shows "pool_names (hand_over t (Inl e) pool) = pool_names pool" and "pool_names (hand_over t (Inr x) pool) = pool_names pool @ [t]"
  using assms by (simp_all add: hand_over_def pool_names_def)

lemma pool_names_update:
  "pl_running pool ! i = (t, p) \<Longrightarrow> pool_names (pool\<lparr>pl_running := (pl_running pool)[i := (t, q)]\<rparr>) = pool_names pool"
  by (cases "i < length (pl_running pool)") (simp_all add: pool_names_def map_update list_update_same_conv list_update_beyond)

text \<open>No task is lost or run twice, and never more than the limit run at a time.\<close>

definition pool_counts :: "nat \<Rightarrow> 't list \<Rightarrow> ('t, 'a) pool \<Rightarrow> bool" where
  "pool_counts limit tasks pool \<longleftrightarrow>
     mset (pool_names pool) \<subseteq># mset tasks \<and> (pl_error pool = None \<longrightarrow> mset (pool_names pool) = mset tasks)
     \<and> length (pl_running pool) \<le> limit"

lemma pool_step_counts:
  assumes "pool_counts limit tasks (fst s)"
  shows "pool_counts limit tasks (fst (pool_step io limit work ev s))"
proof -
  obtain pool w where s: "s = (pool, w)" by (cases s)
  show ?thesis
  proof (cases ev)
    case Begin
    show ?thesis
      by (cases rule: pool_begin_cases [of limit work pool])
        (use assms in \<open>auto simp: s Begin pool_counts_def pool_names_def\<close>)
  next
    case (Turn i)
    obtain pool' w' where turn: "pool_turn io i (pool, w) = (pool', w')" by fastforce
    from turn have "pool_counts limit tasks pool'"
    proof (cases rule: pool_turn_cases)
      case idle
      with assms s show ?thesis by simp
    next
      case (ends t r)
      let ?pool = "pool\<lparr>pl_running := remove_at i (pl_running pool)\<rparr>"
      note names = pool_names_remove [OF ends(1,2)]
      have "length (pl_running ?pool) \<le> limit"
        using assms s ends(1) by (auto simp: pool_counts_def remove_at_def)
      moreover have "mset (pool_names ?pool) \<subseteq># mset (pool_names pool)" by (simp add: names)
      ultimately show ?thesis
        by (cases rule: hand_over_cases [of ?pool t r])
          (use assms s ends(3) names in \<open>auto simp: pool_counts_def pool_names_hand_over hand_over_def pool_names_def
            dest!: mset_subset_eq_insertD\<close>)
    next
      case (calls t c k a)
      with assms s show ?thesis by (simp add: pool_counts_def pool_names_update [OF calls(2)])
    qed
    with turn show ?thesis by (simp add: s Turn)
  qed
qed

lemma run_pool_counts:
  "run_pool io limit work tasks events w = (pool, w') \<Longrightarrow> pool_counts limit tasks pool"
proof -
  have "pool_counts limit tasks (fst (fold (pool_step io limit work) events s))" if "pool_counts limit tasks (fst s)" for s
    using that by (induction events arbitrary: s) (simp_all add: pool_step_counts)
  from this [of "(pool_start tasks, w)"]
  show "run_pool io limit work tasks events w = (pool, w') \<Longrightarrow> pool_counts limit tasks pool"
    by (simp add: run_pool_def pool_start_def pool_counts_def pool_names_def)
qed

lemma pool_all_done:
  assumes "run_pool io limit work tasks events w = (pool, w')" and "pool_outcome pool = Some (Inr xs)"
  shows "mset (map fst (pl_done pool)) = mset tasks" and "xs = map snd (pl_done pool)"
  using run_pool_counts [OF assms(1)] assms(2)
  by (auto simp: pool_counts_def pool_outcome_def pool_names_def split: option.splits if_splits)

text \<open>
  What is asked of the tasks: a fact about a process and the files that its calls keep, that rests on the
  task's own files, and that lets its calls change its own files only; and tasks with files apart.
\<close>

locale task_pool =
  fixes io :: index_outside
    and work :: "'t \<Rightarrow> (string fault + 'a) process"
    and holds :: "'t \<Rightarrow> (string fault + 'a) process \<Rightarrow> files \<Rightarrow> bool"
    and own :: "'t \<Rightarrow> string set"
    and tasks :: "'t set"
  assumes call_holds: "t \<in> tasks \<Longrightarrow> holds t (Call c k) (wd_files w) \<Longrightarrow> perform io c w = (a, w')
      \<Longrightarrow> holds t (k a) (wd_files w')"
    and call_frame: "t \<in> tasks \<Longrightarrow> holds t (Call c k) (wd_files w) \<Longrightarrow> perform io c w = (a, w') \<Longrightarrow> q \<notin> own t
      \<Longrightarrow> wd_files w' q = wd_files w q"
    and holds_rests: "t \<in> tasks \<Longrightarrow> holds t p files \<Longrightarrow> (\<And>q. q \<in> own t \<Longrightarrow> files' q = files q) \<Longrightarrow> holds t p files'"
    and own_apart: "t \<in> tasks \<Longrightarrow> u \<in> tasks \<Longrightarrow> t \<noteq> u \<Longrightarrow> own t \<inter> own u = {}"
begin

definition pool_holds :: "('t, 'a) pool \<Rightarrow> files \<Rightarrow> bool" where
  "pool_holds pool files \<longleftrightarrow>
     (\<forall>t \<in> tasks. \<exists>p. holds t p files)
     \<and> (\<forall>t \<in> set (pl_waiting pool). holds t (work t) files)
     \<and> (\<forall>(t, p) \<in> set (pl_running pool). holds t p files)
     \<and> (\<forall>(t, x) \<in> set (pl_done pool). holds t (Return (Inr x)) files)
     \<and> distinct (pool_names pool) \<and> set (pool_names pool) \<subseteq> tasks"

lemma holds_other:
  assumes "t \<in> tasks" and "u \<in> tasks" and "u \<noteq> t" and "holds t (Call c k) (wd_files w)" and "perform io c w = (a, w')"
    and "holds u p (wd_files w)"
  shows "holds u p (wd_files w')"
proof (rule holds_rests [OF assms(2,6)])
  fix q assume "q \<in> own u"
  then have "q \<notin> own t" using own_apart [OF assms(1,2)] assms(3) by auto
  then show "wd_files w' q = wd_files w q" by (rule call_frame [OF assms(1,4,5)])
qed

lemma turn_holds:
  assumes turn: "pool_turn io i (pool, w) = (pool', w')" and holds: "pool_holds pool (wd_files w)"
  shows "pool_holds pool' (wd_files w')" and "q \<notin> (\<Union>t \<in> tasks. own t) \<Longrightarrow> wd_files w' q = wd_files w q"
proof -
  have "pool_holds pool' (wd_files w') \<and> (\<forall>q. q \<notin> (\<Union>t \<in> tasks. own t) \<longrightarrow> wd_files w' q = wd_files w q)"
    using turn
  proof (cases rule: pool_turn_cases)
    case idle
    with holds show ?thesis by simp
  next
    case (ends t r)
    let ?pool = "pool\<lparr>pl_running := remove_at i (pl_running pool)\<rparr>"
    have t: "(t, Return r) \<in> set (pl_running pool)" using ends(1,2) by (metis nth_mem)
    then have ok: "holds t (Return r) (wd_files w)" using holds by (auto simp: pool_holds_def)
    have "mset (pool_names pool) = mset (t # pool_names ?pool)" using pool_names_remove [OF ends(1,2)] by simp
    then have names: "distinct (t # pool_names ?pool)" "set (t # pool_names ?pool) \<subseteq> tasks"
      using holds mset_eq_imp_distinct_iff [of "pool_names pool" "t # pool_names ?pool"]
        mset_eq_setD [of "pool_names pool" "t # pool_names ?pool"] by (auto simp: pool_holds_def)
    have base: "pool_holds ?pool (wd_files w)"
      using holds names set_remove_at [of i "pl_running pool"] by (auto simp: pool_holds_def)
    show ?thesis
      by (cases rule: hand_over_cases [of ?pool t r])
        (use ends(3,4) base ok names in \<open>auto simp: pool_holds_def pool_names_def\<close>)
  next
    case (calls t c k a)
    have t: "(t, Call c k) \<in> set (pl_running pool)" using calls(1,2) by (metis nth_mem)
    then have ok: "holds t (Call c k) (wd_files w)" and in_tasks: "t \<in> tasks"
      using holds by (auto simp: pool_holds_def pool_names_def)
    note names = pool_names_update [OF calls(2), of "k a"]
    have "t \<in> fst ` set (pl_running pool)" using t by force
    then have dist: "distinct (map fst (pl_running pool))" "t \<notin> set (pl_waiting pool)" "t \<notin> fst ` set (pl_done pool)"
      using holds by (auto simp: pool_holds_def pool_names_def)
    note own = call_holds [OF in_tasks ok calls(3)]
    have other: "holds u p (wd_files w')" if "u \<in> tasks" "u \<noteq> t" "holds u p (wd_files w)" for u p
      using holds_other [OF in_tasks that(1,2) ok calls(3) that(3)] .
    have running: "holds u p (wd_files w')" if up: "(u, p) \<in> set ((pl_running pool)[i := (t, k a)])" for u p
    proof -
      from up obtain j where j: "j < length (pl_running pool)" "(u, p) = (pl_running pool)[i := (t, k a)] ! j"
        by (auto simp: in_set_conv_nth)
      show ?thesis
      proof (cases "j = i")
        case True
        with j own show ?thesis by simp
      next
        case False
        then have up: "pl_running pool ! j = (u, p)" using j by simp
        then have "map fst (pl_running pool) ! j \<noteq> map fst (pl_running pool) ! i"
          using nth_eq_iff_index_eq [OF dist(1), of j i] j(1) calls(1) False by simp
        then have "u \<noteq> t" using up j(1) calls(1,2) by simp
        moreover have "(u, p) \<in> set (pl_running pool)" using up j(1) by (metis nth_mem)
        ultimately show ?thesis using holds by (intro other) (auto simp: pool_holds_def pool_names_def)
      qed
    qed
    have "\<exists>p. holds u p (wd_files w')" if u: "u \<in> tasks" for u
    proof (cases "u = t")
      case True
      with own show ?thesis by blast
    next
      case False
      have "\<forall>t \<in> tasks. \<exists>p. holds t p (wd_files w)" using holds by (simp add: pool_holds_def)
      with u obtain p where "holds u p (wd_files w)" by blast
      with other [OF u False] show ?thesis by blast
    qed
    moreover have "holds u (work u) (wd_files w')" if "u \<in> set (pl_waiting pool)" for u
      using that holds dist(2) by (intro other) (auto simp: pool_holds_def pool_names_def)
    moreover have "holds u (Return (Inr x)) (wd_files w')" if "(u, x) \<in> set (pl_done pool)" for u x
    proof (rule other)
      from that have "u \<in> fst ` set (pl_done pool)" by force
      then show "u \<in> tasks" "u \<noteq> t" using holds dist(3) by (auto simp: pool_holds_def pool_names_def)
      show "holds u (Return (Inr x)) (wd_files w)" using that holds by (auto simp: pool_holds_def)
    qed
    ultimately have "pool_holds pool' (wd_files w')"
      using running holds names unfolding calls(4) pool_holds_def by (simp_all add: Ball_def)
    moreover have "wd_files w' q = wd_files w q" if "q \<notin> (\<Union>t \<in> tasks. own t)" for q
      using call_frame [OF in_tasks ok calls(3)] that in_tasks by auto
    ultimately show ?thesis by simp
  qed
  then show "pool_holds pool' (wd_files w')" and "q \<notin> (\<Union>t \<in> tasks. own t) \<Longrightarrow> wd_files w' q = wd_files w q"
    by simp_all
qed

lemma step_holds:
  assumes "pool_step io limit work ev (pool, w) = (pool', w')" and "pool_holds pool (wd_files w)"
  shows "pool_holds pool' (wd_files w') \<and> (\<forall>q. q \<notin> (\<Union>t \<in> tasks. own t) \<longrightarrow> wd_files w' q = wd_files w q)"
proof (cases ev)
  case Begin
  then have pool': "pool' = pool_begin limit work pool" "w' = w" using assms(1) by simp_all
  have "pool_holds (pool_begin limit work pool) (wd_files w)"
  proof (cases rule: pool_begin_cases [of limit work pool])
    case idle
    with assms(2) show ?thesis by simp
  next
    case (begins t ts)
    with assms(2) show ?thesis unfolding begins(4) by (auto simp: pool_holds_def pool_names_def)
  qed
  with pool' show ?thesis by simp
next
  case (Turn i)
  with assms turn_holds [of i pool w pool' w'] show ?thesis by simp
qed

lemma run_holds:
  assumes run: "run_pool io limit work ts events w = (pool, w')" and ts: "distinct ts" "set ts \<subseteq> tasks"
    and start: "\<And>t. t \<in> tasks \<Longrightarrow> holds t (work t) (wd_files w)"
  shows "pool_holds pool (wd_files w')" and "q \<notin> (\<Union>t \<in> tasks. own t) \<Longrightarrow> wd_files w' q = wd_files w q"
proof -
  have "pool_holds (fst s') (wd_files (snd s'))
      \<and> (\<forall>q. q \<notin> (\<Union>t \<in> tasks. own t) \<longrightarrow> wd_files (snd s') q = wd_files (snd s) q)"
    if "s' = fold (pool_step io limit work) events s" "pool_holds (fst s) (wd_files (snd s))" for s s'
    using that
  proof (induction events arbitrary: s)
    case (Cons ev events)
    obtain pool1 w1 where step: "pool_step io limit work ev (fst s, snd s) = (pool1, w1)" by fastforce
    from step_holds [OF this Cons.prems(2)] Cons.IH [of "(pool1, w1)"] Cons.prems(1) step show ?case by simp
  qed simp
  moreover have "pool_holds (pool_start ts) (wd_files w)"
    using ts start by (auto simp: pool_holds_def pool_start_def pool_names_def)
  ultimately have "pool_holds pool (wd_files w') \<and> (\<forall>q. q \<notin> (\<Union>t \<in> tasks. own t) \<longrightarrow> wd_files w' q = wd_files w q)"
    using run by (force simp: run_pool_def)
  then show "pool_holds pool (wd_files w')" and "q \<notin> (\<Union>t \<in> tasks. own t) \<Longrightarrow> wd_files w' q = wd_files w q" by simp_all
qed

lemma all_done_hold:
  assumes "run_pool io limit work ts events w = (pool, w')" and "distinct ts" and "set ts \<subseteq> tasks"
    and "\<And>t. t \<in> tasks \<Longrightarrow> holds t (work t) (wd_files w)" and "pool_outcome pool = Some (Inr xs)"
  shows "\<exists>ts'. mset ts' = mset ts \<and> list_all2 (\<lambda>t x. holds t (Return (Inr x)) (wd_files w')) ts' xs"
proof -
  note finished = pool_all_done [OF assms(1,5)]
  have "\<forall>(t, x) \<in> set (pl_done pool). holds t (Return (Inr x)) (wd_files w')"
    using run_holds(1) [OF assms(1-4)] by (simp add: pool_holds_def)
  then have "list_all2 (\<lambda>t x. holds t (Return (Inr x)) (wd_files w')) (map fst (pl_done pool)) (map snd (pl_done pool))"
    by (auto simp: list_all2_conv_all_nth)
  with finished show ?thesis by blast
qed

lemma all_tasks_hold:
  assumes "run_pool io limit work ts events w = (pool, w')" and "distinct ts" and "set ts \<subseteq> tasks"
    and "\<And>t. t \<in> tasks \<Longrightarrow> holds t (work t) (wd_files w)"
  shows "\<forall>t \<in> tasks. \<exists>p. holds t p (wd_files w')"
  using run_holds(1) [OF assms] by (simp add: pool_holds_def)

lemma running_hold:
  assumes "run_pool io limit work ts events w = (pool, w')" and "distinct ts" and "set ts \<subseteq> tasks"
    and "\<And>t. t \<in> tasks \<Longrightarrow> holds t (work t) (wd_files w)" and "(t, p) \<in> set (pl_running pool)"
  shows "holds t p (wd_files w')"
  using run_holds(1) [OF assms(1-4)] assms(5) by (auto simp: pool_holds_def)

end

section \<open>The metadata reads\<close>

primrec only_reads :: "index_outside \<Rightarrow> ('a \<Rightarrow> bool) \<Rightarrow> 'a process \<Rightarrow> bool" where
  "only_reads io Q (Return x) = Q x"
| "only_reads io Q Spin = True"
| "only_reads io Q (Call c k) =
     (\<forall>w a w'. perform io c w = (a, w') \<longrightarrow> wd_files w' = wd_files w \<and> only_reads io Q (k a))"

definition meta_right :: "index_outside \<Rightarrow> nat option \<Rightarrow> meta_read_task \<Rightarrow> meta_read_result \<Rightarrow> bool" where
  "meta_right io age task x \<longleftrightarrow> built_task x = live_block io task \<or> (age \<noteq> None \<and> built_task x = None)"

lemma meta_only_reads:
  "only_reads io (\<lambda>r. \<forall>x. r = Inr x \<longrightarrow> meta_right io age task x) (read_block_meta_calls io age task)"
  by (auto simp: read_block_meta_calls_def doP_def ask_def answer_of_def outside_def retW_def Let_def meta_right_def
      live_block_def deletion_mark_path_def tryR_eq_Inr map_err_eq_Inr block_is_older_than_def
      split: option.splits if_splits sum.splits)

interpretation metas: task_pool io "read_block_meta_calls io age"
  "\<lambda>task p files. only_reads io (\<lambda>r. \<forall>x. r = Inr x \<longrightarrow> meta_right io age task x) p" "\<lambda>task. {}" UNIV
  for io age
  by unfold_locales auto

lemma pool_reads_spec:
  assumes run: "run_pool io limit (read_block_meta_calls io age) mts events w = (pool, w')" and dist: "distinct mts"
  shows "wd_files w' = wd_files w"
    and "pool_outcome pool = Some (Inr results) \<Longrightarrow>
      \<exists>mts'. mset mts' = mset mts \<and> list_all2 (meta_right io age) mts' results"
proof -
  show "wd_files w' = wd_files w"
    using metas.run_holds(2) [OF run dist subset_UNIV meta_only_reads] by auto
  show "\<exists>mts'. mset mts' = mset mts \<and> list_all2 (meta_right io age) mts' results"
    if "pool_outcome pool = Some (Inr results)"
    using metas.all_done_hold [OF run dist subset_UNIV meta_only_reads that] by simp
qed

section \<open>The block builds\<close>

lemma block_file_names:
  assumes "plain_ulid u" and "p \<in> block_files location u"
  shows "file_name p \<in> {u @ ''.parquet'', u @ ''.parquet.partial'', u @ ''.json'', u @ ''.json.partial''}"
proof -
  have "file_name (d @ ''/'' @ u @ ext) = u @ ext" if "CHR ''/'' \<notin> set ext" for d ext
    by (rule file_name_append) (use assms(1) that in \<open>auto simp: plain_ulid_def\<close>)
  from this [of "''.parquet''"] this [of "''.parquet.partial''"] this [of "''.json''"] this [of "''.json.partial''"]
  show ?thesis
    using assms(2) by (auto simp: block_files_def index_paths [OF assms(1)] manifest_temporary_path [OF assms(1)] partial_path_def)
qed

lemma block_files_apart:
  assumes u: "plain_ulid u" and v: "plain_ulid v" and ne: "u \<noteq> v"
  shows "block_files location u \<inter> block_files location v = {}"
proof -
  let ?names = "\<lambda>u. {u @ ''.parquet'', u @ ''.parquet.partial'', u @ ''.json'', u @ ''.json.partial''}"
  have "a \<noteq> b" if "a \<in> ?names u" "b \<in> ?names v" for a b
  proof
    assume "a = b"
    moreover have "rev a \<noteq> rev b" using that ne by (elim insertE emptyE) simp_all
    ultimately show False by simp
  qed
  note apart = this [OF block_file_names [OF u] block_file_names [OF v]]
  have False if "p \<in> block_files location u" "p \<in> block_files location v" for p using apart [OF that] by simp
  then show ?thesis by auto
qed

text \<open>The failing calls change neither a process nor what is true of a block.\<close>

lemma with_faults_fields [simp]:
  "io_crc (with_faults io fault) = io_crc io" "io_parquet (with_faults io fault) = io_parquet io"
  "io_codec (with_faults io fault) = io_codec io" "io_manifest_json (with_faults io fault) = io_manifest_json io"
  "io_manifest_from_json (with_faults io fault) = io_manifest_from_json io"
  "ev_objects (io_env (with_faults io fault)) = ev_objects (io_env io)"
  by (simp_all add: with_faults_def)

lemma with_faults_calls: "build_or_reuse_calls (with_faults io fault) = build_or_reuse_calls io"
  by (intro ext) (unfold build_or_reuse_calls_def load_cached_calls_def build_chunk_index_calls_def
      write_block_calls_def finish_block_calls_def write_block_manifest_calls_def with_faults_fields, rule refl)

lemma with_faults_truth:
  "block_truthful (with_faults io fault) = block_truthful io"
  "block_finished (with_faults io fault) = block_finished io"
  "manifest_json_ok (with_faults io fault) = manifest_json_ok io"
proof -
  have "indexed_series (with_faults io fault) = indexed_series io"
    by (rule ext) (unfold indexed_series_def with_faults_fields, rule refl)
  then have facts: "entry_right (with_faults io fault) = entry_right io"
    "series_table_right (with_faults io fault) = series_table_right io"
    "chunk_table_right (with_faults io fault) = chunk_table_right io"
    by (simp_all add: entry_right_def series_table_right_def chunk_table_right_def fun_eq_iff)
  then show "block_truthful (with_faults io fault) = block_truthful io"
    "block_finished (with_faults io fault) = block_finished io"
    by (simp_all add: block_truthful_def block_finished_def fun_eq_iff)
  show "manifest_json_ok (with_faults io fault) = manifest_json_ok io" by (simp add: manifest_json_ok_def)
qed

definition build_alone ::
  "index_outside \<Rightarrow> string \<Rightarrow> bool \<Rightarrow> files \<Rightarrow> block_build_task
   \<Rightarrow> (string fault + built_block_index) process \<Rightarrow> files \<Rightarrow> bool" where
  "build_alone io location materialize files0 task p files \<longleftrightarrow>
     alone io (block_files location (task_ulid task)) (build_or_reuse_calls io location materialize task) files0 p files"

lemma run_in_world: "\<exists>w :: world. wd_files w = files"
  by (rule exI [of _ "\<lparr>wd_state = undefined, wd_files = files, wd_clock = 0\<rparr>"]) simp

lemma table_paths_own: "table_paths location ulid \<subseteq> block_files location ulid"
  by (auto simp: table_paths_def block_files_def)

lemma alone_finished:
  assumes alone: "build_alone io location materialize files0 task (Return (Inr built)) files"
    and usable: "plain_location location" "plain_ulid (task_ulid task)" "manifest_json_ok io"
    and truthful: "block_truthful io location task files0"
  shows "block_finished io location materialize task built files"
proof -
  obtain files1 where steps: "(process_step io)\<^sup>*\<^sup>* (build_or_reuse_calls io location materialize task, files0) (Return (Inr built), files1)"
    and agree: "\<And>q. q \<in> block_files location (task_ulid task) \<Longrightarrow> files q = files1 q"
    using alone by (auto simp: build_alone_def alone_def)
  obtain w :: world where w: "wd_files w = files0" using run_in_world by blast
  obtain fault w' where "run_process (with_faults io fault) (build_or_reuse_calls io location materialize task) w = Some (Inr built, w')"
    and files1: "wd_files w' = files1"
    using steps_return [OF steps [folded w]] by blast
  then have "build_or_reuse (with_faults io fault) location materialize task w = Some (Inr built, w')"
    using run_build_or_reuse [of "with_faults io fault" location materialize task w] by (simp add: with_faults_calls)
  from build_or_reuse_spec(3) [OF this _ usable(1,2) _ refl] truthful usable(3) w
  have "block_finished io location materialize task built files1" by (simp add: with_faults_truth files1)
  then show ?thesis
    by (rule finished_same_tables) (rule agree [OF subsetD [OF table_paths_own]])
qed

lemma alone_truthful:
  assumes alone: "build_alone io location materialize files0 task p files"
    and usable: "plain_location location" "plain_ulid (task_ulid task)" "manifest_json_ok io"
    and truthful: "block_truthful io location task files0"
  shows "block_truthful io location task files"
proof -
  obtain files1 where steps: "(process_step io)\<^sup>*\<^sup>* (build_or_reuse_calls io location materialize task, files0) (p, files1)"
    and agree: "\<And>q. q \<in> block_files location (task_ulid task) \<Longrightarrow> files q = files1 q"
    using alone by (auto simp: build_alone_def alone_def)
  obtain w :: world where w: "wd_files w = files0" using run_in_world by blast
  obtain fault x w' where "run_process (with_faults io fault) (build_or_reuse_calls io location materialize task) w = Some (x, w')"
    and files1: "wd_files w' = files1"
    using steps_killed_anywhere [OF steps [folded w] stays_build_or_reuse [OF usable(1,2)]] by blast
  then have "build_or_reuse (with_faults io fault) location materialize task w = Some (x, w')"
    using run_build_or_reuse [of "with_faults io fault" location materialize task w] by (simp add: with_faults_calls)
  from build_or_reuse_spec(1) [OF this _ usable(1,2)] truthful usable(3) w
  have "block_truthful io location task files1" by (simp add: with_faults_truth files1)
  then show ?thesis
    by (rule truthful_shrink) (rule disjI1 [OF agree [OF subsetD [OF table_paths_own]]])
qed

interpretation builds: task_pool io "build_or_reuse_calls io location materialize" "build_alone io location materialize before"
  "\<lambda>task. block_files location (task_ulid task)" "usable_blocks io location blocks"
  for io location materialize before blocks
proof unfold_locales
  fix t c k w a w'
  assume alone: "build_alone io location materialize before t (Call c k) (wd_files w)" and call: "perform io c w = (a, w')"
  show "build_alone io location materialize before t (k a) (wd_files w')"
    using alone call unfolding build_alone_def by (rule alone_own_call)
  show "wd_files w' q = wd_files w q" if "q \<notin> block_files location (task_ulid t)" for q
    using alone call that unfolding build_alone_def by (rule alone_own_call)
next
  fix t p files files'
  assume "build_alone io location materialize before t p files"
    and "\<And>q. q \<in> block_files location (task_ulid t) \<Longrightarrow> files' q = files q"
  then show "build_alone io location materialize before t p files'"
    unfolding build_alone_def by (rule alone_other_call)
next
  fix t u
  assume "t \<in> usable_blocks io location blocks" "u \<in> usable_blocks io location blocks" "t \<noteq> u"
  then show "block_files location (task_ulid t) \<inter> block_files location (task_ulid u) = {}"
    by (intro block_files_apart) (auto simp: usable_blocks_def blocks_ok_def inj_on_def)
qed

lemma builds_start:
  assumes "t \<in> blocks" and "blocks_ok blocks" and "plain_location location"
  shows "build_alone io location materialize (wd_files w) t (build_or_reuse_calls io location materialize t) (wd_files w)"
  using assms unfolding build_alone_def
  by (intro alone_start [OF stays_build_or_reuse(1) refl]) (simp_all add: blocks_ok_def)

lemma pool_builds_running:
  assumes run: "run_pool io limit (build_or_reuse_calls io location materialize) ts events w = (pool, w')"
    and ts: "distinct ts" "set ts \<subseteq> blocks"
    and usable: "blocks_ok blocks" "plain_location location" "manifest_json_ok io"
    and running: "(t, p) \<in> set (pl_running pool)"
  shows "build_alone io location materialize (wd_files w) t p (wd_files w')"
proof -
  have all: "usable_blocks io location blocks = blocks" using usable by (auto simp: usable_blocks_def)
  show ?thesis
    by (rule builds.running_hold [where io = io and location = location and blocks = blocks, unfolded all,
          OF run ts builds_start [OF _ usable(1,2)] running])
qed

lemma pool_builds_spec:
  assumes run: "run_pool io limit (build_or_reuse_calls io location materialize) ts events w = (pool, w')"
    and ts: "distinct ts" "set ts \<subseteq> blocks"
    and usable: "blocks_ok blocks" "plain_location location" "manifest_json_ok io"
    and truthful: "cache_truthful io location blocks w"
  shows "cache_truthful io location blocks w'"
    and "pool_outcome pool = Some (Inr built) \<Longrightarrow> \<exists>ts'. mset ts' = mset ts
      \<and> list_all2 (\<lambda>t b. block_finished io location materialize t b (wd_files w')) ts' built"
proof -
  have all: "usable_blocks io location blocks = blocks" using usable by (auto simp: usable_blocks_def)
  have plain: "plain_ulid (task_ulid t)" if "t \<in> blocks" for t using that usable(1) by (simp add: blocks_ok_def)
  note start = builds_start [OF _ usable(1,2)]
  have true: "block_truthful io location t (wd_files w)" if "t \<in> blocks" for t
    using truthful that by (simp add: cache_truthful_def)
  have "block_truthful io location t (wd_files w')" if t: "t \<in> blocks" for t
  proof -
    obtain p where "build_alone io location materialize (wd_files w) t p (wd_files w')"
      using builds.all_tasks_hold [where io = io and location = location and blocks = blocks, unfolded all, OF run ts start] t by blast
    then show ?thesis by (rule alone_truthful [OF _ usable(2) plain [OF t] usable(3) true [OF t]])
  qed
  then show "cache_truthful io location blocks w'" by (simp add: cache_truthful_def)
  assume outcome: "pool_outcome pool = Some (Inr built)"
  obtain ts' where same: "mset ts' = mset ts"
    and finished: "list_all2 (\<lambda>t x. build_alone io location materialize (wd_files w) t (Return (Inr x)) (wd_files w')) ts' built"
    using builds.all_done_hold [where io = io and location = location and blocks = blocks, unfolded all, OF run ts start outcome] by blast
  have "list_all2 (\<lambda>t b. block_finished io location materialize t b (wd_files w')) ts' built"
    using finished
  proof (rule list.rel_mono_strong)
    fix t b assume "t \<in> set ts'" and alone: "build_alone io location materialize (wd_files w) t (Return (Inr b)) (wd_files w')"
    then have "t \<in> blocks" using ts(2) mset_eq_setD [OF same] by blast
    then show "block_finished io location materialize t b (wd_files w')"
      by (intro alone_finished [OF alone usable(2) _ usable(3)] plain true)
  qed
  with same show "\<exists>ts'. mset ts' = mset ts
      \<and> list_all2 (\<lambda>t b. block_finished io location materialize t b (wd_files w')) ts' built" by blast
qed

end
