(* ===== verification/Block_Index_Runs.thy ===== *)
theory Block_Index_Runs
  imports Block_Pool_Facts
begin

text \<open>
  Facts on a whole concurrent build: the blocks its metadata reads find, what it publishes when it succeeds,
  and that it keeps the cache truthful at every moment.
\<close>

section \<open>The blocks found\<close>

lemma found_live:
  assumes "list_all2 (meta_right io None) mts results" shows "build_tasks results = List.map_filter (live_block io) mts"
proof -
  have "list_all2 (\<lambda>mt x. built_task x = live_block io mt) mts results"
    using assms by (simp add: meta_right_def [abs_def])
  then show ?thesis unfolding build_tasks_built by (rule map_filter_list_all2)
qed

lemma found_tasks:
  "list_all2 (meta_right io age) mts results \<Longrightarrow> distinct mts \<Longrightarrow>
    distinct (build_tasks results) \<and> set (build_tasks results) \<subseteq> {task. \<exists>mt \<in> set mts. live_block io mt = Some task}"
  unfolding build_tasks_built
proof (induction rule: list_all2_induct)
  case (Cons mt mts x results)
  show ?case
  proof (cases "built_task x")
    case None
    with Cons show ?thesis by (auto simp: map_filter_simps)
  next
    case (Some task)
    with Cons.hyps(1) have live: "live_block io mt = Some task" by (auto simp: meta_right_def)
    have "task \<notin> set (List.map_filter built_task results)"
      using Cons.IH Cons.prems live by (auto dest: live_block_inj [OF live])
    with Cons.IH Cons.prems live Some show ?thesis by (auto simp: map_filter_simps)
  qed
qed (simp add: map_filter_simps)

lemma set_build_tasks_known:
  assumes "discover io repository_for repositories = Inr mts" and "mset mts' = mset mts"
    and "list_all2 (meta_right io age) mts' results" and "distinct mts"
  shows "distinct (build_tasks results)" and "set (build_tasks results) \<subseteq> known_blocks io repository_for repositories"
  using found_tasks [OF assms(3)] assms(1,4) mset_eq_imp_distinct_iff [OF assms(2)] mset_eq_setD [OF assms(2)]
  by (auto simp: known_blocks_def)

section \<open>The whole build\<close>

lemma concurrent_cases:
  assumes run: "build_block_index_concurrently io repository_for m n meta_events build_events repositories location
      materialize age w = (outcome, w')"
  obtains (unlisted) e where "discover io repository_for repositories = Inl e" "outcome = Some (Inl e)" "w' = w"
  | (unread) mts metas where "discover io repository_for repositories = Inr mts"
      "run_pool io m (read_block_meta_calls io age) mts meta_events w = (metas, w')"
      "\<nexists>schemas. outcome = Some (Inr schemas)"
  | (uncleaned) mts metas results w1 e where "discover io repository_for repositories = Inr mts"
      "run_pool io m (read_block_meta_calls io age) mts meta_events w = (metas, w1)"
      "pool_outcome metas = Some (Inr results)"
      "(if materialize then (Inr (), w1) else remove_chunk_index_files io location w1) = (Inl e, w')"
      "outcome = Some (Inl e)"
  | (unbuilt) mts metas results w1 u w2 builds where "discover io repository_for repositories = Inr mts"
      "run_pool io m (read_block_meta_calls io age) mts meta_events w = (metas, w1)"
      "pool_outcome metas = Some (Inr results)"
      "(if materialize then (Inr (), w1) else remove_chunk_index_files io location w1) = (Inr u, w2)"
      "run_pool io n (build_or_reuse_calls io location materialize) (build_tasks results) build_events w2 = (builds, w')"
      "\<nexists>schemas. outcome = Some (Inr schemas)"
  | (built) mts metas results w1 u w2 builds built w3 r where "discover io repository_for repositories = Inr mts"
      "run_pool io m (read_block_meta_calls io age) mts meta_events w = (metas, w1)"
      "pool_outcome metas = Some (Inr results)"
      "(if materialize then (Inr (), w1) else remove_chunk_index_files io location w1) = (Inr u, w2)"
      "run_pool io n (build_or_reuse_calls io location materialize) (build_tasks results) build_events w2 = (builds, w3)"
      "pool_outcome builds = Some (Inr built)"
      "publish io location (bs_of_list (map (\<lambda>t. me_ulid (bb_meta t)) (build_tasks results))) built w3 = (r, w')"
      "outcome = Some r"
proof (cases "discover io repository_for repositories")
  case (Inl e)
  with run show thesis by (intro unlisted) (auto simp: build_block_index_concurrently_def)
next
  case listed: (Inr mts)
  obtain metas w1 where metas: "run_pool io m (read_block_meta_calls io age) mts meta_events w = (metas, w1)" by fastforce
  note start = run [unfolded build_block_index_concurrently_def listed sum.case metas prod.case Let_def]
  show thesis
  proof (cases "\<exists>results. pool_outcome metas = Some (Inr results)")
    case False
    with start show thesis
      by (intro unread [OF listed, of metas]) (auto simp: metas split: option.splits sum.splits)
  next
    case True
    then obtain results where results: "pool_outcome metas = Some (Inr results)" by blast
    obtain c w2 where clean: "(if materialize then (Inr (), w1) else remove_chunk_index_files io location w1) = (c, w2)"
      by fastforce
    show thesis
    proof (cases c)
      case (Inl e)
      with start results clean show thesis by (intro uncleaned [OF listed metas results, of e]) simp_all
    next
      case (Inr u)
      obtain builds w3 where builds:
        "run_pool io n (build_or_reuse_calls io location materialize) (build_tasks results) build_events w2 = (builds, w3)"
        by fastforce
      note rest = start [unfolded results option.case sum.case clean Inr prod.case builds]
      show thesis
      proof (cases "\<exists>built. pool_outcome builds = Some (Inr built)")
        case False
        with rest clean Inr builds show thesis
          by (intro unbuilt [OF listed metas results, of u w2 builds]) (auto split: option.splits sum.splits)
      next
        case True
        then obtain built where bs: "pool_outcome builds = Some (Inr built)" by blast
        obtain r w4 where pub: "publish io location (bs_of_list (map (\<lambda>t. me_ulid (bb_meta t)) (build_tasks results))) built w3
          = (r, w4)" by fastforce
        from rest bs pub have "outcome = Some r" "w4 = w'" by simp_all
        with clean Inr builds bs pub show thesis by (intro built [OF listed metas results, of u w2 builds w3 built r]) simp_all
      qed
    qed
  qed
qed

lemma concurrent_keeps_truth:
  assumes run: "build_block_index_concurrently io repository_for m n meta_events build_events repositories location
      materialize age w = (outcome, w')"
    and truthful: "cache_truthful io location blocks w"
    and usable: "blocks_ok blocks" "plain_location location" "manifest_json_ok io"
    and known: "known_blocks io repository_for repositories \<subseteq> blocks"
    and listed: "\<And>mts. discover io repository_for repositories = Inr mts \<Longrightarrow> distinct mts"
  shows "cache_truthful io location blocks w'"
proof -
  have reads: "cache_truthful io location blocks w1"
    if "discover io repository_for repositories = Inr mts"
      "run_pool io m (read_block_meta_calls io age) mts meta_events w = (metas, w1)" for mts metas w1
    using pool_reads_spec(1) [OF that(2) listed [OF that(1)]] truthful by (simp add: cache_truthful_def)
  have cleaned: "cache_truthful io location blocks w2"
    if "discover io repository_for repositories = Inr mts"
      "run_pool io m (read_block_meta_calls io age) mts meta_events w = (metas, w1)"
      "(if materialize then (Inr (), w1) else remove_chunk_index_files io location w1) = (c, w2)" for mts metas w1 c w2
    by (rule truthful_shrinks [OF reads [OF that(1,2)]]) (rule remove_chunk_shrinks [OF that(3)])
  have builds: "cache_truthful io location blocks w3"
    if d: "discover io repository_for repositories = Inr mts"
      and m: "run_pool io m (read_block_meta_calls io age) mts meta_events w = (metas, w1)"
      and r: "pool_outcome metas = Some (Inr results)"
      and c: "(if materialize then (Inr (), w1) else remove_chunk_index_files io location w1) = (c, w2)"
      and b: "run_pool io n (build_or_reuse_calls io location materialize) (build_tasks results) build_events w2 = (builds, w3)"
    for mts metas results w1 c w2 builds w3
  proof -
    obtain mts' where mts': "mset mts' = mset mts" "list_all2 (meta_right io age) mts' results"
      using pool_reads_spec(2) [OF m listed [OF d] r] by blast
    note tasks = set_build_tasks_known [OF d mts' listed [OF d]]
    show ?thesis
      by (rule pool_builds_spec(1) [OF b tasks(1) subset_trans [OF tasks(2) known] usable cleaned [OF d m c]])
  qed
  show ?thesis using run
  proof (cases rule: concurrent_cases)
    case (unlisted e)
    with truthful show ?thesis by simp
  next
    case (unread mts metas)
    then show ?thesis by (intro reads)
  next
    case (uncleaned mts metas results w1 e)
    then show ?thesis by (intro cleaned)
  next
    case (unbuilt mts metas results w1 u w2 bs)
    then show ?thesis by (intro builds)
  next
    case (built mts metas results w1 u w2 bs b w3 r)
    show ?thesis
    proof (rule truthful_shrinks [OF builds [OF built(1-5)]])
      fix task p assume "task \<in> blocks" and p: "p \<in> table_paths location (task_ulid task)"
      then have "p \<noteq> block_index_file_path location"
        using usable(1) block_index_apart [of "task_ulid task" p location] by (auto simp: blocks_ok_def)
      then show "wd_files w' p = wd_files w3 p \<or> wd_files w' p = None"
        by (rule publish_spec(1) [OF built(7) usable(2)])
    qed
  qed
qed

lemma concurrent_reaches_publish:
  assumes run: "build_block_index_concurrently io repository_for m n meta_events build_events repositories location
      materialize None w = (Some (Inr schemas), w')"
    and truthful: "cache_truthful io location blocks w"
    and usable: "blocks_ok blocks" "plain_location location" "manifest_json_ok io"
    and known: "known_blocks io repository_for repositories \<subseteq> blocks"
    and listed: "discover io repository_for repositories = Inr mts" "distinct mts"
  defines "live \<equiv> List.map_filter (live_block io) mts"
  obtains ts bs w3 active where "publish io location active bs w3 = (Inr schemas, w')"
    "list_all2 (\<lambda>t b. block_finished io location materialize t b (wd_files w3)) ts bs"
    "mset ts = mset live" "set active = task_ulid ` set live" "set live \<subseteq> blocks"
  using run
proof (cases rule: concurrent_cases)
  case (built mts1 metas results w1 u w2 builds bs w3 r)
  have mts: "mts1 = mts" and r: "r = Inr schemas" using built(1,8) listed(1) by simp_all
  note metas = built(2) [unfolded mts] and pub = built(7) [unfolded r]
  obtain mts' where mts': "mset mts' = mset mts" "list_all2 (meta_right io None) mts' results"
    using pool_reads_spec(2) [OF metas listed(2) built(3)] by blast
  have "build_tasks results = List.map_filter (live_block io) mts'" by (rule found_live [OF mts'(2)])
  then have tasks: "mset (build_tasks results) = mset live"
    unfolding live_def using mset_map_filter [OF mts'(1)] by simp
  note found = set_build_tasks_known [OF listed(1) mts' listed(2)]
  have in_blocks: "set (build_tasks results) \<subseteq> blocks" using found(2) known by blast
  have "cache_truthful io location blocks w1"
    using pool_reads_spec(1) [OF metas listed(2)] truthful by (simp add: cache_truthful_def)
  then have "cache_truthful io location blocks w2"
    by (rule truthful_shrinks) (rule remove_chunk_shrinks [OF built(4)])
  then obtain ts where ts: "mset ts = mset (build_tasks results)"
    and finished: "list_all2 (\<lambda>t b. block_finished io location materialize t b (wd_files w3)) ts bs"
    using pool_builds_spec(2) [OF built(5) found(1) in_blocks usable _ built(6)] by blast
  have "set (bs_of_list (map (\<lambda>t. me_ulid (bb_meta t)) (build_tasks results))) = task_ulid ` set live"
    using mset_eq_setD [OF tasks] by (auto simp: bs_of_list_spec task_ulid_def)
  from that [OF pub finished ts [unfolded tasks] this] in_blocks mset_eq_setD [OF tasks] show thesis by simp
qed simp_all

lemma concurrent_publishes:
  assumes run: "build_block_index_concurrently io repository_for m n meta_events build_events repositories location
      materialize None w = (Some (Inr schemas), w')"
    and truthful: "cache_truthful io location blocks w"
    and usable: "blocks_ok blocks" "plain_location location" "manifest_json_ok io"
    and known: "known_blocks io repository_for repositories \<subseteq> blocks"
    and listed: "discover io repository_for repositories = Inr mts" "distinct mts"
  defines "live \<equiv> List.map_filter (live_block io) mts"
  shows "wd_files w' (block_index_file_path location) = Some (io_parquet io block_schema
      [batch_of block_schema (block_columns (sort_key row_key (map (row_of io) live))) (length live)])
    \<and> schemas_right io materialize live schemas
    \<and> (\<forall>task \<in> set live. \<exists>built. block_finished io location materialize task built (wd_files w'))"
proof -
  obtain ts bs w3 active where
    published: "publish io location active bs w3 = (Inr schemas, w')"
      "list_all2 (\<lambda>t b. block_finished io location materialize t b (wd_files w3)) ts bs"
      "mset ts = mset live" "set active = task_ulid ` set live" and sub: "set live \<subseteq> blocks"
    by (rule concurrent_reaches_publish [OF assms(1-8), folded live_def])
  show ?thesis using published_over_finished [OF published usable(1,2) sub] by blast
qed

end
