(* ===== verification/Block_Pool_Ends.thy ===== *)
theory Block_Pool_Ends
  imports Block_Index_Runs
begin

text \<open>
  How a pool ends: one task after the other is one of its interleavings, no interleaving goes on forever, and
  a pool with nothing left to do but no outcome has only tasks that spin, which are blocks on whose index the
  parser does not end.
\<close>

section \<open>One task after the other\<close>

lemma turns_run:
  "run_process io p w = Some (r, w') \<Longrightarrow> \<exists>k. fold (pool_step io limit work) (replicate k (Turn 0))
      (pool\<lparr>pl_running := [(t, p)]\<rparr>, w) = (hand_over t r (pool\<lparr>pl_running := []\<rparr>), w')"
proof (induction p arbitrary: w)
  case (Return x)
  then show ?case by (intro exI [of _ 1]) (simp add: pool_turn_def remove_at_def)
next
  case (Call c k)
  obtain a w1 where call: "perform io c w = (a, w1)" by fastforce
  with Call.prems have "run_process io (k a) w1 = Some (r, w')" by simp
  from Call.IH [OF rangeI this] obtain n where n: "fold (pool_step io limit work) (replicate n (Turn 0))
      (pool\<lparr>pl_running := [(t, k a)]\<rparr>, w1) = (hand_over t r (pool\<lparr>pl_running := []\<rparr>), w')" by blast
  with call show ?case by (intro exI [of _ "Suc n"]) (simp add: pool_turn_def)
qed simp

lemma pool_in_order:
  "0 < limit \<Longrightarrow> run_all (\<lambda>t. run_process io (work t)) ts w = Some (r, w') \<Longrightarrow>
    \<exists>events pool. fold (pool_step io limit work) events
        (\<lparr>pl_waiting = ts, pl_running = [], pl_done = gathered, pl_error = None\<rparr>, w) = (pool, w')
      \<and> (case r of Inl e \<Rightarrow> pl_error pool = Some e
         | Inr xs \<Rightarrow> pool = \<lparr>pl_waiting = [], pl_running = [], pl_done = gathered @ zip ts xs, pl_error = None\<rparr>)"
proof (induction ts arbitrary: r w gathered)
  case Nil
  then show ?case by (intro exI [of _ "[]"]) auto
next
  case (Cons t ts)
  obtain r1 w1 where one: "run_process io (work t) w = Some (r1, w1)"
    and rest: "(case r1 of Inl e \<Rightarrow> Some (Inl e, w1)
      | Inr x \<Rightarrow> map_option (\<lambda>(rs, w2). (tryR rs (\<lambda>xs. Inr (x # xs)), w2)) (run_all (\<lambda>t. run_process io (work t)) ts w1)) = Some (r, w')"
    using Cons.prems(2) by (auto simp: bind_eq_Some_conv)
  let ?pool = "\<lparr>pl_waiting = ts, pl_running = [], pl_done = gathered, pl_error = None\<rparr>"
  obtain k where k: "fold (pool_step io limit work) (replicate k (Turn 0)) (?pool\<lparr>pl_running := [(t, work t)]\<rparr>, w)
      = (hand_over t r1 (?pool\<lparr>pl_running := []\<rparr>), w1)"
    using turns_run [OF one, where limit = limit and work = work and pool = ?pool and t = t] by blast
  have begins: "fold (pool_step io limit work) (Begin # replicate k (Turn 0))
      (\<lparr>pl_waiting = t # ts, pl_running = [], pl_done = gathered, pl_error = None\<rparr>, w) = (hand_over t r1 ?pool, w1)"
    using k Cons.prems(1) by (simp add: pool_begin_def)
  show ?case
  proof (cases r1)
    case (Inl e)
    with rest have "r = Inl e" "w1 = w'" by simp_all
    with begins Inl show ?thesis
      by (intro exI [of _ "Begin # replicate k (Turn 0)"] exI [of _ "hand_over t r1 ?pool"]) (simp add: hand_over_def)
  next
    case (Inr x)
    with rest obtain r2 where all: "run_all (\<lambda>t. run_process io (work t)) ts w1 = Some (r2, w')"
      and r: "r = tryR r2 (\<lambda>xs. Inr (x # xs))" by auto
    from Cons.IH [OF Cons.prems(1) all, of "gathered @ [(t, x)]"] obtain events pool where
      events: "fold (pool_step io limit work) events
        (\<lparr>pl_waiting = ts, pl_running = [], pl_done = gathered @ [(t, x)], pl_error = None\<rparr>, w1) = (pool, w')"
      and pool: "case r2 of Inl e \<Rightarrow> pl_error pool = Some e
         | Inr xs \<Rightarrow> pool = \<lparr>pl_waiting = [], pl_running = [], pl_done = (gathered @ [(t, x)]) @ zip ts xs, pl_error = None\<rparr>"
      by blast
    have "hand_over t r1 ?pool = \<lparr>pl_waiting = ts, pl_running = [], pl_done = gathered @ [(t, x)], pl_error = None\<rparr>"
      by (simp add: hand_over_def Inr)
    then have "fold (pool_step io limit work) ((Begin # replicate k (Turn 0)) @ events)
        (\<lparr>pl_waiting = t # ts, pl_running = [], pl_done = gathered, pl_error = None\<rparr>, w) = (pool, w')"
      using begins events by (simp only: fold_append o_apply)
    with pool r show ?thesis
      by (intro exI [of _ "(Begin # replicate k (Turn 0)) @ events"] exI [of _ pool]) (cases r2; simp)
  qed
qed

lemma run_all_length: "run_all f ts w = Some (Inr xs, w') \<Longrightarrow> length xs = length ts"
proof (induction ts arbitrary: w xs)
  case (Cons t ts)
  then obtain r1 w1 where "(case r1 of Inl e \<Rightarrow> Some (Inl e, w1)
      | Inr x \<Rightarrow> map_option (\<lambda>(rs, w2). (tryR rs (\<lambda>xs. Inr (x # xs)), w2)) (run_all f ts w1)) = Some (Inr xs, w')"
    by (auto simp: bind_eq_Some_conv)
  then obtain x rs where "run_all f ts w1 = Some (rs, w')" and rs: "tryR rs (\<lambda>xs. Inr (x # xs)) = Inr xs"
    by (cases r1) auto
  with Cons.IH [of w1] show ?case by (auto simp: tryR_eq_Inr)
qed simp

lemma run_pool_in_order:
  assumes "0 < limit" and "run_all (\<lambda>t. run_process io (work t)) ts w = Some (r, w')"
  shows "\<exists>events pool. run_pool io limit work ts events w = (pool, w') \<and> pool_outcome pool = Some r"
proof -
  obtain events pool where events: "run_pool io limit work ts events w = (pool, w')"
    and pool: "case r of Inl e \<Rightarrow> pl_error pool = Some e
         | Inr xs \<Rightarrow> pool = \<lparr>pl_waiting = [], pl_running = [], pl_done = zip ts xs, pl_error = None\<rparr>"
    using pool_in_order [OF assms, of "[]"] unfolding run_pool_def pool_start_def append_Nil by blast
  have "pool_outcome pool = Some r"
  proof (cases r)
    case (Inr xs)
    then have "length xs = length ts" using run_all_length assms(2) by blast
    with pool Inr show ?thesis by (simp add: pool_outcome_def)
  qed (use pool in \<open>simp add: pool_outcome_def\<close>)
  with events show ?thesis by blast
qed

text \<open>So the build of \<open>Block_Index\<close>, with the tasks in the order they come, is one concurrent build.\<close>

lemma build_in_order:
  assumes "build_block_index io repository_for id id repositories location materialize age w = Some (r, w')"
    and "0 < m" and "0 < n"
  shows "\<exists>meta_events build_events. build_block_index_concurrently io repository_for m n meta_events build_events
    repositories location materialize age w = (Some r, w')"
proof -
  have meta: "(\<lambda>t w. Some (read_block_meta io age t w)) = (\<lambda>t. run_process io (read_block_meta_calls io age t))"
    by (intro ext) (simp add: run_read_block_meta)
  have build: "build_or_reuse io location materialize = (\<lambda>t. run_process io (build_or_reuse_calls io location materialize t))"
    by (intro ext) (simp add: run_build_or_reuse)
  note metas = run_pool_in_order [OF assms(2), where io = io and work = "read_block_meta_calls io age"]
  note builds = run_pool_in_order [OF assms(3), where io = io and work = "build_or_reuse_calls io location materialize"]
  show ?thesis using assms(1)
  proof (cases rule: build_block_index_cases)
    case (unlisted e)
    then show ?thesis by (simp add: build_block_index_concurrently_def)
  next
    case (unread mts e)
    from metas [OF unread(2) [unfolded meta]] obtain events pool where
      "run_pool io m (read_block_meta_calls io age) mts events w = (pool, w')" "pool_outcome pool = Some (Inl e)" by blast
    with unread show ?thesis by (intro exI [of _ events]) (simp add: build_block_index_concurrently_def)
  next
    case (uncleaned mts results w1 e)
    from metas [OF uncleaned(2) [unfolded meta]] obtain events pool where
      "run_pool io m (read_block_meta_calls io age) mts events w = (pool, w1)" "pool_outcome pool = Some (Inr results)" by blast
    with uncleaned show ?thesis by (intro exI [of _ events]) (simp add: build_block_index_concurrently_def Let_def)
  next
    case (unbuilt mts results w1 w2 u e)
    from metas [OF unbuilt(2) [unfolded meta]] obtain events pool where
      1: "run_pool io m (read_block_meta_calls io age) mts events w = (pool, w1)" "pool_outcome pool = Some (Inr results)" by blast
    from builds [OF unbuilt(4) [unfolded build]] obtain events' pool' where
      2: "run_pool io n (build_or_reuse_calls io location materialize) (build_tasks results) events' w2 = (pool', w')"
      "pool_outcome pool' = Some (Inl e)" by auto
    from unbuilt 1 2 show ?thesis
      by (intro exI [of _ events] exI [of _ events']) (simp add: build_block_index_concurrently_def Let_def)
  next
    case (built mts results w1 w2 u bs w3)
    from metas [OF built(2) [unfolded meta]] obtain events pool where
      1: "run_pool io m (read_block_meta_calls io age) mts events w = (pool, w1)" "pool_outcome pool = Some (Inr results)" by blast
    from builds [OF built(4) [unfolded build]] obtain events' pool' where
      2: "run_pool io n (build_or_reuse_calls io location materialize) (build_tasks results) events' w2 = (pool', w3)"
      "pool_outcome pool' = Some (Inr bs)" by auto
    from built 1 2 show ?thesis
      by (intro exI [of _ events] exI [of _ events']) (simp add: build_block_index_concurrently_def Let_def)
  qed
qed

section \<open>No interleaving goes on forever\<close>

inductive later :: "'a process \<Rightarrow> 'a process \<Rightarrow> bool" where
  later: "later (k a) (Call c k)"

inductive_cases later_Call: "later p (Call c k)"

lemma wfp_later: "wfp later"
proof -
  have "Wellfounded.accp later p" for p :: "'a process"
  proof (induction p)
    case (Call c k)
    show ?case by (rule accpI) (auto elim: later_Call intro: Call.IH)
  qed (rule accpI, erule later.cases, simp)+
  then show ?thesis by (intro accp_wfpI) simp
qed

lemma later_irrefl: "k a \<noteq> Call c k"
proof
  assume "k a = Call c k"
  then have "later (Call c k) (Call c k)" using later [of k a c] by simp
  then show False using wfp_later by (metis wfp_imp_irreflp irreflpD)
qed

definition pool_rank :: "('t, 'a) pool \<Rightarrow> nat \<times> (string fault + 'a) process multiset" where
  "pool_rank pool = (length (pl_waiting pool), mset (map snd (pl_running pool)))"

definition rank_less :: "((nat \<times> 'a process multiset) \<times> nat \<times> 'a process multiset) set" where
  "rank_less = less_than <*lex*> mult {(p, q). later p q}"

lemma wf_rank_less: "wf rank_less"
  unfolding rank_less_def using wfp_later by (intro wf_lex_prod wf_mult wf_less_than) (simp add: wfp_def)

lemma pool_step_rank:
  assumes "pool_step io limit work ev (pool, w) = (pool', w')"
  shows "(pool', w') = (pool, w) \<or> (pool_rank pool', pool_rank pool) \<in> rank_less"
proof (cases ev)
  case Begin
  then have pool': "pool' = pool_begin limit work pool" "w' = w" using assms by simp_all
  show ?thesis
  proof (cases rule: pool_begin_cases [of limit work pool])
    case idle
    with pool' show ?thesis by simp
  next
    case (begins t ts)
    then show ?thesis unfolding pool' begins(4) by (simp add: pool_rank_def rank_less_def)
  qed
next
  case (Turn i)
  with assms have "pool_turn io i (pool, w) = (pool', w')" by simp
  then show ?thesis
  proof (cases rule: pool_turn_cases)
    case (ends t r)
    let ?pool = "pool\<lparr>pl_running := remove_at i (pl_running pool)\<rparr>"
    have same: "pl_waiting (hand_over t r ?pool) = pl_waiting pool" "pl_running (hand_over t r ?pool) = remove_at i (pl_running pool)"
      by (simp_all add: hand_over_def split: sum.split)
    have "mset (map snd (pl_running pool)) = add_mset (Return r) (mset (map snd (remove_at i (pl_running pool))))"
      using mset_remove_at [of i "map snd (pl_running pool)"] ends(1,2) by (simp add: remove_at_map)
    then have "(mset (map snd (remove_at i (pl_running pool))), mset (map snd (pl_running pool))) \<in> mult {(p, q). later p q}"
      by (intro subset_implies_mult) simp
    then show ?thesis by (simp add: pool_rank_def rank_less_def ends(3) same)
  next
    case (calls t c k a)
    let ?rest = "mset (remove_at i (map snd (pl_running pool)))"
    have before: "mset (map snd (pl_running pool)) = add_mset (Call c k) ?rest"
      using mset_remove_at [of i "map snd (pl_running pool)"] calls(1,2) by simp
    have "mset (map snd ((pl_running pool)[i := (t, k a)])) = add_mset (k a) ?rest"
      using mset_remove_at [of i "(map snd (pl_running pool))[i := k a]"] calls(1)
      by (simp add: map_update remove_at_def)
    then have "(mset (map snd ((pl_running pool)[i := (t, k a)])), mset (map snd (pl_running pool))) \<in> mult {(p, q). later p q}"
      unfolding before mult_def by (intro r_into_trancl mult1I [of _ "Call c k" ?rest _ "{#k a#}"]) (auto intro: later)
    then show ?thesis by (simp add: pool_rank_def rank_less_def calls(4))
  qed simp
qed

lemma no_endless_run:
  "\<not> (\<forall>n. pool_step io limit work (events n) (states n) = states (Suc n) \<and> states (Suc n) \<noteq> states n)"
proof
  assume steps: "\<forall>n. pool_step io limit work (events n) (states n) = states (Suc n) \<and> states (Suc n) \<noteq> states n"
  have "(pool_rank (fst (states (Suc n))), pool_rank (fst (states n))) \<in> rank_less" for n
    using pool_step_rank [of io limit work "events n" "fst (states n)" "snd (states n)"
        "fst (states (Suc n))" "snd (states (Suc n))"] steps by simp
  note less = this
  show False
    by (rule wf_no_infinite_down_chainE [OF wf_rank_less, of "\<lambda>n. pool_rank (fst (states n))"]) (use less in blast)
qed

section \<open>What a pool is stuck on\<close>

lemma stuck_spins:
  assumes "0 < limit" and "pool_outcome pool = None" and "\<And>ev. pool_step io limit work ev (pool, w) = (pool, w)"
  shows "pl_running pool \<noteq> []" and "(t, p) \<in> set (pl_running pool) \<Longrightarrow> p = Spin"
proof -
  have error: "pl_error pool = None" and some: "pl_waiting pool \<noteq> [] \<or> pl_running pool \<noteq> []"
    using assms(2) by (auto simp: pool_outcome_def split: option.splits if_splits)
  show "pl_running pool \<noteq> []"
  proof
    assume none: "pl_running pool = []"
    with some obtain t ts where "pl_waiting pool = t # ts" by (cases "pl_waiting pool") auto
    with none error assms(1) have "pl_running (pool_begin limit work pool) \<noteq> pl_running pool" by (simp add: pool_begin_def)
    with assms(3) [of Begin] show False by simp
  qed
  show "p = Spin" if "(t, p) \<in> set (pl_running pool)" for t p
  proof -
    from that obtain i where i: "i < length (pl_running pool)" "pl_running pool ! i = (t, p)" by (auto simp: in_set_conv_nth)
    have idle: "pool_turn io i (pool, w) = (pool, w)" using assms(3) [of "Turn i"] by simp
    show ?thesis
    proof (cases p)
      case (Return r)
      have "pl_running (hand_over t r (pool\<lparr>pl_running := remove_at i (pl_running pool)\<rparr>)) = remove_at i (pl_running pool)"
        by (simp add: hand_over_def split: sum.split)
      moreover have "length (remove_at i (pl_running pool)) < length (pl_running pool)"
        using i(1) by (simp add: remove_at_def)
      ultimately have "hand_over t r (pool\<lparr>pl_running := remove_at i (pl_running pool)\<rparr>) \<noteq> pool" by auto
      with idle i Return show ?thesis by (simp add: pool_turn_def)
    next
      case (Call c k)
      obtain a w' where "perform io c w = (a, w')" by fastforce
      with idle i Call have "(pl_running pool)[i := (t, k a)] = pl_running pool"
        by (simp add: pool_turn_def) (metis pool.select_convs(2) pool.surjective pool.update_convs(2))
      then have "(pl_running pool)[i := (t, k a)] ! i = pl_running pool ! i" by simp
      with i Call later_irrefl [of k a c] show ?thesis by simp
    qed simp
  qed
qed

text \<open>A block build spins only in the parser.\<close>

lemma build_or_reuse_None:
  assumes "build_or_reuse io location materialize task w = None"
  obtains index where "ev_objects (io_env io) (rp_name (bb_storage task)) (bb_block_path task @ ''/index'') = Some index"
    and "parse (io_crc io) index = None"
proof -
  obtain w1 where "build_chunk_index io task location materialize w1 = None"
    using assms by (auto simp: build_or_reuse_def split: prod.splits sum.splits option.splits)
  then obtain index w2 w3 where read: "repository_read (io_env io) (bb_storage task) (bb_block_path task @ ''/index'') w1 = (Inr index, w2)"
    and written: "write_block io task location materialize index w2 = None"
    by (auto simp: build_chunk_index_def Let_def split: prod.splits sum.splits)
  have "parse (io_crc io) index = None"
    using written
    by (auto simp: write_block_def write_series_index_streaming_def write_chunk_and_series_index_streaming_def parse_def
        parse_each_fold [of _ _ "visit_series _ _ _ _ _"] parse_each_fold [of _ _ "visit_both _ _ _ _ _"] Let_def
        split: if_splits prod.splits sum.splits)
  with repository_read_Inr [OF read] that show thesis by simp
qed

lemma spinning_build:
  assumes alone: "build_alone io location materialize files0 task Spin files"
  obtains index where "ev_objects (io_env io) (rp_name (bb_storage task)) (bb_block_path task @ ''/index'') = Some index"
    and "parse (io_crc io) index = None"
proof -
  obtain files1 where steps: "(process_step io)\<^sup>*\<^sup>* (build_or_reuse_calls io location materialize task, files0) (Spin, files1)"
    using alone by (auto simp: build_alone_def alone_def)
  obtain w :: world where w: "wd_files w = files0" using run_in_world by blast
  from steps_replay [OF steps, of "wd_clock w"] obtain fault m where "\<And>fault' v. (\<forall>i. wd_clock w \<le> i \<and> i < m \<longrightarrow> fault' i = fault i) \<Longrightarrow>
    wd_files v = files0 \<Longrightarrow> wd_clock v = wd_clock w
      \<Longrightarrow> run_process (with_faults io fault') (build_or_reuse_calls io location materialize task) v
      = run_process (with_faults io fault') Spin (v\<lparr>wd_files := files1, wd_clock := m\<rparr>)" by blast
  from this [of fault w] w have "run_process (with_faults io fault) (build_or_reuse_calls io location materialize task) w = None"
    by simp
  then have "build_or_reuse (with_faults io fault) location materialize task w = None"
    using run_build_or_reuse [of "with_faults io fault" location materialize task w] by (simp add: with_faults_calls)
  from build_or_reuse_None [OF this] that show thesis by auto
qed

end
