(* ===== verification/Block_Pool_Props.thy ===== *)
theory Block_Pool_Props
  imports Block_Pool_Ends Block_Example
begin

text \<open>
  The properties of the concurrent build of the block index: what it publishes in every interleaving, what a
  build that is killed leaves for the next one, and when it ends.
\<close>




text \<open>
  C4: a concurrent build may be killed between any two of its calls, or fail: the manifests on disk still
  tell the truth about their blocks and the tables beside them, so the build of a new process over these
  files, if it succeeds, publishes exactly the live blocks.
\<close>

theorem restart_after_kill:
  assumes "build_block_index_concurrently io repository_for m n meta_events build_events repositories location
      materialize age w = (outcome, w1)"
    and "cache_truthful io location blocks w" and "blocks_ok blocks" and "plain_location location" and "manifest_json_ok io"
    and "known_blocks io repository_for repositories \<subseteq> blocks"
    and "discover io repository_for repositories = Inr mts" and "distinct mts"
    and "live = List.map_filter (live_block io) mts"
  shows "cache_truthful io location blocks w1
    \<and> (\<forall>m' n' meta_events' build_events' materialize' cache clock schemas w2.
        build_block_index_concurrently io repository_for m' n' meta_events' build_events' repositories location
          materialize' None (w1\<lparr>wd_state := cache, wd_clock := clock\<rparr>) = (Some (Inr schemas), w2)
        \<longrightarrow> wd_files w2 (block_index_file_path location) = Some (io_parquet io block_schema
            [batch_of block_schema (block_columns (sort_key row_key (map (row_of io) live))) (length live)])
          \<and> schemas_right io materialize' live schemas
          \<and> (\<forall>task \<in> set live. \<exists>built. block_finished io location materialize' task built (wd_files w2)))"
proof (rule conjI)
  show truthful: "cache_truthful io location blocks w1"
    using concurrent_keeps_truth [OF assms(1-6)] assms(7,8) by simp
  show "\<forall>m' n' meta_events' build_events' materialize' cache clock schemas w2.
        build_block_index_concurrently io repository_for m' n' meta_events' build_events' repositories location
          materialize' None (w1\<lparr>wd_state := cache, wd_clock := clock\<rparr>) = (Some (Inr schemas), w2)
        \<longrightarrow> wd_files w2 (block_index_file_path location) = Some (io_parquet io block_schema
            [batch_of block_schema (block_columns (sort_key row_key (map (row_of io) live))) (length live)])
          \<and> schemas_right io materialize' live schemas
          \<and> (\<forall>task \<in> set live. \<exists>built. block_finished io location materialize' task built (wd_files w2))"
    unfolding assms(9)
    by (intro allI impI, erule concurrent_publishes [OF _ _ assms(3-8)]) (use truthful in \<open>simp add: cache_truthful_def\<close>)
qed

text \<open>A kill in the middle: the temporary file of the block's series table has just been created.\<close>

definition demo_kill :: "pool_event list" where
  "demo_kill = [Begin, Turn 0, Turn 0, Turn 0, Turn 0]"

lemma demo_killed:
  assumes "wd_files w = wd_files demo_world"
  shows "\<exists>pool w'. run_pool demo_io 2 (build_or_reuse_calls demo_io ''d'' False) [demo_task] demo_kill w = (pool, w')
    \<and> pool_outcome pool = None \<and> wd_files w' ''d/series/U.parquet.partial'' = Some []
    \<and> wd_files w' ''d/series/U.parquet'' = None"
proof -
  have objects: "ev_objects demo_block_env (rp_name (bb_storage demo_task)) ''b/index'' = Some one_series_index"
    by (simp add: demo_block_env_def demo_task_def demo_block_storage_def)
  have path: "local_path ''d/series/U.parquet'' = ''d/series/U.parquet''" "has_file_name ''d/series/U.parquet''"
    "parent_path ''d/series/U.parquet'' = ''d/series''" "partial_path ''d/series/U.parquet'' = ''d/series/U.parquet.partial''"
    by (simp_all add: demo_path_eval partial_path_def)
  show ?thesis
    using assms
    by (simp add: run_pool_def demo_kill_def pool_start_def pool_begin_def pool_turn_def build_or_reuse_calls_def
      load_cached_calls_def build_chunk_index_calls_def write_block_calls_def write_series_calls_def open_table_calls_def
      demo_of_task demo_paths path objects
      doP_def ask_def is_file_def answer_of_def demo_outside retW_def fs_create_dir_all_def fs_write_def pool_outcome_def
      demo_world_def Let_def)
qed

theorem restart_after_kill_witness:
  "\<exists>events w1 meta_events build_events w2.
    build_block_index_concurrently demo_io demo_repository_for 2 2 events demo_kill [demo_repository_config] ''d'' False None
      demo_world = (None, w1)
    \<and> wd_files w1 ''d/series/U.parquet.partial'' = Some []
    \<and> build_block_index_concurrently demo_io demo_repository_for 2 2 meta_events build_events [demo_repository_config] ''d'' True
      None (w1\<lparr>wd_state := empty_cache_state, wd_clock := 0\<rparr>) = (Some (Inr (demo_schemas True)), w2)
    \<and> wd_files w2 ''d/block_index.parquet'' = Some [1]"
proof -
  obtain w0 where meta: "read_block_meta demo_io None demo_meta_task demo_world = (Inr (Build demo_task), w0)"
    "wd_files w0 = wd_files demo_world" using demo_reads by blast
  then have "run_all (\<lambda>t. run_process demo_io (read_block_meta_calls demo_io None t)) [demo_meta_task] demo_world
    = Some (Inr [Build demo_task], w0)" by (simp add: run_read_block_meta)
  from run_pool_in_order [OF _ this, of 2] obtain events metas where metas:
    "run_pool demo_io 2 (read_block_meta_calls demo_io None) [demo_meta_task] events demo_world = (metas, w0)"
    "pool_outcome metas = Some (Inr [Build demo_task])" by auto
  obtain wc where clean: "remove_chunk_index_files demo_io ''d'' w0 = (Inr (), wc)" "wd_files wc = wd_files w0"
    using demo_no_chunk_tables by blast
  obtain builds w1 where builds: "run_pool demo_io 2 (build_or_reuse_calls demo_io ''d'' False) [demo_task] demo_kill wc = (builds, w1)"
    "pool_outcome builds = None" "wd_files w1 ''d/series/U.parquet.partial'' = Some []" "wd_files w1 ''d/series/U.parquet'' = None"
    using demo_killed [of wc] clean(2) meta(2) by auto
  have killed: "build_block_index_concurrently demo_io demo_repository_for 2 2 events demo_kill [demo_repository_config] ''d'' False
      None demo_world = (None, w1)"
    using metas clean builds(1,2)
    by (simp add: build_block_index_concurrently_def demo_discover build_tasks_def map_filter_simps Let_def)
  let ?w = "w1\<lparr>wd_state := empty_cache_state, wd_clock := 0\<rparr>"
  obtain meta_events build_events w2 where again: "build_block_index_concurrently demo_io demo_repository_for 2 2 meta_events
      build_events [demo_repository_config] ''d'' True None ?w = (Some (Inr (demo_schemas True)), w2)"
    using demo_run_from [of ?w True] builds(4) build_in_order [where io = demo_io and m = 2 and n = 2 and w = ?w] by fastforce
  from restart_after_kill [OF killed demo_truthful demo_blocks_ok demo_location demo_manifest_json _ demo_discover _ refl] again
  have "wd_files w2 (block_index_file_path ''d'') = Some (demo_parquet block_schema
      [batch_of block_schema (block_columns (sort_key row_key (map (row_of demo_io) [demo_task]))) 1])"
    by (simp add: demo_known map_filter_simps demo_live)
  then have "wd_files w2 ''d/block_index.parquet'' = Some [1]" by (simp add: demo_paths demo_parquet_def batch_of_def)
  with killed builds(3) again show ?thesis by blast
qed



end
