(* ===== verification/Block_Directory_Facts.thy ===== *)
theory Block_Directory_Facts
  imports Block_Index_Runs
begin

text \<open>
  Facts on the directory of the series tables, which the query session registers as a whole: what the
  clean-up of a successful build leaves there.
\<close>

section \<open>The parts of a path\<close>

lemma path_of_parts:
  assumes "parent_path p = d" and "d \<noteq> ''''" and "last d \<noteq> CHR ''/''"
  shows "p = d @ ''/'' @ file_name p"
proof -
  let ?plain = "\<lambda>c. c \<noteq> CHR ''/''"
  obtain slash r where split: "dropWhile ?plain (rev p) = slash # r" "d = rev r"
    using assms by (auto simp: parent_path_def split: list.splits)
  then have "slash = CHR ''/''" using hd_dropWhile [of ?plain "rev p"] by auto
  moreover have "rev p = takeWhile ?plain (rev p) @ dropWhile ?plain (rev p)" by simp
  ultimately have "rev (rev p) = rev (takeWhile ?plain (rev p) @ CHR ''/'' # r)" using split(1) by simp
  then show ?thesis using split(2) by (simp add: file_name_def)
qed

lemma name_of_parts:
  assumes "path_extension p = Some ext"
  shows "file_name p = file_stem p @ ''.'' @ ext"
proof -
  let ?plain = "\<lambda>c. c \<noteq> CHR ''.''" and ?name = "file_name p"
  have ext: "ext = rev (takeWhile ?plain (rev ?name))" and len: "length ext + 1 < length ?name"
    using assms by (auto simp: path_extension_def Let_def split: if_splits)
  have whole: "takeWhile ?plain (rev ?name) @ dropWhile ?plain (rev ?name) = rev ?name" by (rule takeWhile_dropWhile_id)
  have "dropWhile ?plain (rev ?name) \<noteq> []"
  proof
    assume "dropWhile ?plain (rev ?name) = []"
    with whole ext have "rev ext = rev ?name" by (metis append_Nil2 rev_rev_ident)
    with len show False by simp
  qed
  then obtain dot r where split: "dropWhile ?plain (rev ?name) = dot # r" by (metis neq_Nil_conv)
  then have dot: "dot = CHR ''.''" using hd_dropWhile [of ?plain "rev ?name"] by auto
  have "rev (rev ?name) = rev (takeWhile ?plain (rev ?name) @ CHR ''.'' # r)" using whole split dot by metis
  then have name: "?name = rev r @ ''.'' @ ext" unfolding ext by simp
  then have "length ?name - (length ext + 1) = length (rev r)" by simp
  then have "take (length ?name - (length ext + 1)) ?name = rev r" using name by (metis append_eq_conv_conj)
  then have "file_stem p = rev r" unfolding file_stem_def assms option.case .
  then show ?thesis using name by (simp only:)
qed

lemma file_name_join: "CHR ''/'' \<notin> set name \<Longrightarrow> file_name (path_join d name) = name"
proof -
  assume plain: "CHR ''/'' \<notin> set name"
  have alone: "file_name name = name"
  proof -
    have "takeWhile (\<lambda>c. c \<noteq> CHR ''/'') (rev name) = rev name"
      unfolding takeWhile_eq_all_conv using plain by auto
    then show ?thesis by (simp only: file_name_def rev_rev_ident)
  qed
  show ?thesis
  proof (cases "d \<noteq> '''' \<and> last d = CHR ''/''")
    case True
    then obtain e where "d = e @ ''/''" by (metis append_butlast_last_id)
    then have "path_join d name = e @ ''/'' @ name" by (simp add: path_join_def)
    then show ?thesis using file_name_append [OF plain] by simp
  next
    case False
    then show ?thesis using alone file_name_append [OF plain] by (auto simp: path_join_def)
  qed
qed

lemma parent_path_append: "CHR ''/'' \<notin> set name \<Longrightarrow> d \<noteq> '''' \<Longrightarrow> parent_path (d @ ''/'' @ name) = d"
proof -
  assume "CHR ''/'' \<notin> set name" "d \<noteq> ''''"
  moreover from this have "dropWhile (\<lambda>c. c \<noteq> CHR ''/'') (rev name @ CHR ''/'' # rev d) = CHR ''/'' # rev d"
    by (subst dropWhile_append2) auto
  ultimately show ?thesis by (cases "rev d") (auto simp: parent_path_def)
qed

text \<open>The Parquet files right under a directory.\<close>

definition parquet_files :: "(string \<Rightarrow> bytes option) \<Rightarrow> string \<Rightarrow> string set" where
  "parquet_files files directory =
     {p. files p \<noteq> None \<and> parent_path p = directory \<and> path_extension p = Some ''parquet''}"

lemma series_directory_shape:
  "series_index_directory_path location \<noteq> ''''" "last (series_index_directory_path location) \<noteq> CHR ''/''"
proof -
  have "\<not> starts_with ''/'' ''series''" by (simp add: starts_with_def strip_prefix_def)
  then show "series_index_directory_path location \<noteq> ''''" "last (series_index_directory_path location) \<noteq> CHR ''/''"
    using subdirectory_shape [of "''series''"] by (simp_all add: series_index_directory_path_def)
qed

lemma series_file_in_directory:
  assumes "plain_ulid ulid"
  shows "parent_path (series_index_file_path location ulid) = series_index_directory_path location"
    and "path_extension (series_index_file_path location ulid) = Some ''parquet''"
    and "file_stem (series_index_file_path location ulid) = ulid"
proof -
  let ?d = "series_index_directory_path location"
  have path: "series_index_file_path location ulid = ?d @ ''/'' @ ulid @ ''.'' @ ''parquet''"
    using index_paths(1) [OF assms] by simp
  have name: "CHR ''/'' \<notin> set (ulid @ ''.'' @ ''parquet'')" using assms by (simp add: plain_ulid_def)
  from assms have plain: "CHR ''/'' \<notin> set ulid" "ulid \<noteq> []" by (simp_all add: plain_ulid_def)
  show "parent_path (series_index_file_path location ulid) = ?d"
    unfolding path by (rule parent_path_append [OF name series_directory_shape(1)])
  show "path_extension (series_index_file_path location ulid) = Some ''parquet''"
    unfolding path by (rule path_extension_append [OF plain]) auto
  show "file_stem (series_index_file_path location ulid) = ulid"
    unfolding path by (rule file_stem_append [OF plain]) auto
qed

lemma parquet_file_of_stem:
  assumes "p \<in> parquet_files files (series_index_directory_path location)" and "plain_ulid (file_stem p)"
  shows "p = series_index_file_path location (file_stem p)"
proof -
  from assms(1) have parts: "parent_path p = series_index_directory_path location" "path_extension p = Some ''parquet''"
    by (simp_all add: parquet_files_def)
  note whole = path_of_parts [OF parts(1) series_directory_shape] and name = name_of_parts [OF parts(2)]
  from whole have "p = series_index_directory_path location @ ''/'' @ file_stem p @ ''.'' @ ''parquet''" unfolding name .
  then show ?thesis unfolding index_paths(1) [OF assms(2)] by simp
qed

section \<open>What a successful clean-up removes\<close>

lemma remove_entries_removes:
  "remove_entries env stale entries w = (Inr u, w') \<Longrightarrow> (p, regular) \<in> set entries \<Longrightarrow> stale p regular
    \<Longrightarrow> wd_files w' p = None"
proof (induction entries arbitrary: w)
  case (Cons e entries)
  obtain path r where e: "e = (path, r)" by (cases e)
  from Cons.prems(1) [unfolded e remove_entries.simps] obtain w1 w2 v where
    one: "(if stale path r then fs_remove_file env path else retW ()) w1 = (Inr v, w2)"
    and rest: "remove_entries env stale entries w2 = (Inr u, w')"
    by (elim doW_Inr_cases)
  show ?case
  proof (cases "(p, regular) \<in> set entries")
    case True
    from Cons.IH [OF rest this Cons.prems(3)] show ?thesis .
  next
    case False
    with Cons.prems(2,3) e have "stale path r" "p = path" by auto
    with one have "wd_files w2 p = None"
      by (auto simp: fs_remove_file_def outside_def failW_def Let_def split: option.splits)
    with remove_entries_shrinks [OF rest, of p] show ?thesis by auto
  qed
qed simp

text \<open>
  The listings of a directory are complete for \<open>files\<close>: a Parquet file of them that was there when the directory
  was listed was in the listing.
\<close>

definition listings_complete :: "index_outside \<Rightarrow> string \<Rightarrow> (string \<Rightarrow> bytes option) \<Rightarrow> bool" where
  "listings_complete io directory files \<longleftrightarrow>
     (\<forall>v p. p \<in> parquet_files files directory \<and> wd_files v p \<noteq> None
       \<longrightarrow> io_dir_exists io directory v \<and> (p, True) \<in> set (io_read_dir io directory v))"

lemma clean_directory_complete:
  assumes run: "clean_directory io directory stale w = (Inr u, w')"
    and complete: "listings_complete io directory files" and p: "p \<in> parquet_files files directory"
    and left: "wd_files w' p \<noteq> None"
  shows "\<not> stale p True"
proof
  assume stale: "stale p True"
  from left clean_directory_cases(1) [OF run, of p] have there: "wd_files w p \<noteq> None" by auto
  with complete p have "io_dir_exists io directory w" unfolding listings_complete_def by blast
  with run have "doW (outside (io_env io) (\<lambda>w. retW (io_read_dir io directory w) w))
    (remove_entries (io_env io) stale) w = (Inr u, w')" by (simp add: clean_directory_def)
  then obtain entries w1 where listed: "outside (io_env io) (\<lambda>w. retW (io_read_dir io directory w) w) w = (Inr entries, w1)"
    and rest: "remove_entries (io_env io) stale entries w1 = (Inr u, w')" by (elim doW_Inr_cases)
  let ?v = "w\<lparr>wd_clock := wd_clock w + 1\<rparr>"
  from listed have "entries = io_read_dir io directory ?v"
    by (auto simp: outside_def retW_def Let_def split: option.splits)
  moreover have "(p, True) \<in> set (io_read_dir io directory ?v)"
    using complete p there unfolding listings_complete_def by simp
  ultimately have "wd_files w' p = None" using remove_entries_removes [OF rest _ stale] by simp
  with left show False by simp
qed

lemma publish_cleans:
  assumes run: "publish io location active built w = (Inr schemas, w')" and loc: "plain_location location"
    and complete: "listings_complete io (series_index_directory_path location) (wd_files w')"
    and p: "p \<in> parquet_files (wd_files w') (series_index_directory_path location)"
    and other: "p \<noteq> block_index_file_path location"
  shows "file_stem p \<in> set active"
proof -
  from run have "doW (cleanup_series_index_files io location active) (\<lambda>_.
      doW (cleanup_block_manifest_files io location active) (\<lambda>_ w.
        case block_parquet_bytes (io_parquet io) (sort_key row_key (map bx_row built)) of
          Inl e \<Rightarrow> (Inl e, w)
        | Inr bs \<Rightarrow> doW (write_local_file (io_env io) (block_index_file_path location) bs) (\<lambda>_.
            retW (metric_schemas (fold (\<lambda>b m. merge_metric_labels m (bx_metric_labels b)) built []))) w)) w = (Inr schemas, w')"
    by (simp add: publish_def Let_def)
  then obtain u w1 v w2 where series: "cleanup_series_index_files io location active w = (Inr u, w1)"
    and manifests: "cleanup_block_manifest_files io location active w1 = (Inr v, w2)"
    and rest: "(case block_parquet_bytes (io_parquet io) (sort_key row_key (map bx_row built)) of
          Inl e \<Rightarrow> (Inl e, w2)
        | Inr bs \<Rightarrow> doW (write_local_file (io_env io) (block_index_file_path location) bs) (\<lambda>_.
            retW (metric_schemas (fold (\<lambda>b m. merge_metric_labels m (bx_metric_labels b)) built []))) w2) = (Inr schemas, w')"
    by (elim doW_Inr_cases)
  from rest obtain bs x where written: "write_local_file (io_env io) (block_index_file_path location) bs w2 = (x, w')"
    by (auto simp: doW_def retW_def split: sum.splits prod.splits)
  have local: "local_path (block_index_file_path location) = block_index_file_path location"
    using loc file_scheme_join [of "local_path location" "''block_index.parquet''" "[]"]
    by (simp add: local_path_plain plain_location_def block_index_file_path_def)
  have there: "wd_files w' p \<noteq> None" and ext: "path_extension p = Some ''parquet''"
    using p by (simp_all add: parquet_files_def)
  have "wd_files w2 p \<noteq> None"
    using write_local_file_spec(1) [OF written, of p] other there unfolding local by simp
  then have "wd_files w1 p \<noteq> None"
    using cleanup_cases(1) [OF manifests [unfolded cleanup_block_manifest_files_def], of p] by auto
  with clean_directory_complete [OF series [unfolded cleanup_series_index_files_def cleanup_index_files_def] complete p]
  have "\<not> stale_index_file active p True" .
  with ext show ?thesis by (simp add: stale_index_file_def)
qed

lemma block_index_outside_series:
  assumes "p \<in> parquet_files files (series_index_directory_path location)"
  shows "p \<noteq> block_index_file_path location"
proof
  assume p: "p = block_index_file_path location"
  have relative: "\<not> starts_with ''/'' ''block_index.parquet''" "\<not> starts_with ''/'' ''series''"
    by (simp_all add: starts_with_def strip_prefix_def)
  have name: "file_name p = ''block_index.parquet''"
    unfolding p block_index_file_path_def join_path_def if_not_P [OF relative(1)] by (rule file_name_join) simp
  have "p = series_index_directory_path location @ ''/'' @ file_name p"
    using assms by (intro path_of_parts series_directory_shape) (simp add: parquet_files_def)
  moreover have name_length: "length (''/'' @ file_name p) = 20" unfolding name by simp
  ultimately have "length p = length (series_index_directory_path location) + 20"
    by (metis (no_types) name_length length_append)
  moreover have "length p = length (series_index_directory_path location) + 13"
    unfolding p by (simp add: series_index_directory_path_def block_index_file_path_def join_path_def relative path_join_def)
  ultimately show False by simp
qed

section \<open>The series tables after a build\<close>

text \<open>The series tables of a set of blocks, complete, and nothing else that is read as a table.\<close>

definition series_directory_right ::
  "index_outside \<Rightarrow> string \<Rightarrow> block_build_task list \<Rightarrow> (string \<Rightarrow> bytes option) \<Rightarrow> bool" where
  "series_directory_right io location live files \<longleftrightarrow>
     parquet_files files (series_index_directory_path location)
       = (\<lambda>task. series_index_file_path location (task_ulid task)) ` set live
     \<and> (\<forall>task \<in> set live. \<exists>bs. files (series_index_file_path location (task_ulid task)) = Some bs
         \<and> series_table_right io task bs)"

lemma published_directory:
  assumes run: "publish io location active bs w3 = (Inr schemas, w')"
    and finished: "list_all2 (\<lambda>t b. block_finished io location materialize t b (wd_files w3)) ts bs"
    and ts: "mset ts = mset live" and active: "set active = task_ulid ` set live"
    and live: "set live \<subseteq> blocks" and usable: "blocks_ok blocks" "plain_location location"
    and complete: "listings_complete io (series_index_directory_path location) (wd_files w')"
  shows "series_directory_right io location live (wd_files w')"
proof -
  let ?directory = "series_index_directory_path location"
  have plain: "plain_ulid (task_ulid task)" if "task \<in> set live" for task
    using usable(1) live that by (auto simp: blocks_ok_def)
  have tables: "\<exists>bs. wd_files w' (series_index_file_path location (task_ulid task)) = Some bs \<and> series_table_right io task bs"
    if "task \<in> set live" for task
    using published_over_finished(3) [OF run finished ts active usable live that] by (auto simp: block_finished_def)
  have "parquet_files (wd_files w') ?directory = (\<lambda>task. series_index_file_path location (task_ulid task)) ` set live"
  proof (intro equalityI subsetI)
    fix p assume p: "p \<in> parquet_files (wd_files w') ?directory"
    from publish_cleans [OF run usable(2) complete p block_index_outside_series [OF p]] active
    obtain task where task: "task \<in> set live" "file_stem p = task_ulid task" by auto
    with parquet_file_of_stem [OF p] plain [OF task(1)]
    have "p = series_index_file_path location (task_ulid task)" by simp
    with task(1) show "p \<in> (\<lambda>task. series_index_file_path location (task_ulid task)) ` set live" by blast
  next
    fix p assume "p \<in> (\<lambda>task. series_index_file_path location (task_ulid task)) ` set live"
    then obtain task where task: "task \<in> set live" "p = series_index_file_path location (task_ulid task)" by blast
    with tables [OF task(1)] series_file_in_directory [OF plain [OF task(1)], of location]
    show "p \<in> parquet_files (wd_files w') ?directory" by (auto simp: parquet_files_def)
  qed
  with tables show ?thesis by (simp add: series_directory_right_def)
qed

text \<open>A successful build leaves every file alone that is not a block's or the table of blocks, or removes it.\<close>

lemma build_leaves_others:
  assumes run: "build_block_index io repository_for meta_schedule schedule repositories location materialize age w
      = Some (Inr schemas, w')"
    and truthful: "cache_truthful io location blocks w"
    and usable: "blocks_ok blocks" "plain_location location" "manifest_json_ok io"
    and known: "known_blocks io repository_for repositories \<subseteq> blocks"
    and orders: "\<And>xs. mset (meta_schedule xs) = mset xs" "\<And>ts. mset (schedule ts) = mset ts"
    and other: "\<And>task. task \<in> blocks \<Longrightarrow> p \<notin> block_files location (task_ulid task)" "p \<noteq> block_index_file_path location"
  shows "wd_files w' p = wd_files w p \<or> wd_files w' p = None"
  using run
proof (cases rule: build_block_index_cases)
  case (built mts results w1 w2 u bs w3)
  let ?ts = "schedule (build_tasks (meta_schedule results))"
  have tasks: "set ?ts \<subseteq> blocks" by (rule scheduled_known [OF built(1,2) known orders])
  have all: "usable_blocks io location blocks = blocks" using usable by (auto simp: usable_blocks_def)
  from reads_spec [OF built(2)] have w1: "wd_files w1 = wd_files w" by simp
  with truthful have "cache_truthful io location blocks w1" by (simp add: cache_truthful_def)
  then have "cache_truthful io location blocks w2"
    by (rule truthful_shrinks) (rule remove_chunk_shrinks [OF built(3)])
  then have "wd_files w3 p = wd_files w2 p"
    using builder.run_all_truthful [OF built(4), where blocks = blocks] tasks other(1)
    unfolding all cache_truthful_def by blast
  with publish_spec(1) [OF built(5) usable(2) other(2)] remove_chunk_shrinks [OF built(3), of p] w1 show ?thesis by auto
qed simp_all

end
