(* ===== verification/Block_Search_Facts.thy ===== *)
theory Block_Search_Facts
  imports Block_Directory_Facts Bootstrap_Facts Store_Service_Facts
begin

text \<open>
  Facts on searching what a build left: the rows of the series tables, what the query engine owes a directory
  of Parquet files, and that the search over them finds the series of the live blocks.
\<close>

section \<open>The rows of the series tables\<close>

text \<open>The rows of a table: the series of each and its JSON labels, on which the prefilter works.\<close>

definition table_texts :: "batch \<Rightarrow> string list" where
  "table_texts batch = (case column_by_name batch ''labels_json'' of Some (StringColumn ts) \<Rightarrow> ts | _ \<Rightarrow> [])"

definition table_rows :: "store_codec \<Rightarrow> batch list \<Rightarrow> (series_descriptor \<times> string) list option" where
  "table_rows codec batches =
     (case mapR (series_from_batch (sc_labels_from_json codec) (sc_chunks_from_json codec)) batches of
        Inl _ \<Rightarrow> None
      | Inr found \<Rightarrow> Some (zip (concat found) (concat (map table_texts batches))))"

text \<open>The series of a block, as the search knows them.\<close>

definition block_descriptors :: "index_outside \<Rightarrow> block_build_task \<Rightarrow> series_descriptor list" where
  "block_descriptors io task =
     (case indexed_series io task of
        None \<Rightarrow> []
      | Some es \<Rightarrow> map (descriptor_of (rc_uri (bb_repository task)) (bb_meta task) (bb_block_path task)) es)"

lemma table_texts_batch [simp]: "table_texts (series_batch rows) = map sr_labels_json rows"
  by (simp add: table_texts_def column_by_name_def batch_of_def series_schema_def series_columns_def plain_field_def)

lemma series_table_rows:
  assumes right: "series_table_right io task bs"
    and json: "json_agrees (io_codec io) (sc_labels_from_json codec) (sc_chunks_from_json codec)"
  obtains batches rows where "bs = io_parquet io series_schema batches" "table_rows codec batches = Some rows"
    "map fst rows = block_descriptors io task"
    "\<forall>(d, t) \<in> set rows. ix_labels_json (io_codec io) (sd_labels d) = Inr t"
proof -
  let ?uri = "rc_uri (bb_repository task)" and ?meta = "bb_meta task" and ?path = "bb_block_path task"
  obtain es groups where es: "indexed_series io task = Some es"
    and each: "list_all2 (\<lambda>e row. series_row (io_codec io) ?uri ?meta ?path e = Inr row) es (concat groups)"
    and bs: "bs = io_parquet io series_schema (map series_batch groups)"
    using right by (auto simp: series_table_right_def)
  obtain found where found: "mapR (series_from_batch (sc_labels_from_json codec) (sc_chunks_from_json codec))
      (map series_batch groups) = Inr found" "concat found = map (descriptor_of ?uri ?meta ?path) es"
    using series_tables_read_back [OF json each] by blast
  have texts: "concat (map table_texts (map series_batch groups)) = map sr_labels_json (concat groups)"
    by (simp add: map_concat o_def)
  let ?rows = "zip (map (descriptor_of ?uri ?meta ?path) es) (map sr_labels_json (concat groups))"
  have len: "length es = length (concat groups)" using each by (rule list_all2_lengthD)
  have rows: "table_rows codec (map series_batch groups) = Some ?rows"
    unfolding table_rows_def found(1) sum.case found(2) texts ..
  have "map fst ?rows = block_descriptors io task" by (simp add: block_descriptors_def es len)
  moreover have "ix_labels_json (io_codec io) (sd_labels d) = Inr t" if "(d, t) \<in> set ?rows" for d t
  proof -
    from that obtain i where i: "i < length es" "d = descriptor_of ?uri ?meta ?path (es ! i)"
      "t = sr_labels_json (concat groups ! i)"
      using len by (auto simp: set_zip)
    have "series_row (io_codec io) ?uri ?meta ?path (es ! i) = Inr (concat groups ! i)"
      using each i(1) by (simp add: list_all2_conv_all_nth)
    from series_row_Inr(5) [OF this] i show ?thesis by (simp add: descriptor_of_def)
  qed
  ultimately show thesis using that bs rows by blast
qed

section \<open>The query engine\<close>

text \<open>
  What the query engine owes a directory of Parquet files registered as the table of series: the query of a search
  is answered with the rows of all its files that pass the conditions, one file after the other in some order.
\<close>

definition engine_reads_directory ::
  "store_codec \<Rightarrow> (string \<Rightarrow> string \<Rightarrow> bool) \<Rightarrow> parquet \<Rightarrow> (string \<Rightarrow> bytes option) \<Rightarrow> string
   \<Rightarrow> int \<Rightarrow> int \<Rightarrow> string list \<Rightarrow> bool" where
  "engine_reads_directory codec like parquet files directory start end_time filters \<longleftrightarrow>
     (\<forall>paths tables rows. distinct paths \<and> set paths = parquet_files files directory
        \<and> list_all2 (\<lambda>p batches. files p = Some (parquet series_schema batches)) paths tables
        \<and> list_all2 (\<lambda>batches rs. table_rows codec batches = Some rs) tables rows
        \<longrightarrow> (\<exists>order. mset order = mset rows \<and> query_answered codec like (concat order) start end_time filters))"

text \<open>The JSON text of a label map has the JSON texts of a name and its value side by side.\<close>

definition json_fragments :: "index_codec \<Rightarrow> (string \<Rightarrow> string + string) \<Rightarrow> bool" where
  "json_fragments codec json_string \<longleftrightarrow>
     (\<forall>l t n v jn jv. ix_labels_json codec l = Inr t \<and> bt_get l n = Some v \<and> json_string n = Inr jn \<and> json_string v = Inr jv
        \<longrightarrow> sublist (jn @ '':'' @ jv) t)"

lemma reordered_map:
  "mset ys = mset (map f xs) \<Longrightarrow> \<exists>xs'. mset xs' = mset xs \<and> ys = map f xs'"
proof (induction ys arbitrary: xs)
  case Nil
  then show ?case by auto
next
  case (Cons y ys)
  then have "y \<in> f ` set xs" by (metis list.set_intros(1) list.set_map mset_eq_setD)
  then obtain x where x: "x \<in> set xs" "y = f x" by blast
  then have "mset xs = add_mset x (mset (remove1 x xs))" by simp
  then have "image_mset f (mset xs) = add_mset (f x) (image_mset f (mset (remove1 x xs)))"
    by (metis image_mset_add_mset)
  with Cons.prems x(2) have "mset ys = mset (map f (remove1 x xs))" by (simp del: mset_remove1)
  from Cons.IH [OF this] obtain xs' where "mset xs' = mset (remove1 x xs)" "ys = map f xs'" by blast
  with x show ?case by (intro exI [of _ "x # xs'"]) simp
qed

lemma search_finds_live_series:
  assumes right: "series_directory_right io location live files" and distinct: "distinct (map task_ulid live)"
    and plain: "\<And>task. task \<in> set live \<Longrightarrow> plain_ulid (task_ulid task)"
    and engine: "engine_reads_directory codec like (io_parquet io) files (series_index_directory_path location)
      start end_time filters"
    and json: "json_agrees (io_codec io) (sc_labels_from_json codec) (sc_chunks_from_json codec)"
    and fragments: "json_fragments (io_codec io) (sc_json_string codec)"
    and like: "like_finds_infix like" and ms: "no_backslash (sc_json_string codec) ms"
    and filters: "exact_label_filters (sc_json_string codec) ms = Inr filters"
  shows "\<exists>order. mset order = mset live \<and> matching_series codec start end_time ms
    = Inr (matching_series_reference (concat (map (block_descriptors io) order)) start end_time ms)"
proof -
  let ?path = "\<lambda>task. series_index_file_path location (task_ulid task)"
  have "\<forall>task \<in> set live. \<exists>tr. files (?path task) = Some (io_parquet io series_schema (fst tr))
      \<and> table_rows codec (fst tr) = Some (snd tr) \<and> map fst (snd tr) = block_descriptors io task
      \<and> (\<forall>(d, t) \<in> set (snd tr). ix_labels_json (io_codec io) (sd_labels d) = Inr t)"
  proof
    fix task assume "task \<in> set live"
    with right obtain bs where bs: "files (?path task) = Some bs" "series_table_right io task bs"
      by (auto simp: series_directory_right_def)
    obtain batches rows where "bs = io_parquet io series_schema batches" "table_rows codec batches = Some rows"
      "map fst rows = block_descriptors io task"
      "\<forall>(d, t) \<in> set rows. ix_labels_json (io_codec io) (sd_labels d) = Inr t"
      by (rule series_table_rows [OF bs(2) json])
    with bs(1) show "\<exists>tr. files (?path task) = Some (io_parquet io series_schema (fst tr))
      \<and> table_rows codec (fst tr) = Some (snd tr) \<and> map fst (snd tr) = block_descriptors io task
      \<and> (\<forall>(d, t) \<in> set (snd tr). ix_labels_json (io_codec io) (sd_labels d) = Inr t)"
      by (intro exI [of _ "(batches, rows)"]) auto
  qed
  from bchoice [OF this] obtain tr where tr: "\<And>task. task \<in> set live \<Longrightarrow>
      files (?path task) = Some (io_parquet io series_schema (fst (tr task)))
      \<and> table_rows codec (fst (tr task)) = Some (snd (tr task)) \<and> map fst (snd (tr task)) = block_descriptors io task
      \<and> (\<forall>(d, t) \<in> set (snd (tr task)). ix_labels_json (io_codec io) (sd_labels d) = Inr t)" by blast
  have "inj_on ?path (set live)"
  proof (rule inj_onI)
    fix s t assume s: "s \<in> set live" and t: "t \<in> set live" and same: "?path s = ?path t"
    have stem: "file_stem (?path u) = task_ulid u" if "u \<in> set live" for u
      by (rule series_file_in_directory(3) [OF plain [OF that]])
    have "task_ulid s = file_stem (?path s)" by (rule stem [OF s, symmetric])
    also have "\<dots> = file_stem (?path t)" by (rule arg_cong [OF same])
    also have "\<dots> = task_ulid t" by (rule stem [OF t])
    finally have "task_ulid s = task_ulid t" .
    moreover have "inj_on task_ulid (set live)" using distinct by (simp add: distinct_map)
    ultimately show "s = t" using s t by (metis inj_onD)
  qed
  then have "distinct (map ?path live)" using distinct by (simp add: distinct_map)
  moreover have "set (map ?path live) = parquet_files files (series_index_directory_path location)"
    using right by (simp add: series_directory_right_def)
  moreover have "list_all2 (\<lambda>p batches. files p = Some (io_parquet io series_schema batches)) (map ?path live) (map (fst \<circ> tr) live)"
    using tr by (simp add: list_all2_conv_all_nth)
  moreover have "list_all2 (\<lambda>batches rs. table_rows codec batches = Some rs) (map (fst \<circ> tr) live) (map (snd \<circ> tr) live)"
    using tr by (simp add: list_all2_conv_all_nth)
  ultimately obtain rows where rows: "mset rows = mset (map (snd \<circ> tr) live)"
    and query: "query_answered codec like (concat rows) start end_time filters"
    using engine unfolding engine_reads_directory_def by blast
  from reordered_map [OF rows] obtain order where order: "mset order = mset live" "rows = map (snd \<circ> tr) order" by blast
  have live: "task \<in> set live" if "task \<in> set order" for task using that mset_eq_setD [OF order(1)] by simp
  have texts: "ix_labels_json (io_codec io) (sd_labels d) = Inr t" if row: "(d, t) \<in> set (concat rows)" for d t
  proof -
    from row order(2) obtain task where task: "task \<in> set order" "(d, t) \<in> set (snd (tr task))" by auto
    with tr [OF live [OF task(1)]] show ?thesis by auto
  qed
  have "labels_text (sc_json_string codec) (concat rows)"
    using texts fragments unfolding labels_text_def json_fragments_def by blast
  from matching_series_exact [OF like this ms filters query]
  have "matching_series codec start end_time ms = Inr (matching_series_reference (map fst (concat rows)) start end_time ms)" .
  moreover have "map fst (concat rows) = concat (map (block_descriptors io) order)"
    unfolding order(2) map_concat map_map o_assoc [symmetric]
    by (rule arg_cong [where f = concat], rule map_cong [OF refl]) (use tr live in auto)
  ultimately show ?thesis using order(1) by auto
qed

end
