(* ===== verification/Block_Search_Props.thy ===== *)
theory Block_Search_Props
  imports Block_Search_Facts Bootstrap_Props Block_Pool_Ends
begin

text \<open>
  The properties of the series tables as they are searched: which of them a build leaves in the directory that
  is registered as the table of series, and what a search on a started server finds.
\<close>

section \<open>The directory of the series tables\<close>








section \<open>Searching a started server\<close>












end
