(* ===== verification/Block_Health_Facts.thy ===== *)
theory Block_Health_Facts
  imports Block_Pool_Ends Block_Directory_Facts
begin

text \<open>
  Facts on a build without failing calls: over blocks that can be indexed every task succeeds, so in every
  interleaving no task fails, none is stuck, and what is left of a build can be carried to its end.
\<close>

section \<open>Blocks that can be indexed\<close>

text \<open>The index of a block parses, its series have rows (and metric names for the chunk table), its row and manifest can be written.\<close>

definition series_indexable :: "index_outside \<Rightarrow> bool \<Rightarrow> block_build_task \<Rightarrow> index_series \<Rightarrow> bool" where
  "series_indexable io materialize task e \<longleftrightarrow>
     (\<exists>row. series_row (io_codec io) (rc_uri (bb_repository task)) (bb_meta task) (bb_block_path task) e = Inr row)
     \<and> (materialize \<longrightarrow> bt_get (is_labels e) ''__name__'' \<noteq> None)"

definition block_indexable :: "index_outside \<Rightarrow> bool \<Rightarrow> block_build_task \<Rightarrow> bool" where
  "block_indexable io materialize task \<longleftrightarrow>
     (\<exists>es row bs. indexed_series io task = Some es \<and> (\<forall>e \<in> set es. series_indexable io materialize task e)
        \<and> index_row (io_codec io) (bb_repository task) (bb_meta task) (bb_block_path task) (bb_meta_path task) = Inr row
        \<and> io_manifest_json io (cached_of row materialize (length es) (chunk_total es)
            (if materialize then fold (\<lambda>e. collect_metric_labels (tm_labels (me_thanos (bb_meta task))) [e]) es [] else []))
          = Inr bs)"

text \<open>The metadata of a listed block parses, when it is there and has no deletion mark.\<close>

definition meta_readable :: "index_outside \<Rightarrow> meta_read_task \<Rightarrow> bool" where
  "meta_readable io mt \<longleftrightarrow>
     (\<forall>bs. ev_objects (io_env io) (rp_name (mk_storage mt)) (deletion_mark_path (mk_block_path mt)) = None
        \<longrightarrow> ev_objects (io_env io) (rp_name (mk_storage mt)) (mk_meta_path mt) = Some bs
        \<longrightarrow> (\<exists>meta. ix_meta_from_json (io_codec io) bs = Inr meta))"

text \<open>The listing of a directory has each path once, and its regular files exist.\<close>

definition listings_sound :: "index_outside \<Rightarrow> bool" where
  "listings_sound io \<longleftrightarrow>
     (\<forall>d v. distinct (map fst (io_read_dir io d v)) \<and> (\<forall>p. (p, True) \<in> set (io_read_dir io d v) \<longrightarrow> wd_files v p \<noteq> None))"

section \<open>Every task succeeds alone\<close>

lemma healthy_meta:
  assumes "\<not> may_fail (io_env io)" and "meta_readable io mt"
  shows "\<exists>x w'. read_block_meta io None mt w = (Inr x, w')"
  using assms(2)
  by (auto simp: read_block_meta_def block_has_deletion_mark_def operator_exists_def repository_read_found_def
      outside_healthy [OF assms(1)] doW_def retW_def meta_readable_def deletion_mark_path_def block_is_older_than_def
      split: option.split sum.split)

lemma index_file_names:
  assumes "plain_location location" and "plain_ulid ulid"
  shows "has_file_name (local_path (series_index_file_path location ulid))"
    and "has_file_name (local_path (chunk_index_file_path location ulid))"
    and "parent_path (block_manifest_file_path location ulid) \<noteq> ''''"
proof -
  have plain: "CHR ''/'' \<notin> set (ulid @ ''.parquet'')" "CHR ''/'' \<notin> set (ulid @ ''.json'')"
    using assms(2) by (simp_all add: plain_ulid_def)
  have "file_name (d @ ''/'' @ ulid @ ''.parquet'') = ulid @ ''.parquet''" for d by (rule file_name_append [OF plain(1)])
  then show "has_file_name (local_path (series_index_file_path location ulid))"
    "has_file_name (local_path (chunk_index_file_path location ulid))"
    unfolding local_index_paths [OF assms] has_file_name_def unfolding index_paths [OF assms(2)]
    by (auto simp: append_eq_Cons_conv)
  have "\<not> starts_with ''/'' ''manifests''" by (simp add: starts_with_def strip_prefix_def)
  then have "join_path (local_path location) ''manifests'' \<noteq> ''''" using subdirectory_shape [of "''manifests''"] by simp
  moreover have "dropWhile (\<lambda>c. c \<noteq> CHR ''/'') (rev (d @ ''/'' @ ulid @ ''.json'')) = CHR ''/'' # rev d" for d
    using plain(2) by (simp, subst dropWhile_append2) auto
  ultimately show "parent_path (block_manifest_file_path location ulid) \<noteq> ''''"
    unfolding index_paths [OF assms(2)] parent_path_def by (simp split: list.split)
qed

lemma healthy_write_block:
  assumes healthy: "\<not> may_fail (io_env io)" and usable: "plain_location location" "plain_ulid (task_ulid task)"
    and parsed: "parse (io_crc io) index = Some (Inr es)" and es: "\<forall>e \<in> set es. series_indexable io materialize task e"
  shows "\<exists>w'. write_block io task location materialize index w = Some (Inr (length es, chunk_total es,
      if materialize then fold (\<lambda>e. collect_metric_labels (tm_labels (me_thanos (bb_meta task))) [e]) es [] else []), w')"
proof (cases materialize)
  case True
  note local = local_index_paths [OF usable] and names = index_file_names [OF usable]
  have apart: "paths_apart (local_path (chunk_index_file_path location (task_ulid task)))
      (local_path (series_index_file_path location (task_ulid task)))"
    unfolding local by (rule index_paths_apart [OF usable(2)])
  have "\<forall>e \<in> set es. both_rows_exist (io_codec io) (bb_repository task) (bb_meta task) (bb_block_path task) e"
    using es True by (simp add: series_indexable_def both_rows_exist_def)
  from both_writer_complete [OF healthy names(2,1) apart parsed this, of "io_parquet io" w]
  show ?thesis using True by (simp add: write_block_def task_ulid_def Let_def)
next
  case False
  have "\<forall>e \<in> set es. \<exists>row. series_row (io_codec io) (rc_uri (bb_repository task)) (bb_meta task) (bb_block_path task) e = Inr row"
    using es by (simp add: series_indexable_def)
  from series_writer_complete [OF healthy index_file_names(1) [OF usable] parsed this, of "io_parquet io" w]
  show ?thesis using False by (auto simp: write_block_def task_ulid_def Let_def)
qed

lemma healthy_manifest:
  assumes "\<not> may_fail (io_env io)" and "plain_location location" "plain_ulid ulid" and "io_manifest_json io cached = Inr bs"
  shows "\<exists>w'. write_block_manifest io location ulid cached w = (Inr (), w')"
  using index_file_names(3) [OF assms(2,3)] assms(4)
  by (simp add: write_block_manifest_def Let_def doW_def fs_create_dir_all_def fs_write_def fs_rename_def
      outside_healthy [OF assms(1)] retW_def)

lemma healthy_build:
  assumes healthy: "\<not> may_fail (io_env io)" and usable: "plain_location location" "plain_ulid (task_ulid task)"
    and indexable: "block_indexable io materialize task"
  shows "\<exists>built w'. build_or_reuse io location materialize task w = Some (Inr built, w')"
proof -
  obtain es row bs where es: "indexed_series io task = Some es" "\<forall>e \<in> set es. series_indexable io materialize task e"
    and row: "index_row (io_codec io) (bb_repository task) (bb_meta task) (bb_block_path task) (bb_meta_path task) = Inr row"
    and json: "io_manifest_json io (cached_of row materialize (length es) (chunk_total es)
        (if materialize then fold (\<lambda>e. collect_metric_labels (tm_labels (me_thanos (bb_meta task))) [e]) es [] else [])) = Inr bs"
    using indexable by (auto simp: block_indexable_def)
  obtain index where index: "ev_objects (io_env io) (rp_name (bb_storage task)) (bb_block_path task @ ''/index'') = Some index"
    and parsed: "parse (io_crc io) index = Some (Inr es)"
    using es(1) by (auto simp: indexed_series_def split: option.splits sum.splits)
  have built: "\<exists>built w'. build_chunk_index io task location materialize v = Some (Inr built, w')" for v
  proof -
    have read: "repository_read (io_env io) (bb_storage task) (bb_block_path task @ ''/index'') v
        = (Inr index, v\<lparr>wd_clock := wd_clock v + 1\<rparr>)"
      using index by (simp add: repository_read_def operator_read_all_def outside_healthy [OF healthy] retW_def)
    let ?counts = "(length es, chunk_total es,
      if materialize then fold (\<lambda>e. collect_metric_labels (tm_labels (me_thanos (bb_meta task))) [e]) es [] else [])"
    obtain v2 where written: "write_block io task location materialize index (v\<lparr>wd_clock := wd_clock v + 1\<rparr>) = Some (Inr ?counts, v2)"
      using healthy_write_block [OF healthy usable parsed es(2)] by blast
    obtain v3 where "write_block_manifest io location (task_ulid task) (cached_of row materialize (length es) (chunk_total es)
        (if materialize then fold (\<lambda>e. collect_metric_labels (tm_labels (me_thanos (bb_meta task))) [e]) es [] else [])) v2 = (Inr (), v3)"
      using healthy_manifest [OF healthy usable json] by blast
    then have "\<exists>built. finish_block io task location materialize ?counts v2 = (Inr built, v3)"
      unfolding finish_block_def prod.case row sum.case Let_def task_ulid_def by (simp add: doW_def retW_def)
    then obtain built where "finish_block io task location materialize ?counts v2 = (Inr built, v3)" by blast
    then show ?thesis
      unfolding build_chunk_index_def Let_def read prod.case sum.case written by (simp add: worker_result_def)
  qed
  have "\<exists>cached w1. load_cached_block_index io task location materialize w = (Inr cached, w1)"
    by (auto simp: load_cached_block_index_def Let_def doW_def fs_read_def outside_healthy [OF healthy] retW_def
        split: option.split sum.split)
  then obtain cached w1 where "load_cached_block_index io task location materialize w = (Inr cached, w1)" by blast
  with built [of w1] show ?thesis by (cases cached) (auto simp: build_or_reuse_def)
qed

section \<open>Cleaning and publishing succeed\<close>

lemma healthy_clean:
  assumes healthy: "\<not> may_fail (io_env io)" and sound: "listings_sound io" and stale: "\<And>p regular. stale p regular \<Longrightarrow> regular"
  shows "\<exists>w'. clean_directory io directory stale w = (Inr (), w')"
proof (cases "io_dir_exists io directory w")
  case True
  let ?w1 = "w\<lparr>wd_clock := wd_clock w + 1\<rparr>"
  let ?entries = "io_read_dir io directory ?w1"
  have listing: "distinct (map fst ?entries)" "\<And>p. (p, True) \<in> set ?entries \<Longrightarrow> wd_files ?w1 p \<noteq> None"
    using sound unfolding listings_sound_def by blast+
  have "\<forall>(p, r) \<in> set ?entries. stale p r \<longrightarrow> wd_files ?w1 p \<noteq> None"
    using listing(2) stale by fastforce
  from remove_entries_healthy [OF healthy listing(1) this] True show ?thesis
    by (auto simp: clean_directory_def doW_def outside_healthy [OF healthy] retW_def)
qed (simp add: clean_directory_def)

lemma healthy_drop_chunk_tables:
  assumes "\<not> may_fail (io_env io)" and "listings_sound io"
  shows "\<exists>w'. (if materialize then (Inr (), w) else remove_chunk_index_files io location w) = (Inr (), w')"
  using healthy_clean [OF assms, of legacy_chunk_file] by (auto simp: remove_chunk_index_files_def legacy_chunk_file_def)

lemma healthy_publish:
  assumes healthy: "\<not> may_fail (io_env io)" and sound: "listings_sound io" and loc: "plain_location location"
  shows "\<exists>schemas w'. publish io location active built w = (Inr schemas, w')"
proof -
  have clean: "\<exists>w'. cleanup_index_files io d active v = (Inr (), w')" for d v
    using healthy_clean [OF healthy sound, of "stale_index_file active"]
    by (simp add: cleanup_index_files_def stale_index_file_def)
  obtain w1 where w1: "cleanup_series_index_files io location active w = (Inr (), w1)"
    using clean unfolding cleanup_series_index_files_def by blast
  obtain w2 where w2: "cleanup_block_manifest_files io location active w1 = (Inr (), w2)"
    using clean unfolding cleanup_block_manifest_files_def by blast
  have relative: "\<not> starts_with ''/'' ''block_index.parquet''" by (simp add: starts_with_def strip_prefix_def)
  have "file_name (path_join d ''block_index.parquet'') = ''block_index.parquet''" for d by (rule file_name_join) simp
  then have "has_file_name (block_index_file_path location)"
    by (simp add: has_file_name_def block_index_file_path_def join_path_def relative)
  then have "\<exists>w3. write_local_file (io_env io) (block_index_file_path location) bs w2 = (Inr (), w3)" for bs
    using loc file_scheme_join [of "local_path location" "''block_index.parquet''" "[]"]
    by (simp add: write_local_file_def local_path_plain plain_location_def block_index_file_path_def Let_def doW_def
        fs_create_dir_all_def fs_write_def outside_healthy [OF healthy] retW_def)
  then obtain w3 where w3: "write_local_file (io_env io) (block_index_file_path location) (io_parquet io block_schema
      [batch_of block_schema (block_columns (sort_key row_key (map bx_row built))) (length built)]) w2 = (Inr (), w3)" by blast
  show ?thesis
    unfolding publish_def Let_def using w3 by (simp add: doW_def w1 w2 block_parquet_bytes_def block_record_batch_ok retW_def)
qed

section \<open>Processes that succeed\<close>

text \<open>
  What a process returns in the end satisfies \<open>Q\<close>, when every call is answered in some world that has its own
  files \<open>P\<close> as the calls before have left them.
\<close>

primrec comes_to :: "index_outside \<Rightarrow> string set \<Rightarrow> ('a \<Rightarrow> bool) \<Rightarrow> 'a process \<Rightarrow> files \<Rightarrow> bool" where
  "comes_to io P Q (Return x) = (\<lambda>files. Q x)"
| "comes_to io P Q Spin = (\<lambda>files. False)"
| "comes_to io P Q (Call c k) = (\<lambda>files. call_paths c \<subseteq> P \<and> c \<noteq> ReadClock
     \<and> (\<forall>w a w'. (\<forall>q \<in> P. wd_files w q = files q) \<longrightarrow> perform io c w = (a, w') \<longrightarrow> comes_to io P Q (k a) (wd_files w')))"

lemma perform_same:
  assumes "\<not> may_fail (io_env io)" and "call_paths c \<subseteq> P" and "c \<noteq> ReadClock" and "\<And>q. q \<in> P \<Longrightarrow> wd_files v q = wd_files w q"
    and "perform io c w = (a, w')" and "perform io c v = (b, v')"
  shows "b = a" and "q \<in> P \<Longrightarrow> wd_files v' q = wd_files w' q"
proof -
  have "b = a \<and> (\<forall>q \<in> P. wd_files v' q = wd_files w' q)"
    using assms(2-6)
    by (cases c) (auto simp: is_file_def answer_of_def fs_read_def fs_create_dir_all_def fs_write_def fs_rename_def
        fs_remove_file_def outside_healthy [OF assms(1)] retW_def failW_def split: option.splits)
  then show "b = a" and "q \<in> P \<Longrightarrow> wd_files v' q = wd_files w' q" by simp_all
qed

lemma run_same:
  assumes "\<not> may_fail (io_env io)"
  shows "stays P p \<Longrightarrow> (\<And>q. q \<in> P \<Longrightarrow> wd_files v q = wd_files w q) \<Longrightarrow> run_process io p w = Some (x, w')
    \<Longrightarrow> \<exists>v'. run_process io p v = Some (x, v')"
proof (induction p arbitrary: v w)
  case (Call c k)
  obtain a w1 b v1 where one: "perform io c w = (a, w1)" and two: "perform io c v = (b, v1)" by fastforce
  have c: "call_paths c \<subseteq> P" "c \<noteq> ReadClock" "stays P (k a)" using Call.prems(1) by auto
  note same = perform_same [OF assms c(1,2) Call.prems(2) one two]
  have "run_process io (k a) w1 = Some (x, w')" using Call.prems(3) one by simp
  from Call.IH [OF rangeI c(3) same(2) this] show ?case using two same(1) by simp
qed simp_all

lemma comes_toI:
  assumes healthy: "\<not> may_fail (io_env io)"
  shows "stays P p \<Longrightarrow> (\<And>w. (\<And>q. q \<in> P \<Longrightarrow> wd_files w q = files q) \<Longrightarrow> \<exists>x w'. run_process io p w = Some (x, w') \<and> Q x)
    \<Longrightarrow> comes_to io P Q p files"
proof (induction p arbitrary: files)
  case (Return x)
  obtain w :: world where "wd_files w = files" using run_in_world by blast
  with Return.prems(2) [of w] show ?case by simp
next
  case Spin
  obtain w :: world where "wd_files w = files" using run_in_world by blast
  with Spin.prems(2) [of w] show ?case by simp
next
  case (Call c k)
  have "comes_to io P Q (k a) (wd_files w')" if w: "\<And>q. q \<in> P \<Longrightarrow> wd_files w q = files q" and call: "perform io c w = (a, w')" for w a w'
  proof (rule Call.IH [OF rangeI])
    show stays: "stays P (k a)" using Call.prems(1) by simp
    from Call.prems(2) [OF w] call obtain x w2 where x: "run_process io (k a) w' = Some (x, w2)" "Q x" by auto
    show "\<exists>x w2. run_process io (k a) v = Some (x, w2) \<and> Q x" if "\<And>q. q \<in> P \<Longrightarrow> wd_files v q = wd_files w' q" for v
      using run_same [OF healthy stays that x(1)] x(2) by blast
  qed
  moreover have "call_paths c \<subseteq> P" "c \<noteq> ReadClock" using Call.prems(1) by auto
  ultimately show ?case unfolding comes_to.simps by blast
qed

definition succeeds :: "string fault + 'a \<Rightarrow> bool" where
  "succeeds r \<longleftrightarrow> (\<exists>x. r = Inr x)"

lemma comes_to_pool:
  assumes "\<And>t u. t \<in> tasks \<Longrightarrow> u \<in> tasks \<Longrightarrow> t \<noteq> u \<Longrightarrow> own t \<inter> own u = {}"
  shows "task_pool io (\<lambda>t. comes_to io (own t) Q) own tasks"
proof unfold_locales
  fix t c k w a w' q
  assume holds: "comes_to io (own t) Q (Call c k) (wd_files w)" and call: "perform io c w = (a, w')"
  then show "comes_to io (own t) Q (k a) (wd_files w')" by auto
  assume "q \<notin> own t"
  with perform_local [OF call, of "own t" "wd_files w"] holds show "wd_files w' q = wd_files w q" by auto
next
  fix t p files files'
  assume "comes_to io (own t) Q p files" and "\<And>q. q \<in> own t \<Longrightarrow> files' q = files q"
  then show "comes_to io (own t) Q p files'" by (cases p) auto
qed (rule assms)

section \<open>Pools of tasks that succeed\<close>

context task_pool
begin

lemma step_no_error:
  assumes step: "pool_step io limit work ev (pool, w) = (pool', w')" and holds: "pool_holds pool (wd_files w)"
    and succeed: "\<And>t e files. \<not> holds t (Return (Inl e)) files" and error: "pl_error pool = None"
  shows "pl_error pool' = None"
proof (cases ev)
  case Begin
  with step have "pool' = pool_begin limit work pool" by simp
  with error show ?thesis by (auto simp: pool_begin_def split: list.split)
next
  case (Turn i)
  with step have "pool_turn io i (pool, w) = (pool', w')" by simp
  then show ?thesis
  proof (cases rule: pool_turn_cases)
    case (ends t r)
    have "(t, Return r) \<in> set (pl_running pool)" using ends(1,2) by (metis nth_mem)
    then have "holds t (Return r) (wd_files w)" using holds by (auto simp: pool_holds_def)
    with succeed obtain x where "r = Inr x" by (cases r) blast+
    with ends(3) error show ?thesis by (simp add: hand_over_def)
  qed (use error in simp_all)
qed

lemma carried_to_end:
  assumes "0 < limit" and succeed: "\<And>t e files. \<not> holds t (Return (Inl e)) files" "\<And>t files. \<not> holds t Spin files"
  shows "pool_holds pool (wd_files w) \<Longrightarrow> pl_error pool = None \<Longrightarrow>
    \<exists>events pool' w' xs. fold (pool_step io limit work) events (pool, w) = (pool', w')
      \<and> pool_outcome pool' = Some (Inr xs) \<and> (pool_outcome pool \<noteq> None \<longrightarrow> events = [])"
proof (induction "pool_rank pool" arbitrary: pool w rule: wf_induct_rule [OF wf_rank_less])
  case 1
  show ?case
  proof (cases "pool_outcome pool")
    case (Some r)
    with 1(3) have "\<exists>xs. pool_outcome pool = Some (Inr xs)" by (auto simp: pool_outcome_def split: if_splits)
    then show ?thesis by (intro exI [of _ "[]"]) auto
  next
    case None
    have "\<exists>ev. pool_step io limit work ev (pool, w) \<noteq> (pool, w)"
    proof (rule ccontr)
      assume "\<not> ?thesis"
      then have stuck: "\<And>ev. pool_step io limit work ev (pool, w) = (pool, w)" by blast
      obtain t p where "(t, p) \<in> set (pl_running pool)"
        using stuck_spins(1) [OF assms(1) None stuck] by (cases "pl_running pool") auto
      moreover from this have "p = Spin" by (rule stuck_spins(2) [OF assms(1) None stuck])
      ultimately show False using 1(2) succeed(2) by (auto simp: pool_holds_def)
    qed
    then obtain ev pool1 w1 where step: "pool_step io limit work ev (pool, w) = (pool1, w1)" "(pool1, w1) \<noteq> (pool, w)"
      by (metis surj_pair)
    with pool_step_rank [OF step(1)] have less: "(pool_rank pool1, pool_rank pool) \<in> rank_less" by blast
    have "pool_holds pool1 (wd_files w1)" using step_holds [OF step(1) 1(2)] by simp
    moreover have "pl_error pool1 = None" by (rule step_no_error [OF step(1) 1(2) succeed(1) 1(3)])
    ultimately obtain events pool' w' xs where "fold (pool_step io limit work) events (pool1, w1) = (pool', w')"
      "pool_outcome pool' = Some (Inr xs)" using 1(1) [OF less] by blast
    with step(1) None show ?thesis by (intro exI [of _ "ev # events"]) auto
  qed
qed

lemma run_carried_to_end:
  assumes run: "run_pool io limit work ts events w = (pool, w')" and ts: "distinct ts" "set ts \<subseteq> tasks"
    and start: "\<And>t. t \<in> tasks \<Longrightarrow> holds t (work t) (wd_files w)" and limit: "0 < limit"
    and succeed: "\<And>t e files. \<not> holds t (Return (Inl e)) files" "\<And>t files. \<not> holds t Spin files"
  shows "\<exists>events' pool' w'' xs. run_pool io limit work ts (events @ events') w = (pool', w'')
      \<and> pool_outcome pool' = Some (Inr xs) \<and> (pool_outcome pool \<noteq> None \<longrightarrow> events' = [])"
proof -
  have "pl_error (fst (fold (pool_step io limit work) events s)) = None"
    if "pool_holds (fst s) (wd_files (snd s))" "pl_error (fst s) = None" for s
    using that
  proof (induction events arbitrary: s)
    case (Cons ev events)
    obtain pool1 w1 where step: "pool_step io limit work ev (fst s, snd s) = (pool1, w1)" by fastforce
    from step_holds [OF this Cons.prems(1)] step_no_error [OF this Cons.prems(1) succeed(1) Cons.prems(2)]
      Cons.IH [of "(pool1, w1)"] step show ?case by simp
  qed simp
  moreover have "pool_holds (pool_start ts) (wd_files w)"
    using ts start by (auto simp: pool_holds_def pool_start_def pool_names_def)
  ultimately have "pl_error pool = None" using run by (force simp: run_pool_def pool_start_def)
  from carried_to_end [OF limit succeed run_holds(1) [OF run ts start] this] obtain events' pool' w'' xs where
    "fold (pool_step io limit work) events' (pool, w') = (pool', w'')" "pool_outcome pool' = Some (Inr xs)"
    "pool_outcome pool \<noteq> None \<longrightarrow> events' = []" by blast
  with run show ?thesis by (intro exI [of _ events'] exI [of _ pool']) (simp add: run_pool_def)
qed

end

section \<open>The whole build\<close>

lemma succeeds_return: "\<not> comes_to io P succeeds (Return (Inl e)) files"
  by (simp add: succeeds_def)

lemma succeeds_spin: "\<not> comes_to io P Q Spin files"
  by simp

lemma meta_stays: "stays {} (read_block_meta_calls io None mt)"
  by (auto simp: read_block_meta_calls_def doP_def ask_def split: option.split sum.split)

lemma meta_comes:
  assumes "\<not> may_fail (io_env io)" and "meta_readable io mt"
  shows "comes_to io {} succeeds (read_block_meta_calls io None mt) files"
proof (rule comes_toI [OF assms(1) meta_stays])
  fix w show "\<exists>x w'. run_process io (read_block_meta_calls io None mt) w = Some (x, w') \<and> succeeds x"
    using healthy_meta [OF assms, of w] by (auto simp: run_read_block_meta succeeds_def)
qed

lemma build_comes:
  assumes "\<not> may_fail (io_env io)" and "plain_location location" "plain_ulid (task_ulid task)" and "block_indexable io materialize task"
  shows "comes_to io (block_files location (task_ulid task)) succeeds (build_or_reuse_calls io location materialize task) files"
proof (rule comes_toI [OF assms(1) stays_build_or_reuse(1) [OF assms(2,3)]])
  fix w show "\<exists>x w'. run_process io (build_or_reuse_calls io location materialize task) w = Some (x, w') \<and> succeeds x"
    using healthy_build [OF assms, of w] by (auto simp: run_build_or_reuse succeeds_def)
qed

text \<open>Readable metadata, and the indexable blocks of a set with distinct ids.\<close>

interpretation healthy_metas: task_pool io "read_block_meta_calls io None" "\<lambda>mt. comes_to io {} succeeds" "\<lambda>mt. {}"
  "{mt. meta_readable io mt}" for io
  by (rule comes_to_pool) simp

interpretation healthy_builds: task_pool io "build_or_reuse_calls io location materialize"
  "\<lambda>task. comes_to io (block_files location (task_ulid task)) succeeds" "\<lambda>task. block_files location (task_ulid task)"
  "{task \<in> blocks. blocks_ok blocks \<and> block_indexable io materialize task}" for io location materialize blocks
proof (rule comes_to_pool)
  fix t u
  assume "t \<in> {task \<in> blocks. blocks_ok blocks \<and> block_indexable io materialize task}"
    "u \<in> {task \<in> blocks. blocks_ok blocks \<and> block_indexable io materialize task}" "t \<noteq> u"
  then show "block_files location (task_ulid t) \<inter> block_files location (task_ulid u) = {}"
    by (intro block_files_apart) (auto simp: blocks_ok_def inj_on_def)
qed

lemma healthy_carried_to_end:
  assumes run: "build_block_index_concurrently io repository_for m n meta_events build_events repositories location
      materialize None w = (outcome, w')"
    and healthy: "\<not> may_fail (io_env io)" and sound: "listings_sound io"
    and usable: "blocks_ok blocks" "plain_location location"
    and limits: "0 < m" "0 < n"
    and listed: "discover io repository_for repositories = Inr mts" "distinct mts" "\<forall>mt \<in> set mts. meta_readable io mt"
    and known: "known_blocks io repository_for repositories \<subseteq> blocks" and indexable: "\<forall>task \<in> blocks. block_indexable io materialize task"
  shows "\<exists>meta_events' build_events' schemas w''. build_block_index_concurrently io repository_for m n (meta_events @ meta_events')
      (build_events @ build_events') repositories location materialize None w = (Some (Inr schemas), w'')
    \<and> (outcome \<noteq> None \<longrightarrow> meta_events' = [] \<and> build_events' = [])"
proof -
  let ?metas = "run_pool io m (read_block_meta_calls io None) mts"
  obtain pool1 w1 where first: "?metas meta_events w = (pool1, w1)" by fastforce
  have "set mts \<subseteq> {mt. meta_readable io mt}" using listed(3) by blast
  from healthy_metas.run_carried_to_end [OF first listed(2) this _ limits(1)] meta_comes [OF healthy] succeeds_return succeeds_spin
  obtain me pool2 w2 results where second: "?metas (meta_events @ me) w = (pool2, w2)" "pool_outcome pool2 = Some (Inr results)"
    and me: "pool_outcome pool1 \<noteq> None \<longrightarrow> me = []" by blast
  obtain mts' where mts': "mset mts' = mset mts" "list_all2 (meta_right io None) mts' results"
    using pool_reads_spec(2) [OF second(1) listed(2) second(2)] by blast
  note tasks = set_build_tasks_known [OF listed(1) mts' listed(2)]
  obtain w3 where clean: "(if materialize then (Inr (), w2) else remove_chunk_index_files io location w2) = (Inr (), w3)"
    using healthy_drop_chunk_tables [OF healthy sound] by blast
  let ?builds = "run_pool io n (build_or_reuse_calls io location materialize) (build_tasks results)"
  obtain pool3 w4 where third: "?builds build_events w3 = (pool3, w4)" by fastforce
  have sub: "set (build_tasks results) \<subseteq> {task \<in> blocks. blocks_ok blocks \<and> block_indexable io materialize task}"
    using tasks(2) known indexable usable(1) by blast
  have comes: "comes_to io (block_files location (task_ulid task)) succeeds (build_or_reuse_calls io location materialize task) files"
    if "task \<in> {task \<in> blocks. blocks_ok blocks \<and> block_indexable io materialize task}" for task files
    using that by (intro build_comes [OF healthy usable(2)]) (auto simp: blocks_ok_def)
  from healthy_builds.run_carried_to_end [where blocks = blocks and location = location,
      OF third tasks(1) sub comes limits(2) succeeds_return succeeds_spin]
  obtain be pool4 w5 built where fourth: "?builds (build_events @ be) w3 = (pool4, w5)" "pool_outcome pool4 = Some (Inr built)"
    and be: "pool_outcome pool3 \<noteq> None \<longrightarrow> be = []" by blast
  obtain schemas w6 where published: "publish io location (bs_of_list (map (\<lambda>t. me_ulid (bb_meta t)) (build_tasks results))) built w5
    = (Inr schemas, w6)" using healthy_publish [OF healthy sound usable(2)] by blast
  have done_: "build_block_index_concurrently io repository_for m n (meta_events @ me) (build_events @ be)
      repositories location materialize None w = (Some (Inr schemas), w6)"
    using second clean fourth published by (simp add: build_block_index_concurrently_def listed(1) Let_def)
  have "me = [] \<and> be = []" if outcome: "outcome \<noteq> None"
  proof -
    have one: "pool_outcome pool1 \<noteq> None"
    proof (cases "pool_outcome pool1")
      case None
      with run outcome first show ?thesis by (simp add: build_block_index_concurrently_def listed(1))
    qed simp
    with me first second(1) have same: "pool2 = pool1" "w2 = w1" "me = []" by simp_all
    have "pool_outcome pool3 \<noteq> None"
    proof (cases "pool_outcome pool3")
      case None
      with run outcome first second(2) clean third show ?thesis
        unfolding same by (simp add: build_block_index_concurrently_def listed(1) Let_def)
    qed simp
    with be same(3) show ?thesis by simp
  qed
  with done_ show ?thesis by blast
qed

end
