(* ===== verification/Block_Health_Props.thy ===== *)
theory Block_Health_Props
  imports Block_Health_Facts Block_Example
begin

text \<open>
  The property of the concurrent build in an environment without failing calls: however far it has come, it
  can be carried on to success.
\<close>






end
