(* ===== verification/Spec2Isabelle.thy ===== *)
theory Spec2Isabelle
  imports Tsdb_Index_Props Chunk_Reader_Props Config_Props Storage_Props Metric_Table_Props Store_Service_Props Block_Index_Props
    Flight_Service_Props Bootstrap_Props
    Cache_Flights_Props Metric_Plan_Props Block_Twin_Props Block_Pool_Props Block_Search_Props Block_Health_Props
begin

text \<open>
  A verification development for the Thanos block reader of \<open>src/thanos-v1-reader\<close>: a service that indexes the
  TSDB blocks of object stores in Parquet tables and answers SQL over Arrow Flight and the Thanos StoreAPI.

  \<^bold>\<open>The program.\<close>  At start \<open>lib.rs\<close> (\<open>run\<close>) loads the configuration (\<open>config.rs\<close>), opens the
  repositories with their page cache (\<open>storage/mod.rs\<close>) and builds the block index (\<open>block_index.rs\<close>): it
  lists every \<open>meta.json\<close>, reads it, and builds, or reuses from the cache directory, the tables of each
  block, parsing the block's index file with \<open>tsdb_index.rs\<close>.  The tables are registered in a DataFusion
  session together with one table per metric (\<open>metric_table.rs\<close>), whose scans prune chunks by their
  descriptors and decode the others with \<open>chunk_reader.rs\<close>.  \<open>flight_service.rs\<close> runs SQL statements;
  \<open>store_service.rs\<close> answers the calls Series, LabelNames, LabelValues and Info from the table of series.

  \<^bold>\<open>Theories.\<close>  Each component has a theory of definitions, one or more \<open>_Facts\<close> theories of lemmas and a
  \<open>_Props\<close> theory with its properties and their witnesses.

  \<^item> \<open>Prelude\<close>, \<open>Varint\<close>, \<open>Rust_Text\<close>, \<open>Float64\<close>: results with the question-mark operator (\<open>tryR\<close>), checked
    64-bit arithmetic, slices, \<open>BTreeMap\<close> as sorted lists under the locale \<open>ordered_map\<close>, LEB128 numbers,
    \<open>trim\<close>, decimal and UTF-8 text, and the two floating-point operations the program needs, on the bits of
    an \<open>f64\<close>.
  \<^item> \<open>Tsdb_Index\<close> is \<open>tsdb_index.rs\<close>.  Its series loop is a \<open>partial_function\<close>, since it may not end;
    \<open>Tsdb_Index_Facts\<close> relates it to the inductive \<open>loop_run\<close> and to the states the loop reaches.
    \<open>Tsdb_Index_File\<close> is a reference encoder of whole index files.  The properties say when parsing ends, what
    the series it returns satisfy, that each was checksummed, when it panics, and that it reverses the encoder.
  \<^item> \<open>Chunk_Reader\<close> is \<open>chunk_reader.rs\<close> over the locale \<open>range_reader\<close> (\<open>Range_Reader\<close>), the trait
    \<open>RangeReader\<close>; \<open>Repository_Facts\<close> interprets it with the reads of a repository.
  \<^item> \<open>Config\<close> is \<open>config.rs\<close>: the structures, defaults, sizes and \<open>validate\<close>, which is shown to be the
    declarative \<open>config_ok\<close>.
  \<^item> \<open>Range_Cache\<close> and \<open>Repository\<close> are \<open>storage/mod.rs\<close>.  A \<open>world\<close> holds the cache state, the local files
    and a clock that counts outside calls; an \<open>env\<close> says which of these calls fails and what the object
    store holds, so a property quantified over \<open>env\<close> covers every pattern of failures.  The properties: reads
    through the cache are exact whatever fails, eviction order and sizes, the registry.  \<open>Repository_Facts\<close>
    also shows that opening the cache walks the whole tree of its directory and removes just the temporary files.
  \<^item> \<open>Cache_Flights\<close> is the page cache under concurrent readers: a state machine whose events are the arrival
    and cancellation of a request and one step of a reader or of a shared fetch (\<open>flights\<close>), over files with
    names and inodes.  \<open>Cache_Flights_Facts\<close> has the invariant of its reachable states and a rank that every
    step of a fetch lowers; \<open>Cache_Lone_Facts\<close> shows that the machine does what the operations of
    \<open>Range_Cache\<close> do when one reader runs alone.  The properties: answers are exact in every interleaving,
    no reader is stuck, and a run, without any failing call, in which a fetch is not shared and a read fails.
  \<^item> \<open>Arrow_Data\<close>, \<open>Metric_Table\<close> and \<open>Metric_Plan\<close> are the record batches and \<open>metric_table.rs\<close>; a scan is
    shown to return exactly the samples that pass its filters, and its plan the same rows over any partitions.
  \<^item> \<open>Store_Service\<close> is \<open>store_service.rs\<close>; a Series call is shown to refine a declarative answer, with the
    locale \<open>chunk_answers\<close> for what is asked of the chunk reads.
  \<^item> \<open>Block_Rows\<close>, \<open>Block_Batches\<close>, \<open>Block_Files\<close> and \<open>Block_Index\<close> are \<open>block_index.rs\<close>: rows and metric
    labels, schemas and columns, the streaming writers with their temporary files, and discovery, manifests,
    reuse, clean-up and publication.  \<open>Block_Cache_Facts\<close> states what the worker of a block must keep as the
    locale \<open>block_worker\<close> and interprets it with \<open>build_or_reuse\<close>; \<open>Block_Publish_Facts\<close> proves the two
    results on a whole build, and \<open>Block_Example\<close> is a small repository with one block, on which the
    witnesses run it.  \<open>Block_Twin_Props\<close> shows what two blocks with one id do to each other.
  \<^item> \<open>Block_Calls\<close> and \<open>Block_Pool\<close> are the same build with its concurrency: each task is a \<open>process\<close>, a
    program cut at its outside calls, and \<open>buffer_unordered\<close> is a pool in which the events \<open>Begin\<close>, \<open>Turn\<close>
    and hand-over pick who goes on; a run is a list of events, and one that stops in between is a process
    that was killed there.  \<open>Block_Calls_Facts\<close> shows that a process run alone is the operation of
    \<open>Block_Index\<close> or \<open>Block_Files\<close> it stands for; \<open>Block_Alone_Facts\<close> and \<open>Block_Pool_Facts\<close> replay a
    task of an interleaved run alone, under the locale \<open>task_pool\<close>: tasks keep their hands off each other's
    files.  It is interpreted with the metadata reads (\<open>metas\<close>) and the block builds (\<open>builds\<close>).
    \<open>Block_Index_Runs\<close> has the two passes of a whole build, \<open>Block_Pool_Ends\<close> shows that the order one after
    the other is one of the interleavings and what a run without an outcome is waiting for.
  \<^item> \<open>Block_Directory_Facts\<close> follows the directory of the series tables, which the session registers as a whole,
    through the clean-up; \<open>Block_Search_Facts\<close> reads its rows back and says what the query engine owes such a
    directory.  \<open>Block_Search_Props\<close> puts the parts together: after a successful build the directory holds exactly
    the tables of the live blocks, and a search on a started server finds exactly their series.
  \<^item> \<open>Block_Health_Facts\<close> says what a block must be to be indexed and shows that, without failing calls, its
    build then succeeds from wherever it is; \<open>Block_Health_Props\<close> lifts this to the concurrent build: a run
    without an outcome can be carried on to success, and one with an outcome has succeeded.
  \<^item> \<open>Flight_Service\<close> is \<open>flight_service.rs\<close>; \<open>Bootstrap\<close> is \<open>lib.rs\<close> up to the point where it serves,
    with the order of its effects; \<open>Bootstrap_Props\<close> composes the index, the registration and the StoreAPI.

  \<^bold>\<open>Parameters.\<close>  Code outside the repository is an argument: CRC-32C, SHA-256, XXH64, the XOR decoder of
  rusty_chunkenc, TOML, JSON, regular expressions, Parquet, the SQL engine and its catalog, the listing of
  OpenDAL, the directories the operating system has, humantime, the clock.  Where a property needs a law of one of them (what the JSON writer writes
  reads back, a registered table is found) it is a named hypothesis, and the witness instantiates it.

  \<^bold>\<open>Bounds.\<close>  No fuel is used: loops are structural, have a measure, or are the \<open>partial_function\<close> above.
  Batches hold \<open>INDEX_BATCH_SIZE\<close> rows, as in the code.  In \<open>Block_Index\<close> the concurrent tasks (metadata reads, block builds) run one after
  the other in an order that is a parameter; in \<open>Block_Pool\<close> they take turns call by call.  The properties
  hold for every order and every interleaving, and rest on the tasks touching different files (distinct
  block ids).

  \<^bold>\<open>Failures.\<close>  A call of the file system or the object store fails or does all it does: a failed one changes
  nothing, a write that is interrupted is not seen half done, and a build is killed between two calls.  The
  order in which a crashed machine writes its files to the disk is not modelled.

  \<^bold>\<open>Not modelled.\<close>  The tracing exporter, serving the metrics and the gRPC server loop of \<open>lib.rs\<close>; the
  names and text of plans (\<open>DisplayAs\<close>, \<open>Debug\<close>); the generated protobuf types (\<open>thanos_proto.rs\<close>); the
  tests, the benchmark and the harness of the whole service; the block generator in Go.
\<close>

end
